(* ===== verification/Ock_Prelude.thy ===== *)
theory Ock_Prelude
  imports Main "HOL-Library.Word" "HOL-Library.Monad_Syntax"
begin

text \<open>
  Shared vocabulary of the development: the C integer types the sources use, the PKCS\#11
  return codes (\<^verbatim>\<open>usr/include/pkcs11types.h\<close>) that the modelled operations
  return, and generic facts on the option monad and on lists.

  Conventions used by every component:
  \<^item> undefined behaviour of C (a NULL dereference, a read of unallocated memory) is the
    value \<^term>\<open>None\<close> of an option type, so a theorem that an operation yields
    \<^term>\<open>Some\<close> is a theorem that it does not crash;
  \<^item> what the operating system decides (whether \<open>malloc\<close> succeeds, whether a pthread
    lock can be taken) is an argument of the operation, one per call;
  \<^item> trace output is not modelled.
\<close>

type_synonym byte = "8 word"
type_synonym u32 = "32 word"
type_synonym u64 = "64 word"

text \<open>The return codes of the modelled operations.\<close>

datatype ck_rv =
    CKR_OK
  | CKR_HOST_MEMORY
  | CKR_FUNCTION_FAILED
  | CKR_CANT_LOCK
  | CKR_SESSION_HANDLE_INVALID
  | CKR_KEY_SIZE_RANGE
  | CKR_KEY_TYPE_INCONSISTENT
  | CKR_ATTRIBUTE_VALUE_INVALID
  | CKR_ATTRIBUTE_TYPE_INVALID
  | CKR_TEMPLATE_INCOMPLETE
  | CKR_ARGUMENTS_BAD
  | CKR_BUFFER_TOO_SMALL
  | CKR_DATA_INVALID
  | CKR_DATA_LEN_RANGE
  | CKR_ENCRYPTED_DATA_INVALID
  | CKR_SIGNATURE_INVALID
  | CKR_MECHANISM_INVALID
  | CKR_MECHANISM_PARAM_INVALID
  | CKR_ATTRIBUTE_READ_ONLY
  | CKR_ATTRIBUTE_SENSITIVE
  | CKR_USER_NOT_LOGGED_IN
  | CKR_DOMAIN_PARAMS_INVALID
  | CKR_TEMPLATE_INCONSISTENT

section \<open>Operations that may be undefined or fail\<close>

text \<open>
  The result of an operation that returns a \<^verbatim>\<open>CK_RV\<close> and sets its outputs only on success:
  \<^term>\<open>None\<close> is undefined behaviour, a left value the error returned. \<open>ck_bind\<close> is the idiom
  \<^verbatim>\<open>rc = f(...); if (rc != CKR_OK) return rc;\<close>.
\<close>

type_synonym 'a ck = "(ck_rv + 'a) option"

abbreviation ck_ok :: "'a \<Rightarrow> 'a ck" where "ck_ok x \<equiv> Some (Inr x)"
abbreviation ck_fail :: "ck_rv \<Rightarrow> 'a ck" where "ck_fail e \<equiv> Some (Inl e)"

definition ck_bind :: "'a ck \<Rightarrow> ('a \<Rightarrow> 'b ck) \<Rightarrow> 'b ck" where
  "ck_bind m f = (case m of None \<Rightarrow> None | Some (Inl e) \<Rightarrow> ck_fail e | Some (Inr x) \<Rightarrow> f x)"

lemma ck_bind_simps [simp]:
  "ck_bind None f = None"
  "ck_bind (ck_fail e) f = ck_fail e"
  "ck_bind (ck_ok x) f = f x"
  by (simp_all add: ck_bind_def)

lemma ck_bind_ok_iff: "ck_bind m f = ck_ok y \<longleftrightarrow> (\<exists>x. m = ck_ok x \<and> f x = ck_ok y)"
  by (cases m rule: option.exhaust) (auto simp: ck_bind_def split: sum.splits)

lemma ck_bind_defined:
  "m \<noteq> None \<Longrightarrow> (\<And>x. m = ck_ok x \<Longrightarrow> f x \<noteq> None) \<Longrightarrow> ck_bind m f \<noteq> None"
  by (auto simp: ck_bind_def split: option.splits sum.splits)

text \<open>An operation without undefined behaviour whose result, if it succeeds, satisfies \<open>P\<close>.\<close>

definition ck_safe :: "'a ck \<Rightarrow> ('a \<Rightarrow> bool) \<Rightarrow> bool" where
  "ck_safe m P \<longleftrightarrow> m \<noteq> None \<and> (\<forall>x. m = ck_ok x \<longrightarrow> P x)"

lemma ck_safe_simps [simp]: "ck_safe (ck_ok x) P \<longleftrightarrow> P x" "ck_safe (ck_fail e) P" "\<not> ck_safe None P"
  by (simp_all add: ck_safe_def)

lemma ck_safe_bind:
  "ck_safe m P \<Longrightarrow> (\<And>x. P x \<Longrightarrow> ck_safe (f x) Q) \<Longrightarrow> ck_safe (ck_bind m f) Q"
  by (auto simp: ck_safe_def ck_bind_def split: option.splits sum.splits)

lemma ck_safe_bind_ok:
  "ck_safe m P \<Longrightarrow> (\<And>x. m = ck_ok x \<Longrightarrow> P x \<Longrightarrow> ck_safe (f x) Q) \<Longrightarrow> ck_safe (ck_bind m f) Q"
  by (auto simp: ck_safe_def ck_bind_def split: option.splits sum.splits)

lemma ck_safe_weaken: "ck_safe m P \<Longrightarrow> (\<And>x. P x \<Longrightarrow> Q x) \<Longrightarrow> ck_safe m Q"
  by (auto simp: ck_safe_def)

lemma ck_safe_defined: "ck_safe m P \<Longrightarrow> m \<noteq> None"
  by (simp add: ck_safe_def)

section \<open>Maps\<close>

lemma ran_remove_inj:
  assumes "m i = Some x" "\<And>j. m j = Some x \<Longrightarrow> j = i"
  shows "ran (m(i := None)) = ran m - {x}"
proof (intro set_eqI iffI)
  fix y assume "y \<in> ran (m(i := None))"
  then obtain j where "j \<noteq> i" "m j = Some y" by (auto simp: ran_def split: if_splits)
  with assms(2) show "y \<in> ran m - {x}" by (auto intro: ranI)
next
  fix y assume "y \<in> ran m - {x}"
  then obtain j where "m j = Some y" "y \<noteq> x" by (auto simp: ran_def)
  with assms(1) have "(m(i := None)) j = Some y" by auto
  then show "y \<in> ran (m(i := None))" by (rule ranI)
qed

section \<open>Byte buffers\<close>

text \<open>
  Memory a pointer refers to is a list of bytes; a write or a read that does not lie inside
  it is undefined.
\<close>

definition put_bytes :: "byte list \<Rightarrow> nat \<Rightarrow> byte list \<Rightarrow> byte list option" where
  "put_bytes buf off bs =
     (if off + length bs \<le> length buf then Some (take off buf @ bs @ drop (off + length bs) buf) else None)"

definition get_bytes :: "byte list \<Rightarrow> nat \<Rightarrow> nat \<Rightarrow> byte list option" where
  "get_bytes buf off n = (if off + n \<le> length buf then Some (take n (drop off buf)) else None)"

definition peek :: "byte list \<Rightarrow> nat \<Rightarrow> byte option" where
  "peek m i = (if i < length m then Some (m ! i) else None)"

lemma peek_simps [simp]:
  "peek (b # m) 0 = Some b"
  "peek (b # m) (Suc i) = peek m i"
  "peek (b # m) (numeral k) = peek m (pred_numeral k)"
  by (simp_all add: peek_def)

lemma peek_inside: "i < length m \<Longrightarrow> peek m i = Some (m ! i)"
  by (simp add: peek_def)

lemma put_bytes_append:
  assumes "length xs = off" "length bs \<le> length ys"
  shows "put_bytes (xs @ ys) off bs = Some (xs @ bs @ drop (length bs) ys)"
  using assms by (auto simp: put_bytes_def)

lemma put_bytes_0: "length bs \<le> length ys \<Longrightarrow> put_bytes ys 0 bs = Some (bs @ drop (length bs) ys)"
  by (simp add: put_bytes_def)

lemma put_bytes_length: "put_bytes buf off bs = Some buf' \<Longrightarrow> length buf' = length buf"
  by (auto simp: put_bytes_def split: if_splits)

lemma put_bytes_fits:
  "off + length bs \<le> length buf \<Longrightarrow> \<exists>buf'. put_bytes buf off bs = Some buf' \<and> length buf' = length buf"
  by (simp add: put_bytes_def)

lemma put_bytes_outside:
  assumes "put_bytes buf off bs = Some buf'" "i < off \<or> off + length bs \<le> i" "i < length buf"
  shows "buf' ! i = buf ! i"
  using assms by (auto simp: put_bytes_def nth_append split: if_splits)

lemma get_put_bytes: "put_bytes buf off bs = Some buf' \<Longrightarrow> get_bytes buf' off (length bs) = Some bs"
  by (auto simp: put_bytes_def get_bytes_def split: if_splits)

lemma get_bytes_append:
  assumes "length xs = off" "length bs = n"
  shows "get_bytes (xs @ bs @ ys) off n = Some bs"
  using assms by (auto simp: get_bytes_def)

lemma get_bytes_length: "get_bytes buf off n = Some bs \<Longrightarrow> length bs = n"
  by (auto simp: get_bytes_def split: if_splits)

section \<open>Little-endian numbers\<close>

definition u32le :: "u32 \<Rightarrow> byte list" where
  "u32le v = [ucast v, ucast (drop_bit 8 v), ucast (drop_bit 16 v), ucast (drop_bit 24 v)]"

fun le_u32 :: "byte list \<Rightarrow> u32" where
  "le_u32 [b0, b1, b2, b3] =
     or (or (or (ucast b0) (push_bit 8 (ucast b1))) (push_bit 16 (ucast b2))) (push_bit 24 (ucast b3))"
| "le_u32 _ = 0"

lemma length_u32le [simp]: "length (u32le v) = 4"
  by (simp add: u32le_def)

lemma le_u32_u32le [simp]: "le_u32 (u32le v) = v"
  unfolding u32le_def le_u32.simps
proof (rule bit_word_eqI)
  fix n assume "n < LENGTH(32)"
  then consider "n < 8" | "8 \<le> n" "n < 16" | "16 \<le> n" "n < 24" | "24 \<le> n" "n < 32" by fastforce
  then show "bit (or (or (or (ucast (ucast v :: byte)) (push_bit 8 (ucast (ucast (drop_bit 8 v) :: byte))))
      (push_bit 16 (ucast (ucast (drop_bit 16 v) :: byte)))) (push_bit 24 (ucast (ucast (drop_bit 24 v) :: byte))) :: u32) n
      = bit v n"
    by cases (auto simp: bit_simps)
qed

section \<open>Numbers in the byte order of the host\<close>

definition host32 :: "bool \<Rightarrow> u32 \<Rightarrow> byte list" where
  "host32 big_endian v = (if big_endian then rev (u32le v) else u32le v)"

definition get_host32 :: "bool \<Rightarrow> byte list \<Rightarrow> u32" where
  "get_host32 big_endian bs = le_u32 (if big_endian then rev bs else bs)"

definition u64le :: "u64 \<Rightarrow> byte list" where
  "u64le v = u32le (ucast v) @ u32le (ucast (drop_bit 32 v))"

definition le_u64 :: "byte list \<Rightarrow> u64" where
  "le_u64 bs = or (ucast (le_u32 (take 4 bs))) (push_bit 32 (ucast (le_u32 (drop 4 bs))))"

definition host64 :: "bool \<Rightarrow> u64 \<Rightarrow> byte list" where
  "host64 big_endian v = (if big_endian then rev (u64le v) else u64le v)"

definition get_host64 :: "bool \<Rightarrow> byte list \<Rightarrow> u64" where
  "get_host64 big_endian bs = le_u64 (if big_endian then rev bs else bs)"

lemma length_host [simp]: "length (host32 be v) = 4" "length (u64le w) = 8" "length (host64 be w) = 8"
  by (simp_all add: host32_def u64le_def host64_def)

lemma host32_not_Nil [simp]: "host32 be v \<noteq> []"
  using length_host(1) [of be v] by fastforce

lemma get_host32_host32 [simp]: "get_host32 be (host32 be v) = v"
  by (simp add: get_host32_def host32_def)

lemma le_u64_u64le [simp]: "le_u64 (u64le v) = v"
proof -
  have "or (ucast (ucast v :: u32)) (push_bit 32 (ucast (ucast (drop_bit 32 v) :: u32))) = v"
    by (rule bit_word_eqI) (auto simp: bit_simps)
  then show ?thesis by (simp add: le_u64_def u64le_def)
qed

lemma get_host64_host64 [simp]: "get_host64 be (host64 be v) = v"
  by (simp add: get_host64_def host64_def)

section \<open>Allocations\<close>

text \<open>
  Where the number of allocations depends on the data, the outcomes of the successive calls of
  \<^verbatim>\<open>malloc\<close> are a list that the operation consumes; calls beyond its end succeed.
\<close>

type_synonym allocs = "bool list"

fun ck_malloc :: "allocs \<Rightarrow> allocs ck" where
  "ck_malloc [] = ck_ok []"
| "ck_malloc (got # al) = (if got then ck_ok al else ck_fail CKR_HOST_MEMORY)"

lemma ck_malloc_cases: "ck_malloc al = ck_ok (tl al) \<or> ck_malloc al = ck_fail CKR_HOST_MEMORY"
  by (cases al) auto

lemma ck_bind_cong [fundef_cong]:
  "m = m' \<Longrightarrow> (\<And>x. m' = ck_ok x \<Longrightarrow> f x = f' x) \<Longrightarrow> ck_bind m f = ck_bind m' f'"
  by (auto simp: ck_bind_def split: option.splits sum.splits)

end
