(* ===== verification/Btree.thy ===== *)
theory Btree
  imports Ock_Prelude
begin

text \<open>
  The binary tree of \<^verbatim>\<open>usr/lib/common/btree.c\<close>, which maps handles (node numbers)
  to reference-counted values: sessions, session objects, token objects and the object map
  are all kept in such trees. The model is at the level of pointers: \<^verbatim>\<open>struct btnode\<close>s
  live in a memory \<open>nodes\<close>, the free list is threaded through the \<^verbatim>\<open>value\<close> pointers of
  freed nodes as in the code, and every dereference of a NULL or unallocated pointer is
  the result \<^term>\<open>None\<close>. Each tree carries its own mutex, and each operation holds it
  from start to end, so one operation is one atomic step; \<open>bt_put_node_value\<close> takes no lock
  but decrements the counter atomically.
\<close>

section \<open>Data\<close>

type_synonym addr = nat
type_synonym vptr = nat

text \<open>A \<^verbatim>\<open>void *\<close>: NULL, a \<^verbatim>\<open>struct btnode\<close>, or a value of the caller.\<close>

datatype ptr = Null | ToNode addr | ToValue vptr

record btnode =
  left :: "addr option"
  right :: "addr option"
  parent :: "addr option"
  free_flag :: bool
  node_value :: ptr

text \<open>
  \<^verbatim>\<open>struct btree\<close> together with the memory it reaches: \<open>nodes\<close> holds the allocated
  nodes, \<open>ref\<close> the reference counters of the values (\<^verbatim>\<open>struct bt_ref_hdr\<close>), and
  \<open>deleted\<close> lists the values the delete callback has been called on, in order. A value
  on that list has been freed, so touching it again is undefined behaviour.
  \<open>delete_func\<close> says whether a callback is installed.
\<close>

record btree =
  top :: "addr option"
  bt_size :: nat
  free_list :: ptr
  free_nodes :: nat
  delete_func :: bool
  nodes :: "addr \<Rightarrow> btnode option"
  ref :: "vptr \<Rightarrow> nat"
  deleted :: "vptr list"

definition deref :: "(addr \<Rightarrow> btnode option) \<Rightarrow> addr option \<Rightarrow> btnode option" where
  "deref ns p = (case p of None \<Rightarrow> None | Some a \<Rightarrow> ns a)"

definition BT_ULONG_MAX :: nat where
  "BT_ULONG_MAX = 2 ^ 64 - 1"

text \<open>\<^verbatim>\<open>x--\<close> on an unsigned long.\<close>

definition bt_dec :: "nat \<Rightarrow> nat" where
  "bt_dec n = (if n = 0 then BT_ULONG_MAX else n - 1)"

section \<open>Operations\<close>

text \<open>
  The loop \<^verbatim>\<open>while (i != 1)\<close> of \<^verbatim>\<open>__bt_get_node\<close> and \<^verbatim>\<open>bt_destroy\<close>: bits of the node
  number from the least significant one choose left or right. (On 0 the loop would not end.)
\<close>

fun bt_descend :: "(addr \<Rightarrow> btnode option) \<Rightarrow> addr option \<Rightarrow> nat \<Rightarrow> addr option option" where
  "bt_descend ns p i =
     (if i = 1 then Some p
      else if i = 0 then None
      else do {
        n \<leftarrow> deref ns p;
        bt_descend ns (if odd i then right n else left n) (i div 2)
      })"

declare bt_descend.simps [simp del]

text \<open>\<^verbatim>\<open>__bt_get_node\<close>: the node with that number, NULL if there is none or it is free.\<close>

definition bt_get_node_locked :: "btree \<Rightarrow> nat \<Rightarrow> addr option option" where
  "bt_get_node_locked t node_num =
     (if node_num = 0 \<or> node_num > bt_size t then Some None
      else do {
        temp \<leftarrow> (if node_num = 1 then Some (top t) else bt_descend (nodes t) (top t) node_num);
        n \<leftarrow> deref (nodes t) temp;
        Some (if free_flag n then None else temp)
      })"

definition bt_get_node :: "bool \<Rightarrow> btree \<Rightarrow> nat \<Rightarrow> addr option option" where
  "bt_get_node lock_ok t node_num =
     (if \<not> lock_ok then Some None else bt_get_node_locked t node_num)"

text \<open>The header of a value is read or written: undefined once the value is freed.\<close>

definition value_hdr :: "btree \<Rightarrow> ptr \<Rightarrow> vptr option" where
  "value_hdr t v =
     (case v of ToValue x \<Rightarrow> if x \<in> set (deleted t) then None else Some x | _ \<Rightarrow> None)"

definition bt_get_node_value :: "bool \<Rightarrow> btree \<Rightarrow> nat \<Rightarrow> (btree \<times> ptr) option" where
  "bt_get_node_value lock_ok t node_num =
     (if \<not> lock_ok then Some (t, Null)
      else do {
        n \<leftarrow> bt_get_node_locked t node_num;
        v \<leftarrow> (case n of None \<Rightarrow> Some Null | Some a \<Rightarrow> map_option node_value (nodes t a));
        if v \<noteq> Null
        then do {
          x \<leftarrow> value_hdr t v;
          Some (t\<lparr>ref := (ref t)(x := ref t x + 1)\<rparr>, v)
        }
        else Some (t, v)
      })"

definition bt_put_node_value :: "btree \<Rightarrow> ptr \<Rightarrow> (btree \<times> bool) option" where
  "bt_put_node_value t v =
     (if v = Null then Some (t, False)
      else do {
        x \<leftarrow> value_hdr t v;
        let r = (if ref t x > 0 then ref t x - 1 else 0);
        let t = t\<lparr>ref := (ref t)(x := r)\<rparr>;
        if r = 0 \<and> delete_func t
        then Some (t\<lparr>deleted := deleted t @ [x]\<rparr>, True)
        else Some (t, False)
      })"

definition node_create :: "addr option \<Rightarrow> ptr \<Rightarrow> btnode" where
  "node_create parent_ptr v =
     \<lparr>left = None, right = None, parent = parent_ptr, free_flag = False, node_value = v\<rparr>"

text \<open>The recursion ends at the root; on a cyclic memory it would not return (\<^term>\<open>None\<close>).\<close>

partial_function (option) get_node_handle ::
  "(addr \<Rightarrow> btnode option) \<Rightarrow> addr \<Rightarrow> nat \<Rightarrow> nat option" where
  "get_node_handle ns a handle_so_far =
     Option.bind (ns a) (\<lambda>n.
       case parent n of
         None \<Rightarrow> Some handle_so_far
       | Some p \<Rightarrow> Option.bind (ns p) (\<lambda>pn.
           if left pn = Some a then get_node_handle ns p (2 * handle_so_far)
           else get_node_handle ns p (2 * handle_so_far + 1)))"

text \<open>
  The loop of \<^verbatim>\<open>bt_node_add\<close> that walks down to the place of the new node and attaches it.
  The argument \<open>m\<close> is the result of \<^verbatim>\<open>malloc\<close>; the value \<open>Some None\<close> is the early
  return after a failed allocation.
\<close>

fun bt_attach :: "(addr \<Rightarrow> btnode option) \<Rightarrow> addr \<Rightarrow> nat \<Rightarrow> addr option \<Rightarrow> ptr
    \<Rightarrow> (addr \<Rightarrow> btnode option) option option" where
  "bt_attach ns a i m v =
     (if i = 1 then Some (Some ns)
      else if i = 0 then None
      else do {
        n \<leftarrow> ns a;
        if odd i
        then (case right n of
                None \<Rightarrow> (case m of
                    None \<Rightarrow> Some None
                  | Some b \<Rightarrow> Some (Some (ns(b \<mapsto> node_create (Some a) v, a \<mapsto> n\<lparr>right := Some b\<rparr>))))
              | Some c \<Rightarrow> bt_attach ns c (i div 2) m v)
        else (case left n of
                None \<Rightarrow> (case m of
                    None \<Rightarrow> Some None
                  | Some b \<Rightarrow> Some (Some (ns(b \<mapsto> node_create (Some a) v, a \<mapsto> n\<lparr>left := Some b\<rparr>))))
              | Some c \<Rightarrow> bt_attach ns c (i div 2) m v)
      })"

declare bt_attach.simps [simp del]

text \<open>
  \<^verbatim>\<open>bt_node_add\<close>: the root is created first, then nodes of the free list are reused, and
  only then is a new node attached. The result is the handle, 0 for failure. Note that the
  first branch writes \<^verbatim>\<open>t->size\<close> before the allocation is known to have succeeded.
\<close>

definition bt_node_add :: "bool \<Rightarrow> addr option \<Rightarrow> btree \<Rightarrow> ptr \<Rightarrow> (btree \<times> nat) option" where
  "bt_node_add lock_ok m t v =
     (if \<not> lock_ok then Some (t, 0)
      else do {
        x \<leftarrow> value_hdr t v;
        let t = t\<lparr>ref := (ref t)(x := 1)\<rparr>;
        case top t of
          None \<Rightarrow>
            (let t = t\<lparr>bt_size := 1\<rparr>
             in case m of
                  None \<Rightarrow> Some (t, 0)
                | Some b \<Rightarrow>
                    Some (t\<lparr>nodes := (nodes t)(b \<mapsto> node_create None v), top := Some b\<rparr>, 1))
        | Some temp \<Rightarrow>
            if free_list t \<noteq> Null
            then (case free_list t of
                    ToNode a \<Rightarrow> do {
                      n \<leftarrow> nodes t a;
                      let t = t\<lparr>free_list := node_value n,
                                nodes := (nodes t)(a \<mapsto> n\<lparr>node_value := v, free_flag := False\<rparr>),
                                free_nodes := bt_dec (free_nodes t)\<rparr>;
                      h \<leftarrow> get_node_handle (nodes t) a 1;
                      Some (t, h)
                    }
                  | _ \<Rightarrow> None)
            else do {
              res \<leftarrow> bt_attach (nodes t) temp (bt_size t + 1) m v;
              case res of
                None \<Rightarrow> Some (t, 0)
              | Some ns \<Rightarrow> Some (t\<lparr>nodes := ns, bt_size := bt_size t + 1\<rparr>, bt_size t + 1)
            }
      })"

definition bt_node_free :: "bool \<Rightarrow> btree \<Rightarrow> nat \<Rightarrow> bool \<Rightarrow> (btree \<times> ptr) option" where
  "bt_node_free lock_ok t node_num put_value =
     (if \<not> lock_ok then Some (t, Null)
      else do {
        node \<leftarrow> bt_get_node_locked t node_num;
        case node of
          None \<Rightarrow> Some (t, Null)
        | Some a \<Rightarrow> do {
            n \<leftarrow> nodes t a;
            let v = node_value n;
            let t = t\<lparr>nodes := (nodes t)(a \<mapsto> n\<lparr>free_flag := True, node_value := free_list t\<rparr>),
                      free_list := ToNode a,
                      free_nodes := free_nodes t + 1\<rparr>;
            if v \<noteq> Null \<and> put_value
            then do { (t, _) \<leftarrow> bt_put_node_value t v; Some (t, v) }
            else Some (t, v)
          }
      })"

definition bt_is_empty :: "bool \<Rightarrow> btree \<Rightarrow> bool" where
  "bt_is_empty lock_ok t = (if \<not> lock_ok then False else free_nodes t = bt_size t)"

definition bt_nodes_in_use :: "bool \<Rightarrow> btree \<Rightarrow> nat" where
  "bt_nodes_in_use lock_ok t =
     (if \<not> lock_ok then BT_ULONG_MAX
      else if free_nodes t \<le> bt_size t then bt_size t - free_nodes t
      else bt_size t + (BT_ULONG_MAX + 1) - free_nodes t)"

text \<open>
  \<^verbatim>\<open>bt_for_each_node\<close>. The tree is a part of the caller's state \<open>s\<close>, read by \<open>get\<close> and
  written by \<open>put\<close>; the callback works on that state and may itself use the tree. The bound
  \<^verbatim>\<open>t->size + 1\<close> is read again in every round, so a callback that keeps adding nodes would
  keep the loop running.
\<close>

partial_function (option) bt_for_each_from ::
  "bool \<Rightarrow> ('s \<Rightarrow> btree) \<Rightarrow> (btree \<Rightarrow> 's \<Rightarrow> 's) \<Rightarrow> (ptr \<Rightarrow> nat \<Rightarrow> 's \<Rightarrow> 's option)
    \<Rightarrow> nat \<Rightarrow> 's \<Rightarrow> 's option" where
  "bt_for_each_from lock_ok get put func i s =
     (if \<not> i < bt_size (get s) + 1 then Some s
      else Option.bind (bt_get_node_value lock_ok (get s) i) (\<lambda>(t, v).
        let s = put t s in
        if v \<noteq> Null
        then Option.bind (func v i s) (\<lambda>s.
             Option.bind (bt_put_node_value (get s) v) (\<lambda>(t, _).
               bt_for_each_from lock_ok get put func (Suc i) (put t s)))
        else bt_for_each_from lock_ok get put func (Suc i) s))"

definition bt_for_each_node ::
  "bool \<Rightarrow> ('s \<Rightarrow> btree) \<Rightarrow> (btree \<Rightarrow> 's \<Rightarrow> 's) \<Rightarrow> (ptr \<Rightarrow> nat \<Rightarrow> 's \<Rightarrow> 's option)
    \<Rightarrow> 's \<Rightarrow> 's option" where
  "bt_for_each_node lock_ok get put func s = bt_for_each_from lock_ok get put func 1 s"

text \<open>
  \<^verbatim>\<open>bt_destroy\<close> walks the nodes from the largest number down; the first argument is
  \<^verbatim>\<open>t->size\<close>. Live values go to the delete callback whatever their reference counter says.
\<close>

fun bt_destroy_loop :: "nat \<Rightarrow> btree \<Rightarrow> btree option" where
  "bt_destroy_loop 0 t = Some t"
| "bt_destroy_loop (Suc j) t = do {
     p \<leftarrow> bt_descend (nodes t) (top t) (Suc j);
     a \<leftarrow> p;
     n \<leftarrow> nodes t a;
     t \<leftarrow> (if delete_func t \<and> \<not> free_flag n
          then do { x \<leftarrow> value_hdr t (node_value n); Some (t\<lparr>deleted := deleted t @ [x]\<rparr>) }
          else Some t);
     bt_destroy_loop j (t\<lparr>nodes := (nodes t)(a := None), bt_size := j\<rparr>)
   }"

definition bt_destroy :: "bool \<Rightarrow> btree \<Rightarrow> btree option" where
  "bt_destroy lock_ok t =
     (if \<not> lock_ok then Some t
      else do {
        t \<leftarrow> bt_destroy_loop (bt_size t) t;
        Some (t\<lparr>top := None, free_list := Null, free_nodes := 0, delete_func := False\<rparr>)
      })"

text \<open>
  \<^verbatim>\<open>bt_init\<close>: the fields are set first; each of the three pthread calls may fail. The
  memory argument is what the process holds before.
\<close>

definition bt_init :: "bool \<Rightarrow> bool \<Rightarrow> bool \<Rightarrow> bool \<Rightarrow> btree \<Rightarrow> btree \<times> ck_rv" where
  "bt_init attr_ok type_ok mutex_ok df t =
     (let t = t\<lparr>free_list := Null, top := None, bt_size := 0, free_nodes := 0, delete_func := df\<rparr>
      in if \<not> attr_ok then (t, CKR_CANT_LOCK)
         else if \<not> type_ok then (t, CKR_CANT_LOCK)
         else if \<not> mutex_ok then (t, CKR_CANT_LOCK)
         else (t, CKR_OK))"

end
