(* ===== verification/Btree_Shape.thy ===== *)
theory Btree_Shape
  imports Btree
begin

text \<open>
  The tree of \<^verbatim>\<open>btree.c\<close> as a numbered shape: which number sits where, what descending to a
  number and reading a number off the parent pointers give, and how attaching a node, freeing
  one and using a freed one again change the shape and the free list.
\<close>

section \<open>Shape of the tree\<close>

text \<open>
  Node \<open>2^k + r\<close> with \<open>r < 2^k\<close> lies at depth \<open>k\<close>; \<open>bt_kid k r c\<close> is the number of its
  left or right child. The function \<open>f\<close> gives the address of each number.
\<close>

lemma pow2_pos [simp]: "1 \<le> 2 ^ k + (r::nat)"
  by (simp add: Suc_leI)

lemma pow2_decomp_exists:
  assumes "1 \<le> (i::nat)"
  obtains k r where "i = 2 ^ k + r" "r < 2 ^ k"
proof -
  have "\<exists>k r. i = 2 ^ k + r \<and> r < 2 ^ k" using assms
  proof (induction i rule: nat_induct_at_least)
    case base
    show ?case by (intro exI [of _ 0] exI [of _ 0]) simp
  next
    case (Suc i)
    then obtain k r where kr: "i = 2 ^ k + r" "r < 2 ^ k" by blast
    show ?case
    proof (cases "Suc r < 2 ^ k")
      case True
      with kr show ?thesis by (intro exI [of _ k] exI [of _ "Suc r"]) simp
    next
      case False
      with kr have "Suc i = 2 ^ Suc k + 0" by simp
      then show ?thesis by (intro exI [of _ "Suc k"] exI [of _ 0]) simp
    qed
  qed
  then show ?thesis using that by blast
qed

lemma pow2_decomp_unique:
  assumes "2 ^ k + r = 2 ^ l + (q::nat)" "r < 2 ^ k" "q < 2 ^ l"
  shows "k = l \<and> r = q"
proof -
  have "\<not> k < l"
  proof
    assume "k < l"
    then have "(2::nat) * 2 ^ k \<le> 2 ^ l"
      by (metis Suc_leI power_Suc power_increasing one_le_numeral)
    with assms show False by linarith
  qed
  moreover have "\<not> l < k"
  proof
    assume "l < k"
    then have "(2::nat) * 2 ^ l \<le> 2 ^ k"
      by (metis Suc_leI power_Suc power_increasing one_le_numeral)
    with assms show False by linarith
  qed
  ultimately show ?thesis using assms(1) by simp
qed

definition bt_kid :: "nat \<Rightarrow> nat \<Rightarrow> bool \<Rightarrow> nat" where
  "bt_kid k r is_right = 2 ^ Suc k + (if is_right then 2 ^ k + r else r)"

definition bt_child :: "btnode \<Rightarrow> bool \<Rightarrow> addr option" where
  "bt_child n is_right = (if is_right then right n else left n)"

lemma bt_kid_unique:
  assumes "bt_kid k r c = bt_kid l q d" "r < 2 ^ k" "q < 2 ^ l"
  shows "k = l \<and> r = q \<and> c = d"
proof -
  have "(if c then 2 ^ k + r else r) < 2 ^ Suc k" "(if d then 2 ^ l + q else q) < 2 ^ Suc l"
    using assms(2,3) by auto
  from pow2_decomp_unique [OF assms(1) [unfolded bt_kid_def] this]
  have "k = l" "(if c then 2 ^ k + r else r) = (if d then 2 ^ l + q else q)" by auto
  with assms(2,3) show ?thesis by (auto split: if_splits)
qed

lemma bt_kid_gt: "2 ^ k + r < bt_kid k r c"
  by (simp add: bt_kid_def)

lemma bt_kid_pos [simp]: "1 \<le> bt_kid k r c" "bt_kid k r c \<noteq> Suc 0" "bt_kid k r c \<noteq> 0"
  using bt_kid_gt [of k r c] pow2_pos [of k r] by linarith+

lemma bt_kid_exists:
  assumes "2 \<le> i"
  obtains k r c where "i = bt_kid k r c" "r < 2 ^ k"
proof -
  have "1 \<le> i" using assms by simp
  then obtain K R where KR: "i = 2 ^ K + R" "R < 2 ^ K" by (rule pow2_decomp_exists)
  then obtain k where K: "K = Suc k" using assms by (cases K) auto
  show ?thesis
  proof (cases "R < 2 ^ k")
    case True
    with KR K show ?thesis by (intro that [of k R False]) (auto simp: bt_kid_def)
  next
    case False
    with KR K show ?thesis by (intro that [of k "R - 2 ^ k" True]) (auto simp: bt_kid_def)
  qed
qed

definition bt_links :: "nat \<Rightarrow> (addr \<Rightarrow> btnode option) \<Rightarrow> (nat \<Rightarrow> addr) \<Rightarrow> bool" where
  "bt_links sz ns f \<longleftrightarrow>
     (\<forall>k r n c. r < 2 ^ k \<longrightarrow> 2 ^ k + r \<le> sz \<longrightarrow> ns (f (2 ^ k + r)) = Some n \<longrightarrow>
        bt_child n c = (if bt_kid k r c \<le> sz then Some (f (bt_kid k r c)) else None)) \<and>
     (\<forall>n. 1 \<le> sz \<longrightarrow> ns (f 1) = Some n \<longrightarrow> parent n = None) \<and>
     (\<forall>k r n c. r < 2 ^ k \<longrightarrow> bt_kid k r c \<le> sz \<longrightarrow> ns (f (bt_kid k r c)) = Some n \<longrightarrow>
        parent n = Some (f (2 ^ k + r)))"

definition bt_shape :: "nat \<Rightarrow> (addr \<Rightarrow> btnode option) \<Rightarrow> addr option \<Rightarrow> (nat \<Rightarrow> addr) \<Rightarrow> bool" where
  "bt_shape sz ns tp f \<longleftrightarrow>
     dom ns = f ` {1..sz} \<and> inj_on f {1..sz} \<and>
     tp = (if sz = 0 then None else Some (f 1)) \<and> bt_links sz ns f"

lemma bt_shape_node:
  assumes "bt_shape sz ns tp f" "1 \<le> i" "i \<le> sz"
  obtains n where "ns (f i) = Some n"
proof -
  have "f i \<in> dom ns" using assms by (simp add: bt_shape_def)
  then show ?thesis using that by blast
qed

lemma bt_shape_inj:
  assumes "bt_shape sz ns tp f" "1 \<le> i" "i \<le> sz" "1 \<le> j" "j \<le> sz"
  shows "f i = f j \<longleftrightarrow> i = j"
proof -
  have "inj_on f {1..sz}" using assms(1) unfolding bt_shape_def by blast
  then show ?thesis using assms(2-) by (simp add: inj_on_eq_iff)
qed

lemma bt_shape_child:
  assumes "bt_shape sz ns tp f" "r < 2 ^ k" "2 ^ k + r \<le> sz" "ns (f (2 ^ k + r)) = Some n"
  shows "bt_child n c = (if bt_kid k r c \<le> sz then Some (f (bt_kid k r c)) else None)"
  using assms unfolding bt_shape_def bt_links_def by blast

lemma bt_shape_parent:
  assumes "bt_shape sz ns tp f" "r < 2 ^ k" "bt_kid k r c \<le> sz" "ns (f (bt_kid k r c)) = Some n"
  shows "parent n = Some (f (2 ^ k + r))"
  using assms unfolding bt_shape_def bt_links_def by blast

lemma bt_shape_root:
  assumes "bt_shape sz ns tp f" "1 \<le> sz" "ns (f 1) = Some n"
  shows "parent n = None"
  using assms unfolding bt_shape_def bt_links_def by blast

text \<open>One step down: the remaining bits of the number move from \<open>i\<close> into the node.\<close>

lemma bt_kid_step:
  assumes "r < 2 ^ k"
  obtains R where "bt_kid k r (odd i) = 2 ^ Suc k + R" "R < 2 ^ Suc k"
    "i div 2 * 2 ^ Suc k + R = i * 2 ^ k + r"
proof -
  let ?R = "if odd i then 2 ^ k + r else r"
  have "i div 2 * 2 ^ Suc k + ?R = i * 2 ^ k + r"
  proof (cases "odd i")
    case True
    then obtain j where "i = 2 * j + 1" by (elim oddE)
    then show ?thesis by (simp add: algebra_simps)
  next
    case False
    then obtain j where "i = 2 * j" by auto
    then show ?thesis by simp
  qed
  with assms show ?thesis by (intro that [of ?R]) (auto simp: bt_kid_def)
qed

text \<open>
  What descending to a number up to \<open>sz\<close> needs: the nodes up to \<open>sz\<close> are allocated and the
  child pointers to them are right. This also holds in the middle of \<open>bt_destroy\<close>, where
  the pointers to nodes above \<open>sz\<close> already dangle.
\<close>

definition bt_down :: "nat \<Rightarrow> (addr \<Rightarrow> btnode option) \<Rightarrow> (nat \<Rightarrow> addr) \<Rightarrow> bool" where
  "bt_down sz ns f \<longleftrightarrow>
     f ` {1..sz} \<subseteq> dom ns \<and>
     (\<forall>k r n c. r < 2 ^ k \<longrightarrow> bt_kid k r c \<le> sz \<longrightarrow> ns (f (2 ^ k + r)) = Some n \<longrightarrow>
        bt_child n c = Some (f (bt_kid k r c)))"

lemma bt_shape_down:
  assumes "bt_shape sz ns tp f"
  shows "bt_down sz ns f"
  unfolding bt_down_def
proof (intro conjI allI impI)
  show "f ` {1..sz} \<subseteq> dom ns" using assms by (simp add: bt_shape_def)
  fix k r n c
  assume *: "r < 2 ^ k" "bt_kid k r c \<le> sz" "ns (f (2 ^ k + r)) = Some n"
  have "2 ^ k + r \<le> sz" using bt_kid_gt [of k r c] *(2) by linarith
  from bt_shape_child [OF assms *(1) this *(3), of c] *(2) show "bt_child n c = Some (f (bt_kid k r c))"
    by simp
qed

lemma bt_down_node:
  assumes "bt_down sz ns f" "1 \<le> i" "i \<le> sz"
  obtains n where "ns (f i) = Some n"
proof -
  have "f i \<in> f ` {1..sz}" using assms(2,3) by simp
  then have "f i \<in> dom ns" using assms(1) unfolding bt_down_def by blast
  then show ?thesis using that by blast
qed

lemma bt_descend_down:
  assumes dn: "bt_down sz ns f" and "1 \<le> i" "r < 2 ^ k" "i * 2 ^ k + r \<le> sz"
  shows "bt_descend ns (Some (f (2 ^ k + r))) i = Some (Some (f (i * 2 ^ k + r)))"
  using assms(2-)
proof (induction i arbitrary: k r rule: less_induct)
  case (less i)
  show ?case
  proof (cases "i = 1")
    case True
    then show ?thesis by (simp add: bt_descend.simps)
  next
    case False
    then have j: "i div 2 < i" "1 \<le> i div 2" using less.prems by auto
    have "(2::nat) ^ k \<le> i * 2 ^ k" using less.prems(1) by simp
    then have "2 ^ k + r \<le> sz" using less.prems(3) by linarith
    then obtain n where n: "ns (f (2 ^ k + r)) = Some n"
      using bt_down_node [OF dn pow2_pos] by blast
    obtain R where R: "bt_kid k r (odd i) = 2 ^ Suc k + R" "R < 2 ^ Suc k"
        "i div 2 * 2 ^ Suc k + R = i * 2 ^ k + r"
      using less.prems(2) by (rule bt_kid_step)
    have "1 * (2::nat) ^ Suc k \<le> i div 2 * 2 ^ Suc k" using j(2) by (rule mult_le_mono1)
    then have "bt_kid k r (odd i) \<le> sz" using R less.prems(3) by linarith
    then have "bt_child n (odd i) = Some (f (2 ^ Suc k + R))"
      using dn less.prems(2) n unfolding bt_down_def R(1) [symmetric] by blast
    moreover have "bt_descend ns (Some (f (2 ^ Suc k + R))) (i div 2) = Some (Some (f (i * 2 ^ k + r)))"
      using less.IH [OF j R(2)] R(3) less.prems(3) by simp
    ultimately show ?thesis
      using False less.prems(1) n by (subst bt_descend.simps) (auto simp: deref_def bt_child_def)
  qed
qed

lemma bt_descend_root:
  assumes "bt_down sz ns f" "1 \<le> i" "i \<le> sz"
  shows "bt_descend ns (Some (f 1)) i = Some (Some (f i))"
  using bt_descend_down [OF assms(1,2), of 0 0] assms(3) by simp

lemma bt_descend_top:
  assumes "bt_shape sz ns tp f" "1 \<le> i" "i \<le> sz"
  shows "bt_descend ns tp i = Some (Some (f i))"
proof -
  have "tp = Some (f 1)" using assms by (auto simp: bt_shape_def)
  then show ?thesis using bt_descend_root [OF bt_shape_down [OF assms(1)] assms(2,3)] by simp
qed

text \<open>The handle read off the parent pointers is the node's number.\<close>

lemma get_node_handle_shape:
  assumes sh: "bt_shape sz ns tp f"
  shows "r < 2 ^ k \<Longrightarrow> 2 ^ k + r \<le> sz \<Longrightarrow>
    get_node_handle ns (f (2 ^ k + r)) h = Some (h * 2 ^ k + r)"
proof (induction k arbitrary: r h)
  case 0
  then obtain n where "ns (f 1) = Some n" using bt_shape_node [OF sh, of 1] by auto
  moreover from bt_shape_root [OF sh _ this] 0 have "parent n = None" by simp
  ultimately show ?case using 0 by (subst get_node_handle.simps) simp
next
  case (Suc k)
  define c where "c = (r \<ge> 2 ^ k)"
  define q where "q = (if c then r - 2 ^ k else r)"
  have q: "q < 2 ^ k" and kid: "2 ^ Suc k + r = bt_kid k q c"
    using Suc.prems by (auto simp: q_def c_def bt_kid_def)
  note le = Suc.prems(2) [unfolded kid]
  have ple: "2 ^ k + q \<le> sz" using bt_kid_gt [of k q c] le by linarith
  obtain n where n: "ns (f (bt_kid k q c)) = Some n"
    using bt_shape_node [OF sh bt_kid_pos(1) le] by blast
  obtain p where p: "ns (f (2 ^ k + q)) = Some p"
    using bt_shape_node [OF sh pow2_pos ple] by blast
  have "left p = Some (f (bt_kid k q c)) \<longleftrightarrow> \<not> c"
  proof (cases c)
    case True
    then have "bt_kid k q False \<noteq> bt_kid k q c" using bt_kid_unique [OF _ q q] by blast
    then have "bt_kid k q False \<le> sz \<Longrightarrow> f (bt_kid k q False) \<noteq> f (bt_kid k q c)"
      using bt_shape_inj [OF sh bt_kid_pos(1) _ bt_kid_pos(1) le] by blast
    with True show ?thesis
      using bt_shape_child [OF sh q ple p, of False] by (auto simp: bt_child_def)
  next
    case False
    with le show ?thesis
      using bt_shape_child [OF sh q ple p, of False] by (simp add: bt_child_def)
  qed
  then have "get_node_handle ns (f (bt_kid k q c)) h
      = get_node_handle ns (f (2 ^ k + q)) (2 * h + (if c then 1 else 0))"
    using n p bt_shape_parent [OF sh q le n] by (subst get_node_handle.simps) auto
  moreover have "(2 * h + (if c then 1 else 0)) * 2 ^ k + q = h * 2 ^ Suc k + r"
    by (simp add: q_def c_def algebra_simps)
  ultimately show ?case using Suc.IH [OF q ple] unfolding kid by simp
qed

lemma get_node_handle_top:
  assumes "bt_shape sz ns tp f" "1 \<le> i" "i \<le> sz"
  shows "get_node_handle ns (f i) 1 = Some i"
proof -
  obtain k r where "i = 2 ^ k + r" "r < 2 ^ k" using assms(2) by (rule pow2_decomp_exists)
  then show ?thesis using get_node_handle_shape [OF assms(1), of r k 1] assms(3) by simp
qed

text \<open>
  The loop of \<open>bt_node_add\<close> ends at the parent of number \<open>sz + 1\<close>, where exactly the
  child pointer that has to be set is still NULL.
\<close>

definition bt_set_child :: "btnode \<Rightarrow> bool \<Rightarrow> addr \<Rightarrow> btnode" where
  "bt_set_child n is_right b = (if is_right then n\<lparr>right := Some b\<rparr> else n\<lparr>left := Some b\<rparr>)"

lemma bt_child_set [simp]:
  "bt_child (bt_set_child n c b) d = (if c = d then Some b else bt_child n d)"
  "parent (bt_set_child n c b) = parent n"
  "free_flag (bt_set_child n c b) = free_flag n"
  "node_value (bt_set_child n c b) = node_value n"
  by (auto simp: bt_child_def bt_set_child_def)

lemma node_create_simps [simp]:
  "bt_child (node_create p v) c = None" "parent (node_create p v) = p"
  "free_flag (node_create p v) = False" "node_value (node_create p v) = v"
  by (auto simp: bt_child_def node_create_def)

definition bt_attached :: "(addr \<Rightarrow> btnode option) \<Rightarrow> addr \<Rightarrow> bool \<Rightarrow> addr \<Rightarrow> ptr \<Rightarrow> addr \<Rightarrow> btnode option" where
  "bt_attached ns a c b v =
     ns(b \<mapsto> node_create (Some a) v, a \<mapsto> bt_set_child (the (ns a)) c b)"

lemma bt_attach_step:
  assumes "ns a = Some n" "2 \<le> i"
  shows "bt_attach ns a i m v =
    (case bt_child n (odd i) of
       None \<Rightarrow> Some (map_option (\<lambda>b. bt_attached ns a (odd i) b v) m)
     | Some c \<Rightarrow> bt_attach ns c (i div 2) m v)"
  using assms
  by (subst bt_attach.simps)
     (auto simp: bt_child_def bt_attached_def bt_set_child_def split: option.split)

lemma bt_attach_shape:
  assumes sh: "bt_shape sz ns tp f"
  shows "r < 2 ^ k \<Longrightarrow> 2 \<le> i \<Longrightarrow> i * 2 ^ k + r = Suc sz \<Longrightarrow>
    \<exists>l q c. q < 2 ^ l \<and> Suc sz = bt_kid l q c \<and>
      (\<forall>m v. bt_attach ns (f (2 ^ k + r)) i m v =
         Some (map_option (\<lambda>b. bt_attached ns (f (2 ^ l + q)) c b v) m))"
proof (induction i arbitrary: k r rule: less_induct)
  case (less i)
  have "2 * (2::nat) ^ k \<le> i * 2 ^ k" using less.prems(2) by simp
  moreover have "(1::nat) \<le> 2 ^ k" by simp
  ultimately have le: "2 ^ k + r \<le> sz" using less.prems(3) by linarith
  obtain n where n: "ns (f (2 ^ k + r)) = Some n"
    using bt_shape_node [OF sh pow2_pos le] by blast
  obtain R where R: "bt_kid k r (odd i) = 2 ^ Suc k + R" "R < 2 ^ Suc k"
      "i div 2 * 2 ^ Suc k + R = i * 2 ^ k + r"
    using less.prems(1) by (rule bt_kid_step)
  note child = bt_shape_child [OF sh less.prems(1) le n, of "odd i"]
  note step = bt_attach_step [of ns "f (2 ^ k + r)" n i, OF n less.prems(2)]
  show ?case
  proof (cases "i div 2 = 1")
    case True
    then have s: "Suc sz = bt_kid k r (odd i)" using R less.prems(3) by simp
    then have "bt_child n (odd i) = None" using child by simp
    with less.prems(1) s show ?thesis unfolding step by (intro exI [of _ k] exI [of _ r] exI [of _ "odd i"]) simp
  next
    case False
    then have j: "2 \<le> i div 2" using less.prems(2) by auto
    then have "2 * (2::nat) ^ Suc k \<le> i div 2 * 2 ^ Suc k" by (rule mult_le_mono1)
    moreover have "(1::nat) \<le> 2 ^ Suc k" by simp
    ultimately have "bt_kid k r (odd i) \<le> sz" using R less.prems(3) by linarith
    then have c: "bt_child n (odd i) = Some (f (2 ^ Suc k + R))" using child by (simp add: R(1))
    have "i div 2 < i" "i div 2 * 2 ^ Suc k + R = Suc sz" using less.prems R(3) by auto
    from less.IH [OF this(1) R(2) j this(2)] show ?thesis unfolding step c by simp
  qed
qed

lemma bt_links_attach:
  assumes sh: "bt_shape sz ns tp f" and q: "q < 2 ^ l" and sz: "Suc sz = bt_kid l q c" and b: "ns b = None"
  shows "bt_links (Suc sz) (bt_attached ns (f (2 ^ l + q)) c b v) (f(Suc sz := b))"
proof -
  let ?p = "2 ^ l + q" let ?ns = "bt_attached ns (f ?p) c b v" let ?f = "f(Suc sz := b)"
  have p: "?p \<le> sz" using bt_kid_gt [of l q c] sz by linarith
  obtain n where n: "ns (f ?p) = Some n" using bt_shape_node [OF sh pow2_pos p] by blast
  have fresh: "f i \<noteq> b" if "1 \<le> i" "i \<le> sz" for i
    using bt_shape_node [OF sh that] b by (metis option.distinct(1))
  have old: "?ns (?f i) = (if i = ?p then Some (bt_set_child n c b) else ns (f i))"
    if "1 \<le> i" "i \<le> sz" for i
    using that n bt_shape_inj [OF sh that pow2_pos p] fresh [OF that] by (simp add: bt_attached_def)
  have new: "?ns (?f (Suc sz)) = Some (node_create (Some (f ?p)) v)"
    using fresh [OF pow2_pos p] by (simp add: bt_attached_def)
  have top1: "Suc sz \<noteq> 1" using sz by simp
  show ?thesis
    unfolding bt_links_def
  proof (intro conjI allI impI)
    fix k r m d
    assume r: "r < 2 ^ k" and le: "2 ^ k + r \<le> Suc sz" and m: "?ns (?f (2 ^ k + r)) = Some m"
    show "bt_child m d = (if bt_kid k r d \<le> Suc sz then Some (?f (bt_kid k r d)) else None)"
    proof (cases "2 ^ k + r = Suc sz")
      case True
      with m new have "m = node_create (Some (f ?p)) v" by (simp del: fun_upd_apply)
      then show ?thesis using bt_kid_gt [of k r d] True by simp
    next
      case False
      then have i: "2 ^ k + r \<le> sz" using le by simp
      show ?thesis
      proof (cases "2 ^ k + r = ?p")
        case True
        then have kr: "k = l" "r = q" using pow2_decomp_unique [OF True r q] by auto
        have "bt_kid l q d = Suc sz \<longleftrightarrow> c = d" using bt_kid_unique [OF _ q q] sz by auto
        with m n old [OF pow2_pos p] bt_shape_child [OF sh q p n, of d] kr
        show ?thesis by (auto simp del: fun_upd_apply simp: fun_upd_def)
      next
        case no: False
        then have "bt_kid k r d \<noteq> Suc sz" using bt_kid_unique [OF _ r q] sz by metis
        with m no old [OF pow2_pos i] bt_shape_child [OF sh r i, of m d]
        show ?thesis by (auto simp del: fun_upd_apply simp: fun_upd_def)
      qed
    qed
  next
    fix m assume "?ns (?f 1) = Some m"
    moreover have "1 \<le> sz" using p pow2_pos [of l q] by linarith
    ultimately show "parent m = None"
      using old [of 1] bt_shape_root [OF sh, of n] bt_shape_root [OF sh, of m] n
      by (auto simp del: fun_upd_apply split: if_splits)
  next
    fix k r m d
    assume r: "r < 2 ^ k" and le: "bt_kid k r d \<le> Suc sz" and m: "?ns (?f (bt_kid k r d)) = Some m"
    have i: "2 ^ k + r \<le> sz" using bt_kid_gt [of k r d] le by linarith
    show "parent m = Some (?f (2 ^ k + r))"
    proof (cases "bt_kid k r d = Suc sz")
      case True
      with sz bt_kid_unique [OF _ r q] have "k = l" "r = q" by auto
      moreover from True m new have "m = node_create (Some (f ?p)) v" by (simp del: fun_upd_apply)
      ultimately show ?thesis using i by simp
    next
      case False
      then have "bt_kid k r d \<le> sz" using le by simp
      note par = bt_shape_parent [OF sh r this] and o = old [OF bt_kid_pos(1) this]
      show ?thesis
      proof (cases "bt_kid k r d = ?p")
        case True
        with m o par [of n] n i show ?thesis by (auto simp del: fun_upd_apply simp: fun_upd_def)
      next
        case no: False
        with m o par [of m] i show ?thesis by (auto simp del: fun_upd_apply simp: fun_upd_def)
      qed
    qed
  qed
qed

lemma bt_shape_attach:
  assumes sh: "bt_shape sz ns tp f" and q: "q < 2 ^ l" and sz: "Suc sz = bt_kid l q c" and b: "ns b = None"
  shows "bt_shape (Suc sz) (bt_attached ns (f (2 ^ l + q)) c b v) tp (f(Suc sz := b))"
proof -
  have p: "2 ^ l + q \<le> sz" using bt_kid_gt [of l q c] sz by linarith
  have dom: "dom ns = f ` {1..sz}" and inj: "inj_on f {1..sz}" and tp: "tp = Some (f 1)" and pos: "1 \<le> sz"
    using sh p pow2_pos [of l q] by (auto simp: bt_shape_def split: if_splits)
  have split: "{1..Suc sz} = insert (Suc sz) {1..sz}" by auto
  have img: "(f(Suc sz := b)) ` {1..Suc sz} = insert b (f ` {1..sz})"
    unfolding split by (auto simp: image_iff)
  have in_dom: "f (2 ^ l + q) \<in> f ` {1..sz}" using p by (intro imageI) (simp add: Suc_leI)
  have "b \<notin> f ` {1..sz}" using b dom by (metis domIff)
  moreover have "inj_on (f(Suc sz := b)) {1..sz}"
    using inj by (subst inj_on_cong [of _ _ f]) auto
  moreover have "(f(Suc sz := b)) ` ({1..sz} - {Suc sz}) = f ` {1..sz}"
    by (intro image_cong) auto
  ultimately have "inj_on (f(Suc sz := b)) {1..Suc sz}"
    unfolding split inj_on_insert by simp
  moreover have "dom (bt_attached ns (f (2 ^ l + q)) c b v) = insert b (f ` {1..sz})"
    using dom in_dom by (auto simp: bt_attached_def)
  ultimately show ?thesis
    unfolding bt_shape_def img using bt_links_attach [OF assms] tp pos by simp
qed

lemma bt_shape_root_new:
  "bt_shape 1 [b \<mapsto> node_create None v] (Some b) (f(1 := b))"
proof -
  have "bt_links 1 [b \<mapsto> node_create None v] (f(1 := b))"
    unfolding bt_links_def
  proof (intro conjI allI impI)
    fix k r n c assume "2 ^ k + r \<le> (1::nat)" and n: "[b \<mapsto> node_create None v] ((f(1 := b)) (2 ^ k + r)) = Some n"
    then have "2 ^ k + r = (1::nat)" using pow2_pos [of k r] by linarith
    moreover have "1 < bt_kid k r c" using bt_kid_gt [of k r c] calculation by simp
    ultimately show "bt_child n c = (if bt_kid k r c \<le> 1 then Some ((f(1 := b)) (bt_kid k r c)) else None)"
      using n by auto
  next
    fix k r n c assume "bt_kid k r c \<le> 1"
    then show "parent n = Some ((f(1 := b)) (2 ^ k + r))" using bt_kid_gt [of k r c] pow2_pos [of k r] by linarith
  qed auto
  then show ?thesis by (simp add: bt_shape_def)
qed

definition same_links :: "btnode \<Rightarrow> btnode \<Rightarrow> bool" where
  "same_links n n' \<longleftrightarrow> left n = left n' \<and> right n = right n' \<and> parent n = parent n'"

lemma bt_shape_update:
  assumes sh: "bt_shape sz ns tp f" and a: "ns a = Some n" and s: "same_links n n'"
  shows "bt_shape sz (ns(a \<mapsto> n')) tp f"
proof -
  have c: "bt_child n' = bt_child n" and p: "parent n' = parent n"
    using s by (auto simp: same_links_def bt_child_def)
  have upd: "\<exists>m'. ns y = Some m' \<and> bt_child m = bt_child m' \<and> parent m = parent m'"
    if "(ns(a \<mapsto> n')) y = Some m" for y m
    using that a c p by (cases "y = a") auto
  have "bt_links sz (ns(a \<mapsto> n')) f"
    unfolding bt_links_def
  proof (intro conjI allI impI)
    fix k r m d assume *: "r < 2 ^ k" "2 ^ k + r \<le> sz" and m: "(ns(a \<mapsto> n')) (f (2 ^ k + r)) = Some m"
    obtain m' where m': "ns (f (2 ^ k + r)) = Some m'" "bt_child m = bt_child m'" using upd [OF m] by blast
    show "bt_child m d = (if bt_kid k r d \<le> sz then Some (f (bt_kid k r d)) else None)"
      unfolding m'(2) by (rule bt_shape_child [OF sh * m'(1)])
  next
    fix m assume sz: "1 \<le> sz" and m: "(ns(a \<mapsto> n')) (f 1) = Some m"
    obtain m' where m': "ns (f 1) = Some m'" "parent m = parent m'" using upd [OF m] by blast
    show "parent m = None" unfolding m'(2) by (rule bt_shape_root [OF sh sz m'(1)])
  next
    fix k r m d assume *: "r < 2 ^ k" "bt_kid k r d \<le> sz" and m: "(ns(a \<mapsto> n')) (f (bt_kid k r d)) = Some m"
    obtain m' where m': "ns (f (bt_kid k r d)) = Some m'" "parent m = parent m'" using upd [OF m] by blast
    show "parent m = Some (f (2 ^ k + r))" unfolding m'(2) by (rule bt_shape_parent [OF sh * m'(1)])
  qed
  moreover have "dom (ns(a \<mapsto> n')) = dom ns" using a by auto
  ultimately show ?thesis using sh by (simp add: bt_shape_def)
qed

section \<open>The free list\<close>

fun bt_chain :: "(addr \<Rightarrow> btnode option) \<Rightarrow> (nat \<Rightarrow> addr) \<Rightarrow> ptr \<Rightarrow> nat list \<Rightarrow> bool" where
  "bt_chain ns f p [] = (p = Null)"
| "bt_chain ns f p (i # is) =
     (p = ToNode (f i) \<and> (\<exists>n. ns (f i) = Some n \<and> bt_chain ns f (node_value n) is))"

lemma bt_chain_cong:
  "(\<And>i. i \<in> set is \<Longrightarrow> ns' (f i) = ns (f i)) \<Longrightarrow> bt_chain ns' f p is = bt_chain ns f p is"
  by (induction "is" arbitrary: p) auto

lemma bt_chain_Null: "bt_chain ns f p is \<Longrightarrow> p = Null \<longleftrightarrow> is = []"
  by (cases "is") auto

definition bt_rep :: "btree \<Rightarrow> (nat \<Rightarrow> addr) \<Rightarrow> nat list \<Rightarrow> (nat \<Rightarrow> vptr) \<Rightarrow> bool" where
  "bt_rep t f xs g \<longleftrightarrow>
     bt_shape (bt_size t) (nodes t) (top t) f \<and>
     bt_chain (nodes t) f (free_list t) xs \<and> distinct xs \<and> set xs \<subseteq> {1..bt_size t} \<and>
     free_nodes t = length xs \<and>
     (\<forall>i n. 1 \<le> i \<longrightarrow> i \<le> bt_size t \<longrightarrow> nodes t (f i) = Some n \<longrightarrow>
        free_flag n = (i \<in> set xs) \<and> (i \<notin> set xs \<longrightarrow> node_value n = ToValue (g i)))"

lemma bt_rep_shape: "bt_rep t f xs g \<Longrightarrow> bt_shape (bt_size t) (nodes t) (top t) f"
  by (simp add: bt_rep_def)

lemma bt_rep_free_list:
  assumes "bt_rep t f xs g"
  shows "distinct xs" "set xs \<subseteq> {1..bt_size t}" "free_nodes t = length xs"
    "bt_chain (nodes t) f (free_list t) xs"
  using assms unfolding bt_rep_def by blast+

lemma bt_rep_flags:
  assumes "bt_rep t f xs g" "1 \<le> i" "i \<le> bt_size t" "nodes t (f i) = Some n"
  shows "free_flag n = (i \<in> set xs)" "i \<notin> set xs \<Longrightarrow> node_value n = ToValue (g i)"
  using assms unfolding bt_rep_def by blast+

lemma bt_repI:
  assumes "bt_shape (bt_size t) (nodes t) (top t) f" "bt_chain (nodes t) f (free_list t) xs"
    "distinct xs" "set xs \<subseteq> {1..bt_size t}" "free_nodes t = length xs"
    "\<And>i n. 1 \<le> i \<Longrightarrow> i \<le> bt_size t \<Longrightarrow> nodes t (f i) = Some n \<Longrightarrow>
        free_flag n = (i \<in> set xs) \<and> (i \<notin> set xs \<longrightarrow> node_value n = ToValue (g i))"
  shows "bt_rep t f xs g"
  using assms unfolding bt_rep_def by blast

lemma bt_rep_node:
  assumes "bt_rep t f xs g" "1 \<le> i" "i \<le> bt_size t"
  obtains n where "nodes t (f i) = Some n" "free_flag n = (i \<in> set xs)"
    "i \<notin> set xs \<longrightarrow> node_value n = ToValue (g i)"
  using bt_shape_node [OF bt_rep_shape [OF assms(1)] assms(2,3)] bt_rep_flags [OF assms]
  by metis

lemma bt_get_node_locked_rep:
  assumes "bt_rep t f xs g"
  shows "bt_get_node_locked t i =
    Some (if 1 \<le> i \<and> i \<le> bt_size t \<and> i \<notin> set xs then Some (f i) else None)"
proof (cases "1 \<le> i \<and> i \<le> bt_size t")
  case True
  then obtain n where n: "nodes t (f i) = Some n" "free_flag n = (i \<in> set xs)"
    using bt_rep_node [OF assms] by metis
  have d: "bt_descend (nodes t) (top t) i = Some (Some (f i))"
    using bt_descend_top [OF bt_rep_shape [OF assms]] True by blast
  moreover have "top t = Some (f i)" if "i = 1" using d that by (simp add: bt_descend.simps)
  ultimately show ?thesis using True n by (auto simp: bt_get_node_locked_def deref_def)
qed (auto simp: bt_get_node_locked_def)

definition bt_lookup :: "btree \<Rightarrow> nat \<Rightarrow> vptr option" where
  "bt_lookup t i =
     (case bt_get_node_locked t i of
        Some (Some a) \<Rightarrow>
          (case nodes t a of
             Some n \<Rightarrow> (case node_value n of ToValue x \<Rightarrow> Some x | _ \<Rightarrow> None)
           | None \<Rightarrow> None)
      | _ \<Rightarrow> None)"

lemma bt_lookup_rep:
  assumes "bt_rep t f xs g"
  shows "bt_lookup t i = (if 1 \<le> i \<and> i \<le> bt_size t \<and> i \<notin> set xs then Some (g i) else None)"
proof (cases "1 \<le> i \<and> i \<le> bt_size t \<and> i \<notin> set xs")
  case True
  then obtain n where "nodes t (f i) = Some n" "node_value n = ToValue (g i)"
    using bt_rep_node [OF assms] by metis
  then show ?thesis using True by (simp add: bt_lookup_def bt_get_node_locked_rep [OF assms])
qed (auto simp: bt_lookup_def bt_get_node_locked_rep [OF assms])

section \<open>Structural effect of adding and freeing\<close>

text \<open>A freed node goes to the front of the free list; everything else stays.\<close>

lemma bt_rep_free:
  assumes rep: "bt_rep t f xs g" and i: "1 \<le> i" "i \<le> bt_size t" "i \<notin> set xs" and n: "nodes t (f i) = Some n"
  shows "bt_rep (t\<lparr>nodes := (nodes t)(f i \<mapsto> n\<lparr>free_flag := True, node_value := free_list t\<rparr>),
                   free_list := ToNode (f i), free_nodes := free_nodes t + 1\<rparr>) f (i # xs) g"
    (is "bt_rep ?t f (i # xs) g")
proof -
  note sh = bt_rep_shape [OF rep] and fl = bt_rep_free_list [OF rep]
  have other: "nodes ?t (f j) = nodes t (f j)" if "1 \<le> j" "j \<le> bt_size t" "j \<noteq> i" for j
    using bt_shape_inj [OF sh that(1,2) i(1,2)] that(3) by simp
  have chain: "bt_chain (nodes ?t) f (free_list t) xs"
    using fl(4) by (subst bt_chain_cong [of xs "nodes ?t" f "nodes t"]) (use other fl(2) i in fastforce)+
  have shape: "bt_shape (bt_size t) (nodes ?t) (top t) f"
    using bt_shape_update [OF sh n] by (simp add: same_links_def)
  have flags: "free_flag m = (j \<in> set (i # xs)) \<and> (j \<notin> set (i # xs) \<longrightarrow> node_value m = ToValue (g j))"
    if j: "1 \<le> j" "j \<le> bt_size t" and m: "nodes ?t (f j) = Some m" for j m
  proof (cases "j = i")
    case True
    then show ?thesis using m by auto
  next
    case False
    then have "nodes t (f j) = Some m" using m other [OF j] by simp
    with False bt_rep_flags [OF rep j this] show ?thesis by simp
  qed
  show ?thesis
  proof (rule bt_repI)
    show "bt_shape (bt_size ?t) (nodes ?t) (top ?t) f" using shape by simp
    show "bt_chain (nodes ?t) f (free_list ?t) (i # xs)" using chain by simp
    show "distinct (i # xs)" using fl(1) i(3) by simp
    show "set (i # xs) \<subseteq> {1..bt_size ?t}" using fl(2) i(1,2) by simp
    show "free_nodes ?t = length (i # xs)" using fl(3) by simp
    show "free_flag m = (j \<in> set (i # xs)) \<and> (j \<notin> set (i # xs) \<longrightarrow> node_value m = ToValue (g j))"
      if "1 \<le> j" "j \<le> bt_size ?t" "nodes ?t (f j) = Some m" for j m
      using flags [OF that(1) _ that(3)] that(2) by simp
  qed
qed

lemma bt_rep_reuse:
  assumes rep: "bt_rep t f (i # xs) g" and n: "nodes t (f i) = Some n"
  shows "bt_rep (t\<lparr>free_list := node_value n,
                   nodes := (nodes t)(f i \<mapsto> n\<lparr>node_value := ToValue x, free_flag := False\<rparr>),
                   free_nodes := bt_dec (free_nodes t)\<rparr>) f xs (g(i := x))"
    (is "bt_rep ?t f xs ?g")
proof -
  note sh = bt_rep_shape [OF rep] and fl = bt_rep_free_list [OF rep]
  have i: "1 \<le> i" "i \<le> bt_size t" "i \<notin> set xs" and xs: "set xs \<subseteq> {1..bt_size t}"
    using fl by auto
  have other: "nodes ?t (f j) = nodes t (f j)" if "1 \<le> j" "j \<le> bt_size t" "j \<noteq> i" for j
    using bt_shape_inj [OF sh that(1,2) i(1,2)] that(3) by simp
  have chain: "bt_chain (nodes ?t) f (node_value n) xs"
    using fl(4) n by (subst bt_chain_cong [of xs "nodes ?t" f "nodes t"]) (use other xs i in fastforce)+
  have shape: "bt_shape (bt_size t) (nodes ?t) (top t) f"
    using bt_shape_update [OF sh n] by (simp add: same_links_def)
  have flags: "free_flag m = (j \<in> set xs) \<and> (j \<notin> set xs \<longrightarrow> node_value m = ToValue (?g j))"
    if j: "1 \<le> j" "j \<le> bt_size t" and m: "nodes ?t (f j) = Some m" for j m
  proof (cases "j = i")
    case True
    then show ?thesis using m i(3) by auto
  next
    case False
    then have "nodes t (f j) = Some m" using m other [OF j] by simp
    with False bt_rep_flags [OF rep j this] show ?thesis by simp
  qed
  show ?thesis
  proof (rule bt_repI)
    show "bt_shape (bt_size ?t) (nodes ?t) (top ?t) f" using shape by simp
    show "bt_chain (nodes ?t) f (free_list ?t) xs" using chain by simp
    show "distinct xs" using fl(1) by simp
    show "set xs \<subseteq> {1..bt_size ?t}" using xs by simp
    show "free_nodes ?t = length xs" using fl(3) by (simp add: bt_dec_def)
    show "free_flag m = (j \<in> set xs) \<and> (j \<notin> set xs \<longrightarrow> node_value m = ToValue (?g j))"
      if "1 \<le> j" "j \<le> bt_size ?t" "nodes ?t (f j) = Some m" for j m
      using flags [OF that(1) _ that(3)] that(2) by simp
  qed
qed

lemma bt_rep_root:
  assumes rep: "bt_rep t f xs g" and "bt_size t = 0"
  shows "xs = []" and
    "bt_rep (t\<lparr>bt_size := 1, nodes := (nodes t)(b \<mapsto> node_create None (ToValue x)), top := Some b\<rparr>)
       (f(1 := b)) [] (g(1 := x))"
proof -
  have e: "nodes t = Map.empty" using bt_rep_shape [OF rep] assms(2) by (simp add: bt_shape_def)
  have xs: "xs = []" using bt_rep_free_list(2) [OF rep] assms(2) by simp
  show "xs = []" by (fact xs)
  show "bt_rep (t\<lparr>bt_size := 1, nodes := (nodes t)(b \<mapsto> node_create None (ToValue x)), top := Some b\<rparr>)
       (f(1 := b)) [] (g(1 := x))"
    using bt_rep_free_list [OF rep] bt_shape_root_new [of b "ToValue x" f] e xs
    by (intro bt_repI) (auto dest: antisym)
qed

lemma bt_rep_attach:
  assumes rep: "bt_rep t f [] g" and q: "q < 2 ^ l" and sz: "Suc (bt_size t) = bt_kid l q c"
    and b: "nodes t b = None"
  shows "bt_rep (t\<lparr>nodes := bt_attached (nodes t) (f (2 ^ l + q)) c b (ToValue x), bt_size := bt_size t + 1\<rparr>)
     (f(Suc (bt_size t) := b)) [] (g(Suc (bt_size t) := x))"
proof -
  note sh = bt_rep_shape [OF rep]
  let ?s = "Suc (bt_size t)" let ?p = "2 ^ l + q"
  let ?ns = "bt_attached (nodes t) (f ?p) c b (ToValue x)"
  have p: "?p \<le> bt_size t" using bt_kid_gt [of l q c] sz by linarith
  have fresh: "f j \<noteq> b" if "1 \<le> j" "j \<le> bt_size t" for j
    using bt_shape_node [OF sh that] b by (metis option.distinct(1))
  have "\<not> free_flag m \<and> node_value m = ToValue ((g(?s := x)) j)"
    if j: "1 \<le> j" "j \<le> ?s" and m: "?ns ((f(?s := b)) j) = Some m" for j m
  proof (cases "j = ?s")
    case True
    with m fresh [OF pow2_pos p] show ?thesis by (auto simp: bt_attached_def)
  next
    case False
    then have j': "j \<le> bt_size t" using j by simp
    obtain n where n: "nodes t (f j) = Some n" "\<not> free_flag n" "node_value n = ToValue (g j)"
      using bt_rep_node [OF rep j(1) j'] by auto
    then show ?thesis
      using m False fresh [OF j(1) j'] by (auto simp: bt_attached_def split: if_splits)
  qed
  then show ?thesis
    using bt_shape_attach [OF sh q sz b] bt_rep_free_list [OF rep] by (intro bt_repI) auto
qed

end
