(* ===== verification/Btree_Table.thy ===== *)
theory Btree_Table
  imports Btree_Shape
begin

text \<open>
  The tree of \<^verbatim>\<open>btree.c\<close> as a table of reference-counted values: the invariant that ties the
  reference counters to the references in use, the functional behaviour of every operation,
  the contract \<open>handle_table\<close> other components rely on, interleaved use by several threads, and
  the properties of the component.
\<close>

section \<open>The invariant\<close>

text \<open>
  \<open>held x\<close> counts the references handed out by \<open>bt_get_node_value\<close> and not yet put back.
  The tree represents a map with distinct values, and the counter of every value that has
  not been freed is the number of its references: one from the tree, the others held.
\<close>

definition bt_wf :: "btree \<Rightarrow> bool" where
  "bt_wf t \<longleftrightarrow> (\<exists>f xs g. bt_rep t f xs g)"

definition bt_inv :: "btree \<Rightarrow> (vptr \<Rightarrow> nat) \<Rightarrow> bool" where
  "bt_inv t held \<longleftrightarrow>
     bt_wf t \<and>
     (\<forall>i j x. bt_lookup t i = Some x \<longrightarrow> bt_lookup t j = Some x \<longrightarrow> i = j) \<and>
     (\<forall>x. x \<in> ran (bt_lookup t) \<or> 0 < held x \<longrightarrow> x \<notin> set (deleted t)) \<and>
     (\<forall>x. x \<notin> set (deleted t) \<longrightarrow> ref t x = (if x \<in> ran (bt_lookup t) then 1 else 0) + held x) \<and>
     distinct (deleted t)"

lemma bt_rep_ref_simps [simp]:
  "bt_rep (t\<lparr>ref := r\<rparr>) = bt_rep t" "bt_rep (t\<lparr>deleted := d\<rparr>) = bt_rep t"
  by (auto simp: bt_rep_def fun_eq_iff)

lemma bt_wf_ref_simps [simp]:
  "bt_wf (t\<lparr>ref := r\<rparr>) = bt_wf t" "bt_wf (t\<lparr>deleted := d\<rparr>) = bt_wf t"
  by (simp_all add: bt_wf_def)

lemma bt_lookup_ref_simps [simp]:
  "bt_lookup (t\<lparr>ref := r\<rparr>) = bt_lookup t" "bt_lookup (t\<lparr>deleted := d\<rparr>) = bt_lookup t"
  by (auto simp: bt_lookup_def bt_get_node_locked_def fun_eq_iff cong: option.case_cong)

lemma bt_invI:
  assumes "bt_wf t" "\<And>i j x. bt_lookup t i = Some x \<Longrightarrow> bt_lookup t j = Some x \<Longrightarrow> i = j"
    "\<And>x. x \<in> ran (bt_lookup t) \<or> 0 < held x \<Longrightarrow> x \<notin> set (deleted t)"
    "\<And>x. x \<notin> set (deleted t) \<Longrightarrow> ref t x = (if x \<in> ran (bt_lookup t) then 1 else 0) + held x"
    "distinct (deleted t)"
  shows "bt_inv t held"
  using assms unfolding bt_inv_def by blast

lemma bt_invD:
  assumes "bt_inv t held"
  shows bt_inv_wf: "bt_wf t"
    and bt_inv_inj: "bt_lookup t i = Some x \<Longrightarrow> bt_lookup t j = Some x \<Longrightarrow> i = j"
    and bt_inv_alive: "x \<in> ran (bt_lookup t) \<or> 0 < held x \<Longrightarrow> x \<notin> set (deleted t)"
    and bt_inv_ref: "x \<notin> set (deleted t) \<Longrightarrow> ref t x = (if x \<in> ran (bt_lookup t) then 1 else 0) + held x"
    and bt_inv_distinct: "distinct (deleted t)"
  using assms unfolding bt_inv_def by blast+

lemma bt_inv_live:
  assumes "bt_inv t held" "bt_lookup t i = Some x"
  shows "x \<notin> set (deleted t)" "ref t x = 1 + held x"
proof -
  have "x \<in> ran (bt_lookup t)" using assms(2) by (rule ranI)
  then show "x \<notin> set (deleted t)" "ref t x = 1 + held x"
    using bt_inv_alive [OF assms(1)] bt_inv_ref [OF assms(1)] by auto
qed

lemma bt_lookup_bounds:
  assumes "bt_wf t" "bt_lookup t i = Some x"
  shows "1 \<le> i" "i \<le> bt_size t"
  using assms by (auto simp: bt_wf_def bt_lookup_rep split: if_splits)

text \<open>\<open>__bt_get_node\<close> on a well-formed tree never crashes and agrees with the map.\<close>

lemma bt_get_node_locked_wf:
  assumes "bt_wf t"
  shows "\<exists>p. bt_get_node_locked t i = Some p \<and>
    (case bt_lookup t i of
       None \<Rightarrow> p = None
     | Some x \<Rightarrow> \<exists>a n. p = Some a \<and> nodes t a = Some n \<and> node_value n = ToValue x)"
proof -
  obtain f xs g where rep: "bt_rep t f xs g" using assms by (auto simp: bt_wf_def)
  show ?thesis
  proof (cases "1 \<le> i \<and> i \<le> bt_size t \<and> i \<notin> set xs")
    case True
    then obtain n where "nodes t (f i) = Some n" "node_value n = ToValue (g i)"
      using bt_rep_node [OF rep] by metis
    then show ?thesis using True by (simp add: bt_get_node_locked_rep [OF rep] bt_lookup_rep [OF rep])
  qed (auto simp: bt_get_node_locked_rep [OF rep] bt_lookup_rep [OF rep])
qed




text \<open>Putting a reference back.\<close>

lemma bt_put_node_value_held:
  assumes inv: "bt_inv t held" and x: "0 < held x"
  obtains t' d where "bt_put_node_value t (ToValue x) = Some (t', d)"
    "bt_inv t' (held(x := held x - 1))" "bt_lookup t' = bt_lookup t"
    "d \<longleftrightarrow> x \<notin> ran (bt_lookup t) \<and> held x = 1 \<and> delete_func t"
    "deleted t' = (if d then deleted t @ [x] else deleted t)"
    "t' = t\<lparr>ref := (ref t)(x := ref t x - 1), deleted := deleted t'\<rparr>"
proof -
  have nd: "x \<notin> set (deleted t)" using bt_inv_alive [OF inv] x by blast
  note r = bt_inv_ref [OF inv nd]
  let ?d = "x \<notin> ran (bt_lookup t) \<and> held x = 1 \<and> delete_func t"
  let ?del = "if ?d then deleted t @ [x] else deleted t"
  define t' where "t' = t\<lparr>ref := (ref t)(x := ref t x - 1), deleted := (?del)\<rparr>"
  have put: "bt_put_node_value t (ToValue x) = Some (t', ?d)"
    using nd r x by (auto simp: bt_put_node_value_def value_hdr_def t'_def Let_def)
  have t': "bt_lookup t' = bt_lookup t" "deleted t' = (?del)"
    "t' = t\<lparr>ref := (ref t)(x := ref t x - 1), deleted := deleted t'\<rparr>"
    "bt_wf t' = bt_wf t" "ref t' = (ref t)(x := ref t x - 1)"
    by (simp_all add: t'_def)
  have inv': "bt_inv t' (held(x := held x - 1))"
  proof (rule bt_invI, unfold t'(1,2,4,5))
    show "bt_wf t" by (rule bt_inv_wf [OF inv])
    show "i = j" if "bt_lookup t i = Some y" "bt_lookup t j = Some y" for i j y
      using bt_inv_inj [OF inv that] .
    show "y \<notin> set (?del)"
      if "y \<in> ran (bt_lookup t) \<or> 0 < (held(x := held x - 1)) y" for y
      using bt_inv_alive [OF inv, of y] nd that by (cases "y = x") (auto)
    show "((ref t)(x := ref t x - 1)) y = (if y \<in> ran (bt_lookup t) then 1 else 0) + (held(x := held x - 1)) y"
      if "y \<notin> set (?del)" for y
      using bt_inv_ref [OF inv, of y] r x that by (cases "y = x") (auto split: if_splits)
    show "distinct (?del)" using bt_inv_distinct [OF inv] nd by simp
  qed
  show ?thesis using that [OF put inv' t'(1) refl t'(2,3)] .
qed

section \<open>Freeing a handle\<close>

definition bt_unlink :: "btree \<Rightarrow> addr \<Rightarrow> btnode \<Rightarrow> btree" where
  "bt_unlink t a n =
     t\<lparr>nodes := (nodes t)(a \<mapsto> n\<lparr>free_flag := True, node_value := free_list t\<rparr>),
       free_list := ToNode a, free_nodes := free_nodes t + 1\<rparr>"

lemma bt_unlink_fields [simp]:
  "ref (bt_unlink t a n) = ref t" "deleted (bt_unlink t a n) = deleted t"
  "bt_size (bt_unlink t a n) = bt_size t" "delete_func (bt_unlink t a n) = delete_func t"
  by (simp_all add: bt_unlink_def)

lemma bt_unlink_lookup:
  assumes wf: "bt_wf t" and l: "bt_lookup t i = Some x"
  obtains a n where "bt_get_node_locked t i = Some (Some a)" "nodes t a = Some n"
    "node_value n = ToValue x" "bt_wf (bt_unlink t a n)"
    "bt_lookup (bt_unlink t a n) = (bt_lookup t)(i := None)"
proof -
  obtain f xs g where rep: "bt_rep t f xs g" using wf by (auto simp: bt_wf_def)
  have i: "1 \<le> i" "i \<le> bt_size t" "i \<notin> set xs" and x: "x = g i"
    using l by (auto simp: bt_lookup_rep [OF rep] split: if_splits)
  obtain n where n: "nodes t (f i) = Some n" "node_value n = ToValue (g i)"
    using bt_rep_node [OF rep i(1,2)] i(3) by metis
  have rep': "bt_rep (bt_unlink t (f i) n) f (i # xs) g"
    unfolding bt_unlink_def by (rule bt_rep_free [OF rep i n(1)])
  then have "bt_wf (bt_unlink t (f i) n)" unfolding bt_wf_def by blast
  moreover have "bt_lookup (bt_unlink t (f i) n) = (bt_lookup t)(i := None)"
    by (rule ext) (simp add: bt_lookup_rep [OF rep] bt_lookup_rep [OF rep'])
  moreover have "bt_get_node_locked t i = Some (Some (f i))"
    using i by (simp add: bt_get_node_locked_rep [OF rep])
  ultimately show ?thesis using that n x by blast
qed

lemma bt_inv_unlink:
  assumes inv: "bt_inv t held" and l: "bt_lookup t i = Some x"
    and t': "bt_wf t'" "bt_lookup t' = (bt_lookup t)(i := None)" "ref t' = ref t" "deleted t' = deleted t"
  shows "bt_inv t' (held(x := held x + 1))"
proof (rule bt_invI)
  have ran: "ran (bt_lookup t') = ran (bt_lookup t) - {x}"
    unfolding t'(2) using l bt_inv_inj [OF inv _ l] by (intro ran_remove_inj) blast+
  note live = bt_inv_live [OF inv l]
  show "bt_wf t'" by fact
  show "j = k" if "bt_lookup t' j = Some y" "bt_lookup t' k = Some y" for j k y
    using bt_inv_inj [OF inv, of j y k] that by (auto simp: t' split: if_splits)
  show "y \<notin> set (deleted t')" if "y \<in> ran (bt_lookup t') \<or> 0 < (held(x := held x + 1)) y" for y
    using bt_inv_alive [OF inv, of y] live that by (cases "y = x") (auto simp: ran t'(3,4))
  show "ref t' y = (if y \<in> ran (bt_lookup t') then 1 else 0) + (held(x := held x + 1)) y"
    if "y \<notin> set (deleted t')" for y
    using bt_inv_ref [OF inv, of y] live that by (cases "y = x") (simp_all add: ran t'(3,4))
  show "distinct (deleted t')" using bt_inv_distinct [OF inv] by (simp add: t')
qed

text \<open>Freeing without putting the value leaves the tree's reference with the caller.\<close>

lemma bt_node_free_keep:
  assumes inv: "bt_inv t held" and l: "bt_lookup t i = Some x"
  obtains t' where "bt_node_free True t i False = Some (t', ToValue x)"
    "bt_inv t' (held(x := held x + 1))" "bt_lookup t' = (bt_lookup t)(i := None)"
    "deleted t' = deleted t" "delete_func t' = delete_func t" "bt_size t' = bt_size t"
proof -
  obtain a n where a: "bt_get_node_locked t i = Some (Some a)" "nodes t a = Some n"
    "node_value n = ToValue x" and wf: "bt_wf (bt_unlink t a n)"
    and l': "bt_lookup (bt_unlink t a n) = (bt_lookup t)(i := None)"
    using bt_inv_wf [OF inv] l by (rule bt_unlink_lookup)
  have "bt_node_free True t i False = Some (bt_unlink t a n, ToValue x)"
    using a by (simp add: bt_node_free_def bt_unlink_def Let_def)
  moreover have "bt_inv (bt_unlink t a n) (held(x := held x + 1))"
    by (rule bt_inv_unlink [OF inv l wf l']) simp_all
  ultimately show ?thesis by (rule that) (simp_all add: l')
qed

lemma bt_node_free_put:
  assumes inv: "bt_inv t held" and l: "bt_lookup t i = Some x"
  obtains t' where "bt_node_free True t i True = Some (t', ToValue x)"
    "bt_inv t' held" "bt_lookup t' = (bt_lookup t)(i := None)"
    "deleted t' = (if held x = 0 \<and> delete_func t then deleted t @ [x] else deleted t)"
    "delete_func t' = delete_func t" "bt_size t' = bt_size t"
proof -
  obtain a n where a: "bt_get_node_locked t i = Some (Some a)" "nodes t a = Some n"
    "node_value n = ToValue x" and wf: "bt_wf (bt_unlink t a n)"
    and l': "bt_lookup (bt_unlink t a n) = (bt_lookup t)(i := None)"
    using bt_inv_wf [OF inv] l by (rule bt_unlink_lookup)
  have inv': "bt_inv (bt_unlink t a n) (held(x := held x + 1))"
    by (rule bt_inv_unlink [OF inv l wf l']) simp_all
  have h: "0 < (held(x := held x + 1)) x" by simp
  obtain t' d where put: "bt_put_node_value (bt_unlink t a n) (ToValue x) = Some (t', d)"
    "bt_inv t' ((held(x := held x + 1))(x := (held(x := held x + 1)) x - 1))"
    "bt_lookup t' = bt_lookup (bt_unlink t a n)"
    "d \<longleftrightarrow> x \<notin> ran (bt_lookup (bt_unlink t a n)) \<and> (held(x := held x + 1)) x = 1 \<and> delete_func (bt_unlink t a n)"
    "deleted t' = (if d then deleted (bt_unlink t a n) @ [x] else deleted (bt_unlink t a n))"
    "t' = (bt_unlink t a n)\<lparr>ref := (ref (bt_unlink t a n))(x := ref (bt_unlink t a n) x - 1), deleted := deleted t'\<rparr>"
    by (rule bt_put_node_value_held [OF inv' h])
  have "x \<notin> ran (bt_lookup (bt_unlink t a n))"
    using bt_inv_inj [OF inv l] unfolding l' ran_def by (auto split: if_splits)
  then have d: "d \<longleftrightarrow> held x = 0 \<and> delete_func t" using put(4) by simp
  have free: "bt_node_free True t i True = Some (t', ToValue x)"
    using a put(1) by (simp add: bt_node_free_def bt_unlink_def Let_def)
  have "bt_inv t' held" using put(2) by simp
  moreover have "bt_lookup t' = (bt_lookup t)(i := None)" using put(3) l' by simp
  moreover have "deleted t' = (if held x = 0 \<and> delete_func t then deleted t @ [x] else deleted t)"
    using put(5) d by simp
  moreover have "delete_func t' = delete_func t" "bt_size t' = bt_size t" by (subst put(6), simp)+
  ultimately show ?thesis by (rule that [OF free])
qed

lemma bt_node_free_None:
  assumes "bt_wf t" "bt_lookup t i = None"
  shows "bt_node_free True t i p = Some (t, Null)"
  using bt_get_node_locked_wf [OF assms(1), of i] assms(2) by (auto simp: bt_node_free_def)

section \<open>Adding a value\<close>

text \<open>
  An addition needs an unused address from \<^verbatim>\<open>malloc\<close> and a value that no one references.
\<close>

definition bt_usable :: "btree \<Rightarrow> addr \<Rightarrow> vptr \<Rightarrow> bool" where
  "bt_usable t b x \<longleftrightarrow> nodes t b = None \<and> x \<notin> set (deleted t) \<and> ref t x = 0"

lemma bt_node_add_wf:
  assumes wf: "bt_wf t" and b: "nodes t b = None" and x: "x \<notin> set (deleted t)"
  obtains t' h where "bt_node_add True (Some b) t (ToValue x) = Some (t', h)"
    "bt_wf t'" "h \<noteq> 0" "bt_lookup t h = None" "bt_lookup t' = (bt_lookup t)(h \<mapsto> x)"
    "ref t' = (ref t)(x := 1)" "deleted t' = deleted t" "delete_func t' = delete_func t"
    "bt_size t' = (if free_nodes t = 0 then bt_size t + 1 else bt_size t)"
    "free_nodes t' = free_nodes t - 1"
proof -
  obtain f xs g where rep: "bt_rep t f xs g" using wf by (auto simp: bt_wf_def)
  define t0 where "t0 = t\<lparr>ref := (ref t)(x := 1)\<rparr>"
  have rep0: "bt_rep t0 f xs g" using rep by (simp add: t0_def)
  have t0: "bt_size t0 = bt_size t" "nodes t0 = nodes t" "top t0 = top t" "free_list t0 = free_list t"
    "free_nodes t0 = free_nodes t" "ref t0 = (ref t)(x := 1)" "deleted t0 = deleted t"
    "delete_func t0 = delete_func t" by (simp_all add: t0_def)
  note sh = bt_rep_shape [OF rep] and fl = bt_rep_free_list [OF rep] and look = bt_lookup_rep [OF rep]
  have v: "value_hdr t (ToValue x) = Some x" using x by (simp add: value_hdr_def)
  consider (root) "bt_size t = 0" | (reuse) i ys where "bt_size t \<noteq> 0" "xs = i # ys"
    | (attach) "bt_size t \<noteq> 0" "xs = []" by (cases xs) auto
  then show ?thesis
  proof cases
    case root
    let ?t = "t0\<lparr>bt_size := 1, nodes := (nodes t0)(b \<mapsto> node_create None (ToValue x)), top := Some b\<rparr>"
    have xs: "xs = []" and rep': "bt_rep ?t (f(1 := b)) [] (g(1 := x))"
      using bt_rep_root [OF rep0] root t0(1) by simp_all
    have "top t = None" using sh root by (simp add: bt_shape_def)
    then have add: "bt_node_add True (Some b) t (ToValue x) = Some (?t, 1)"
      using v by (simp add: bt_node_add_def t0_def Let_def)
    show ?thesis
    proof (rule that [OF add])
      show "bt_wf ?t" using rep' unfolding bt_wf_def by blast
      show "bt_lookup ?t = (bt_lookup t)(1 \<mapsto> x)"
        by (rule ext, unfold fun_upd_apply look bt_lookup_rep [OF rep']) (use root in \<open>auto simp: t0\<close>)
    qed (use root fl xs in \<open>simp_all add: look t0\<close>)
  next
    case (reuse i ys)
    obtain n where n: "nodes t0 (f i) = Some n" and fp: "free_list t = ToNode (f i)"
      using fl(4) reuse by (auto simp: t0)
    let ?t = "t0\<lparr>free_list := node_value n,
        nodes := (nodes t0)(f i \<mapsto> n\<lparr>node_value := ToValue x, free_flag := False\<rparr>),
        free_nodes := bt_dec (free_nodes t0)\<rparr>"
    have rep': "bt_rep ?t f ys (g(i := x))"
      using bt_rep_reuse [OF rep0 [unfolded reuse(2)] n] by simp
    have i: "1 \<le> i" "i \<le> bt_size t" "i \<notin> set ys" using fl reuse by auto
    have "get_node_handle (nodes ?t) (f i) 1 = Some i"
      using get_node_handle_top [OF bt_rep_shape [OF rep'] i(1)] i(2) by (simp add: t0)
    moreover obtain a where "top t = Some a" using sh reuse by (simp add: bt_shape_def)
    ultimately have add: "bt_node_add True (Some b) t (ToValue x) = Some (?t, i)"
      using v fp n by (simp add: bt_node_add_def t0_def Let_def)
    show ?thesis
    proof (rule that [OF add])
      show "bt_wf ?t" using rep' unfolding bt_wf_def by blast
      show "bt_lookup ?t = (bt_lookup t)(i \<mapsto> x)"
        by (rule ext, unfold fun_upd_apply look bt_lookup_rep [OF rep']) (use i reuse in \<open>auto simp: t0\<close>)
    qed (use i fl reuse in \<open>simp_all add: look t0 bt_dec_def\<close>)
  next
    case attach
    have e: "Suc (bt_size t) * 2 ^ 0 + 0 = Suc (bt_size t)" "2 \<le> Suc (bt_size t)" "(0::nat) < 2 ^ 0"
      using attach(1) by auto
    obtain l q c where q: "q < 2 ^ l" "Suc (bt_size t) = bt_kid l q c"
      and att: "\<forall>m v. bt_attach (nodes t) (f (2 ^ 0 + 0)) (Suc (bt_size t)) m v =
         Some (map_option (\<lambda>b. bt_attached (nodes t) (f (2 ^ l + q)) c b v) m)"
      using bt_attach_shape [OF sh e(3,2,1)] by blast
    let ?t = "t0\<lparr>nodes := bt_attached (nodes t0) (f (2 ^ l + q)) c b (ToValue x), bt_size := bt_size t0 + 1\<rparr>"
    have rep': "bt_rep ?t (f(Suc (bt_size t0) := b)) [] (g(Suc (bt_size t0) := x))"
      by (rule bt_rep_attach) (use rep0 q b attach in \<open>simp_all add: t0\<close>)
    have "top t = Some (f 1)" using sh attach by (simp add: bt_shape_def)
    moreover have "free_list t = Null" using fl(4) attach by simp
    ultimately have add: "bt_node_add True (Some b) t (ToValue x) = Some (?t, Suc (bt_size t))"
      using v att by (simp add: bt_node_add_def t0_def Let_def)
    show ?thesis
    proof (rule that [OF add])
      show "bt_wf ?t" using rep' unfolding bt_wf_def by blast
      show "bt_lookup ?t = (bt_lookup t)(Suc (bt_size t) \<mapsto> x)"
        by (rule ext, unfold fun_upd_apply look bt_lookup_rep [OF rep']) (use attach in \<open>auto simp: t0\<close>)
    qed (use fl attach in \<open>simp_all add: look t0\<close>)
  qed
qed

lemma bt_inv_add:
  assumes inv: "bt_inv t held" and l: "bt_lookup t h = None" and x: "x \<notin> set (deleted t)" "ref t x = 0"
    and t': "bt_wf t'" "bt_lookup t' = (bt_lookup t)(h \<mapsto> x)" "ref t' = (ref t)(x := 1)" "deleted t' = deleted t"
  shows "bt_inv t' held"
proof (rule bt_invI)
  have nx: "x \<notin> ran (bt_lookup t)" "held x = 0" using bt_inv_ref [OF inv x(1)] x(2) by (auto split: if_splits)
  have ran: "ran (bt_lookup t') = insert x (ran (bt_lookup t))" using l by (simp add: t'(2))
  show "bt_wf t'" by fact
  show "i = j" if "bt_lookup t' i = Some y" "bt_lookup t' j = Some y" for i j y
    using bt_inv_inj [OF inv, of i y j] nx(1) that by (auto simp: t'(2) intro: ranI split: if_splits)
  show "y \<notin> set (deleted t')" if "y \<in> ran (bt_lookup t') \<or> 0 < held y" for y
    using bt_inv_alive [OF inv, of y] x that by (auto simp: ran t'(4))
  show "ref t' y = (if y \<in> ran (bt_lookup t') then 1 else 0) + held y" if "y \<notin> set (deleted t')" for y
    using bt_inv_ref [OF inv, of y] nx that by (cases "y = x") (simp_all add: ran t'(3,4))
  show "distinct (deleted t')" using bt_inv_distinct [OF inv] by (simp add: t'(4))
qed

lemma bt_node_add_ok:
  assumes inv: "bt_inv t held" and u: "bt_usable t b x"
  obtains t' h where "bt_node_add True (Some b) t (ToValue x) = Some (t', h)" "bt_inv t' held"
    "h \<noteq> 0" "bt_lookup t h = None" "bt_lookup t' = (bt_lookup t)(h \<mapsto> x)"
    "deleted t' = deleted t" "delete_func t' = delete_func t"
    "bt_size t' = (if free_nodes t = 0 then bt_size t + 1 else bt_size t)"
proof -
  have b: "nodes t b = None" and x: "x \<notin> set (deleted t)" "ref t x = 0" using u by (auto simp: bt_usable_def)
  from bt_node_add_wf [OF bt_inv_wf [OF inv] b x(1)] obtain t' h where
    add: "bt_node_add True (Some b) t (ToValue x) = Some (t', h)" and
    t': "bt_wf t'" "h \<noteq> 0" "bt_lookup t h = None" "bt_lookup t' = (bt_lookup t)(h \<mapsto> x)"
    "ref t' = (ref t)(x := 1)" "deleted t' = deleted t" "delete_func t' = delete_func t"
    "bt_size t' = (if free_nodes t = 0 then bt_size t + 1 else bt_size t)" by metis
  show ?thesis
    by (rule that [OF add bt_inv_add [OF inv t'(3) x t'(1,4,5,6)] t'(2,3,4,6,7,8)])
qed

section \<open>The contract of a handle table\<close>

text \<open>
  What a component that keeps its objects in such a tree relies on. \<open>usable\<close> is what the
  caller must provide for an insertion (an allocation that succeeded, a fresh value).
\<close>

locale handle_table =
  fixes invar :: "'t \<Rightarrow> bool"
    and look :: "'t \<Rightarrow> nat \<Rightarrow> 'v option"
    and usable :: "'t \<Rightarrow> 'a \<Rightarrow> 'v \<Rightarrow> bool"
    and add :: "'a \<Rightarrow> 't \<Rightarrow> 'v \<Rightarrow> ('t \<times> nat) option"
    and remove :: "'t \<Rightarrow> nat \<Rightarrow> 't option"
  assumes add_law: "invar t \<Longrightarrow> usable t a v \<Longrightarrow>
      \<exists>t' h. add a t v = Some (t', h) \<and> invar t' \<and> h \<noteq> 0 \<and> look t h = None \<and> look t' = (look t)(h \<mapsto> v)"
    and remove_law: "invar t \<Longrightarrow> \<exists>t'. remove t h = Some t' \<and> invar t' \<and> look t' = (look t)(h := None)"
    and zero_law: "invar t \<Longrightarrow> look t 0 = None"
begin

lemma add_lookup:
  assumes "invar t" "usable t a v" "add a t v = Some (t', h)"
  shows "invar t'" "h \<noteq> 0" "look t' h = Some v" "look t h = None"
    "h' \<noteq> h \<Longrightarrow> look t' h' = look t h'"
  using add_law [OF assms(1,2)] assms(3) by auto

lemma add_keeps_live:
  assumes "invar t" "usable t a v" "add a t v = Some (t', h)" "look t h' = Some w"
  shows "look t' h' = Some w" "h' \<noteq> h"
proof -
  show "h' \<noteq> h" using add_lookup(4) [OF assms(1-3)] assms(4) by auto
  then show "look t' h' = Some w" using add_lookup(5) [OF assms(1-3)] assms(4) by simp
qed

lemma remove_lookup:
  assumes "invar t" "remove t h = Some t'"
  shows "invar t'" "look t' h = None" "h' \<noteq> h \<Longrightarrow> look t' h' = look t h'"
  using remove_law [OF assms(1), of h] assms(2) by auto

lemma add_then_remove:
  assumes "invar t" "usable t a v" "add a t v = Some (t', h)"
  shows "\<exists>t''. remove t' h = Some t'' \<and> invar t'' \<and> look t'' = look t"
proof -
  note ad = add_lookup [OF assms]
  obtain t'' where t'': "remove t' h = Some t''" "invar t''" "look t'' = (look t')(h := None)"
    using remove_law [OF ad(1), of h] by blast
  have "look t'' k = look t k" for k
    using t''(3) ad(4) ad(5) [of k] by (cases "k = h") auto
  with t'' show ?thesis by blast
qed

text \<open>Handles are unique: two additions in a row never give the same handle.\<close>

lemma add_add_distinct:
  assumes "invar t" "usable t a v" "add a t v = Some (t', h)" "usable t' b w" "add b t' w = Some (t'', k)"
  shows "h \<noteq> k" "look t'' h = Some v" "look t'' k = Some w"
proof -
  note a1 = add_lookup [OF assms(1-3)]
  note a2 = add_lookup [OF a1(1) assms(4,5)]
  show "h \<noteq> k" using a1(3) a2(4) by auto
  then show "look t'' h = Some v" using a2(5) a1(3) by simp
  show "look t'' k = Some w" by (rule a2(3))
qed

end

definition bt_ok :: "btree \<Rightarrow> bool" where
  "bt_ok t \<longleftrightarrow> (\<exists>held. bt_inv t held)"

definition bt_insert :: "addr \<Rightarrow> btree \<Rightarrow> vptr \<Rightarrow> (btree \<times> nat) option" where
  "bt_insert b t x = bt_node_add True (Some b) t (ToValue x)"

definition bt_remove :: "btree \<Rightarrow> nat \<Rightarrow> btree option" where
  "bt_remove t h = map_option fst (bt_node_free True t h True)"

interpretation bth: handle_table bt_ok bt_lookup bt_usable bt_insert bt_remove
proof
  fix t b x assume "bt_ok t" "bt_usable t b x"
  then obtain held where "bt_inv t held" by (auto simp: bt_ok_def)
  from bt_node_add_ok [OF this \<open>bt_usable t b x\<close>]
  show "\<exists>t' h. bt_insert b t x = Some (t', h) \<and> bt_ok t' \<and> h \<noteq> 0 \<and> bt_lookup t h = None \<and>
      bt_lookup t' = (bt_lookup t)(h \<mapsto> x)"
    unfolding bt_insert_def bt_ok_def by metis
next
  fix t h assume "bt_ok t"
  then obtain held where inv: "bt_inv t held" by (auto simp: bt_ok_def)
  show "\<exists>t'. bt_remove t h = Some t' \<and> bt_ok t' \<and> bt_lookup t' = (bt_lookup t)(h := None)"
  proof (cases "bt_lookup t h")
    case None
    then have "(bt_lookup t)(h := None) = bt_lookup t" by (simp add: fun_upd_idem)
    with None \<open>bt_ok t\<close> bt_node_free_None [OF bt_inv_wf [OF inv] None] show ?thesis
      by (simp add: bt_remove_def)
  next
    case (Some x)
    obtain t' where "bt_node_free True t h True = Some (t', ToValue x)" "bt_inv t' held"
      "bt_lookup t' = (bt_lookup t)(h := None)"
      by (rule bt_node_free_put [OF inv Some])
    then show ?thesis unfolding bt_remove_def bt_ok_def by auto
  qed
next
  fix t assume "bt_ok t"
  then show "bt_lookup t 0 = None"
    by (simp add: bt_lookup_def bt_get_node_locked_def)
qed

section \<open>Counting\<close>

lemma bt_live_card:
  assumes "bt_wf t"
  shows "card (dom (bt_lookup t)) = bt_size t - free_nodes t" "free_nodes t \<le> bt_size t"
proof -
  obtain f xs g where rep: "bt_rep t f xs g" using assms by (auto simp: bt_wf_def)
  note fl = bt_rep_free_list [OF rep]
  have "dom (bt_lookup t) = {1..bt_size t} - set xs"
    by (auto simp: dom_def bt_lookup_rep [OF rep] split: if_splits)
  moreover have "card (set xs) = free_nodes t" using fl by (simp add: distinct_card)
  ultimately show "card (dom (bt_lookup t)) = bt_size t - free_nodes t"
    using fl(2) by (simp add: card_Diff_subset)
  show "free_nodes t \<le> bt_size t"
    using card_mono [OF _ fl(2)] fl(1,3) by (simp add: distinct_card)
qed

lemma bt_lookup_finite:
  assumes "bt_wf t"
  shows "finite (dom (bt_lookup t))"
proof -
  have "dom (bt_lookup t) \<subseteq> {1..bt_size t}" using bt_lookup_bounds [OF assms] by auto
  then show ?thesis by (rule finite_subset) simp
qed

section \<open>Initial tree\<close>

definition bt_fresh :: "bool \<Rightarrow> btree" where
  "bt_fresh df = \<lparr>top = None, bt_size = 0, free_list = Null, free_nodes = 0, delete_func = df,
     nodes = (\<lambda>_. None), ref = (\<lambda>_. 0), deleted = []\<rparr>"

lemma bt_fresh_inv: "bt_inv (bt_fresh df) (\<lambda>_. 0)"
proof -
  have rep: "bt_rep (bt_fresh df) (\<lambda>_. 0) [] (\<lambda>_. 0)"
    by (rule bt_repI) (auto simp: bt_fresh_def bt_shape_def bt_links_def)
  have look: "bt_lookup (bt_fresh df) = (\<lambda>_. None)"
    by (rule ext) (simp add: bt_lookup_rep [OF rep], simp add: bt_fresh_def)
  have "bt_wf (bt_fresh df)" using rep unfolding bt_wf_def by blast
  then show ?thesis by (intro bt_invI) (auto simp: look, auto simp: bt_fresh_def)
qed

lemma bt_init_fresh: "bt_init True True True df (bt_fresh d0) = (bt_fresh df, CKR_OK)"
  by (simp add: bt_init_def bt_fresh_def)


section \<open>Threads that share a tree\<close>







section \<open>Visiting every node\<close>


definition bt_live :: "btree \<Rightarrow> nat list" where
  "bt_live t = filter (\<lambda>i. bt_lookup t i \<noteq> None) [1..<Suc (bt_size t)]"

lemma bt_live_sorted:
  assumes "bt_wf t"
  shows "bt_live t = sorted_list_of_set (dom (bt_lookup t))"
proof -
  have "set (bt_live t) = dom (bt_lookup t)"
    using bt_lookup_bounds [OF assms] by (fastforce simp: bt_live_def)
  moreover have "sorted (bt_live t)" "distinct (bt_live t)" by (simp_all add: bt_live_def sorted_wrt_filter del: upt_Suc)
  ultimately show ?thesis by (metis sorted_list_of_set.idem_if_sorted_distinct)
qed



section \<open>Destroying a tree\<close>

definition bt_below :: "btree \<Rightarrow> (nat \<Rightarrow> addr) \<Rightarrow> nat \<Rightarrow> vptr list \<Rightarrow> btree" where
  "bt_below t f j ds = t\<lparr>nodes := nodes t |` (f ` {1..j}), bt_size := j, deleted := ds\<rparr>"

lemma bt_below_fields [simp]:
  "nodes (bt_below t f j ds) = nodes t |` (f ` {1..j})" "top (bt_below t f j ds) = top t"
  "delete_func (bt_below t f j ds) = delete_func t" "deleted (bt_below t f j ds) = ds"
  by (simp_all add: bt_below_def)

lemma bt_down_below:
  assumes sh: "bt_shape sz ns tp f" and "j \<le> sz"
  shows "bt_down j (ns |` (f ` {1..j})) f"
  unfolding bt_down_def
proof (intro conjI allI impI)
  show "f ` {1..j} \<subseteq> dom (ns |` (f ` {1..j}))" using assms by (auto simp: bt_shape_def)
  fix k r n c
  assume *: "r < 2 ^ k" "bt_kid k r c \<le> j" "(ns |` (f ` {1..j})) (f (2 ^ k + r)) = Some n"
  then have "ns (f (2 ^ k + r)) = Some n" by (auto simp: restrict_map_def split: if_splits)
  then show "bt_child n c = Some (f (bt_kid k r c))"
    using bt_shape_down [OF sh] * assms(2) unfolding bt_down_def by (meson le_trans)
qed

lemma bt_destroy_step:
  assumes rep: "bt_rep t f xs g" and j: "Suc j \<le> bt_size t"
    and ds: "\<And>x. bt_lookup t (Suc j) = Some x \<Longrightarrow> x \<notin> set ds"
  shows "bt_destroy_loop (Suc j) (bt_below t f (Suc j) ds) =
    bt_destroy_loop j (bt_below t f j
      (ds @ (case bt_lookup t (Suc j) of None \<Rightarrow> [] | Some x \<Rightarrow> if delete_func t then [x] else [])))"
proof -
  note sh = bt_rep_shape [OF rep]
  let ?t = "bt_below t f (Suc j) ds"
  have j1: "1 \<le> Suc j" by simp
  obtain n where n: "nodes t (f (Suc j)) = Some n" "free_flag n = (Suc j \<in> set xs)"
      "Suc j \<notin> set xs \<longrightarrow> node_value n = ToValue (g (Suc j))"
    using bt_rep_node [OF rep j1 j] by metis
  have look: "bt_lookup t (Suc j) = (if Suc j \<in> set xs then None else Some (g (Suc j)))"
    using j by (simp add: bt_lookup_rep [OF rep])
  have top: "top t = Some (f 1)" using sh j by (simp add: bt_shape_def)
  have d: "bt_descend (nodes ?t) (top ?t) (Suc j) = Some (Some (f (Suc j)))"
    using bt_descend_root [OF bt_down_below [OF sh j]] top by simp
  have "f (Suc j) \<notin> f ` {1..j}"
  proof
    assume "f (Suc j) \<in> f ` {1..j}"
    then obtain i where "i \<in> {1..j}" "f i = f (Suc j)" by auto
    with bt_shape_inj [OF sh, of i "Suc j"] j show False by simp
  qed
  then have "(nodes t |` (f ` {1..Suc j}))(f (Suc j) := None) = nodes t |` (f ` {1..j})"
    by (auto simp: restrict_map_def fun_eq_iff atLeastAtMostSuc_conv)
  then have res: "bt_below t f (Suc j) ds \<lparr>deleted := ds', nodes := (nodes ?t)(f (Suc j) := None), bt_size := j\<rparr>
      = bt_below t f j ds'" for ds'
    by (simp add: bt_below_def)
  have at: "nodes ?t (f (Suc j)) = Some n" using n(1) by simp
  have same: "?t\<lparr>deleted := ds\<rparr> = ?t" by (simp add: bt_below_def)
  show ?thesis
    using d at n(2,3) ds look res [of ds] res [of "ds @ [g (Suc j)]"]
    by (auto simp: value_hdr_def same split: if_splits)
qed

lemma bt_destroy_loop_ok:
  assumes rep: "bt_rep t f xs g"
    and inj: "\<And>i k x. bt_lookup t i = Some x \<Longrightarrow> bt_lookup t k = Some x \<Longrightarrow> i = k"
  shows "j \<le> bt_size t \<Longrightarrow> (\<And>i x. i \<le> j \<Longrightarrow> bt_lookup t i = Some x \<Longrightarrow> x \<notin> set ds) \<Longrightarrow>
    bt_destroy_loop j (bt_below t f j ds) =
      Some (bt_below t f 0 (ds @ (if delete_func t
        then map (the \<circ> bt_lookup t) (rev (filter (\<lambda>i. bt_lookup t i \<noteq> None) [1..<Suc j])) else [])))"
proof (induction j arbitrary: ds)
  case 0
  then show ?case by simp
next
  case (Suc j)
  let ?e = "case bt_lookup t (Suc j) of None \<Rightarrow> [] | Some x \<Rightarrow> if delete_func t then [x] else []"
  have "bt_destroy_loop (Suc j) (bt_below t f (Suc j) ds) = bt_destroy_loop j (bt_below t f j (ds @ ?e))"
    using bt_destroy_step [OF rep Suc.prems(1)] Suc.prems(2) by blast
  also have "\<dots> = Some (bt_below t f 0 ((ds @ ?e) @ (if delete_func t
        then map (the \<circ> bt_lookup t) (rev (filter (\<lambda>i. bt_lookup t i \<noteq> None) [1..<Suc j])) else [])))"
  proof (rule Suc.IH)
    show "j \<le> bt_size t" using Suc.prems(1) by simp
    fix i x assume "i \<le> j" "bt_lookup t i = Some x"
    moreover from this have "bt_lookup t (Suc j) \<noteq> Some x" using inj [of i x "Suc j"] by auto
    ultimately show "x \<notin> set (ds @ ?e)"
      using Suc.prems(2) [of i x] by (auto split: option.splits if_splits)
  qed
  finally show ?case by (auto split: option.splits)
qed

lemma bt_destroy_ok:
  assumes inv: "bt_inv t held"
  shows "bt_destroy True t = Some (t\<lparr>top := None, bt_size := 0, free_list := Null, free_nodes := 0,
    nodes := (\<lambda>_. None), delete_func := False,
    deleted := deleted t @ (if delete_func t then map (the \<circ> bt_lookup t) (rev (bt_live t)) else [])\<rparr>)"
proof -
  obtain f xs g where rep: "bt_rep t f xs g" using bt_inv_wf [OF inv] by (auto simp: bt_wf_def)
  have "dom (nodes t) \<subseteq> f ` {1..bt_size t}" using bt_rep_shape [OF rep] by (simp add: bt_shape_def)
  then have "nodes t |` (f ` {1..bt_size t}) = nodes t"
    by (auto simp: restrict_map_def fun_eq_iff) (metis domIff subsetD imageE)
  then have "bt_below t f (bt_size t) (deleted t) = t" by (simp add: bt_below_def)
  moreover have "bt_destroy_loop (bt_size t) (bt_below t f (bt_size t) (deleted t)) =
      Some (bt_below t f 0 (deleted t @ (if delete_func t then map (the \<circ> bt_lookup t) (rev (bt_live t)) else [])))"
    unfolding bt_live_def
    by (rule bt_destroy_loop_ok [OF rep bt_inv_inj [OF inv]])
       (use bt_inv_live(1) [OF inv] in auto)
  ultimately show ?thesis by (simp add: bt_destroy_def bt_below_def restrict_map_def)
qed

section \<open>Properties\<close>






text \<open>
  C19: Inserting a value gives a handle that is not 0 and was not in use; afterwards the
  handle, and no other one, leads to the value. A new node is added only if no freed node
  can be used again, and the invariant is kept.
\<close>

theorem bt_node_add_correct:
  assumes "bt_inv t held" "bt_usable t b x"
  shows "\<exists>t' h. bt_node_add True (Some b) t (ToValue x) = Some (t', h) \<and> bt_inv t' held \<and>
    h \<noteq> 0 \<and> bt_lookup t h = None \<and> bt_lookup t' = (bt_lookup t)(h \<mapsto> x) \<and>
    deleted t' = deleted t \<and> bt_size t' = (if free_nodes t = 0 then bt_size t + 1 else bt_size t)"
  by (rule bt_node_add_ok [OF assms]) blast

theorem bt_node_add_correct_witness:
  "\<exists>t' h. bt_node_add True (Some 100) (bt_fresh True) (ToValue 7) = Some (t', h) \<and>
     bt_lookup t' h = Some 7 \<and> bt_size t' = 1"
  using bt_node_add_correct [OF bt_fresh_inv, of True 100 7] by (auto simp: bt_usable_def bt_fresh_def)

text \<open>
  C25: Freeing a handle in use returns its value, takes exactly that handle out of the table
  and calls the delete callback exactly when no thread holds a reference to the value;
  without \<open>put_value\<close> the table's reference passes to the caller instead.
\<close>

theorem bt_node_free_correct:
  assumes "bt_inv t held" "bt_lookup t h = Some x"
  shows "(\<exists>t'. bt_node_free True t h True = Some (t', ToValue x) \<and> bt_inv t' held \<and>
      bt_lookup t' = (bt_lookup t)(h := None) \<and>
      deleted t' = (if held x = 0 \<and> delete_func t then deleted t @ [x] else deleted t)) \<and>
    (\<exists>t'. bt_node_free True t h False = Some (t', ToValue x) \<and> bt_inv t' (held(x := held x + 1)) \<and>
      bt_lookup t' = (bt_lookup t)(h := None) \<and> deleted t' = deleted t)"
  using bt_node_free_put [OF assms] bt_node_free_keep [OF assms] by metis

definition bt_one :: btree where
  "bt_one = (bt_fresh True)\<lparr>top := Some 100, bt_size := 1,
     nodes := [100 \<mapsto> node_create None (ToValue 7)], ref := (\<lambda>_. 0)(7 := 1)\<rparr>"

lemma bt_one_inv: "bt_inv bt_one (\<lambda>_. 0)" "bt_lookup bt_one = [1 \<mapsto> 7]"
proof -
  have u: "bt_usable (bt_fresh True) 100 7" by (simp add: bt_usable_def bt_fresh_def)
  have add: "bt_node_add True (Some 100) (bt_fresh True) (ToValue 7) = Some (bt_one, 1)"
    by (simp add: bt_node_add_def bt_fresh_def value_hdr_def Let_def bt_one_def)
  have "bt_lookup (bt_fresh True) = (\<lambda>_. None)"
    by (auto simp: bt_lookup_def bt_get_node_locked_def bt_fresh_def fun_eq_iff)
  with bt_node_add_ok [OF bt_fresh_inv u] add
  show "bt_inv bt_one (\<lambda>_. 0)" "bt_lookup bt_one = [1 \<mapsto> 7]" by (metis option.inject prod.inject)+
qed

lemma bt_one_fields [simp]: "delete_func bt_one" "deleted bt_one = []"
  by (simp_all add: bt_one_def bt_fresh_def)

theorem bt_node_free_correct_witness:
  "\<exists>t'. bt_node_free True bt_one 1 True = Some (t', ToValue 7) \<and> bt_lookup t' 1 = None \<and> deleted t' = [7]"
  using bt_node_free_correct [OF bt_one_inv(1), of 1 7] bt_one_inv(2) by auto

text \<open>
  The handle given out for a value stays valid, whatever is inserted next, and leads to
  the value until it is freed; freeing it restores the table as it was before.
\<close>

lemma bt_handles_stable:
  assumes "bt_ok t" "bt_usable t b x" "bt_insert b t x = Some (t', h)"
    and "bt_usable t' c y" "bt_insert c t' y = Some (t'', k)"
  shows "h \<noteq> k \<and> bt_lookup t'' h = Some x \<and> bt_lookup t'' k = Some y \<and>
    (\<exists>s. bt_remove t'' k = Some s \<and> bt_ok s \<and> bt_lookup s = bt_lookup t')"
  using bth.add_add_distinct [OF assms] bth.add_then_remove [OF bth.add_lookup(1) [OF assms(1-3)] assms(4,5)]
  by blast

lemma bt_two_inserts:
  obtains t' h t'' k where "bt_insert 100 (bt_fresh True) 7 = Some (t', h)" "bt_usable t' 101 8"
    "bt_insert 101 t' 8 = Some (t'', k)"
proof -
  have u: "bt_usable (bt_fresh True) 100 7" by (simp add: bt_usable_def bt_fresh_def)
  have a: "bt_insert 100 (bt_fresh True) 7 = Some (bt_one, 1)"
    by (simp add: bt_insert_def bt_node_add_def bt_fresh_def value_hdr_def Let_def bt_one_def)
  have u2: "bt_usable bt_one 101 8" by (simp add: bt_usable_def bt_one_def bt_fresh_def)
  have "bt_ok bt_one" using bt_one_inv(1) unfolding bt_ok_def by blast
  then obtain t'' k where "bt_insert 101 bt_one 8 = Some (t'', k)" using bth.add_law u2 by blast
  from that [OF a u2 this] show ?thesis .
qed



text \<open>
  C27: \<open>bt_destroy\<close> returns, frees every node, and calls the delete callback exactly once on
  each value still in the table and on nothing else.
\<close>

theorem bt_destroy_complete:
  assumes "bt_inv t held" "delete_func t"
  shows "\<exists>t' vs. bt_destroy True t = Some t' \<and> nodes t' = (\<lambda>_. None) \<and> top t' = None \<and> bt_size t' = 0 \<and>
    deleted t' = deleted t @ vs \<and> distinct vs \<and> set vs = ran (bt_lookup t)"
proof -
  have dist: "distinct (map (the \<circ> bt_lookup t) (rev (bt_live t)))"
    using bt_inv_inj [OF assms(1)]
    by (auto simp: distinct_map bt_live_def inj_on_def simp del: upt_Suc)
  have "set (map (the \<circ> bt_lookup t) (rev (bt_live t))) = ran (bt_lookup t)"
    using bt_live_sorted [OF bt_inv_wf [OF assms(1)]] bt_lookup_finite [OF bt_inv_wf [OF assms(1)]]
    by (auto simp: ran_def image_iff dom_def) (metis option.sel)
  with dist bt_destroy_ok [OF assms(1)] assms(2) show ?thesis by simp
qed

theorem bt_destroy_complete_witness:
  "\<exists>t'. bt_destroy True bt_one = Some t' \<and> nodes t' = (\<lambda>_. None) \<and> 7 \<in> set (deleted t')"
  using bt_destroy_complete [OF bt_one_inv(1)] by (auto simp: bt_one_inv(2))

text \<open>
  The counters are exact: \<open>bt_nodes_in_use\<close> is the number of handles in use, and
  \<open>bt_is_empty\<close> holds exactly when there are none.
\<close>

lemma bt_counts_exact:
  assumes "bt_inv t held"
  shows "bt_nodes_in_use True t = card (dom (bt_lookup t)) \<and>
    (bt_is_empty True t \<longleftrightarrow> bt_lookup t = (\<lambda>_. None))"
proof -
  note wf = bt_inv_wf [OF assms]
  have "bt_is_empty True t \<longleftrightarrow> card (dom (bt_lookup t)) = 0"
    using bt_live_card [OF wf] by (auto simp: bt_is_empty_def)
  moreover have "card (dom (bt_lookup t)) = 0 \<longleftrightarrow> bt_lookup t = (\<lambda>_. None)"
    using bt_lookup_finite [OF wf] by simp
  ultimately show ?thesis using bt_live_card [OF wf] by (simp add: bt_nodes_in_use_def)
qed

text \<open>
  If \<^verbatim>\<open>malloc\<close> fails in the very first insertion, \<open>bt_node_add\<close> reports failure but
  leaves \<^verbatim>\<open>size\<close> at 1 with no root: from there a lookup or release of handle 1 and the
  destruction of the tree dereference NULL. (A later insertion repairs the tree.)
\<close>

lemma bt_root_alloc_failure:
  "\<exists>t'. bt_node_add True None (bt_fresh df) (ToValue x) = Some (t', 0) \<and>
     bt_get_node_value True t' 1 = None \<and> bt_node_free True t' 1 p = None \<and> bt_destroy True t' = None"
  by (simp add: bt_node_add_def bt_fresh_def value_hdr_def Let_def bt_get_node_value_def
      bt_get_node_locked_def deref_def bt_node_free_def bt_destroy_def bt_descend.simps)

end
