(* ===== verification/Ncmp_Wire.thy ===== *)
theory Ncmp_Wire
  imports Ock_Prelude
begin

text \<open>
  The wire format of the NCMP token: \<^verbatim>\<open>ncmp/common/ncmp_wire.c\<close> with the types of
  \<^verbatim>\<open>ncmp_wire.h\<close>, the limits of \<^verbatim>\<open>ncmp_limits.h\<close> and the codes of \<^verbatim>\<open>ncmp_errno.h\<close>.
  Messages are encoded into and decoded from byte buffers; a \<^verbatim>\<open>payload\<close> pointer is the
  memory it refers to. The boolean argument \<open>ptrs\<close> of an operation says that all the pointers
  the code tests are non-NULL.
\<close>

section \<open>Limits, codes and messages\<close>

definition PKCS11_MAX_SLOT_COUNT :: nat where "PKCS11_MAX_SLOT_COUNT = 4"
definition PKCS11_MAX_SESSION_PER_SLOT :: nat where "PKCS11_MAX_SESSION_PER_SLOT = 8"
definition NCMP_MAX_PARAM_COUNT :: nat where "NCMP_MAX_PARAM_COUNT = 8"
definition NCMP_MAX_PARAM_SIZE :: nat where "NCMP_MAX_PARAM_SIZE = 32 * 1024"
definition NCMP_MAX_PAYLOAD_SIZE :: nat where "NCMP_MAX_PAYLOAD_SIZE = 40 * 1024"
definition NCMP_WIRE_ALIGN :: u64 where "NCMP_WIRE_ALIGN = 4"
definition NCMP_FRAME_PREFIX_SIZE :: nat where "NCMP_FRAME_PREFIX_SIZE = 4"
definition NCMP_HEADER_WIRE_SIZE :: nat where "NCMP_HEADER_WIRE_SIZE = 20"
definition NCMP_PARAM_LEN_ARRAY_SIZE :: nat where "NCMP_PARAM_LEN_ARRAY_SIZE = NCMP_MAX_PARAM_COUNT * 4"
definition NCMP_MAX_FRAME_SIZE :: nat where
  "NCMP_MAX_FRAME_SIZE = NCMP_FRAME_PREFIX_SIZE + NCMP_HEADER_WIRE_SIZE + NCMP_MAX_PAYLOAD_SIZE"

lemmas ncmp_limits = NCMP_MAX_PARAM_COUNT_def NCMP_MAX_PARAM_SIZE_def NCMP_MAX_PAYLOAD_SIZE_def
  NCMP_FRAME_PREFIX_SIZE_def NCMP_HEADER_WIRE_SIZE_def NCMP_PARAM_LEN_ARRAY_SIZE_def NCMP_MAX_FRAME_SIZE_def

datatype ncmp_rc =
    NCMP_OK | NCMP_ERR_INVAL | NCMP_ERR_NOSPACE | NCMP_ERR_PARAM_SIZE | NCMP_ERR_PAYLOAD
  | NCMP_ERR_TRUNCATED | NCMP_ERR_STATE | NCMP_ERR_TIMEOUT | NCMP_ERR_NODAEMON | NCMP_ERR_VERSION
  | NCMP_ERR_MUTEX | NCMP_ERR_USB | NCMP_ERR_FULL

fun ncmp_errno :: "ncmp_rc \<Rightarrow> int" where
  "ncmp_errno NCMP_OK = 0"
| "ncmp_errno NCMP_ERR_INVAL = - 1"
| "ncmp_errno NCMP_ERR_NOSPACE = - 2"
| "ncmp_errno NCMP_ERR_PARAM_SIZE = - 3"
| "ncmp_errno NCMP_ERR_PAYLOAD = - 4"
| "ncmp_errno NCMP_ERR_TRUNCATED = - 5"
| "ncmp_errno NCMP_ERR_STATE = - 6"
| "ncmp_errno NCMP_ERR_TIMEOUT = - 7"
| "ncmp_errno NCMP_ERR_NODAEMON = - 8"
| "ncmp_errno NCMP_ERR_VERSION = - 9"
| "ncmp_errno NCMP_ERR_MUTEX = - 10"
| "ncmp_errno NCMP_ERR_USB = - 11"
| "ncmp_errno NCMP_ERR_FULL = - 12"

record ncmp_header =
  session_id :: u32
  sequence_id :: u32
  command_id :: u32
  ack :: u32
  payload_len :: u32

record ncmp_message =
  header :: ncmp_header
  param_len :: "u32 list"
  payload :: "byte list option"
  payload_cap :: nat

text \<open>What the C types guarantee: eight lengths, and a buffer of the stated capacity.\<close>

definition msg_wf :: "ncmp_message \<Rightarrow> bool" where
  "msg_wf m \<longleftrightarrow> length (param_len m) = NCMP_MAX_PARAM_COUNT \<and>
     (\<forall>bs. payload m = Some bs \<longrightarrow> length bs = payload_cap m)"

definition ncmp_align4 :: "u64 \<Rightarrow> u64" where
  "ncmp_align4 n = and (n + (NCMP_WIRE_ALIGN - 1)) (not (NCMP_WIRE_ALIGN - 1))"

section \<open>Operations\<close>

definition put_u32le :: "byte list \<Rightarrow> nat \<Rightarrow> u32 \<Rightarrow> byte list option" where
  "put_u32le buf p v = put_bytes buf p (u32le v)"

definition get_u32le :: "byte list \<Rightarrow> nat \<Rightarrow> u32 option" where
  "get_u32le buf p = map_option le_u32 (get_bytes buf p 4)"

fun ncmp_validate_loop :: "u32 list \<Rightarrow> nat \<Rightarrow> ncmp_rc" where
  "ncmp_validate_loop [] total_len = (if total_len > NCMP_MAX_PAYLOAD_SIZE then NCMP_ERR_PAYLOAD else NCMP_OK)"
| "ncmp_validate_loop (l # ls) total_len =
     (if unat l > NCMP_MAX_PARAM_SIZE then NCMP_ERR_PARAM_SIZE else ncmp_validate_loop ls (total_len + unat l))"

definition ncmp_wire_validate_params :: "u32 list option \<Rightarrow> ncmp_rc" where
  "ncmp_wire_validate_params p =
     (case p of None \<Rightarrow> NCMP_ERR_INVAL | Some ls \<Rightarrow> ncmp_validate_loop ls NCMP_PARAM_LEN_ARRAY_SIZE)"

fun put_lens :: "byte list \<Rightarrow> nat \<Rightarrow> u32 list \<Rightarrow> byte list option" where
  "put_lens buf p [] = Some buf"
| "put_lens buf p (l # ls) = do { buf \<leftarrow> put_u32le buf p l; put_lens buf (p + 4) ls }"

text \<open>The \<^verbatim>\<open>memcpy\<close> of parameter bytes, skipped for length 0.\<close>

definition put_payload :: "byte list \<Rightarrow> nat \<Rightarrow> byte list option \<Rightarrow> u32 \<Rightarrow> byte list option" where
  "put_payload buf p src payload_sum =
     (if payload_sum > 0
      then do { src \<leftarrow> src; bs \<leftarrow> get_bytes src 0 (unat payload_sum); put_bytes buf p bs }
      else Some buf)"

text \<open>The result is the code, the buffer afterwards and, on success, the encoded length.\<close>

definition ncmp_wire_encode ::
  "bool \<Rightarrow> ncmp_message \<Rightarrow> byte list \<Rightarrow> nat \<Rightarrow> (ncmp_rc \<times> byte list \<times> nat) option" where
  "ncmp_wire_encode ptrs msg buf buf_len =
     (if \<not> ptrs then Some (NCMP_ERR_INVAL, buf, 0)
      else
        let rc = ncmp_wire_validate_params (Some (param_len msg)) in
        if rc \<noteq> NCMP_OK then Some (rc, buf, 0)
        else
          let payload_sum = sum_list (param_len msg);
              plen = of_nat NCMP_PARAM_LEN_ARRAY_SIZE + payload_sum;
              frame_len = of_nat NCMP_HEADER_WIRE_SIZE + plen;
              total_len = NCMP_FRAME_PREFIX_SIZE + unat frame_len in
          if buf_len < total_len then Some (NCMP_ERR_NOSPACE, buf, 0)
          else if payload_sum > 0 \<and> (payload msg = None \<or> payload_cap msg < unat payload_sum)
          then Some (NCMP_ERR_INVAL, buf, 0)
          else do {
            buf \<leftarrow> put_u32le buf 0 frame_len;
            buf \<leftarrow> put_u32le buf 4 (session_id (header msg));
            buf \<leftarrow> put_u32le buf 8 (sequence_id (header msg));
            buf \<leftarrow> put_u32le buf 12 (command_id (header msg));
            buf \<leftarrow> put_u32le buf 16 (ack (header msg));
            buf \<leftarrow> put_u32le buf 20 plen;
            buf \<leftarrow> put_lens buf 24 (param_len msg);
            buf \<leftarrow> put_payload buf (24 + 4 * length (param_len msg)) (payload msg) payload_sum;
            Some (NCMP_OK, buf, total_len)
          })"

text \<open>
  The loop of \<open>ncmp_msg_pack\<close> over the parts; \<open>i\<close> and \<open>off\<close> as in the code. The lengths and
  the buffer written so far stay in place when the loop returns an error.
\<close>

fun ncmp_pack_loop :: "nat \<Rightarrow> nat \<Rightarrow> nat \<Rightarrow> u32 list \<Rightarrow> byte list \<Rightarrow> (byte list option \<times> u32) list
    \<Rightarrow> (ncmp_rc \<times> nat \<times> u32 list \<times> byte list) option" where
  "ncmp_pack_loop cap i off pl buf [] = Some (NCMP_OK, off, pl, buf)"
| "ncmp_pack_loop cap i off pl buf ((part, l) # rest) =
     (if unat l > NCMP_MAX_PARAM_SIZE then Some (NCMP_ERR_PARAM_SIZE, off, pl, buf)
      else if l > 0 \<and> part = None then Some (NCMP_ERR_INVAL, off, pl, buf)
      else if off + unat l > cap then Some (NCMP_ERR_NOSPACE, off, pl, buf)
      else do {
        buf \<leftarrow> put_payload buf off part l;
        ncmp_pack_loop cap (Suc i) (off + unat l) (pl[i := l]) buf rest
      })"

definition ncmp_msg_pack :: "bool \<Rightarrow> ncmp_message \<Rightarrow> byte list \<Rightarrow> nat \<Rightarrow> byte list option list \<Rightarrow> u32 list
    \<Rightarrow> int \<Rightarrow> (ncmp_rc \<times> ncmp_message \<times> byte list) option" where
  "ncmp_msg_pack ptrs m buf cap parts lens nparts =
     (if \<not> ptrs \<or> nparts < 1 \<or> nparts > int NCMP_MAX_PARAM_COUNT then Some (NCMP_ERR_INVAL, m, buf)
      else if length parts < nat nparts \<or> length lens < nat nparts then None
      else do {
        (rc, off, pl, buf) \<leftarrow> ncmp_pack_loop cap 0 0 (replicate NCMP_MAX_PARAM_COUNT 0) buf
           (zip (take (nat nparts) parts) (take (nat nparts) lens));
        let m = m\<lparr>param_len := pl\<rparr>;
        if rc \<noteq> NCMP_OK then Some (rc, m, buf)
        else if NCMP_PARAM_LEN_ARRAY_SIZE + off > NCMP_MAX_PAYLOAD_SIZE then Some (NCMP_ERR_PAYLOAD, m, buf)
        else Some (NCMP_OK, m\<lparr>payload := Some buf, payload_cap := cap\<rparr>, buf)
      })"

text \<open>The pointer handed out is an offset into the payload, \<^term>\<open>None\<close> for NULL.\<close>

definition ncmp_msg_param :: "bool \<Rightarrow> ncmp_message \<Rightarrow> int \<Rightarrow> ncmp_rc \<times> nat option \<times> u32" where
  "ncmp_msg_param ptrs m idx =
     (if \<not> ptrs \<or> idx < 0 \<or> idx \<ge> int NCMP_MAX_PARAM_COUNT then (NCMP_ERR_INVAL, None, 0)
      else
        let off = sum_list (map unat (take (nat idx) (param_len m)));
            l = param_len m ! nat idx
        in (NCMP_OK, if l > 0 then Some off else None, l))"

text \<open>The header is written even when the consistency test fails afterwards.\<close>

definition ncmp_wire_decode_header ::
  "bool \<Rightarrow> byte list \<Rightarrow> nat \<Rightarrow> ncmp_header \<Rightarrow> (ncmp_rc \<times> ncmp_header) option" where
  "ncmp_wire_decode_header ptrs buf buf_len out =
     (if \<not> ptrs then Some (NCMP_ERR_INVAL, out)
      else if buf_len < NCMP_FRAME_PREFIX_SIZE + NCMP_HEADER_WIRE_SIZE then Some (NCMP_ERR_TRUNCATED, out)
      else do {
        frame_len \<leftarrow> get_u32le buf 0;
        sid \<leftarrow> get_u32le buf 4;
        seq \<leftarrow> get_u32le buf 8;
        cmd \<leftarrow> get_u32le buf 12;
        ak \<leftarrow> get_u32le buf 16;
        plen \<leftarrow> get_u32le buf 20;
        let out = \<lparr>session_id = sid, sequence_id = seq, command_id = cmd, ack = ak, payload_len = plen\<rparr>;
        if frame_len \<noteq> of_nat NCMP_HEADER_WIRE_SIZE + plen then Some (NCMP_ERR_TRUNCATED, out)
        else Some (NCMP_OK, out)
      })"

fun get_lens :: "byte list \<Rightarrow> nat \<Rightarrow> nat \<Rightarrow> u32 list option" where
  "get_lens buf p 0 = Some []"
| "get_lens buf p (Suc n) = do { l \<leftarrow> get_u32le buf p; ls \<leftarrow> get_lens buf (p + 4) n; Some (l # ls) }"

definition ncmp_wire_decode ::
  "bool \<Rightarrow> byte list \<Rightarrow> nat \<Rightarrow> ncmp_message \<Rightarrow> (ncmp_rc \<times> ncmp_message) option" where
  "ncmp_wire_decode ptrs buf buf_len out =
     (if \<not> ptrs then Some (NCMP_ERR_INVAL, out)
      else do {
        (rc, h) \<leftarrow> ncmp_wire_decode_header True buf buf_len (header out);
        let out = out\<lparr>header := h\<rparr>;
        if rc \<noteq> NCMP_OK then Some (rc, out)
        else if buf_len < NCMP_FRAME_PREFIX_SIZE + NCMP_HEADER_WIRE_SIZE + unat (payload_len h)
        then Some (NCMP_ERR_TRUNCATED, out)
        else if unat (payload_len h) < NCMP_PARAM_LEN_ARRAY_SIZE then Some (NCMP_ERR_TRUNCATED, out)
        else do {
          lens \<leftarrow> get_lens buf (NCMP_FRAME_PREFIX_SIZE + NCMP_HEADER_WIRE_SIZE) NCMP_MAX_PARAM_COUNT;
          let out = out\<lparr>param_len := lens\<rparr>;
          let sum = sum_list lens;
          if unat (payload_len h) \<noteq> NCMP_PARAM_LEN_ARRAY_SIZE + unat sum then Some (NCMP_ERR_TRUNCATED, out)
          else (case payload out of
              None \<Rightarrow> Some (NCMP_OK, out)
            | Some dst \<Rightarrow>
                if sum = 0 then Some (NCMP_OK, out)
                else if payload_cap out < unat sum then Some (NCMP_ERR_NOSPACE, out)
                else do {
                  bs \<leftarrow> get_bytes buf (NCMP_FRAME_PREFIX_SIZE + NCMP_HEADER_WIRE_SIZE + NCMP_PARAM_LEN_ARRAY_SIZE)
                                 (unat sum);
                  dst \<leftarrow> put_bytes dst 0 bs;
                  Some (NCMP_OK, out\<lparr>payload := Some dst\<rparr>)
                })
        }
      })"

section \<open>Encoding\<close>

text \<open>The frame a message stands for, written as one list.\<close>

definition wire_sum :: "ncmp_message \<Rightarrow> nat" where
  "wire_sum m = sum_list (map unat (param_len m))"

definition wire_header :: "ncmp_message \<Rightarrow> ncmp_header" where
  "wire_header m = (header m)\<lparr>payload_len := of_nat (NCMP_PARAM_LEN_ARRAY_SIZE + wire_sum m)\<rparr>"

definition wire_frame :: "ncmp_message \<Rightarrow> byte list" where
  "wire_frame m =
     u32le (of_nat (NCMP_HEADER_WIRE_SIZE + NCMP_PARAM_LEN_ARRAY_SIZE + wire_sum m)) @
     u32le (session_id (header m)) @ u32le (sequence_id (header m)) @ u32le (command_id (header m)) @
     u32le (ack (header m)) @ u32le (payload_len (wire_header m)) @ concat (map u32le (param_len m)) @
     (case payload m of None \<Rightarrow> [] | Some bs \<Rightarrow> take (wire_sum m) bs)"

definition wire_valid :: "ncmp_message \<Rightarrow> bool" where
  "wire_valid m \<longleftrightarrow> msg_wf m \<and> (\<forall>l \<in> set (param_len m). unat l \<le> NCMP_MAX_PARAM_SIZE) \<and>
     NCMP_PARAM_LEN_ARRAY_SIZE + wire_sum m \<le> NCMP_MAX_PAYLOAD_SIZE \<and>
     (wire_sum m = 0 \<or> (payload m \<noteq> None \<and> wire_sum m \<le> payload_cap m))"

lemma ncmp_validate_loop_iff:
  "ncmp_validate_loop ls total_len =
     (if \<exists>l \<in> set ls. unat l > NCMP_MAX_PARAM_SIZE then NCMP_ERR_PARAM_SIZE
      else if total_len + sum_list (map unat ls) > NCMP_MAX_PAYLOAD_SIZE then NCMP_ERR_PAYLOAD
      else NCMP_OK)"
  by (induction ls arbitrary: total_len) (auto simp: add.assoc)

lemma validate_OK_iff:
  "ncmp_wire_validate_params (Some ls) = NCMP_OK \<longleftrightarrow>
     (\<forall>l \<in> set ls. unat l \<le> NCMP_MAX_PARAM_SIZE) \<and>
     NCMP_PARAM_LEN_ARRAY_SIZE + sum_list (map unat ls) \<le> NCMP_MAX_PAYLOAD_SIZE"
  by (auto simp: ncmp_wire_validate_params_def ncmp_validate_loop_iff simp flip: not_le split: if_splits)

lemma unat_sum_list:
  "sum_list (map unat (ls :: u32 list)) < 2 ^ 32 \<Longrightarrow> unat (sum_list ls) = sum_list (map unat ls)"
proof (induction ls)
  case (Cons l ls)
  then have "unat (sum_list ls) = sum_list (map unat ls)" by simp
  with Cons.prems show ?case by (simp add: unat_word_ariths)
qed simp

lemma put_lens_append:
  assumes "length xs = p" "4 * length ls \<le> length ys"
  shows "put_lens (xs @ ys) p ls = Some (xs @ concat (map u32le ls) @ drop (4 * length ls) ys)"
  using assms
proof (induction ls arbitrary: xs p ys)
  case (Cons l ls)
  have "put_u32le (xs @ ys) p l = Some ((xs @ u32le l) @ drop 4 ys)"
    using put_bytes_append [of xs p "u32le l" ys] Cons.prems by (simp add: put_u32le_def)
  moreover have "put_lens ((xs @ u32le l) @ drop 4 ys) (p + 4) ls =
      Some ((xs @ u32le l) @ concat (map u32le ls) @ drop (4 * length ls) (drop 4 ys))"
    by (rule Cons.IH) (use Cons.prems in auto)
  ultimately show ?case by (simp add: add.commute)
qed simp

lemma put_u32le_append:
  "length xs = p \<Longrightarrow> 4 \<le> length ys \<Longrightarrow> put_u32le (xs @ ys) p v = Some ((xs @ u32le v) @ drop 4 ys)"
  by (simp add: put_u32le_def put_bytes_append)

lemma length_concat_u32le [simp]: "length (concat (map u32le ls)) = 4 * length ls"
  by (induction ls) auto

lemma wire_valid_sum:
  assumes "wire_valid m"
  shows "wire_sum m \<le> 40928" "unat (sum_list (param_len m)) = wire_sum m" "length (param_len m) = 8"
    "payload m = Some bs \<Longrightarrow> length bs = payload_cap m"
    "wire_sum m \<noteq> 0 \<Longrightarrow> \<exists>bs. payload m = Some bs \<and> wire_sum m \<le> length bs"
proof -
  show le: "wire_sum m \<le> 40928" using assms by (simp add: wire_valid_def ncmp_limits)
  then have "sum_list (map unat (param_len m)) < 2 ^ 32" by (simp add: wire_sum_def)
  from unat_sum_list [OF this] show "unat (sum_list (param_len m)) = wire_sum m" by (simp add: wire_sum_def)
  show "length (param_len m) = 8" "payload m = Some bs \<Longrightarrow> length bs = payload_cap m"
    "wire_sum m \<noteq> 0 \<Longrightarrow> \<exists>bs. payload m = Some bs \<and> wire_sum m \<le> length bs"
    using assms by (auto simp: wire_valid_def msg_wf_def ncmp_limits)
qed

lemma length_wire_frame:
  assumes "wire_valid m"
  shows "length (wire_frame m) = 56 + wire_sum m"
proof (cases "wire_sum m = 0")
  case True
  then show ?thesis using wire_valid_sum(3) [OF assms] by (simp add: wire_frame_def split: option.split)
next
  case False
  then obtain bs where "payload m = Some bs" "wire_sum m \<le> length bs" using wire_valid_sum(5) [OF assms] by blast
  then show ?thesis using wire_valid_sum(3) [OF assms] by (simp add: wire_frame_def)
qed

text \<open>Writing the fixed part of a frame: prefix, header and length array.\<close>

lemma put_fixed:
  assumes "length ls = 8" "56 \<le> length buf"
  shows "do { buf \<leftarrow> put_u32le buf 0 a; buf \<leftarrow> put_u32le buf 4 b; buf \<leftarrow> put_u32le buf 8 c;
              buf \<leftarrow> put_u32le buf 12 d; buf \<leftarrow> put_u32le buf 16 e; buf \<leftarrow> put_u32le buf 20 g;
              buf \<leftarrow> put_lens buf 24 ls; k buf } =
    k (u32le a @ u32le b @ u32le c @ u32le d @ u32le e @ u32le g @ concat (map u32le ls) @ drop 56 buf)"
proof -
  have "put_u32le buf 0 a = Some (u32le a @ drop 4 buf)"
    using put_u32le_append [of "[]" 0 buf] assms by simp
  then show ?thesis
    using assms by (simp add: put_u32le_append put_lens_append del: append_assoc) simp
qed

text \<open>A valid message that fits is written as its frame; the rest of the buffer is kept.\<close>

lemma ncmp_wire_encode_ok:
  assumes valid: "wire_valid m" and fit: "56 + wire_sum m \<le> buf_len" "buf_len \<le> length buf"
  shows "ncmp_wire_encode True m buf buf_len =
    Some (NCMP_OK, wire_frame m @ drop (56 + wire_sum m) buf, 56 + wire_sum m)"
proof -
  note ws = wire_valid_sum [OF valid]
  have v: "ncmp_wire_validate_params (Some (param_len m)) = NCMP_OK"
    using valid by (simp add: validate_OK_iff wire_valid_def wire_sum_def)
  let ?sum = "sum_list (param_len m)"
  have s: "of_nat (wire_sum m) = ?sum" unfolding ws(2) [symmetric] by simp
  have u: "unat (52 + ?sum) = 52 + wire_sum m"
    using ws(1,2) by (subst unat_add_lem [THEN iffD1]) simp_all
  have pos: "0 < ?sum \<longleftrightarrow> wire_sum m \<noteq> 0" using ws(2) by (metis unat_eq_0 word_gt_0)
  have inv: "\<not> (0 < ?sum \<and> (payload m = None \<or> payload_cap m < unat ?sum))"
    using ws(2,4,5) pos by fastforce
  let ?hd = "u32le (52 + ?sum) @ u32le (session_id (header m)) @ u32le (sequence_id (header m)) @
    u32le (command_id (header m)) @ u32le (ack (header m)) @ u32le (32 + ?sum) @ concat (map u32le (param_len m))"
  have hd: "length ?hd = 56" using ws(3) by simp
  have frame: "wire_frame m = ?hd @ (case payload m of None \<Rightarrow> [] | Some bs \<Rightarrow> take (wire_sum m) bs)"
    by (simp add: wire_frame_def wire_header_def ncmp_limits s)
  have tail: "put_payload (?hd @ drop 56 buf) 56 (payload m) ?sum = Some (wire_frame m @ drop (56 + wire_sum m) buf)"
  proof (cases "wire_sum m = 0")
    case True
    then show ?thesis using pos by (simp add: put_payload_def frame split: option.split)
  next
    case False
    then obtain bs where bs: "payload m = Some bs" "wire_sum m \<le> length bs" using ws(5) by blast
    then have "put_bytes (?hd @ drop 56 buf) 56 (take (wire_sum m) bs) =
        Some (?hd @ take (wire_sum m) bs @ drop (wire_sum m) (drop 56 buf))"
      using fit put_bytes_append [OF hd, of "take (wire_sum m) bs" "drop 56 buf"] by (simp add: min_def)
    with False pos bs ws(2) show ?thesis by (simp add: put_payload_def frame get_bytes_def add.commute)
  qed
  have l56: "56 \<le> length buf" using fit by simp
  have e: "24 + 4 * length (param_len m) = 56" using ws(3) by simp
  show ?thesis
    unfolding ncmp_wire_encode_def e
    using v u inv fit(1) tail
    by (simp add: Let_def ncmp_limits put_fixed [OF ws(3) l56] add.assoc [symmetric])
qed

lemma ncmp_wire_encode_error:
  assumes wf: "msg_wf m" and no: "\<not> (wire_valid m \<and> 56 + wire_sum m \<le> buf_len)"
  shows "\<exists>rc. rc \<noteq> NCMP_OK \<and> ncmp_wire_encode True m buf buf_len = Some (rc, buf, 0)"
proof (cases "ncmp_wire_validate_params (Some (param_len m)) = NCMP_OK")
  case False
  then show ?thesis by (simp add: ncmp_wire_encode_def)
next
  case True
  then have le: "wire_sum m \<le> 40928"
    by (simp add: validate_OK_iff wire_sum_def ncmp_limits)
  then have s: "unat (sum_list (param_len m)) = wire_sum m"
    using unat_sum_list [of "param_len m"] by (simp add: wire_sum_def)
  then have u: "unat (52 + sum_list (param_len m)) = 52 + wire_sum m"
    using le by (subst unat_add_lem [THEN iffD1]) simp_all
  have pos: "0 < sum_list (param_len m) \<longleftrightarrow> wire_sum m \<noteq> 0" using s by (metis unat_eq_0 word_gt_0)
  show ?thesis
  proof (cases "buf_len < 56 + wire_sum m")
    case small: True
    with True u show ?thesis by (simp add: ncmp_wire_encode_def Let_def ncmp_limits add.assoc [symmetric])
  next
    case False
    with no True wf have "wire_sum m \<noteq> 0 \<and> (payload m = None \<or> payload_cap m < wire_sum m)"
      by (auto simp: wire_valid_def validate_OK_iff wire_sum_def not_le)
    with False True u s pos show ?thesis
      by (simp add: ncmp_wire_encode_def Let_def ncmp_limits add.assoc [symmetric])
  qed
qed

section \<open>Decoding\<close>

lemma get_u32le_append:
  "length xs = p \<Longrightarrow> get_u32le (xs @ u32le v @ ys) p = Some v"
  by (simp add: get_u32le_def get_bytes_append)

lemma get_lens_append:
  "length xs = p \<Longrightarrow> get_lens (xs @ concat (map u32le ls) @ ys) p (length ls) = Some ls"
proof (induction ls arbitrary: xs p)
  case (Cons l ls)
  have "get_lens ((xs @ u32le l) @ concat (map u32le ls) @ ys) (p + 4) (length ls) = Some ls"
    using Cons.prems by (intro Cons.IH) simp
  with Cons.prems show ?case by (simp add: get_u32le_append)
qed simp

lemma get_fixed:
  "get_u32le (u32le a @ ys) 0 = Some a"
  "get_u32le (u32le a @ u32le b @ ys) 4 = Some b"
  "get_u32le (u32le a @ u32le b @ u32le c @ ys) 8 = Some c"
  "get_u32le (u32le a @ u32le b @ u32le c @ u32le d @ ys) 12 = Some d"
  "get_u32le (u32le a @ u32le b @ u32le c @ u32le d @ u32le e @ ys) 16 = Some e"
  "get_u32le (u32le a @ u32le b @ u32le c @ u32le d @ u32le e @ u32le g @ ys) 20 = Some g"
  using get_u32le_append [of "[]" 0 a] get_u32le_append [of "u32le a" 4 b]
    get_u32le_append [of "u32le a @ u32le b" 8 c] get_u32le_append [of "u32le a @ u32le b @ u32le c" 12 d]
    get_u32le_append [of "u32le a @ u32le b @ u32le c @ u32le d" 16 e]
    get_u32le_append [of "u32le a @ u32le b @ u32le c @ u32le d @ u32le e" 20 g]
  by simp_all

lemma wire_header_fields [simp]:
  "session_id (wire_header m) = session_id (header m)" "sequence_id (wire_header m) = sequence_id (header m)"
  "command_id (wire_header m) = command_id (header m)" "ack (wire_header m) = ack (header m)"
  by (simp_all add: wire_header_def)

lemma payload_len_wire_header:
  assumes "wire_valid m"
  shows "unat (payload_len (wire_header m)) = 32 + wire_sum m"
proof -
  have "unat (of_nat (32 + wire_sum m) :: u32) = 32 + wire_sum m"
    using wire_valid_sum(1) [OF assms] by (subst unat_of_nat) simp
  then show ?thesis by (simp add: wire_header_def ncmp_limits)
qed

lemma decode_header_frame:
  assumes "wire_valid m" "24 \<le> buf_len"
  shows "ncmp_wire_decode_header True (wire_frame m @ ys) buf_len out = Some (NCMP_OK, wire_header m)"
proof -
  have "(of_nat (52 + wire_sum m) :: u32) = 20 + payload_len (wire_header m)"
    by (simp add: wire_header_def ncmp_limits)
  moreover have "\<lparr>session_id = session_id (header m), sequence_id = sequence_id (header m),
      command_id = command_id (header m), ack = ack (header m), payload_len = payload_len (wire_header m)\<rparr> =
      wire_header m"
    by (simp add: wire_header_def)
  ultimately show ?thesis
    using assms(2) by (simp add: ncmp_wire_decode_header_def wire_frame_def get_fixed ncmp_limits)
qed

text \<open>Decoding a frame gives back the message it was made from.\<close>

lemma ncmp_wire_decode_frame:
  assumes valid: "wire_valid m" and fit: "56 + wire_sum m \<le> buf_len" and out: "msg_wf out"
    and cap: "\<And>dst. payload out = Some dst \<Longrightarrow> wire_sum m \<le> payload_cap out"
  shows "ncmp_wire_decode True (wire_frame m @ ys) buf_len out =
    Some (NCMP_OK, out\<lparr>header := wire_header m, param_len := param_len m,
      payload := map_option (\<lambda>dst. take (wire_sum m) (the (payload m)) @ drop (wire_sum m) dst) (payload out)\<rparr>)"
proof -
  note ws = wire_valid_sum [OF valid]
  let ?hd = "u32le (of_nat (52 + wire_sum m)) @ u32le (session_id (header m)) @ u32le (sequence_id (header m)) @
    u32le (command_id (header m)) @ u32le (ack (header m)) @ u32le (payload_len (wire_header m))"
  let ?pay = "case payload m of None \<Rightarrow> [] | Some bs \<Rightarrow> take (wire_sum m) bs"
  have frame: "wire_frame m = ?hd @ concat (map u32le (param_len m)) @ ?pay"
    by (simp add: wire_frame_def ncmp_limits)
  have dh: "ncmp_wire_decode_header True (wire_frame m @ ys) buf_len (header out) = Some (NCMP_OK, wire_header m)"
    using fit by (intro decode_header_frame [OF valid]) simp
  have lens: "get_lens (wire_frame m @ ys) 24 8 = Some (param_len m)"
    using get_lens_append [of ?hd 24 "param_len m" "?pay @ ys"] ws(3) by (simp add: frame)
  have pay: "get_bytes (wire_frame m @ ys) 56 (wire_sum m) = Some (take (wire_sum m) (the (payload m)))"
    if nz: "wire_sum m \<noteq> 0"
  proof -
    obtain bs where "payload m = Some bs" "wire_sum m \<le> length bs" using ws(5) nz by blast
    then show ?thesis
      using get_bytes_append [of "?hd @ concat (map u32le (param_len m))" 56 "take (wire_sum m) bs" "wire_sum m" ys] ws(3)
      by (simp add: frame)
  qed
  have s0: "sum_list (param_len m) = 0 \<longleftrightarrow> wire_sum m = 0" using ws(2) by (metis unat_eq_0)
  have "length dst = payload_cap out" if "payload out = Some dst" for dst
    using out that by (simp add: msg_wf_def)
  then show ?thesis
    using fit ws(2) cap pay put_bytes_0 ws(5)
    by (cases "payload out"; cases "wire_sum m = 0")
       (auto simp: ncmp_wire_decode_def dh lens payload_len_wire_header [OF valid] ncmp_limits s0 min_def)
qed

text \<open>Decoding arbitrary bytes.\<close>

lemma get_u32le_in: "p + 4 \<le> length buf \<Longrightarrow> \<exists>v. get_u32le buf p = Some v"
  by (simp add: get_u32le_def get_bytes_def)

lemma get_lens_in: "p + 4 * n \<le> length buf \<Longrightarrow> \<exists>ls. get_lens buf p n = Some ls \<and> length ls = n"
proof (induction n arbitrary: p)
  case (Suc n)
  then have "p + 4 \<le> length buf" "p + 4 + 4 * n \<le> length buf" by simp_all
  then obtain v ls where "get_u32le buf p = Some v" "get_lens buf (p + 4) n = Some ls" "length ls = n"
    using get_u32le_in Suc.IH by blast
  then show ?case by simp
qed simp

lemma decode_header_total:
  assumes "buf_len \<le> length buf"
  shows "\<exists>rc h. ncmp_wire_decode_header True buf buf_len out = Some (rc, h) \<and>
    (rc = NCMP_OK \<longrightarrow> 24 \<le> buf_len \<and> get_u32le buf 0 = Some (20 + payload_len h))"
proof (cases "24 \<le> buf_len")
  case True
  have "\<exists>v. get_u32le buf k = Some v" if "k + 4 \<le> 24" for k
    using True assms that by (intro get_u32le_in) simp
  from this [of 0] this [of 4] this [of 8] this [of 12] this [of 16] this [of 20] True
  show ?thesis by (auto simp: ncmp_wire_decode_header_def ncmp_limits Let_def)
qed (simp add: ncmp_wire_decode_header_def ncmp_limits)

lemma ncmp_wire_decode_total:
  assumes "msg_wf out" "buf_len \<le> length buf"
  shows "\<exists>rc out'. ncmp_wire_decode True buf buf_len out = Some (rc, out') \<and> msg_wf out' \<and>
    payload_cap out' = payload_cap out \<and> (payload out' = None \<longleftrightarrow> payload out = None) \<and>
    (rc = NCMP_OK \<longrightarrow> 56 + unat (sum_list (param_len out')) \<le> buf_len \<and>
       unat (payload_len (header out')) = 32 + unat (sum_list (param_len out')) \<and>
       (payload out \<noteq> None \<longrightarrow> unat (sum_list (param_len out')) \<le> payload_cap out))"
proof -
  obtain rc h where dh: "ncmp_wire_decode_header True buf buf_len (header out) = Some (rc, h)"
    using decode_header_total [OF assms(2)] by blast
  have wf: "length (param_len out) = 8" "\<And>d. payload out = Some d \<Longrightarrow> length d = payload_cap out"
    using assms(1) by (simp_all add: msg_wf_def ncmp_limits)
  show ?thesis
  proof (cases "rc = NCMP_OK \<and> 24 + unat (payload_len h) \<le> buf_len \<and> 32 \<le> unat (payload_len h)")
    case False
    then show ?thesis using wf by (auto simp: ncmp_wire_decode_def dh msg_wf_def ncmp_limits Let_def)
  next
    case True
    then have "24 + 4 * 8 \<le> length buf" using assms(2) by simp
    then obtain ls where ls: "get_lens buf 24 8 = Some ls" "length ls = 8" using get_lens_in by blast
    show ?thesis
    proof (cases "unat (payload_len h) = 32 + unat (sum_list ls)")
      case no: False
      then show ?thesis using True wf ls by (auto simp: ncmp_wire_decode_def dh msg_wf_def ncmp_limits Let_def)
    next
      case eq: True
      then have gb: "get_bytes buf 56 (unat (sum_list ls)) = Some (take (unat (sum_list ls)) (drop 56 buf))"
        using True assms(2) by (simp add: get_bytes_def)
      have len: "length (take (unat (sum_list ls)) (drop 56 buf)) = unat (sum_list ls)"
        using True eq assms(2) by (auto simp: min_def)
      show ?thesis
      proof (cases "payload out")
        case None
        then show ?thesis using True eq wf ls by (auto simp: ncmp_wire_decode_def dh msg_wf_def ncmp_limits Let_def)
      next
        case (Some d)
        then have pb: "unat (sum_list ls) \<le> payload_cap out \<Longrightarrow>
            put_bytes d 0 (take (unat (sum_list ls)) (drop 56 buf)) =
            Some (take (unat (sum_list ls)) (drop 56 buf) @ drop (unat (sum_list ls)) d)"
          using put_bytes_0 [of "take (unat (sum_list ls)) (drop 56 buf)" d] wf(2) [OF Some] len by simp
        show ?thesis
          using True eq wf(1) wf(2) [OF Some] ls Some gb pb len
          by (auto simp: ncmp_wire_decode_def dh msg_wf_def ncmp_limits Let_def not_less)
      qed
    qed
  qed
qed

lemma get_u32le_take:
  assumes "p + 4 \<le> n" "n \<le> length rx"
  shows "get_u32le (take n rx @ ys) p = get_u32le rx p"
proof -
  have "take 4 (drop p (take n rx)) = take 4 (drop p rx)" using assms by (simp add: drop_take min_def)
  moreover have "length (drop p (take n rx)) \<ge> 4" using assms by simp
  ultimately have "take 4 (drop p (take n rx @ ys)) = take 4 (drop p rx)" using assms by simp
  then show ?thesis using assms by (simp add: get_u32le_def get_bytes_def)
qed

lemma decode_header_take:
  assumes "n \<le> length rx" "ncmp_wire_decode_header True rx n out = Some (NCMP_OK, hdr)"
  shows "ncmp_wire_decode_header True (take n rx @ ys) n out = Some (NCMP_OK, hdr)"
proof (cases "24 \<le> n")
  case True
  then have "get_u32le (take n rx @ ys) 0 = get_u32le rx 0" "get_u32le (take n rx @ ys) 4 = get_u32le rx 4"
    "get_u32le (take n rx @ ys) 8 = get_u32le rx 8" "get_u32le (take n rx @ ys) 12 = get_u32le rx 12"
    "get_u32le (take n rx @ ys) 16 = get_u32le rx 16" "get_u32le (take n rx @ ys) 20 = get_u32le rx 20"
    using assms(1) by (simp_all add: get_u32le_take)
  then have "ncmp_wire_decode_header True (take n rx @ ys) n out = ncmp_wire_decode_header True rx n out"
    unfolding ncmp_wire_decode_header_def by simp
  then show ?thesis using assms(2) by simp
qed (use assms(2) in \<open>simp add: ncmp_wire_decode_header_def ncmp_limits\<close>)

section \<open>Packing and unpacking parameters\<close>

fun part_bytes :: "byte list option \<times> u32 \<Rightarrow> byte list" where
  "part_bytes (part, l) = (if l = 0 then [] else take (unat l) (the part))"

definition part_ok :: "byte list option \<times> u32 \<Rightarrow> bool" where
  "part_ok p \<longleftrightarrow> unat (snd p) \<le> NCMP_MAX_PARAM_SIZE \<and>
     (snd p \<noteq> 0 \<longrightarrow> (\<exists>bs. fst p = Some bs \<and> unat (snd p) \<le> length bs))"

lemma length_part_bytes: "part_ok p \<Longrightarrow> length (part_bytes p) = unat (snd p)"
  by (cases p) (auto simp: part_ok_def)

lemma length_parts: "\<forall>p \<in> set ps. part_ok p \<Longrightarrow>
    length (concat (map part_bytes ps)) = sum_list (map (\<lambda>p. unat (snd p)) ps)"
  by (induction ps) (auto simp: length_part_bytes)

lemma ncmp_pack_loop_ok:
  assumes "\<forall>p \<in> set ps. part_ok p" "length xs = off" "cap = length xs + length ys"
    "off + sum_list (map (\<lambda>p. unat (snd p)) ps) \<le> cap" "i + length ps \<le> length pl"
  shows "ncmp_pack_loop cap i off pl (xs @ ys) ps =
    Some (NCMP_OK, off + sum_list (map (\<lambda>p. unat (snd p)) ps),
      take i pl @ map snd ps @ drop (i + length ps) pl,
      xs @ concat (map part_bytes ps) @ drop (sum_list (map (\<lambda>p. unat (snd p)) ps)) ys)"
  using assms
proof (induction ps arbitrary: i off pl xs ys)
  case Nil
  then show ?case by simp
next
  case (Cons p ps)
  obtain part l where p: "p = (part, l)" by (cases p)
  have ok: "part_ok (part, l)" using Cons.prems(1) p by simp
  have len: "length (part_bytes (part, l)) = unat l" using length_part_bytes [OF ok] by simp
  have put: "put_payload (xs @ ys) off part l = Some ((xs @ part_bytes (part, l)) @ drop (unat l) ys)"
  proof (cases "l = 0")
    case False
    then obtain bs where bs: "part = Some bs" "unat l \<le> length bs" using ok by (auto simp: part_ok_def)
    have "put_bytes (xs @ ys) off (take (unat l) bs) = Some (xs @ take (unat l) bs @ drop (length (take (unat l) bs)) ys)"
      by (rule put_bytes_append) (use Cons.prems p bs in auto)
    with False bs show ?thesis by (simp add: put_payload_def get_bytes_def word_gt_0 min_def)
  qed (simp add: put_payload_def)
  have "ncmp_pack_loop cap (Suc i) (off + unat l) (pl[i := l]) ((xs @ part_bytes (part, l)) @ drop (unat l) ys) ps =
    Some (NCMP_OK, off + unat l + sum_list (map (\<lambda>p. unat (snd p)) ps),
      take (Suc i) (pl[i := l]) @ map snd ps @ drop (Suc i + length ps) (pl[i := l]),
      (xs @ part_bytes (part, l)) @ concat (map part_bytes ps) @ drop (sum_list (map (\<lambda>p. unat (snd p)) ps)) (drop (unat l) ys))"
    by (rule Cons.IH) (use Cons.prems p len in auto)
  moreover have "take (Suc i) (pl[i := l]) = take i pl @ [l]"
    using Cons.prems(5) by (simp add: take_Suc_conv_app_nth)
  moreover have "\<not> NCMP_MAX_PARAM_SIZE < unat l" "\<not> (0 < l \<and> part = None)" "\<not> cap < off + unat l"
    using ok Cons.prems(4) by (auto simp: part_ok_def word_gt_0 p)
  ultimately show ?case
    unfolding p by (simp add: put del: part_bytes.simps) (simp add: add.commute)
qed

lemma ncmp_msg_pack_ok:
  assumes ok: "\<forall>p \<in> set (zip parts lens). part_ok p" and n: "length parts = n" "length lens = n" "1 \<le> n" "n \<le> 8"
    and cap: "length buf = cap" "sum_list (map unat lens) \<le> cap"
    and pay: "NCMP_PARAM_LEN_ARRAY_SIZE + sum_list (map unat lens) \<le> NCMP_MAX_PAYLOAD_SIZE"
  defines "buf' \<equiv> concat (map part_bytes (zip parts lens)) @ drop (sum_list (map unat lens)) buf"
  shows "ncmp_msg_pack True m buf cap parts lens (int n) =
    Some (NCMP_OK, m\<lparr>param_len := lens @ replicate (8 - n) 0, payload := Some buf', payload_cap := cap\<rparr>, buf')"
proof -
  let ?ps = "zip parts lens"
  have snd: "map snd ?ps = lens" using n by simp
  have s: "map (\<lambda>p. unat (snd p)) ?ps = map unat lens" using n by (intro nth_equalityI) simp_all
  have "ncmp_pack_loop cap 0 0 (replicate 8 0) ([] @ buf) ?ps =
    Some (NCMP_OK, 0 + sum_list (map (\<lambda>p. unat (snd p)) ?ps),
      take 0 (replicate 8 0) @ map snd ?ps @ drop (0 + length ?ps) (replicate 8 0),
      [] @ concat (map part_bytes ?ps) @ drop (sum_list (map (\<lambda>p. unat (snd p)) ?ps)) buf)"
    by (rule ncmp_pack_loop_ok) (use ok cap n s in auto)
  then show ?thesis
    using n cap pay by (simp add: ncmp_msg_pack_def ncmp_limits s snd Let_def buf'_def)
qed

section \<open>Properties\<close>

text \<open>
  C17: A message that respects the limits is encoded into any buffer that is large enough, and
  decoding the frame gives back its header fields, its parameter lengths and its payload.
\<close>

theorem ncmp_wire_roundtrip:
  assumes "wire_valid m" "56 + wire_sum m \<le> buf_len" "buf_len \<le> length buf"
    and "msg_wf out" "payload out = Some dst" "wire_sum m \<le> payload_cap out"
  shows "\<exists>buf' out'. ncmp_wire_encode True m buf buf_len = Some (NCMP_OK, buf', 56 + wire_sum m) \<and>
    ncmp_wire_decode True buf' (56 + wire_sum m) out = Some (NCMP_OK, out') \<and>
    header out' = (header m)\<lparr>payload_len := of_nat (32 + wire_sum m)\<rparr> \<and> param_len out' = param_len m \<and>
    take (wire_sum m) (the (payload out')) = take (wire_sum m) (the (payload m))"
proof -
  have cap: "\<And>d. payload out = Some d \<Longrightarrow> wire_sum m \<le> payload_cap out" using assms(6) .
  have "length (take (wire_sum m) (the (payload m))) = wire_sum m"
    using wire_valid_sum(5) [OF assms(1)] by (cases "wire_sum m = 0") auto
  then show ?thesis
    using ncmp_wire_encode_ok [OF assms(1-3)]
      ncmp_wire_decode_frame [OF assms(1) order_refl assms(4) cap, where ys = "drop (56 + wire_sum m) buf"] assms(5)
    by (simp add: wire_header_def ncmp_limits)
qed

definition sample_msg :: ncmp_message where
  "sample_msg = \<lparr>header = \<lparr>session_id = 1, sequence_id = 2, command_id = 3, ack = 0, payload_len = 0\<rparr>,
     param_len = [2, 1, 0, 0, 0, 0, 0, 0], payload = Some [10, 20, 30], payload_cap = 3\<rparr>"

lemma sample_msg_valid: "wire_valid sample_msg" "wire_sum sample_msg = 3" "msg_wf sample_msg"
  by (simp_all add: wire_valid_def msg_wf_def wire_sum_def sample_msg_def ncmp_limits)

theorem ncmp_wire_roundtrip_witness:
  "\<exists>buf' out'. ncmp_wire_encode True sample_msg (replicate 60 0) 60 = Some (NCMP_OK, buf', 59) \<and>
     ncmp_wire_decode True buf' 59 (sample_msg\<lparr>payload := Some [0, 0, 0]\<rparr>) = Some (NCMP_OK, out') \<and>
     param_len out' = [2, 1, 0, 0, 0, 0, 0, 0] \<and> take 3 (the (payload out')) = [10, 20, 30]"
proof -
  have "msg_wf (sample_msg\<lparr>payload := Some [0, 0, 0]\<rparr>)"
    by (simp add: msg_wf_def sample_msg_def ncmp_limits)
  then show ?thesis
    using ncmp_wire_roundtrip [OF sample_msg_valid(1), of 60 "replicate 60 0" "sample_msg\<lparr>payload := Some [0, 0, 0]\<rparr>" "[0, 0, 0]"]
    by (auto simp: sample_msg_valid(2)) (auto simp: sample_msg_def)
qed

text \<open>
  Encoding never writes outside the buffer. It succeeds exactly for the messages that
  respect the limits and fit, then writes the frame and nothing else and never more than
  \<open>NCMP_MAX_FRAME_SIZE\<close> bytes; otherwise it returns an error and leaves the buffer alone.
\<close>

lemma ncmp_wire_encode_correct:
  assumes "msg_wf m" "buf_len \<le> length buf"
  shows "\<exists>rc buf' n. ncmp_wire_encode True m buf buf_len = Some (rc, buf', n) \<and>
    (if wire_valid m \<and> 56 + wire_sum m \<le> buf_len
     then rc = NCMP_OK \<and> n = length (wire_frame m) \<and> n \<le> NCMP_MAX_FRAME_SIZE \<and> buf' = wire_frame m @ drop n buf
     else rc \<noteq> NCMP_OK \<and> buf' = buf)"
proof (cases "wire_valid m \<and> 56 + wire_sum m \<le> buf_len")
  case True
  then show ?thesis
    using ncmp_wire_encode_ok [of m buf_len buf] assms(2) length_wire_frame wire_valid_sum(1) [of m]
    by (simp add: ncmp_limits)
next
  case False
  then show ?thesis using ncmp_wire_encode_error [OF assms(1) False, of buf] by auto
qed

text \<open>
  C18: Decoding arbitrary bytes never reads outside the frame nor writes outside the payload
  buffer, and what it accepts is a frame whose length fields account for the payload bytes
  (modulo 2^32, see the next property) that are all inside the input.
\<close>

theorem ncmp_wire_decode_safe:
  assumes "msg_wf out" "buf_len \<le> length buf"
  shows "\<exists>rc out'. ncmp_wire_decode True buf buf_len out = Some (rc, out') \<and> msg_wf out' \<and>
    payload_cap out' = payload_cap out \<and>
    (rc = NCMP_OK \<longrightarrow> 56 + unat (sum_list (param_len out')) \<le> buf_len \<and>
       unat (payload_len (header out')) = 32 + unat (sum_list (param_len out')))"
  using ncmp_wire_decode_total [OF assms] by blast

theorem ncmp_wire_decode_safe_witness:
  "\<exists>rc out'. ncmp_wire_decode True (replicate 70 255) 70 sample_msg = Some (rc, out') \<and> msg_wf out'"
  using ncmp_wire_decode_safe [OF sample_msg_valid(3), of 70 "replicate 70 255"] by auto

text \<open>
  The 32-bit sum of the decoded lengths may wrap: a frame of 72 bytes that declares two
  parameters of 2 GiB is accepted, and \<open>ncmp_msg_param\<close> then hands out a pointer far behind
  the 16-byte payload. No single length is compared with \<open>NCMP_MAX_PARAM_SIZE\<close>.
\<close>

definition wrap_frame :: "byte list" where
  "wrap_frame = concat (map u32le [68, 1, 2, 3, 0, 48, 2147483648, 2147483664, 0, 0, 0, 0, 0, 0]) @ replicate 16 7"

lemma ncmp_wire_decode_wraps:
  "\<exists>out'. ncmp_wire_decode True wrap_frame (length wrap_frame)
       \<lparr>header = h, param_len = ls, payload = Some (replicate 16 0), payload_cap = 16\<rparr> = Some (NCMP_OK, out') \<and>
     length wrap_frame = 72 \<and> payload_cap out' = 16 \<and>
     ncmp_msg_param True out' 1 = (NCMP_OK, Some 2147483648, 2147483664)"
proof -
  define ls :: "u32 list" where "ls = [2147483648, 2147483664, 0, 0, 0, 0, 0, 0]"
  let ?hd = "u32le 68 @ u32le 1 @ u32le 2 @ u32le 3 @ u32le 0 @ u32le 48"
  have w: "wrap_frame = ?hd @ concat (map u32le ls) @ replicate 16 7"
    by (simp add: wrap_frame_def ls_def)
  have ll: "length ls = 8" by (simp add: ls_def)
  have len: "length wrap_frame = 72" by (simp add: w ll)
  have dh: "ncmp_wire_decode_header True wrap_frame 72 h =
      Some (NCMP_OK, \<lparr>session_id = 1, sequence_id = 2, command_id = 3, ack = 0, payload_len = 48\<rparr>)"
    by (simp add: ncmp_wire_decode_header_def w get_fixed ncmp_limits)
  have lens: "get_lens wrap_frame 24 8 = Some ls"
    using get_lens_append [of ?hd 24 ls "replicate 16 7"] by (simp add: w ll)
  have sum: "sum_list ls = 16" by (simp add: ls_def)
  have gb: "get_bytes wrap_frame 56 16 = Some (replicate 16 7)"
    using get_bytes_append [of "?hd @ concat (map u32le ls)" 56 "replicate 16 7" 16 "[]"] by (simp add: w ll)
  show ?thesis
    unfolding len
    by (simp add: ncmp_wire_decode_def dh lens gb sum ncmp_limits ncmp_msg_param_def put_bytes_def Let_def)
       (simp add: ls_def)
qed

text \<open>
  Packing parameters that respect the limits succeeds, and every parameter is found again,
  at the position \<open>ncmp_msg_param\<close> gives and with its own bytes.
\<close>

lemma ncmp_msg_pack_param:
  assumes ok: "\<forall>p \<in> set (zip parts lens). part_ok p" and n: "length parts = n" "length lens = n" "1 \<le> n" "n \<le> 8"
    and cap: "length buf = cap" "sum_list (map unat lens) \<le> cap"
    and pay: "NCMP_PARAM_LEN_ARRAY_SIZE + sum_list (map unat lens) \<le> NCMP_MAX_PAYLOAD_SIZE"
    and i: "i < n" "lens ! i \<noteq> 0"
  shows "\<exists>m' buf' k. ncmp_msg_pack True m buf cap parts lens (int n) = Some (NCMP_OK, m', buf') \<and>
    payload m' = Some buf' \<and> ncmp_msg_param True m' (int i) = (NCMP_OK, Some k, lens ! i) \<and>
    get_bytes buf' k (unat (lens ! i)) = Some (take (unat (lens ! i)) (the (parts ! i)))"
proof -
  let ?ps = "zip parts lens" let ?buf = "concat (map part_bytes ?ps) @ drop (sum_list (map unat lens)) buf"
  let ?m = "m\<lparr>param_len := lens @ replicate (8 - n) 0, payload := Some ?buf, payload_cap := cap\<rparr>"
  let ?k = "sum_list (map unat (take i lens))"
  have tk: "length (concat (map part_bytes (take i ?ps))) = ?k"
  proof -
    have "map (\<lambda>p. unat (snd p)) (take i ?ps) = map unat (take i lens)"
      using n i(1) by (intro nth_equalityI) simp_all
    moreover have "\<forall>p \<in> set (take i ?ps). part_ok p" using ok by (auto dest: in_set_takeD)
    ultimately show ?thesis by (simp add: length_parts)
  qed
  have psi: "?ps ! i = (parts ! i, lens ! i)" using n i by simp
  have "part_ok (?ps ! i)" using ok n i by (metis length_zip min.idem nth_mem)
  then have li: "length (part_bytes (?ps ! i)) = unat (lens ! i)" using length_part_bytes psi by fastforce
  have "?ps = take i ?ps @ ?ps ! i # drop (Suc i) ?ps" using n i by (intro id_take_nth_drop) simp
  then have "?buf = concat (map part_bytes (take i ?ps)) @ part_bytes (?ps ! i) @
      (concat (map part_bytes (drop (Suc i) ?ps)) @ drop (sum_list (map unat lens)) buf)"
    by (metis (no_types, lifting) append.assoc concat.simps(2) concat_append list.simps(9) map_append)
  then have "get_bytes ?buf ?k (unat (lens ! i)) = Some (part_bytes (?ps ! i))"
    using get_bytes_append [OF tk li] by metis
  moreover have "ncmp_msg_param True ?m (int i) = (NCMP_OK, Some ?k, lens ! i)"
    using n i by (simp add: ncmp_msg_param_def ncmp_limits nth_append word_gt_0 Let_def)
  ultimately show ?thesis
    using ncmp_msg_pack_ok [OF ok n cap pay, of m] psi i(2) by fastforce
qed

end
