(* ===== verification/Ncmp_Shm.thy ===== *)
theory Ncmp_Shm
  imports Ncmp_Wire
begin

text \<open>
  The shared memory of the NCMP daemon: \<^verbatim>\<open>ncmp/common/ncmp_shm.c\<close>, the types of
  \<^verbatim>\<open>ncmp_shm.h\<close> and \<^verbatim>\<open>ncmp_queue.h\<close>, the robust mutexes of \<^verbatim>\<open>ncmp_mutex.c\<close> and the
  session counter of \<^verbatim>\<open>ncmp/stdll/ncmp_session.c\<close>. Each ring entry carries, beside the
  offsets of its request and response buffer, the bytes at those offsets: the layout
  property shows that no two buffers overlap. The size of the C header structure
  depends on the platform's \<^verbatim>\<open>pthread_mutex_t\<close> and is an argument.
\<close>

section \<open>Data\<close>

datatype ncmp_qstate = NCMP_Q_FREE | NCMP_Q_CLAIMED | NCMP_Q_POSTED | NCMP_Q_SENT | NCMP_Q_DONE | NCMP_Q_ABANDONED

definition NCMP_QUEUE_DEPTH :: nat where "NCMP_QUEUE_DEPTH = 32"
definition NCMP_ENTRY_BUF_SIZE :: nat where "NCMP_ENTRY_BUF_SIZE = NCMP_MAX_FRAME_SIZE"
definition NCMP_SLOT_POOL_SIZE :: nat where "NCMP_SLOT_POOL_SIZE = NCMP_QUEUE_DEPTH * 2 * NCMP_ENTRY_BUF_SIZE"
definition NCMP_DEFAULT_MAX_INFLIGHT :: u32 where "NCMP_DEFAULT_MAX_INFLIGHT = 4"
definition NCMP_SHM_MAGIC :: u32 where "NCMP_SHM_MAGIC = 0x4E434D50"
definition NCMP_SHM_VERSION :: u32 where "NCMP_SHM_VERSION = 1"

record ncmp_qentry =
  q_state :: ncmp_qstate
  owner_sess :: u32
  q_sequence_id :: u32
  req_len :: u32
  rsp_len :: u32
  req_off :: nat
  rsp_off :: nat
  req_buf :: "byte list"
  rsp_buf :: "byte list"

datatype ncmp_slot_state = NCMP_SLOT_ABSENT | NCMP_SLOT_ONLINE | NCMP_SLOT_FAULTED

record ncmp_slot_stats =
  in_flight_cnt :: u32
  stats_max_in_flight :: u32
  stats_total_sent_cmds :: u64

record ncmp_slot =
  slot_state :: ncmp_slot_state
  slot_id :: u32
  max_inflight :: u32
  cur_sessions :: u32
  stats :: ncmp_slot_stats
  ring :: "ncmp_qentry list"
  buf_pool_off :: nat
  buf_pool_len :: nat

record ncmp_shm =
  shm_magic :: u32
  shm_version :: u32
  slot_count :: nat
  total_size :: nat
  slots :: "ncmp_slot list"

section \<open>Mutexes\<close>

text \<open>
  What the pthread calls return: 0, \<^verbatim>\<open>EOWNERDEAD\<close> or another error. The lock itself is
  the operating system's; the wrappers only translate the codes.
\<close>

datatype pthread_rc = PT_OK | PT_EOWNERDEAD | PT_ERROR

datatype lock_rc = LOCKED | NCMP_MUTEX_RECOVERED | LOCK_FAILED ncmp_rc

definition ncmp_mutex_init :: "bool \<Rightarrow> bool \<Rightarrow> bool \<Rightarrow> bool" where
  "ncmp_mutex_init m_ok attr_ok init_ok = (m_ok \<and> attr_ok \<and> init_ok)"

definition ncmp_mutex_lock :: "bool \<Rightarrow> pthread_rc \<Rightarrow> bool \<Rightarrow> lock_rc" where
  "ncmp_mutex_lock m_ok rc consistent_ok =
     (if \<not> m_ok then LOCK_FAILED NCMP_ERR_INVAL
      else case rc of
          PT_OK \<Rightarrow> LOCKED
        | PT_EOWNERDEAD \<Rightarrow> if \<not> consistent_ok then LOCK_FAILED NCMP_ERR_MUTEX else NCMP_MUTEX_RECOVERED
        | PT_ERROR \<Rightarrow> LOCK_FAILED NCMP_ERR_MUTEX)"

definition ncmp_mutex_unlock :: "bool \<Rightarrow> pthread_rc \<Rightarrow> ncmp_rc" where
  "ncmp_mutex_unlock m_ok rc =
     (if \<not> m_ok then NCMP_ERR_INVAL else if rc = PT_OK then NCMP_OK else NCMP_ERR_MUTEX)"

section \<open>Sessions of a slot\<close>

text \<open>\<^term>\<open>None\<close> is the NULL slot; \<open>lk\<close> is what taking \<open>sess_lock\<close> gives.\<close>

definition ncmp_session_open :: "lock_rc \<Rightarrow> ncmp_slot option \<Rightarrow> ncmp_rc \<times> ncmp_slot option" where
  "ncmp_session_open lk slot =
     (case slot of
        None \<Rightarrow> (NCMP_ERR_INVAL, None)
      | Some s \<Rightarrow>
          (case lk of
             LOCK_FAILED rc \<Rightarrow> (rc, Some s)
           | _ \<Rightarrow>
               if unat (cur_sessions s) \<ge> PKCS11_MAX_SESSION_PER_SLOT then (NCMP_ERR_FULL, Some s)
               else (NCMP_OK, Some (s\<lparr>cur_sessions := cur_sessions s + 1\<rparr>))))"

definition ncmp_session_close :: "lock_rc \<Rightarrow> ncmp_slot option \<Rightarrow> ncmp_rc \<times> ncmp_slot option" where
  "ncmp_session_close lk slot =
     (case slot of
        None \<Rightarrow> (NCMP_ERR_INVAL, None)
      | Some s \<Rightarrow>
          (case lk of
             LOCK_FAILED rc \<Rightarrow> (rc, Some s)
           | _ \<Rightarrow>
               (NCMP_OK, Some (if cur_sessions s > 0 then s\<lparr>cur_sessions := cur_sessions s - 1\<rparr> else s))))"

section \<open>Creating and attaching the region\<close>

definition ncmp_shm_total_size :: "nat \<Rightarrow> nat" where
  "ncmp_shm_total_size hdr_size = hdr_size + PKCS11_MAX_SLOT_COUNT * NCMP_SLOT_POOL_SIZE"

definition init_entry :: "nat \<Rightarrow> nat \<Rightarrow> ncmp_qentry" where
  "init_entry pool_off i =
     (let entry_off = pool_off + i * 2 * NCMP_ENTRY_BUF_SIZE in
      \<lparr>q_state = NCMP_Q_FREE, owner_sess = 0, q_sequence_id = 0, req_len = 0, rsp_len = 0,
       req_off = entry_off, rsp_off = entry_off + NCMP_ENTRY_BUF_SIZE,
       req_buf = replicate NCMP_ENTRY_BUF_SIZE 0, rsp_buf = replicate NCMP_ENTRY_BUF_SIZE 0\<rparr>)"

definition init_slot :: "nat \<Rightarrow> nat \<Rightarrow> ncmp_slot" where
  "init_slot hdr_size s =
     (let pool_off = hdr_size + s * NCMP_SLOT_POOL_SIZE in
      \<lparr>slot_state = NCMP_SLOT_ABSENT, slot_id = of_nat s, max_inflight = NCMP_DEFAULT_MAX_INFLIGHT,
       cur_sessions = 0, stats = \<lparr>in_flight_cnt = 0, stats_max_in_flight = 0, stats_total_sent_cmds = 0\<rparr>,
       ring = map (init_entry pool_off) [0..<NCMP_QUEUE_DEPTH],
       buf_pool_off = pool_off, buf_pool_len = NCMP_SLOT_POOL_SIZE\<rparr>)"

text \<open>
  The result is the code, whether the shared memory object still has its name, and the
  mapped region. \<open>lock_ok\<close> lists the results of the mutex initialisations: the global
  one and one per slot; the first failure ends the call.
\<close>

definition ncmp_shm_create ::
  "nat \<Rightarrow> bool \<Rightarrow> bool \<Rightarrow> bool \<Rightarrow> bool \<Rightarrow> bool \<Rightarrow> (nat \<Rightarrow> bool) \<Rightarrow> ncmp_rc \<times> bool \<times> ncmp_shm option" where
  "ncmp_shm_create hdr_size ptr open_ok trunc_ok map_ok glock_ok slock_ok =
     (if \<not> ptr then (NCMP_ERR_INVAL, False, None)
      else if \<not> open_ok then (NCMP_ERR_STATE, False, None)
      else if \<not> trunc_ok then (NCMP_ERR_STATE, False, None)
      else if \<not> map_ok then (NCMP_ERR_STATE, True, None)
      else if \<not> glock_ok then (NCMP_ERR_MUTEX, False, None)
      else if \<not> list_all slock_ok [0..<PKCS11_MAX_SLOT_COUNT] then (NCMP_ERR_MUTEX, False, None)
      else (NCMP_OK, True, Some
        \<lparr>shm_magic = NCMP_SHM_MAGIC, shm_version = NCMP_SHM_VERSION, slot_count = PKCS11_MAX_SLOT_COUNT,
         total_size = ncmp_shm_total_size hdr_size,
         slots = map (init_slot hdr_size) [0..<PKCS11_MAX_SLOT_COUNT]\<rparr>))"

text \<open>\<open>found\<close> is the object's size and, if it is large enough to have one, its header.\<close>

definition ncmp_shm_attach ::
  "nat \<Rightarrow> bool \<Rightarrow> bool \<Rightarrow> (nat \<times> ncmp_shm) option \<Rightarrow> bool \<Rightarrow> ncmp_rc \<times> ncmp_shm option" where
  "ncmp_shm_attach hdr_size ptr open_ok found map_ok =
     (if \<not> ptr then (NCMP_ERR_INVAL, None)
      else if \<not> open_ok then (NCMP_ERR_NODAEMON, None)
      else case found of
          None \<Rightarrow> (NCMP_ERR_STATE, None)
        | Some (st_size, h) \<Rightarrow>
            if st_size < hdr_size then (NCMP_ERR_STATE, None)
            else if \<not> map_ok then (NCMP_ERR_STATE, None)
            else if shm_magic h \<noteq> NCMP_SHM_MAGIC then (NCMP_ERR_STATE, None)
            else if shm_version h \<noteq> NCMP_SHM_VERSION then (NCMP_ERR_VERSION, None)
            else (NCMP_OK, Some h))"

text \<open>The second component is the number of bytes unmapped, if the call is made.\<close>

definition ncmp_shm_detach :: "nat \<Rightarrow> ncmp_shm option \<Rightarrow> bool \<Rightarrow> ncmp_rc \<times> nat option" where
  "ncmp_shm_detach hdr_size base unmap_ok =
     (case base of
        None \<Rightarrow> (NCMP_OK, None)
      | Some h \<Rightarrow>
          let n = (if total_size h < hdr_size then hdr_size else total_size h)
          in (if unmap_ok then NCMP_OK else NCMP_ERR_STATE, Some n))"

text \<open>The boolean says whether the object still has its name: it never does afterwards.\<close>

definition ncmp_shm_destroy :: "nat \<Rightarrow> ncmp_shm option \<Rightarrow> bool \<Rightarrow> ncmp_rc \<times> bool" where
  "ncmp_shm_destroy hdr_size base unmap_ok = (fst (ncmp_shm_detach hdr_size base unmap_ok), False)"

definition ncmp_shm_ptr :: "nat \<Rightarrow> nat option" where
  "ncmp_shm_ptr off = (if off \<noteq> 0 then Some off else None)"

definition ncmp_shm_slot :: "ncmp_shm option \<Rightarrow> nat \<Rightarrow> ncmp_slot option" where
  "ncmp_shm_slot base sid =
     (case base of
        None \<Rightarrow> None
      | Some h \<Rightarrow> if sid \<ge> slot_count h then None else Some (slots h ! sid))"

section \<open>Layout\<close>

lemmas ncmp_shm_limits = NCMP_QUEUE_DEPTH_def NCMP_SLOT_POOL_SIZE_def PKCS11_MAX_SLOT_COUNT_def
  PKCS11_MAX_SESSION_PER_SLOT_def

definition buf_off :: "ncmp_shm \<Rightarrow> nat \<Rightarrow> nat \<Rightarrow> bool \<Rightarrow> nat" where
  "buf_off h s i rsp = (let e = ring (slots h ! s) ! i in if rsp then rsp_off e else req_off e)"

text \<open>Buffer number \<open>64 s + 2 i (+ 1)\<close> of the region, counted in units of a buffer.\<close>

lemma buf_off_create:
  assumes "ncmp_shm_create hdr_size p a b c d e = (NCMP_OK, n, Some h)" "s < 4" "i < 32"
  shows "buf_off h s i rsp = hdr_size + (64 * s + 2 * i + (if rsp then 1 else 0)) * NCMP_ENTRY_BUF_SIZE"
  using assms
  by (auto simp: ncmp_shm_create_def buf_off_def init_slot_def init_entry_def Let_def ncmp_shm_limits
      algebra_simps split: if_splits)

lemma buf_number_inj:
  assumes "i < (32::nat)" "j < 32"
    "64 * s + 2 * i + (if b then 1 else 0) = 64 * t + 2 * j + (if c then 1 else 0)"
  shows "s = t \<and> i = j \<and> b = c"
proof -
  have "odd (64 * s + 2 * i + (if b then 1 else 0)) = b" "odd (64 * t + 2 * j + (if c then 1 else 0)) = c"
    by simp_all
  then have "b = c" using assms(3) by simp
  then have e: "32 * s + i = 32 * t + j" using assms(3) by simp
  have "(32 * s + i) div 32 = s" "(32 * t + j) div 32 = t" using assms(1,2) by simp_all
  with e \<open>b = c\<close> show ?thesis by simp
qed

lemma scaled_apart:
  assumes "m \<noteq> (n::nat)"
  shows "h + m * k + k \<le> h + n * k \<or> h + n * k + k \<le> h + m * k"
proof (cases "m < n")
  case True
  then have "Suc m * k \<le> n * k" by (intro mult_le_mono1) simp
  then show ?thesis by simp
next
  case False
  with assms have "Suc n * k \<le> m * k" by (intro mult_le_mono1) simp
  then show ?thesis by simp
qed

section \<open>Properties\<close>

text \<open>
  C28: In the region the daemon creates, every request and response buffer of every ring entry
  of every slot lies behind the header and inside the mapping, has the size of the largest
  frame, and overlaps no other buffer.
\<close>

theorem ncmp_shm_buffers_disjoint:
  assumes "ncmp_shm_create hdr_size p a b c d e = (NCMP_OK, nm, Some h)"
    and "s < slot_count h" "t < slot_count h" "i < NCMP_QUEUE_DEPTH" "j < NCMP_QUEUE_DEPTH"
    and "(s, i, x) \<noteq> (t, j, y)"
  shows "hdr_size \<le> buf_off h s i x \<and> buf_off h s i x + NCMP_MAX_FRAME_SIZE \<le> total_size h \<and>
    (buf_off h s i x + NCMP_MAX_FRAME_SIZE \<le> buf_off h t j y \<or>
     buf_off h t j y + NCMP_MAX_FRAME_SIZE \<le> buf_off h s i x)"
proof -
  have b: "s < 4" "t < 4" "i < 32" "j < 32" and tot: "total_size h = hdr_size + 256 * NCMP_ENTRY_BUF_SIZE"
    using assms(1-5) by (auto simp: ncmp_shm_create_def ncmp_shm_limits ncmp_shm_total_size_def split: if_splits)
  let ?m = "64 * s + 2 * i + (if x then 1 else 0)" let ?n = "64 * t + 2 * j + (if y then 1 else 0)"
  have "?m \<noteq> ?n" using buf_number_inj [OF b(3,4)] assms(6) by blast
  from scaled_apart [OF this, of hdr_size NCMP_ENTRY_BUF_SIZE]
  have "buf_off h s i x + NCMP_ENTRY_BUF_SIZE \<le> buf_off h t j y \<or>
     buf_off h t j y + NCMP_ENTRY_BUF_SIZE \<le> buf_off h s i x"
    using buf_off_create [OF assms(1) b(1,3), of x] buf_off_create [OF assms(1) b(2,4), of y] by simp
  moreover have "Suc ?m * NCMP_ENTRY_BUF_SIZE \<le> 256 * NCMP_ENTRY_BUF_SIZE"
    using b by (intro mult_le_mono1) auto
  ultimately show ?thesis
    using buf_off_create [OF assms(1) b(1,3), of x] tot by (simp add: NCMP_ENTRY_BUF_SIZE_def)
qed

theorem ncmp_shm_buffers_disjoint_witness:
  "\<exists>h. ncmp_shm_create 4096 True True True True True (\<lambda>_. True) = (NCMP_OK, True, Some h) \<and>
     (buf_off h 0 31 True + NCMP_MAX_FRAME_SIZE \<le> buf_off h 1 0 False \<or>
      buf_off h 1 0 False + NCMP_MAX_FRAME_SIZE \<le> buf_off h 0 31 True)"
proof -
  obtain h where h: "ncmp_shm_create 4096 True True True True True (\<lambda>_. True) = (NCMP_OK, True, Some h)"
    by (simp add: ncmp_shm_create_def list_all_iff)
  then have "slot_count h = 4" by (auto simp: ncmp_shm_create_def list_all_iff PKCS11_MAX_SLOT_COUNT_def)
  with ncmp_shm_buffers_disjoint [OF h, of 0 1 31 0 True False] h show ?thesis
    by (auto simp: NCMP_QUEUE_DEPTH_def)
qed

text \<open>
  The calls different processes make on one slot, in any order, with whatever the lock gives.
\<close>

datatype session_op = SOpen lock_rc | SClose lock_rc

fun session_call :: "ncmp_slot \<Rightarrow> session_op \<Rightarrow> ncmp_rc \<times> ncmp_slot" where
  "session_call s (SOpen lk) = map_prod id the (ncmp_session_open lk (Some s))"
| "session_call s (SClose lk) = map_prod id the (ncmp_session_close lk (Some s))"

fun session_calls :: "ncmp_slot \<Rightarrow> session_op list \<Rightarrow> ncmp_slot" where
  "session_calls s [] = s"
| "session_calls s (c # cs) = session_calls (snd (session_call s c)) cs"

lemma session_call_bound:
  "unat (cur_sessions s) \<le> 8 \<Longrightarrow> unat (cur_sessions (snd (session_call s c))) \<le> 8"
  by (cases c)
     (auto simp: ncmp_session_open_def ncmp_session_close_def PKCS11_MAX_SESSION_PER_SLOT_def
        word_gt_0 unat_minus_one unat_word_ariths split: lock_rc.splits)

lemma session_calls_bound: "unat (cur_sessions s) \<le> 8 \<Longrightarrow> unat (cur_sessions (session_calls s cs)) \<le> 8"
  by (induction cs arbitrary: s) (auto intro: session_call_bound)

text \<open>
  Starting from a fresh slot, whatever sequence of opens and closes is made and whatever
  the lock reports (a recovered lock included), the session counter never passes
  \<open>PKCS11_MAX_SESSION_PER_SLOT\<close>; an open with the lock held succeeds exactly when the counter is
  below it, and a close then gives the counter back.
\<close>

lemma ncmp_session_bounded:
  assumes "lk \<in> {LOCKED, NCMP_MUTEX_RECOVERED}"
    and s_def: "s = session_calls (init_slot hdr n) cs"
  shows "unat (cur_sessions s) \<le> PKCS11_MAX_SESSION_PER_SLOT \<and>
    (fst (ncmp_session_open lk (Some s)) = NCMP_OK \<longleftrightarrow> unat (cur_sessions s) < PKCS11_MAX_SESSION_PER_SLOT) \<and>
    (fst (ncmp_session_open lk (Some s)) = NCMP_OK \<longrightarrow>
       ncmp_session_close lk (snd (ncmp_session_open lk (Some s))) = (NCMP_OK, Some s))"
proof -
  have b: "unat (cur_sessions s) \<le> 8"
    unfolding s_def by (rule session_calls_bound) (simp add: init_slot_def Let_def)
  have "cur_sessions s + 1 > 0" if "unat (cur_sessions s) < 8"
  proof -
    have "unat (cur_sessions s + 1) = unat (cur_sessions s) + 1" using that by (simp add: unat_word_ariths)
    then show ?thesis by (metis add_is_0 one_neq_zero unat_eq_0 word_gt_0)
  qed
  with b assms(1) show ?thesis
    by (auto simp: ncmp_session_open_def ncmp_session_close_def PKCS11_MAX_SESSION_PER_SLOT_def not_le)
qed

end
