(* ===== verification/Ncmp_Ring.thy ===== *)
theory Ncmp_Ring
  imports Ncmp_Shm
begin

text \<open>
  The command ring of a slot: the compare-and-swap helpers of \<^verbatim>\<open>ncmp_queue.h\<close> and
  \<^verbatim>\<open>ncmp_queue.c\<close>, the client side of \<^verbatim>\<open>ncmp_slot.c\<close> and the consumer of
  \<^verbatim>\<open>daemon/comm_thread.c\<close>. The operations are translated as one thread runs them; where the
  code polls, an argument says what the other threads do in between. The transport is an
  argument as well (\<^verbatim>\<open>Ncmp_Transport\<close> provides the one over USB).
\<close>

section \<open>Queue entries\<close>

definition ncmp_qentry_cas :: "ncmp_qentry \<Rightarrow> ncmp_qstate \<Rightarrow> ncmp_qstate \<Rightarrow> bool \<times> ncmp_qentry" where
  "ncmp_qentry_cas e from_st to_st =
     (if q_state e = from_st then (True, e\<lparr>q_state := to_st\<rparr>) else (False, e))"

definition ncmp_qentry_state :: "ncmp_qentry \<Rightarrow> ncmp_qstate" where
  "ncmp_qentry_state e = q_state e"

fun ncmp_queue_claim_loop :: "ncmp_qentry list \<Rightarrow> nat \<Rightarrow> nat option \<times> ncmp_qentry list" where
  "ncmp_queue_claim_loop [] i = (None, [])"
| "ncmp_queue_claim_loop (e # es) i =
     (case ncmp_qentry_cas e NCMP_Q_FREE NCMP_Q_CLAIMED of
        (True, e') \<Rightarrow> (Some i, e' # es)
      | (False, e') \<Rightarrow> (case ncmp_queue_claim_loop es (Suc i) of (r, es') \<Rightarrow> (r, e' # es')))"

text \<open>The first \<open>depth\<close> entries are scanned; \<^term>\<open>Inl\<close> is an error code.\<close>

definition ncmp_queue_claim :: "ncmp_qentry list option \<Rightarrow> nat \<Rightarrow> (ncmp_rc + nat) \<times> ncmp_qentry list option" where
  "ncmp_queue_claim rg depth =
     (case rg of
        None \<Rightarrow> (Inl NCMP_ERR_INVAL, None)
      | Some es \<Rightarrow>
          if depth = 0 then (Inl NCMP_ERR_INVAL, Some es)
          else case ncmp_queue_claim_loop (take depth es) 0 of
              (None, es') \<Rightarrow> (Inl NCMP_ERR_FULL, Some (es' @ drop depth es))
            | (Some i, es') \<Rightarrow> (Inr i, Some (es' @ drop depth es)))"

definition ncmp_queue_post :: "ncmp_qentry option \<Rightarrow> ncmp_rc \<times> ncmp_qentry option" where
  "ncmp_queue_post e =
     (case e of
        None \<Rightarrow> (NCMP_ERR_INVAL, None)
      | Some e \<Rightarrow>
          (case ncmp_qentry_cas e NCMP_Q_CLAIMED NCMP_Q_POSTED of
             (True, e) \<Rightarrow> (NCMP_OK, Some e)
           | (False, e) \<Rightarrow> (NCMP_ERR_STATE, Some e)))"

definition slot_entry :: "ncmp_slot \<Rightarrow> nat \<Rightarrow> ncmp_qentry" where
  "slot_entry slot i = ring slot ! i"

definition set_entry :: "ncmp_slot \<Rightarrow> nat \<Rightarrow> ncmp_qentry \<Rightarrow> ncmp_slot" where
  "set_entry slot i e = slot\<lparr>ring := (ring slot)[i := e]\<rparr>"

definition slot_cas :: "ncmp_slot \<Rightarrow> nat \<Rightarrow> ncmp_qstate \<Rightarrow> ncmp_qstate \<Rightarrow> bool \<times> ncmp_slot" where
  "slot_cas slot i from_st to_st =
     (case ncmp_qentry_cas (slot_entry slot i) from_st to_st of (ok, e) \<Rightarrow> (ok, set_entry slot i e))"

section \<open>Client side\<close>

definition ncmp_slot_enqueue :: "bool \<Rightarrow> ncmp_slot \<Rightarrow> u32 \<Rightarrow> u32 \<Rightarrow> ncmp_message
    \<Rightarrow> (ncmp_rc \<times> ncmp_slot \<times> nat option) option" where
  "ncmp_slot_enqueue ptrs slot sid seq req =
     (if \<not> ptrs then Some (NCMP_ERR_INVAL, slot, None)
      else case ncmp_queue_claim (Some (ring slot)) NCMP_QUEUE_DEPTH of
          (Inl rc, rg) \<Rightarrow> Some (rc, slot\<lparr>ring := the rg\<rparr>, None)
        | (Inr idx, rg) \<Rightarrow>
            let slot = slot\<lparr>ring := the rg\<rparr>;
                e = slot_entry slot idx in
            do {
              (rc, buf, enc_len) \<leftarrow> ncmp_wire_encode (ncmp_shm_ptr (req_off e) \<noteq> None) req (req_buf e) NCMP_ENTRY_BUF_SIZE;
              let e = e\<lparr>req_buf := buf\<rparr>;
              if rc \<noteq> NCMP_OK
              then Some (rc, set_entry slot idx (snd (ncmp_qentry_cas e NCMP_Q_CLAIMED NCMP_Q_FREE)), None)
              else
                let e = e\<lparr>owner_sess := sid, q_sequence_id := seq, req_len := of_nat enc_len, rsp_len := 0\<rparr> in
                case ncmp_queue_post (Some e) of
                  (rc, e') \<Rightarrow>
                    if rc \<noteq> NCMP_OK
                    then Some (rc, set_entry slot idx (snd (ncmp_qentry_cas (the e') NCMP_Q_CLAIMED NCMP_Q_FREE)), None)
                    else Some (NCMP_OK, set_entry slot idx (the e'), Some idx)
            })"

text \<open>
  The polling loop of \<open>ncmp_slot_wait\<close>. \<open>env k\<close> is what the other threads do before the
  \<open>k\<close>-th atomic access of this thread. With budget 0 the loop may run forever. The result
  says whether the entry was seen \<open>DONE\<close>.
\<close>

partial_function (option) ncmp_wait_loop ::
  "(nat \<Rightarrow> ncmp_slot \<Rightarrow> ncmp_slot) \<Rightarrow> nat \<Rightarrow> nat \<Rightarrow> nat \<Rightarrow> nat \<Rightarrow> ncmp_slot \<Rightarrow> (bool \<times> nat \<times> ncmp_slot) option" where
  "ncmp_wait_loop env idx budget spins k slot =
     (let slot = env k slot in
      if ncmp_qentry_state (slot_entry slot idx) = NCMP_Q_DONE then Some (True, Suc k, slot)
      else if budget \<noteq> 0 \<and> Suc spins > budget then
        (case slot_cas (env (k + 1) slot) idx NCMP_Q_SENT NCMP_Q_ABANDONED of
           (True, slot) \<Rightarrow> Some (False, k + 2, slot)
         | (False, slot) \<Rightarrow>
             (case slot_cas (env (k + 2) slot) idx NCMP_Q_POSTED NCMP_Q_ABANDONED of
                (True, slot) \<Rightarrow> Some (False, k + 3, slot)
              | (False, slot) \<Rightarrow>
                  let slot = env (k + 3) slot in
                  Some (ncmp_qentry_state (slot_entry slot idx) = NCMP_Q_DONE, k + 4, slot)))
      else ncmp_wait_loop env idx budget (if budget \<noteq> 0 then Suc spins else spins) (Suc k) slot)"

definition ncmp_slot_wait :: "(nat \<Rightarrow> ncmp_slot \<Rightarrow> ncmp_slot) \<Rightarrow> bool \<Rightarrow> ncmp_slot \<Rightarrow> int \<Rightarrow> ncmp_message \<Rightarrow> nat
    \<Rightarrow> (ncmp_rc \<times> ncmp_slot \<times> ncmp_message) option" where
  "ncmp_slot_wait env ptrs slot idx rsp spin_budget =
     (if \<not> ptrs \<or> idx < 0 \<or> idx \<ge> int NCMP_QUEUE_DEPTH then Some (NCMP_ERR_INVAL, slot, rsp)
      else do {
        (seen, k, slot) \<leftarrow> ncmp_wait_loop env (nat idx) spin_budget 0 0 slot;
        if \<not> seen then Some (NCMP_ERR_TIMEOUT, slot, rsp)
        else do {
          let e = slot_entry slot (nat idx);
          (_, rsp) \<leftarrow> ncmp_wire_decode (ncmp_shm_ptr (rsp_off e) \<noteq> None) (rsp_buf e) (unat (rsp_len e)) rsp;
          let slot = snd (slot_cas (env k slot) (nat idx) NCMP_Q_DONE NCMP_Q_FREE);
          Some (NCMP_OK, slot, rsp)
        }
      })"

section \<open>Communication thread\<close>

definition comm_inflight :: "ncmp_slot \<Rightarrow> u32" where
  "comm_inflight slot = in_flight_cnt (stats slot)"

definition comm_reserve_inflight :: "ncmp_slot \<Rightarrow> ncmp_slot" where
  "comm_reserve_inflight slot =
     (let st = stats slot;
          after = comm_inflight slot + 1;
          st = (if after > stats_max_in_flight st then st\<lparr>stats_max_in_flight := after\<rparr> else st);
          st = st\<lparr>stats_total_sent_cmds := stats_total_sent_cmds st + 1\<rparr>;
          st = st\<lparr>in_flight_cnt := in_flight_cnt st + 1\<rparr>
      in slot\<lparr>stats := st\<rparr>)"

definition comm_release_inflight :: "ncmp_slot \<Rightarrow> ncmp_slot" where
  "comm_release_inflight slot = slot\<lparr>stats := (stats slot)\<lparr>in_flight_cnt := in_flight_cnt (stats slot) - 1\<rparr>\<rparr>"

fun comm_take_loop :: "ncmp_qentry list \<Rightarrow> nat \<Rightarrow> nat option \<times> ncmp_qentry list" where
  "comm_take_loop [] i = (None, [])"
| "comm_take_loop (e # es) i =
     (if ncmp_qentry_state e = NCMP_Q_POSTED \<and> fst (ncmp_qentry_cas e NCMP_Q_POSTED NCMP_Q_SENT)
      then (Some i, snd (ncmp_qentry_cas e NCMP_Q_POSTED NCMP_Q_SENT) # es)
      else case comm_take_loop es (Suc i) of (r, es') \<Rightarrow> (r, e # es'))"

definition comm_take_posted :: "ncmp_slot \<Rightarrow> nat option \<times> ncmp_slot" where
  "comm_take_posted slot = (case comm_take_loop (ring slot) 0 of (r, es) \<Rightarrow> (r, slot\<lparr>ring := es\<rparr>))"

fun comm_match_loop :: "ncmp_qentry list \<Rightarrow> nat \<Rightarrow> u32 \<Rightarrow> u32 \<Rightarrow> nat option" where
  "comm_match_loop [] i sid seq = None"
| "comm_match_loop (e # es) i sid seq =
     (if ncmp_qentry_state e = NCMP_Q_SENT \<and> owner_sess e = sid \<and> q_sequence_id e = seq
      then Some i else comm_match_loop es (Suc i) sid seq)"

definition comm_match_sent :: "ncmp_slot \<Rightarrow> u32 \<Rightarrow> u32 \<Rightarrow> nat option" where
  "comm_match_sent slot sid seq = comm_match_loop (ring slot) 0 sid seq"

lemma comm_take_loop_count:
  "comm_take_loop es i = (Some j, es') \<Longrightarrow>
     length (filter (\<lambda>e. q_state e = NCMP_Q_POSTED) es) = Suc (length (filter (\<lambda>e. q_state e = NCMP_Q_POSTED) es'))"
  by (induction es arbitrary: i es')
     (auto simp: ncmp_qentry_state_def ncmp_qentry_cas_def split: if_splits prod.splits)

text \<open>
  The dispatch loop; the transport's \<open>send\<close> works on a state of its own and gets NULL or the
  bytes of the frame. Every round turns a posted entry into a sent one or ends the loop.
\<close>

function comm_dispatch :: "('tr \<Rightarrow> byte list option \<Rightarrow> ncmp_rc \<times> 'tr) \<Rightarrow> 'tr \<Rightarrow> ncmp_slot \<Rightarrow> nat
    \<Rightarrow> (nat \<times> 'tr \<times> ncmp_slot) option" where
  "comm_dispatch send tr slot dispatched =
     (if \<not> comm_inflight slot < max_inflight slot then Some (dispatched, tr, slot)
      else case comm_take_posted slot of
          (None, slot') \<Rightarrow> Some (dispatched, tr, slot')
        | (Some idx, slot') \<Rightarrow>
            (let slot' = comm_reserve_inflight slot';
                 e = slot_entry slot' idx
             in case get_bytes (req_buf e) 0 (unat (req_len e)) of
                  None \<Rightarrow> None
                | Some frame \<Rightarrow>
                    (case send tr (if ncmp_shm_ptr (req_off e) = None then None else Some frame) of
                       (rc, tr') \<Rightarrow>
                         if rc \<noteq> NCMP_OK
                         then Some (dispatched, tr', snd (slot_cas (comm_release_inflight slot') idx NCMP_Q_SENT NCMP_Q_POSTED))
                         else comm_dispatch send tr' slot' (Suc dispatched))))"
  by pat_completeness auto
termination
proof (relation "measure (\<lambda>(send, tr, slot, n). length (filter (\<lambda>e. q_state e = NCMP_Q_POSTED) (ring slot)))")
qed (auto simp: comm_take_posted_def comm_reserve_inflight_def Let_def dest!: comm_take_loop_count split: prod.splits)

declare comm_dispatch.simps [simp del]

definition zero_header :: ncmp_header where
  "zero_header = \<lparr>session_id = 0, sequence_id = 0, command_id = 0, ack = 0, payload_len = 0\<rparr>"

text \<open>
  One response. \<open>recv\<close> gets the receive buffer and its capacity and returns a code, the
  buffer and the length; the result says whether a response was consumed.
\<close>

definition comm_drain :: "('tr \<Rightarrow> byte list \<Rightarrow> nat \<Rightarrow> (ncmp_rc \<times> byte list \<times> nat) \<times> 'tr) \<Rightarrow> 'tr \<Rightarrow> ncmp_slot
    \<Rightarrow> byte list \<Rightarrow> nat \<Rightarrow> (nat \<times> 'tr \<times> ncmp_slot \<times> byte list) option" where
  "comm_drain recv tr slot rxbuf rxcap =
     (if comm_inflight slot = 0 then Some (0, tr, slot, rxbuf)
      else case recv tr rxbuf rxcap of
        ((rc, rxbuf, rx_len), tr) \<Rightarrow>
          if rc \<noteq> NCMP_OK then Some (0, tr, slot, rxbuf)
          else do {
            (rc, hdr) \<leftarrow> ncmp_wire_decode_header True rxbuf rx_len zero_header;
            if rc \<noteq> NCMP_OK then Some (0, tr, slot, rxbuf)
            else case comm_match_sent slot (session_id hdr) (sequence_id hdr) of
                None \<Rightarrow> Some (1, tr, comm_release_inflight slot, rxbuf)
              | Some idx \<Rightarrow> do {
                  let e = slot_entry slot idx;
                  _ \<leftarrow> ncmp_shm_ptr (rsp_off e);
                  bs \<leftarrow> get_bytes rxbuf 0 rx_len;
                  rsp \<leftarrow> put_bytes (rsp_buf e) 0 bs;
                  let slot = set_entry slot idx (e\<lparr>rsp_buf := rsp, rsp_len := of_nat rx_len\<rparr>);
                  let slot = comm_release_inflight slot;
                  let slot = (case slot_cas slot idx NCMP_Q_SENT NCMP_Q_DONE of
                                (True, slot) \<Rightarrow> slot
                              | (False, slot) \<Rightarrow> snd (slot_cas slot idx NCMP_Q_ABANDONED NCMP_Q_FREE));
                  Some (1, tr, slot, rxbuf)
                }
          })"

text \<open>
  The thread: rounds of dispatch and drain until the stop flag is seen, here after \<open>rounds\<close>
  rounds. (The summary it prints on exit is not modelled.)
\<close>

fun ncmpd_comm_thread :: "('tr \<Rightarrow> byte list option \<Rightarrow> ncmp_rc \<times> 'tr)
    \<Rightarrow> ('tr \<Rightarrow> byte list \<Rightarrow> nat \<Rightarrow> (ncmp_rc \<times> byte list \<times> nat) \<times> 'tr)
    \<Rightarrow> nat \<Rightarrow> 'tr \<Rightarrow> ncmp_slot \<Rightarrow> byte list \<Rightarrow> ('tr \<times> ncmp_slot) option" where
  "ncmpd_comm_thread send recv 0 tr slot rxbuf = Some (tr, slot)"
| "ncmpd_comm_thread send recv (Suc rounds) tr slot rxbuf = do {
     (_, tr, slot) \<leftarrow> comm_dispatch send tr slot 0;
     (_, tr, slot, rxbuf) \<leftarrow> comm_drain recv tr slot rxbuf (length rxbuf);
     ncmpd_comm_thread send recv rounds tr slot rxbuf
   }"
end
