(* ===== verification/Ncmp_Ring_Facts.thy ===== *)
theory Ncmp_Ring_Facts
  imports Ncmp_Ring
begin

text \<open>
  What the ring operations do: scanning, enqueueing, dispatching, draining and waiting, each
  with its effect on the entries, and the properties of the ring as one thread sees it.
\<close>

section \<open>Well-formed slots\<close>

definition entry_wf :: "ncmp_qentry \<Rightarrow> bool" where
  "entry_wf e \<longleftrightarrow> length (req_buf e) = NCMP_ENTRY_BUF_SIZE \<and> length (rsp_buf e) = NCMP_ENTRY_BUF_SIZE \<and>
     req_off e \<noteq> 0 \<and> rsp_off e \<noteq> 0 \<and> unat (req_len e) \<le> NCMP_ENTRY_BUF_SIZE \<and> unat (rsp_len e) \<le> NCMP_ENTRY_BUF_SIZE"

definition slot_wf :: "ncmp_slot \<Rightarrow> bool" where
  "slot_wf slot \<longleftrightarrow> length (ring slot) = NCMP_QUEUE_DEPTH \<and> (\<forall>e \<in> set (ring slot). entry_wf e)"

lemma entry_wf_state [simp]: "entry_wf (e\<lparr>q_state := st\<rparr>) = entry_wf e"
  by (simp add: entry_wf_def)

lemma slot_wf_entry: "slot_wf slot \<Longrightarrow> i < NCMP_QUEUE_DEPTH \<Longrightarrow> entry_wf (slot_entry slot i)"
  by (simp add: slot_wf_def slot_entry_def)

lemma slot_wf_set: "slot_wf slot \<Longrightarrow> entry_wf e \<Longrightarrow> slot_wf (set_entry slot i e)"
  using set_update_subset_insert [of "ring slot" i e] by (auto simp: slot_wf_def set_entry_def)

lemma slot_wf_stats [simp]: "slot_wf (slot\<lparr>stats := st\<rparr>) = slot_wf slot"
  by (simp add: slot_wf_def)

lemma init_slot_wf: "0 < hdr \<Longrightarrow> slot_wf (init_slot hdr s)"
  by (auto simp: slot_wf_def init_slot_def Let_def entry_wf_def init_entry_def NCMP_ENTRY_BUF_SIZE_def ncmp_limits)

lemma set_entry_simps [simp]:
  "i < length (ring slot) \<Longrightarrow> slot_entry (set_entry slot i e) i = e"
  "i \<noteq> j \<Longrightarrow> slot_entry (set_entry slot i e) j = slot_entry slot j"
  "set_entry (set_entry slot i e) i e' = set_entry slot i e'"
  "stats (set_entry slot i e) = stats slot" "max_inflight (set_entry slot i e) = max_inflight slot"
  "ring (set_entry slot i e) = (ring slot)[i := e]"
  by (simp_all add: slot_entry_def set_entry_def)

lemma stats_entry_simps [simp]:
  "slot_entry (slot\<lparr>stats := st\<rparr>) i = slot_entry slot i"
  "set_entry (slot\<lparr>stats := st\<rparr>) i e = (set_entry slot i e)\<lparr>stats := st\<rparr>"
  by (simp_all add: slot_entry_def set_entry_def)

lemma comm_reserve_simps [simp]:
  "slot_entry (comm_reserve_inflight slot) i = slot_entry slot i"
  "ring (comm_reserve_inflight slot) = ring slot"
  "max_inflight (comm_reserve_inflight slot) = max_inflight slot"
  "comm_inflight (comm_reserve_inflight slot) = comm_inflight slot + 1"
  "slot_wf (comm_reserve_inflight slot) = slot_wf slot"
  by (simp_all add: comm_reserve_inflight_def comm_inflight_def slot_entry_def slot_wf_def Let_def)

lemma comm_release_simps [simp]:
  "slot_entry (comm_release_inflight slot) i = slot_entry slot i"
  "ring (comm_release_inflight slot) = ring slot"
  "max_inflight (comm_release_inflight slot) = max_inflight slot"
  "comm_inflight (comm_release_inflight slot) = comm_inflight slot - 1"
  "slot_wf (comm_release_inflight slot) = slot_wf slot"
  by (simp_all add: comm_release_inflight_def comm_inflight_def slot_entry_def slot_wf_def)

lemma comm_inflight_set [simp]: "comm_inflight (set_entry slot i e) = comm_inflight slot"
  by (simp add: comm_inflight_def)

section \<open>Scanning the ring\<close>

lemma ncmp_queue_claim_loop_cases:
  obtains (none) "\<forall>e \<in> set es. q_state e \<noteq> NCMP_Q_FREE" "ncmp_queue_claim_loop es k = (None, es)"
  | (some) i where "i < length es" "q_state (es ! i) = NCMP_Q_FREE" "\<forall>j < i. q_state (es ! j) \<noteq> NCMP_Q_FREE"
      "ncmp_queue_claim_loop es k = (Some (k + i), es[i := (es ! i)\<lparr>q_state := NCMP_Q_CLAIMED\<rparr>])"
proof (induction es arbitrary: k thesis)
  case Nil
  then show ?case by simp
next
  case (Cons e es)
  show ?case
  proof (cases "q_state e = NCMP_Q_FREE")
    case True
    then show ?thesis by (intro Cons.prems(2) [of 0]) (simp_all add: ncmp_qentry_cas_def)
  next
    case False
    show ?thesis
    proof (rule Cons.IH [of "Suc k"])
      assume "\<forall>e \<in> set es. q_state e \<noteq> NCMP_Q_FREE" "ncmp_queue_claim_loop es (Suc k) = (None, es)"
      with False show thesis by (intro Cons.prems(1)) (simp_all add: ncmp_qentry_cas_def)
    next
      fix i
      assume i: "i < length es" "q_state (es ! i) = NCMP_Q_FREE" "\<forall>j < i. q_state (es ! j) \<noteq> NCMP_Q_FREE"
        "ncmp_queue_claim_loop es (Suc k) = (Some (Suc k + i), es[i := (es ! i)\<lparr>q_state := NCMP_Q_CLAIMED\<rparr>])"
      show thesis
      proof (rule Cons.prems(2) [of "Suc i"])
        show "\<forall>j < Suc i. q_state ((e # es) ! j) \<noteq> NCMP_Q_FREE"
          using False i(3) by (simp add: nth_Cons less_Suc_eq_0_disj split: nat.split)
      qed (use False i in \<open>simp_all add: ncmp_qentry_cas_def\<close>)
    qed
  qed
qed

lemma comm_take_loop_cases:
  obtains (none) "\<forall>e \<in> set es. q_state e \<noteq> NCMP_Q_POSTED" "comm_take_loop es k = (None, es)"
  | (some) i where "i < length es" "q_state (es ! i) = NCMP_Q_POSTED"
      "comm_take_loop es k = (Some (k + i), es[i := (es ! i)\<lparr>q_state := NCMP_Q_SENT\<rparr>])"
proof (induction es arbitrary: k thesis)
  case Nil
  then show ?case by simp
next
  case (Cons e es)
  show ?case
  proof (cases "q_state e = NCMP_Q_POSTED")
    case True
    then show ?thesis by (intro Cons.prems(2) [of 0]) (simp_all add: ncmp_qentry_cas_def ncmp_qentry_state_def)
  next
    case False
    show ?thesis
    proof (rule Cons.IH [of "Suc k"])
      assume "\<forall>e \<in> set es. q_state e \<noteq> NCMP_Q_POSTED" "comm_take_loop es (Suc k) = (None, es)"
      with False show thesis by (intro Cons.prems(1)) (simp_all add: ncmp_qentry_state_def)
    next
      fix i
      assume "i < length es" "q_state (es ! i) = NCMP_Q_POSTED"
        "comm_take_loop es (Suc k) = (Some (Suc k + i), es[i := (es ! i)\<lparr>q_state := NCMP_Q_SENT\<rparr>])"
      with False show thesis by (intro Cons.prems(2) [of "Suc i"]) (simp_all add: ncmp_qentry_state_def)
    qed
  qed
qed

lemma comm_match_loop_Some:
  "comm_match_loop es k sid seq = Some j \<Longrightarrow>
     k \<le> j \<and> j - k < length es \<and> q_state (es ! (j - k)) = NCMP_Q_SENT \<and>
     owner_sess (es ! (j - k)) = sid \<and> q_sequence_id (es ! (j - k)) = seq"
proof (induction es arbitrary: k)
  case (Cons e es)
  show ?case
  proof (cases "q_state e = NCMP_Q_SENT \<and> owner_sess e = sid \<and> q_sequence_id e = seq")
    case True
    with Cons.prems show ?thesis by (auto simp: ncmp_qentry_state_def)
  next
    case False
    with Cons.prems have "comm_match_loop es (Suc k) sid seq = Some j" by (auto simp: ncmp_qentry_state_def split: if_splits)
    from Cons.IH [OF this] have "Suc k \<le> j" "j - Suc k < length es" "q_state (es ! (j - Suc k)) = NCMP_Q_SENT"
      "owner_sess (es ! (j - Suc k)) = sid" "q_sequence_id (es ! (j - Suc k)) = seq" by auto
    then show ?thesis by (auto simp: nth_Cons split: nat.split) (metis Suc_diff_Suc Suc_le_lessD diff_Suc_Suc nat.inject)+
  qed
qed simp

lemma comm_match_loop_None:
  "comm_match_loop es k sid seq = None \<longleftrightarrow>
     (\<forall>e \<in> set es. \<not> (q_state e = NCMP_Q_SENT \<and> owner_sess e = sid \<and> q_sequence_id e = seq))"
  by (induction es arbitrary: k) (auto simp: ncmp_qentry_state_def)

lemma comm_match_sent_Some:
  assumes "comm_match_sent slot sid seq = Some i"
  shows "i < length (ring slot)" "q_state (slot_entry slot i) = NCMP_Q_SENT"
    "owner_sess (slot_entry slot i) = sid" "q_sequence_id (slot_entry slot i) = seq"
  using comm_match_loop_Some [OF assms [unfolded comm_match_sent_def]] by (auto simp: slot_entry_def)

section \<open>Enqueueing\<close>

definition posted_entry :: "ncmp_qentry \<Rightarrow> u32 \<Rightarrow> u32 \<Rightarrow> ncmp_message \<Rightarrow> ncmp_qentry" where
  "posted_entry e sid seq req =
     e\<lparr>req_buf := wire_frame req @ drop (length (wire_frame req)) (req_buf e),
       owner_sess := sid, q_sequence_id := seq, req_len := of_nat (length (wire_frame req)), rsp_len := 0,
       q_state := NCMP_Q_POSTED\<rparr>"

lemma unat_frame_len:
  assumes "wire_valid req"
  shows "unat (of_nat (length (wire_frame req)) :: u32) = length (wire_frame req)"
    "length (wire_frame req) \<le> NCMP_ENTRY_BUF_SIZE"
proof -
  have len: "length (wire_frame req) = 56 + wire_sum req" "wire_sum req \<le> 40928"
    by (rule length_wire_frame [OF assms], rule wire_valid_sum(1) [OF assms])
  show "unat (of_nat (length (wire_frame req)) :: u32) = length (wire_frame req)"
    by (subst unat_of_nat) (use len in simp)
  show "length (wire_frame req) \<le> NCMP_ENTRY_BUF_SIZE"
    using len by (simp add: NCMP_ENTRY_BUF_SIZE_def ncmp_limits)
qed

lemma posted_entry_wf:
  assumes "entry_wf e" "wire_valid req"
  shows "entry_wf (posted_entry e sid seq req)"
  using assms unat_frame_len [OF assms(2)] by (simp add: entry_wf_def posted_entry_def)

lemma ncmp_queue_claim_wf:
  assumes "slot_wf slot"
  obtains (full) "\<forall>e \<in> set (ring slot). q_state e \<noteq> NCMP_Q_FREE"
      "ncmp_queue_claim (Some (ring slot)) NCMP_QUEUE_DEPTH = (Inl NCMP_ERR_FULL, Some (ring slot))"
  | (claimed) i where "i < NCMP_QUEUE_DEPTH" "q_state (slot_entry slot i) = NCMP_Q_FREE"
      "\<forall>j < i. q_state (slot_entry slot j) \<noteq> NCMP_Q_FREE"
      "ncmp_queue_claim (Some (ring slot)) NCMP_QUEUE_DEPTH =
         (Inr i, Some ((ring slot)[i := (slot_entry slot i)\<lparr>q_state := NCMP_Q_CLAIMED\<rparr>]))"
proof -
  have len: "length (ring slot) = NCMP_QUEUE_DEPTH" using assms by (simp add: slot_wf_def)
  have d: "NCMP_QUEUE_DEPTH \<noteq> 0" by (simp add: NCMP_QUEUE_DEPTH_def)
  show thesis
  proof (rule ncmp_queue_claim_loop_cases [of "ring slot" 0])
    assume "\<forall>e \<in> set (ring slot). q_state e \<noteq> NCMP_Q_FREE" "ncmp_queue_claim_loop (ring slot) 0 = (None, ring slot)"
    with len d show thesis by (intro full) (simp_all add: ncmp_queue_claim_def)
  next
    fix i
    assume "i < length (ring slot)" "q_state (ring slot ! i) = NCMP_Q_FREE" "\<forall>j < i. q_state (ring slot ! j) \<noteq> NCMP_Q_FREE"
      "ncmp_queue_claim_loop (ring slot) 0 = (Some (0 + i), (ring slot)[i := (ring slot ! i)\<lparr>q_state := NCMP_Q_CLAIMED\<rparr>])"
    with len d show thesis by (intro claimed [of i]) (simp_all add: ncmp_queue_claim_def slot_entry_def)
  qed
qed

lemma slot_entry_ring_update [simp]:
  "i < length (ring slot) \<Longrightarrow> slot_entry (slot\<lparr>ring := (ring slot)[i := e]\<rparr>) i = e"
  by (simp add: slot_entry_def)

lemma set_entry_ring_update [simp]: "set_entry (slot\<lparr>ring := (ring slot)[i := e]\<rparr>) i e' = set_entry slot i e'"
  by (simp add: set_entry_def)

lemma set_entry_id [simp]: "set_entry slot i (slot_entry slot i) = slot"
  by (simp add: set_entry_def slot_entry_def)

lemma ncmp_slot_enqueue_cases:
  assumes wf: "slot_wf slot" "msg_wf req"
  obtains (full) "\<forall>e \<in> set (ring slot). q_state e \<noteq> NCMP_Q_FREE"
      "ncmp_slot_enqueue True slot sid seq req = Some (NCMP_ERR_FULL, slot, None)"
  | (invalid) rc where "\<not> wire_valid req" "rc \<noteq> NCMP_OK" "ncmp_slot_enqueue True slot sid seq req = Some (rc, slot, None)"
  | (posted) i where "wire_valid req" "i < NCMP_QUEUE_DEPTH" "q_state (slot_entry slot i) = NCMP_Q_FREE"
      "\<forall>j < i. q_state (slot_entry slot j) \<noteq> NCMP_Q_FREE"
      "ncmp_slot_enqueue True slot sid seq req =
         Some (NCMP_OK, set_entry slot i (posted_entry (slot_entry slot i) sid seq req), Some i)"
  using wf(1)
proof (cases rule: ncmp_queue_claim_wf)
  case full
  then show ?thesis by (intro that(1)) (simp_all add: ncmp_slot_enqueue_def)
next
  case (claimed i)
  let ?e = "slot_entry slot i"
  have i: "i < length (ring slot)" using claimed(1) wf(1) by (simp add: slot_wf_def)
  have e: "req_off ?e \<noteq> 0" "length (req_buf ?e) = NCMP_ENTRY_BUF_SIZE"
    using slot_wf_entry [OF wf(1) claimed(1)] by (simp_all add: entry_wf_def)
  have fr: "?e\<lparr>q_state := NCMP_Q_FREE\<rparr> = ?e" using claimed(2) by simp
  show ?thesis
  proof (cases "wire_valid req")
    case False
    then obtain rc where rc: "rc \<noteq> NCMP_OK"
      "ncmp_wire_encode True req (req_buf ?e) NCMP_ENTRY_BUF_SIZE = Some (rc, req_buf ?e, 0)"
      using ncmp_wire_encode_error [OF wf(2)] by blast
    have r: "?e\<lparr>q_state := NCMP_Q_FREE, req_buf := req_buf ?e\<rparr> = ?e" using fr by simp
    have "ncmp_slot_enqueue True slot sid seq req = Some (rc, slot, None)"
      using rc claimed(4) e i r by (simp add: ncmp_slot_enqueue_def Let_def ncmp_shm_ptr_def ncmp_qentry_cas_def)
    then show ?thesis using False rc(1) by (intro that(2))
  next
    case True
    have len: "length (wire_frame req) = 56 + wire_sum req" by (rule length_wire_frame [OF True])
    have "56 + wire_sum req \<le> NCMP_ENTRY_BUF_SIZE" using unat_frame_len(2) [OF True] len by simp
    then have enc: "ncmp_wire_encode True req (req_buf ?e) NCMP_ENTRY_BUF_SIZE =
        Some (NCMP_OK, wire_frame req @ drop (length (wire_frame req)) (req_buf ?e), length (wire_frame req))"
      using ncmp_wire_encode_ok [OF True] e(2) len by simp
    have "ncmp_slot_enqueue True slot sid seq req =
         Some (NCMP_OK, set_entry slot i (posted_entry ?e sid seq req), Some i)"
      using enc claimed(4) e i
      by (simp add: ncmp_slot_enqueue_def Let_def ncmp_shm_ptr_def ncmp_qentry_cas_def ncmp_queue_post_def posted_entry_def)
    then show ?thesis using True claimed by (intro that(3))
  qed
qed

section \<open>Waiting\<close>

lemma ncmp_wait_loop_returns:
  assumes "budget \<noteq> 0"
  shows "spins \<le> budget \<Longrightarrow> \<exists>seen k' s. ncmp_wait_loop env idx budget spins k slot = Some (seen, k', s) \<and>
    (seen \<longrightarrow> (\<exists>j s'. s = env j s' \<and> q_state (slot_entry s idx) = NCMP_Q_DONE))"
proof (induction "budget - spins" arbitrary: spins k slot)
  case 0
  let ?s1 = "env k slot" let ?s2 = "snd (slot_cas (env (k + 1) ?s1) idx NCMP_Q_SENT NCMP_Q_ABANDONED)"
  let ?s3 = "snd (slot_cas (env (k + 2) ?s2) idx NCMP_Q_POSTED NCMP_Q_ABANDONED)"
  consider "q_state (slot_entry ?s1 idx) = NCMP_Q_DONE" | "q_state (slot_entry ?s1 idx) \<noteq> NCMP_Q_DONE" by blast
  with 0 assms show ?case
    by (subst ncmp_wait_loop.simps)
       (auto simp: Let_def ncmp_qentry_state_def split: prod.split bool.split)
next
  case (Suc n)
  then have n: "n = budget - Suc spins" "Suc spins \<le> budget" by auto
  show ?case
  proof (cases "q_state (slot_entry (env k slot) idx) = NCMP_Q_DONE")
    case True
    then show ?thesis by (subst ncmp_wait_loop.simps) (auto simp: Let_def ncmp_qentry_state_def)
  next
    case False
    from Suc.hyps(1) [OF n, of "Suc k" "env k slot"] n(2) assms False show ?thesis
      by (subst ncmp_wait_loop.simps) (simp add: Let_def ncmp_qentry_state_def)
  qed
qed

lemma ncmp_wait_loop_done:
  assumes "q_state (slot_entry (env k slot) idx) = NCMP_Q_DONE"
  shows "ncmp_wait_loop env idx budget spins k slot = Some (True, Suc k, env k slot)"
  using assms by (subst ncmp_wait_loop.simps) (simp add: Let_def ncmp_qentry_state_def)

section \<open>Dispatching\<close>

lemma comm_take_posted_cases:
  obtains (none) "\<forall>e \<in> set (ring slot). q_state e \<noteq> NCMP_Q_POSTED" "comm_take_posted slot = (None, slot)"
  | (some) i where "i < length (ring slot)" "q_state (slot_entry slot i) = NCMP_Q_POSTED"
      "comm_take_posted slot = (Some i, set_entry slot i ((slot_entry slot i)\<lparr>q_state := NCMP_Q_SENT\<rparr>))"
proof (rule comm_take_loop_cases [of "ring slot" 0])
  assume "\<forall>e \<in> set (ring slot). q_state e \<noteq> NCMP_Q_POSTED" "comm_take_loop (ring slot) 0 = (None, ring slot)"
  then show thesis by (intro none) (simp_all add: comm_take_posted_def)
next
  fix i
  assume "i < length (ring slot)" "q_state (ring slot ! i) = NCMP_Q_POSTED"
    "comm_take_loop (ring slot) 0 = (Some (0 + i), (ring slot)[i := (ring slot ! i)\<lparr>q_state := NCMP_Q_SENT\<rparr>])"
  then show thesis by (intro some [of i]) (simp_all add: comm_take_posted_def slot_entry_def set_entry_def)
qed

text \<open>How dispatching may change an entry: from posted to sent, nothing else.\<close>

definition sent_step :: "ncmp_qentry \<Rightarrow> ncmp_qentry \<Rightarrow> bool" where
  "sent_step e e' \<longleftrightarrow> e' = e \<or> (q_state e = NCMP_Q_POSTED \<and> e' = e\<lparr>q_state := NCMP_Q_SENT\<rparr>)"

lemma sent_step_trans: "sent_step e e' \<Longrightarrow> sent_step e' e'' \<Longrightarrow> sent_step e e''"
  by (auto simp: sent_step_def)

definition dispatched_count :: "ncmp_slot \<Rightarrow> nat" where
  "dispatched_count slot = length (filter (\<lambda>e. q_state e = NCMP_Q_SENT) (ring slot))"

lemma filter_length_update:
  assumes "i < length xs" "\<not> P (xs ! i)" "P x"
  shows "length (filter P (xs[i := x])) = Suc (length (filter P xs))"
proof -
  have "xs = take i xs @ xs ! i # drop (Suc i) xs" using assms(1) by (rule id_take_nth_drop)
  then have "length (filter P xs) = length (filter P (take i xs)) + length (filter P (drop (Suc i) xs))"
    using assms(2) by (metis (no_types, lifting) filter.simps(2) filter_append length_append)
  then show ?thesis using assms by (simp add: upd_conv_take_nth_drop)
qed

lemma unat_inc_less:
  assumes "x < (y :: u32)"
  shows "unat (x + 1) = unat x + 1" "x + 1 \<le> y"
proof -
  have "1 + x \<noteq> 0"
  proof
    assume "1 + x = 0"
    then have "x = - 1" by (simp add: eq_neg_iff_add_eq_0 add.commute)
    with assms word_n1_ge [of y] show False by simp
  qed
  from unatSuc [OF this] show "unat (x + 1) = unat x + 1" by (simp add: add.commute)
  then show "x + 1 \<le> y" using assms by (simp add: word_le_nat_alt word_less_nat_alt)
qed

definition dispatch_result :: "ncmp_slot \<Rightarrow> nat \<Rightarrow> ncmp_slot \<Rightarrow> bool" where
  "dispatch_result slot n slot' \<longleftrightarrow>
    slot_wf slot' \<and> max_inflight slot' = max_inflight slot \<and> comm_inflight slot' \<le> max_inflight slot \<and>
    unat (comm_inflight slot') = unat (comm_inflight slot) + n \<and>
    dispatched_count slot' = dispatched_count slot + n \<and>
    (\<forall>i < NCMP_QUEUE_DEPTH. sent_step (slot_entry slot i) (slot_entry slot' i))"

lemma dispatch_result_refl:
  "slot_wf slot \<Longrightarrow> comm_inflight slot \<le> max_inflight slot \<Longrightarrow> dispatch_result slot 0 slot"
  by (simp add: dispatch_result_def sent_step_def)

lemma dispatch_result_trans:
  assumes "dispatch_result slot m slot'" "dispatch_result slot' n slot''"
  shows "dispatch_result slot (m + n) slot''"
  using assms by (auto simp: dispatch_result_def intro: sent_step_trans)

text \<open>Taking entry \<open>i\<close> and reserving its place.\<close>

definition comm_taken :: "ncmp_slot \<Rightarrow> nat \<Rightarrow> ncmp_slot" where
  "comm_taken slot i = comm_reserve_inflight (set_entry slot i ((slot_entry slot i)\<lparr>q_state := NCMP_Q_SENT\<rparr>))"

lemma comm_taken_entry:
  assumes "i < length (ring slot)"
  shows "slot_entry (comm_taken slot i) j = (if j = i then (slot_entry slot i)\<lparr>q_state := NCMP_Q_SENT\<rparr> else slot_entry slot j)"
  using assms by (simp add: comm_taken_def)

lemma comm_taken_result:
  assumes "slot_wf slot" "i < NCMP_QUEUE_DEPTH" "q_state (slot_entry slot i) = NCMP_Q_POSTED"
    and lt: "comm_inflight slot < max_inflight slot"
  shows "dispatch_result slot 1 (comm_taken slot i)"
proof -
  have i: "i < length (ring slot)" using assms(1,2) by (simp add: slot_wf_def)
  have "slot_wf (set_entry slot i ((slot_entry slot i)\<lparr>q_state := NCMP_Q_SENT\<rparr>))"
    using assms(1,2) by (intro slot_wf_set) (simp_all add: slot_wf_entry)
  moreover have "dispatched_count (comm_taken slot i) = Suc (dispatched_count slot)"
    using filter_length_update [OF i, of "\<lambda>e. q_state e = NCMP_Q_SENT"] assms(3)
    by (simp add: dispatched_count_def comm_taken_def set_entry_def slot_entry_def)
  ultimately show ?thesis
    using unat_inc_less [OF lt] comm_taken_entry [OF i] assms(3)
    unfolding dispatch_result_def sent_step_def by (simp add: comm_taken_def)
qed

lemma comm_taken_undo:
  assumes "i < length (ring slot)" "q_state (slot_entry slot i) = NCMP_Q_POSTED"
  shows "snd (slot_cas (comm_release_inflight (comm_taken slot i)) i NCMP_Q_SENT NCMP_Q_POSTED) =
    slot\<lparr>stats := (stats (comm_taken slot i))\<lparr>in_flight_cnt := in_flight_cnt (stats slot)\<rparr>\<rparr>"
proof -
  have "(slot_entry slot i)\<lparr>q_state := NCMP_Q_POSTED\<rparr> = slot_entry slot i" using assms(2) by simp
  then show ?thesis
    using assms(1)
    by (simp add: slot_cas_def comm_taken_entry ncmp_qentry_cas_def)
       (simp add: comm_release_inflight_def comm_taken_def comm_reserve_inflight_def comm_inflight_def Let_def
          set_entry_def slot_entry_def)
qed

lemma comm_dispatch_step:
  assumes wf: "slot_wf slot" and lt: "comm_inflight slot < max_inflight slot"
    and take: "comm_take_posted slot = (Some i, set_entry slot i ((slot_entry slot i)\<lparr>q_state := NCMP_Q_SENT\<rparr>))"
    and i: "i < NCMP_QUEUE_DEPTH"
  shows "comm_dispatch send tr slot d =
    (case send tr (Some (take (unat (req_len (slot_entry slot i))) (req_buf (slot_entry slot i)))) of
       (rc, tr') \<Rightarrow>
         if rc \<noteq> NCMP_OK
         then Some (d, tr', snd (slot_cas (comm_release_inflight (comm_taken slot i)) i NCMP_Q_SENT NCMP_Q_POSTED))
         else comm_dispatch send tr' (comm_taken slot i) (Suc d))"
proof -
  have e: "entry_wf (slot_entry slot i)" using slot_wf_entry [OF wf i] .
  have i': "i < length (ring slot)" using wf i by (simp add: slot_wf_def)
  show ?thesis
    using e lt take i'
    unfolding comm_taken_def
    by (subst comm_dispatch.simps)
       (simp add: Let_def entry_wf_def ncmp_shm_ptr_def get_bytes_def)
qed

lemma comm_dispatch_ok:
  assumes "slot_wf slot" "comm_inflight slot \<le> max_inflight slot"
  shows "\<exists>n tr' slot'. comm_dispatch send tr slot d = Some (d + n, tr', slot') \<and> dispatch_result slot n slot'"
  using assms
proof (induction "length (filter (\<lambda>e. q_state e = NCMP_Q_POSTED) (ring slot))" arbitrary: tr slot d rule: less_induct)
  case less
  show ?case
  proof (cases "comm_inflight slot < max_inflight slot")
    case False
    with less.prems show ?thesis
      by (intro exI [of _ 0]) (simp add: comm_dispatch.simps dispatch_result_refl)
  next
    case lt: True
    show ?thesis
    proof (cases rule: comm_take_posted_cases [of slot])
      case none
      with less.prems lt show ?thesis
        by (intro exI [of _ 0]) (simp add: comm_dispatch.simps dispatch_result_refl)
    next
      case (some i)
      then have i: "i < NCMP_QUEUE_DEPTH" using less.prems(1) by (simp add: slot_wf_def)
      note step = comm_dispatch_step [OF less.prems(1) lt some(3) i]
      note taken = comm_taken_result [OF less.prems(1) i some(2) lt]
      obtain rc tr' where send: "send tr (Some (take (unat (req_len (slot_entry slot i))) (req_buf (slot_entry slot i)))) = (rc, tr')"
        by fastforce
      show ?thesis
      proof (cases "rc = NCMP_OK")
        case False
        let ?s = "slot\<lparr>stats := (stats (comm_taken slot i))\<lparr>in_flight_cnt := in_flight_cnt (stats slot)\<rparr>\<rparr>"
        have "dispatch_result slot 0 ?s"
          using less.prems by (simp add: dispatch_result_def sent_step_def comm_inflight_def dispatched_count_def)
        with False send show ?thesis
          unfolding step comm_taken_undo [OF some(1,2)] by (intro exI [of _ 0]) simp
      next
        case True
        have "length (filter (\<lambda>e. q_state e = NCMP_Q_POSTED) (ring (comm_taken slot i))) <
            length (filter (\<lambda>e. q_state e = NCMP_Q_POSTED) (ring slot))"
        proof -
          let ?sent = "(slot_entry slot i)\<lparr>q_state := NCMP_Q_SENT\<rparr>"
          have "length (filter (\<lambda>e. q_state e = NCMP_Q_POSTED) ((ring slot)[i := ?sent, i := ring slot ! i])) =
              Suc (length (filter (\<lambda>e. q_state e = NCMP_Q_POSTED) ((ring slot)[i := ?sent])))"
            using some(1,2) by (intro filter_length_update) (simp_all add: slot_entry_def)
          then show ?thesis by (simp add: comm_taken_def set_entry_def)
        qed
        moreover have "slot_wf (comm_taken slot i)" "comm_inflight (comm_taken slot i) \<le> max_inflight (comm_taken slot i)"
          using taken by (simp_all add: dispatch_result_def)
        ultimately obtain n tr'' slot'' where
          "comm_dispatch send tr' (comm_taken slot i) (Suc d) = Some (Suc d + n, tr'', slot'')"
          "dispatch_result (comm_taken slot i) n slot''"
          using less.hyps by blast
        with True send dispatch_result_trans [OF taken] show ?thesis
          unfolding step by (intro exI [of _ "1 + n"]) auto
      qed
    qed
  qed
qed

section \<open>Draining\<close>

lemma set_entry_release [simp]: "set_entry (comm_release_inflight slot) i e = comm_release_inflight (set_entry slot i e)"
  by (simp add: comm_release_inflight_def)

definition answered_entry :: "ncmp_qentry \<Rightarrow> byte list \<Rightarrow> ncmp_qentry" where
  "answered_entry e bs =
     e\<lparr>rsp_buf := bs @ drop (length bs) (rsp_buf e), rsp_len := of_nat (length bs), q_state := NCMP_Q_DONE\<rparr>"

lemma answered_entry_wf:
  assumes "entry_wf e" "length bs \<le> NCMP_ENTRY_BUF_SIZE"
  shows "entry_wf (answered_entry e bs)"
proof -
  have "length bs < 2 ^ 32" using assms(2) by (simp add: NCMP_ENTRY_BUF_SIZE_def ncmp_limits)
  then have "unat (of_nat (length bs) :: u32) = length bs" by (simp add: unat_of_nat)
  then show ?thesis using assms by (simp add: entry_wf_def answered_entry_def)
qed

lemma comm_drain_match:
  assumes wf: "slot_wf slot" and fl: "comm_inflight slot \<noteq> 0"
    and recv: "recv tr rxbuf rxcap = ((NCMP_OK, rx, n), tr')" "n \<le> length rx" "n \<le> NCMP_ENTRY_BUF_SIZE"
    and hdr: "ncmp_wire_decode_header True rx n zero_header = Some (NCMP_OK, hdr)"
    and m: "comm_match_sent slot (session_id hdr) (sequence_id hdr) = Some i"
  shows "comm_drain recv tr slot rxbuf rxcap =
    Some (1, tr', comm_release_inflight (set_entry slot i (answered_entry (slot_entry slot i) (take n rx))), rx)"
proof -
  note ms = comm_match_sent_Some [OF m]
  have "i < NCMP_QUEUE_DEPTH" using ms(1) wf by (simp add: slot_wf_def)
  from slot_wf_entry [OF wf this]
  have e: "rsp_off (slot_entry slot i) \<noteq> 0" "length (rsp_buf (slot_entry slot i)) = NCMP_ENTRY_BUF_SIZE"
    by (simp_all add: entry_wf_def)
  have "put_bytes (rsp_buf (slot_entry slot i)) 0 (take n rx) = Some (take n rx @ drop n (rsp_buf (slot_entry slot i)))"
    using put_bytes_0 [of "take n rx" "rsp_buf (slot_entry slot i)"] recv e by (simp add: min_def)
  then show ?thesis
    using fl recv hdr m e ms(1,2)
    by (simp add: comm_drain_def get_bytes_def ncmp_shm_ptr_def slot_cas_def ncmp_qentry_cas_def answered_entry_def min_def Let_def)
qed

text \<open>The transport's contract: a received frame lies inside the buffer it was given.\<close>

definition recv_ok :: "('tr \<Rightarrow> byte list \<Rightarrow> nat \<Rightarrow> (ncmp_rc \<times> byte list \<times> nat) \<times> 'tr) \<Rightarrow> bool" where
  "recv_ok recv \<longleftrightarrow> (\<forall>tr rxbuf rxcap rc rx n tr'. rxcap \<le> length rxbuf \<longrightarrow> recv tr rxbuf rxcap = ((rc, rx, n), tr') \<longrightarrow>
     length rx = length rxbuf \<and> (rc = NCMP_OK \<longrightarrow> n \<le> rxcap))"

lemma recv_okD:
  assumes "recv_ok recv" "rxcap \<le> length rxbuf" "recv tr rxbuf rxcap = ((rc, rx, n), tr')"
  shows "length rx = length rxbuf" "rc = NCMP_OK \<Longrightarrow> n \<le> rxcap"
  using assms unfolding recv_ok_def by blast+

lemma comm_drain_ok:
  assumes wf: "slot_wf slot" and recv: "recv_ok recv" and rxl: "length rxbuf = NCMP_MAX_FRAME_SIZE"
  shows "\<exists>r tr' slot' rx'. comm_drain recv tr slot rxbuf NCMP_MAX_FRAME_SIZE = Some (r, tr', slot', rx') \<and>
    slot_wf slot' \<and> comm_inflight slot' = comm_inflight slot - of_nat r \<and> r \<le> 1 \<and>
    (r = 1 \<longrightarrow> comm_inflight slot \<noteq> 0) \<and> max_inflight slot' = max_inflight slot \<and> length rx' = length rxbuf \<and>
    (ring slot' = ring slot \<or>
      (\<exists>n hdr i. r = 1 \<and> ncmp_wire_decode_header True rx' n zero_header = Some (NCMP_OK, hdr) \<and>
         q_state (slot_entry slot i) = NCMP_Q_SENT \<and> owner_sess (slot_entry slot i) = session_id hdr \<and>
         q_sequence_id (slot_entry slot i) = sequence_id hdr \<and>
         ring slot' = (ring slot)[i := answered_entry (slot_entry slot i) (take n rx')]))"
proof (cases "comm_inflight slot = 0")
  case True
  then show ?thesis using wf by (simp add: comm_drain_def)
next
  case fl: False
  obtain rc rx n tr' where rv: "recv tr rxbuf NCMP_MAX_FRAME_SIZE = ((rc, rx, n), tr')"
    by (cases "recv tr rxbuf NCMP_MAX_FRAME_SIZE", cases "fst (recv tr rxbuf NCMP_MAX_FRAME_SIZE)") auto
  have len: "length rx = NCMP_MAX_FRAME_SIZE" "rc = NCMP_OK \<Longrightarrow> n \<le> NCMP_MAX_FRAME_SIZE"
    using recv_okD [OF recv _ rv] rxl by simp_all
  show ?thesis
  proof (cases "rc = NCMP_OK")
    case False
    then show ?thesis using fl rv wf len rxl by (simp add: comm_drain_def)
  next
    case True
    with len have n: "n \<le> length rx" by simp
    obtain rc' hdr where dh: "ncmp_wire_decode_header True rx n zero_header = Some (rc', hdr)"
      using decode_header_total [OF n] by blast
    show ?thesis
    proof (cases "rc' = NCMP_OK")
      case False
      then show ?thesis using fl rv wf len rxl True dh by (simp add: comm_drain_def)
    next
      case ok: True
      show ?thesis
      proof (cases "comm_match_sent slot (session_id hdr) (sequence_id hdr)")
        case None
        then show ?thesis using fl rv wf len rxl True dh ok by (simp add: comm_drain_def)
      next
        case (Some i)
        note ms = comm_match_sent_Some [OF Some]
        have nb: "n \<le> NCMP_ENTRY_BUF_SIZE" using len(2) [OF True] by (simp add: NCMP_ENTRY_BUF_SIZE_def)
        have "i < NCMP_QUEUE_DEPTH" using ms(1) wf by (simp add: slot_wf_def)
        then have "entry_wf (answered_entry (slot_entry slot i) (take n rx))"
          using slot_wf_entry [OF wf] nb by (intro answered_entry_wf) auto
        then have "slot_wf (set_entry slot i (answered_entry (slot_entry slot i) (take n rx)))"
          using wf by (intro slot_wf_set)
        with comm_drain_match [of slot recv tr rxbuf NCMP_MAX_FRAME_SIZE rx n tr' hdr i] wf fl rv len rxl True n nb dh ok Some ms
        show ?thesis by auto
      qed
    qed
  qed
qed

section \<open>The communication thread over a transport\<close>

text \<open>
  The contract between the communication thread and its transport: what a transport delivers
  lies inside the buffer it was given. Under it the thread can run any number of rounds.
\<close>

locale transport =
  fixes send :: "'tr \<Rightarrow> byte list option \<Rightarrow> ncmp_rc \<times> 'tr"
    and recv :: "'tr \<Rightarrow> byte list \<Rightarrow> nat \<Rightarrow> (ncmp_rc \<times> byte list \<times> nat) \<times> 'tr"
  assumes recv_in_buffer: "recv_ok recv"
begin

lemma round_safe:
  assumes "slot_wf slot" "comm_inflight slot \<le> max_inflight slot" "length rxbuf = NCMP_MAX_FRAME_SIZE"
  obtains n tr1 slot1 r tr2 slot2 rx where "comm_dispatch send tr slot 0 = Some (n, tr1, slot1)"
    "comm_drain recv tr1 slot1 rxbuf NCMP_MAX_FRAME_SIZE = Some (r, tr2, slot2, rx)"
    "slot_wf slot2" "comm_inflight slot2 \<le> max_inflight slot2" "length rx = NCMP_MAX_FRAME_SIZE"
proof -
  obtain n tr1 slot1 where d: "comm_dispatch send tr slot 0 = Some (0 + n, tr1, slot1)" "dispatch_result slot n slot1"
    using comm_dispatch_ok [OF assms(1,2), of send tr 0] by blast
  then have s1: "slot_wf slot1" "comm_inflight slot1 \<le> max_inflight slot1" by (auto simp: dispatch_result_def)
  obtain r tr2 slot2 rx where r: "comm_drain recv tr1 slot1 rxbuf NCMP_MAX_FRAME_SIZE = Some (r, tr2, slot2, rx)"
    "slot_wf slot2" "comm_inflight slot2 = comm_inflight slot1 - of_nat r" "r \<le> 1" "r = 1 \<longrightarrow> comm_inflight slot1 \<noteq> 0"
    "max_inflight slot2 = max_inflight slot1" "length rx = length rxbuf"
    using comm_drain_ok [OF s1(1) recv_in_buffer assms(3), of tr1] by blast
  have "r = 0 \<or> r = 1" using r(4) by auto
  then have "comm_inflight slot2 \<le> comm_inflight slot1"
    using r(3,5) by (auto simp: word_le_nat_alt unat_minus_one)
  then have "comm_inflight slot2 \<le> max_inflight slot2" using s1(2) r(6) by simp
  with d r assms(3) that show ?thesis by simp
qed

lemma thread_safe:
  assumes "slot_wf slot" "comm_inflight slot \<le> max_inflight slot" "length rxbuf = NCMP_MAX_FRAME_SIZE"
  shows "\<exists>tr' slot'. ncmpd_comm_thread send recv rounds tr slot rxbuf = Some (tr', slot') \<and> slot_wf slot' \<and>
    comm_inflight slot' \<le> max_inflight slot'"
  using assms
proof (induction rounds arbitrary: tr slot rxbuf)
  case (Suc rounds)
  obtain n tr1 slot1 r tr2 slot2 rx where "comm_dispatch send tr slot 0 = Some (n, tr1, slot1)"
    "comm_drain recv tr1 slot1 rxbuf NCMP_MAX_FRAME_SIZE = Some (r, tr2, slot2, rx)"
    "slot_wf slot2" "comm_inflight slot2 \<le> max_inflight slot2" "length rx = NCMP_MAX_FRAME_SIZE"
    by (rule round_safe [OF Suc.prems])
  with Suc.IH [of slot2 rx tr2] Suc.prems(3) show ?case by simp
qed simp

end

section \<open>Bounded waiting\<close>

lemma ncmp_slot_wait_total:
  assumes "budget \<noteq> 0" "i < NCMP_QUEUE_DEPTH" "msg_wf rsp" and env: "\<And>k s. slot_wf (env k s)"
  shows "\<exists>rc slot' rsp'. ncmp_slot_wait env True slot (int i) rsp budget = Some (rc, slot', rsp') \<and>
    (rc = NCMP_ERR_TIMEOUT \<or>
     rc = NCMP_OK \<and> (\<exists>k s rc'. let e = slot_entry (env k s) i in q_state e = NCMP_Q_DONE \<and>
        ncmp_wire_decode True (rsp_buf e) (unat (rsp_len e)) rsp = Some (rc', rsp')))"
proof -
  obtain seen k s where loop: "ncmp_wait_loop env i budget 0 0 slot = Some (seen, k, s)"
    and fin: "seen \<Longrightarrow> \<exists>j s'. s = env j s' \<and> q_state (slot_entry s i) = NCMP_Q_DONE"
    using ncmp_wait_loop_returns [OF assms(1), of 0 env i 0 slot] by blast
  show ?thesis
  proof (cases seen)
    case False
    then show ?thesis using loop assms(2) by (simp add: ncmp_slot_wait_def)
  next
    case True
    then obtain j s' where s: "s = env j s'" "q_state (slot_entry s i) = NCMP_Q_DONE" using fin by blast
    have e: "entry_wf (slot_entry s i)" unfolding s(1) by (rule slot_wf_entry [OF env assms(2)])
    then have "unat (rsp_len (slot_entry s i)) \<le> length (rsp_buf (slot_entry s i))" by (simp add: entry_wf_def)
    from ncmp_wire_decode_total [OF assms(3) this] obtain rc' rsp' where
      dec: "ncmp_wire_decode True (rsp_buf (slot_entry s i)) (unat (rsp_len (slot_entry s i))) rsp = Some (rc', rsp')"
      by blast
    have "ncmp_slot_wait env True slot (int i) rsp budget =
        Some (NCMP_OK, snd (slot_cas (env k s) i NCMP_Q_DONE NCMP_Q_FREE), rsp')"
      using True loop dec e assms(2) by (simp add: ncmp_slot_wait_def entry_wf_def ncmp_shm_ptr_def Let_def)
    moreover have "\<exists>k s0 rc'. let e = slot_entry (env k s0) i in q_state e = NCMP_Q_DONE \<and>
        ncmp_wire_decode True (rsp_buf e) (unat (rsp_len e)) rsp = Some (rc', rsp')"
      using s dec unfolding Let_def by blast
    ultimately show ?thesis by blast
  qed
qed

section \<open>A whole command\<close>

lemma comm_match_sent_only:
  assumes "i < length (ring slot)" "q_state (slot_entry slot i) = NCMP_Q_SENT"
    "owner_sess (slot_entry slot i) = sid" "q_sequence_id (slot_entry slot i) = seq"
    and "\<And>j. j < length (ring slot) \<Longrightarrow> j \<noteq> i \<Longrightarrow> q_state (slot_entry slot j) \<noteq> NCMP_Q_SENT"
  shows "comm_match_sent slot sid seq = Some i"
proof (cases "comm_match_sent slot sid seq")
  case None
  then have "\<forall>e \<in> set (ring slot). \<not> (q_state e = NCMP_Q_SENT \<and> owner_sess e = sid \<and> q_sequence_id e = seq)"
    by (simp add: comm_match_sent_def comm_match_loop_None)
  with assms(1-4) show ?thesis by (auto simp: slot_entry_def)
next
  case (Some j)
  with comm_match_sent_Some [OF Some] assms(5) show ?thesis by metis
qed

lemma comm_dispatch_single:
  assumes wf: "slot_wf slot" and max: "comm_inflight slot < max_inflight slot"
    and i: "i < NCMP_QUEUE_DEPTH" "q_state (slot_entry slot i) = NCMP_Q_POSTED"
    and only: "\<And>j. j < NCMP_QUEUE_DEPTH \<Longrightarrow> j \<noteq> i \<Longrightarrow> q_state (slot_entry slot j) \<noteq> NCMP_Q_POSTED"
    and send: "send tr (Some (take (unat (req_len (slot_entry slot i))) (req_buf (slot_entry slot i)))) = (NCMP_OK, tr')"
  shows "comm_dispatch send tr slot d = Some (Suc d, tr', comm_taken slot i)"
proof -
  have len: "length (ring slot) = NCMP_QUEUE_DEPTH" using wf by (simp add: slot_wf_def)
  have take: "comm_take_posted slot = (Some i, set_entry slot i ((slot_entry slot i)\<lparr>q_state := NCMP_Q_SENT\<rparr>))"
  proof (cases rule: comm_take_posted_cases [of slot])
    case none
    then show ?thesis using i len by (auto simp: slot_entry_def)
  next
    case (some k)
    then have "k = i" using only len by metis
    with some show ?thesis by simp
  qed
  have none: "comm_take_posted (comm_taken slot i) = (None, comm_taken slot i)"
  proof (cases rule: comm_take_posted_cases [of "comm_taken slot i"])
    case (some k)
    then have "k < length (ring slot)" by (simp add: comm_taken_def)
    with some(2) comm_taken_entry [of i slot k] only [of k] i len show ?thesis by (auto split: if_splits)
  qed simp
  have "comm_dispatch send tr' (comm_taken slot i) (Suc d) = Some (Suc d, tr', comm_taken slot i)"
    using none by (subst comm_dispatch.simps) simp
  then show ?thesis using send by (simp add: comm_dispatch_step [OF wf max take i(1)])
qed

lemma ncmp_slot_wait_done:
  assumes "i < NCMP_QUEUE_DEPTH" "q_state (slot_entry slot i) = NCMP_Q_DONE" "rsp_off (slot_entry slot i) \<noteq> 0"
    and "ncmp_wire_decode True (rsp_buf (slot_entry slot i)) (unat (rsp_len (slot_entry slot i))) rsp = Some (rc, rsp')"
  shows "ncmp_slot_wait (\<lambda>_ s. s) True slot (int i) rsp budget =
    Some (NCMP_OK, set_entry slot i ((slot_entry slot i)\<lparr>q_state := NCMP_Q_FREE\<rparr>), rsp')"
proof -
  have "ncmp_wait_loop (\<lambda>_ s. s) i budget 0 0 slot = Some (True, Suc 0, slot)"
    using assms(2) by (intro ncmp_wait_loop_done [of "\<lambda>_ s. s" 0, simplified])
  then show ?thesis
    using assms by (simp add: ncmp_slot_wait_def ncmp_shm_ptr_def slot_cas_def ncmp_qentry_cas_def Let_def)
qed

section \<open>A whole command\<close>

text \<open>
  A command that goes all the way: posted in some entry, sent as the only frame, answered, and
  decoded by the waiting client as the message \<open>ans\<close>; the entry is free again at the end.
\<close>

definition command_completes :: "('tr \<Rightarrow> byte list option \<Rightarrow> ncmp_rc \<times> 'tr)
    \<Rightarrow> ('tr \<Rightarrow> byte list \<Rightarrow> nat \<Rightarrow> (ncmp_rc \<times> byte list \<times> nat) \<times> 'tr)
    \<Rightarrow> 'tr \<Rightarrow> 'tr \<Rightarrow> 'tr \<Rightarrow> ncmp_slot \<Rightarrow> byte list \<Rightarrow> u32 \<Rightarrow> u32 \<Rightarrow> ncmp_message \<Rightarrow> ncmp_message \<Rightarrow> nat \<Rightarrow> ncmp_message \<Rightarrow> bool" where
  "command_completes send recv tr0 tr1 tr2 slot rxbuf sid seq req out budget ans \<longleftrightarrow>
     (\<exists>i slot1 slot2 slot3 slot4 out'.
       ncmp_slot_enqueue True slot sid seq req = Some (NCMP_OK, slot1, Some i) \<and>
       comm_dispatch send tr0 slot1 0 = Some (1, tr1, slot2) \<and>
       (\<exists>rx. comm_drain recv tr1 slot2 rxbuf NCMP_MAX_FRAME_SIZE = Some (1, tr2, slot3, rx)) \<and>
       ncmp_slot_wait (\<lambda>_ s. s) True slot3 (int i) out budget = Some (NCMP_OK, slot4, out') \<and>
       header out' = wire_header ans \<and> param_len out' = param_len ans \<and>
       take (wire_sum ans) (the (payload out')) = take (wire_sum ans) (the (payload ans)) \<and>
       q_state (slot_entry slot4 i) = NCMP_Q_FREE \<and> comm_inflight slot4 = 0)"

lemma ncmp_command_flow:
  assumes wf: "slot_wf slot" "wire_valid req" "wire_valid ans" "msg_wf out"
    and idle: "\<And>j. j < NCMP_QUEUE_DEPTH \<Longrightarrow> q_state (slot_entry slot j) = NCMP_Q_FREE"
      "comm_inflight slot = 0" "0 < max_inflight slot"
    and ids: "session_id (header ans) = sid" "sequence_id (header ans) = seq"
    and send: "send tr0 (Some (wire_frame req)) = (NCMP_OK, tr1)"
    and recv: "recv tr1 rxbuf NCMP_MAX_FRAME_SIZE = ((NCMP_OK, wire_frame ans @ rest, length (wire_frame ans)), tr2)"
    and out: "payload out = Some dst" "wire_sum ans \<le> payload_cap out"
  shows "command_completes send recv tr0 tr1 tr2 slot rxbuf sid seq req out budget ans"
proof -
  have "slot_entry slot 0 \<in> set (ring slot)"
    using wf(1) by (simp add: slot_wf_def slot_entry_def NCMP_QUEUE_DEPTH_def)
  then have notfull: "\<not> (\<forall>e \<in> set (ring slot). q_state e \<noteq> NCMP_Q_FREE)"
    using idle(1) [of 0] by (auto simp: NCMP_QUEUE_DEPTH_def)
  have mw: "msg_wf req" using wf(2) by (simp add: wire_valid_def)
  obtain i where i: "i < NCMP_QUEUE_DEPTH" and enq: "ncmp_slot_enqueue True slot sid seq req =
      Some (NCMP_OK, set_entry slot i (posted_entry (slot_entry slot i) sid seq req), Some i)"
    by (rule ncmp_slot_enqueue_cases [OF wf(1) mw, of sid seq]) (use notfull wf(2) in blast)+
  let ?e1 = "posted_entry (slot_entry slot i) sid seq req"
  define slot1 where "slot1 = set_entry slot i ?e1"
  have il: "i < length (ring slot)" using i wf(1) by (simp add: slot_wf_def)
  have s1: "slot_wf slot1" "slot_entry slot1 i = ?e1" "\<And>j. j \<noteq> i \<Longrightarrow> slot_entry slot1 j = slot_entry slot j"
    "comm_inflight slot1 = 0" "max_inflight slot1 = max_inflight slot" "length (ring slot1) = NCMP_QUEUE_DEPTH"
    using posted_entry_wf [OF slot_wf_entry [OF wf(1) i] wf(2)] wf(1) il idle(2)
    by (simp_all add: slot1_def slot_wf_set) (simp add: slot_wf_def)
  have e1: "q_state ?e1 = NCMP_Q_POSTED" "owner_sess ?e1 = sid" "q_sequence_id ?e1 = seq"
    "take (unat (req_len ?e1)) (req_buf ?e1) = wire_frame req"
    using unat_frame_len [OF wf(2)] by (simp_all add: posted_entry_def)
  have disp: "comm_dispatch send tr0 slot1 0 = Some (Suc 0, tr1, comm_taken slot1 i)"
    by (rule comm_dispatch_single) (use s1 e1 i idle send in auto)
  define slot2 where "slot2 = comm_taken slot1 i"
  let ?e2 = "?e1\<lparr>q_state := NCMP_Q_SENT\<rparr>"
  have il1: "i < length (ring slot1)" using i s1(6) by simp
  have s2: "slot_wf slot2" "comm_inflight slot2 = 1" "slot_entry slot2 i = ?e2"
    "\<And>j. j \<noteq> i \<Longrightarrow> slot_entry slot2 j = slot_entry slot j" "length (ring slot2) = NCMP_QUEUE_DEPTH"
    using comm_taken_result [OF s1(1) i, of] s1 e1 idle(3) comm_taken_entry [OF il1]
    by (simp_all add: slot2_def dispatch_result_def) (simp_all add: comm_taken_def)
  have match: "comm_match_sent slot2 sid seq = Some i"
    by (rule comm_match_sent_only) (use s2 e1 i idle(1) in auto)
  let ?n = "length (wire_frame ans)"
  have n: "?n = 56 + wire_sum ans" by (rule length_wire_frame [OF wf(3)])
  note nb = unat_frame_len [OF wf(3)]
  have hdr: "ncmp_wire_decode_header True (wire_frame ans @ rest) ?n zero_header = Some (NCMP_OK, wire_header ans)"
    using n by (intro decode_header_frame [OF wf(3)]) simp
  let ?e3 = "answered_entry ?e2 (wire_frame ans)"
  define slot3 where "slot3 = comm_release_inflight (set_entry slot2 i ?e3)"
  have drain: "comm_drain recv tr1 slot2 rxbuf NCMP_MAX_FRAME_SIZE = Some (1, tr2, slot3, wire_frame ans @ rest)"
    using comm_drain_match [of slot2 recv tr1 rxbuf NCMP_MAX_FRAME_SIZE "wire_frame ans @ rest" ?n tr2 "wire_header ans" i]
      s2 recv nb hdr match ids by (simp add: slot3_def)
  have s3: "slot_entry slot3 i = ?e3" "comm_inflight slot3 = 0" "length (ring slot3) = NCMP_QUEUE_DEPTH"
    using s2 i by (simp_all add: slot3_def)
  have "rsp_off (slot_entry slot i) \<noteq> 0" using slot_wf_entry [OF wf(1) i] by (simp add: entry_wf_def)
  then have e3: "q_state ?e3 = NCMP_Q_DONE" "rsp_off ?e3 \<noteq> 0" "unat (rsp_len ?e3) = ?n"
    using nb by (simp_all add: answered_entry_def posted_entry_def)
  obtain out' where dec: "ncmp_wire_decode True (rsp_buf ?e3) ?n out = Some (NCMP_OK, out')"
    and out': "header out' = wire_header ans" "param_len out' = param_len ans"
      "payload out' = Some (take (wire_sum ans) (the (payload ans)) @ drop (wire_sum ans) dst)"
    using ncmp_wire_decode_frame [OF wf(3) _ wf(4), of ?n] n out by (simp add: answered_entry_def)
  have "ncmp_slot_wait (\<lambda>_ s. s) True slot3 (int i) out budget =
      Some (NCMP_OK, set_entry slot3 i (?e3\<lparr>q_state := NCMP_Q_FREE\<rparr>), out')"
    using ncmp_slot_wait_done [OF i, of slot3] s3 e3 dec by simp
  moreover have "length (take (wire_sum ans) (the (payload ans))) = wire_sum ans"
    using wire_valid_sum(5) [OF wf(3)] by (cases "wire_sum ans = 0") auto
  ultimately show ?thesis
    using enq disp drain out' s3 i unfolding command_completes_def
    by (intro exI [of _ i]) (simp add: slot1_def [symmetric] slot2_def [symmetric])
qed

section \<open>Properties\<close>

text \<open>
  Enqueueing either reports a full ring, or reports an invalid message, in both cases
  leaving the slot as it was (a claimed entry is given back), or puts the frame of the
  message, its session and its sequence number into the first free entry, which becomes
  posted, and changes no other entry.
\<close>

lemma ncmp_slot_enqueue_correct:
  assumes "slot_wf slot" "msg_wf req"
  shows "\<exists>rc slot' r. ncmp_slot_enqueue True slot sid seq req = Some (rc, slot', r) \<and> slot_wf slot' \<and>
    (case r of
       None \<Rightarrow> slot' = slot \<and> rc \<noteq> NCMP_OK \<and> (wire_valid req \<longrightarrow> (\<forall>e \<in> set (ring slot). q_state e \<noteq> NCMP_Q_FREE))
     | Some i \<Rightarrow> rc = NCMP_OK \<and> i < NCMP_QUEUE_DEPTH \<and> q_state (slot_entry slot i) = NCMP_Q_FREE \<and>
         (\<forall>j < i. q_state (slot_entry slot j) \<noteq> NCMP_Q_FREE) \<and>
         slot' = set_entry slot i (posted_entry (slot_entry slot i) sid seq req))"
  using assms
proof (cases rule: ncmp_slot_enqueue_cases [of slot req sid seq])
  case (posted i)
  then show ?thesis
    using assms posted_entry_wf [OF slot_wf_entry [OF assms(1) posted(2)] posted(1)]
    by (simp add: slot_wf_set)
qed (use assms in auto)

text \<open>
  The dispatch loop ends, whatever the transport answers. It never exceeds the in-flight
  ceiling, the counter grows by exactly the number of frames sent, exactly that many entries
  go from posted to sent, and no entry changes in any other way.
\<close>

lemma comm_dispatch_correct:
  assumes "slot_wf slot" "comm_inflight slot \<le> max_inflight slot"
  shows "\<exists>n tr' slot'. comm_dispatch send tr slot 0 = Some (n, tr', slot') \<and> slot_wf slot' \<and>
    comm_inflight slot' \<le> max_inflight slot' \<and> unat (comm_inflight slot') = unat (comm_inflight slot) + n \<and>
    dispatched_count slot' = dispatched_count slot + n \<and>
    (\<forall>i < NCMP_QUEUE_DEPTH. slot_entry slot' i = slot_entry slot i \<or>
       (q_state (slot_entry slot i) = NCMP_Q_POSTED \<and> slot_entry slot' i = (slot_entry slot i)\<lparr>q_state := NCMP_Q_SENT\<rparr>))"
  using comm_dispatch_ok [OF assms, of send tr 0] by (auto simp: dispatch_result_def sent_step_def)

text \<open>
  For any transport that keeps to its buffer, one drain step is safe and either leaves
  the ring alone or answers exactly one sent entry: the one whose session and sequence number
  the received header carries gets the received bytes and becomes done. The in-flight counter
  drops by one exactly when a well-formed response was consumed.
\<close>

lemma comm_drain_routes:
  assumes wf: "slot_wf slot" and recv: "recv_ok recv" and rxl: "length rxbuf = NCMP_MAX_FRAME_SIZE"
  shows "\<exists>r tr' slot' rx'. comm_drain recv tr slot rxbuf NCMP_MAX_FRAME_SIZE = Some (r, tr', slot', rx') \<and>
    slot_wf slot' \<and> comm_inflight slot' = comm_inflight slot - of_nat r \<and> r \<le> 1 \<and>
    (ring slot' = ring slot \<or>
      (\<exists>n hdr i. r = 1 \<and> ncmp_wire_decode_header True rx' n zero_header = Some (NCMP_OK, hdr) \<and>
         q_state (slot_entry slot i) = NCMP_Q_SENT \<and> owner_sess (slot_entry slot i) = session_id hdr \<and>
         q_sequence_id (slot_entry slot i) = sequence_id hdr \<and>
         ring slot' = (ring slot)[i := answered_entry (slot_entry slot i) (take n rx')]))"
  using comm_drain_ok [OF assms, of tr] by blast

text \<open>
  A bounded wait always returns, with \<open>NCMP_OK\<close> or \<open>NCMP_ERR_TIMEOUT\<close>, whatever the other
  threads do to the slot between two accesses as long as they keep it well formed. When it
  returns \<open>NCMP_OK\<close> the entry has been seen done and the message is what decoding the entry's
  response bytes at that moment gives.
\<close>

lemma ncmp_slot_wait_returns:
  assumes "budget \<noteq> 0" "i < NCMP_QUEUE_DEPTH" "msg_wf rsp" and env: "\<And>k s. slot_wf (env k s)"
  shows "\<exists>rc slot' rsp'. ncmp_slot_wait env True slot (int i) rsp budget = Some (rc, slot', rsp') \<and>
    (rc = NCMP_ERR_TIMEOUT \<or>
     rc = NCMP_OK \<and> (\<exists>k s rc'. let e = slot_entry (env k s) i in q_state e = NCMP_Q_DONE \<and>
        ncmp_wire_decode True (rsp_buf e) (unat (rsp_len e)) rsp = Some (rc', rsp')))"
  using ncmp_slot_wait_total [OF assms] .

text \<open>
  A whole command on an idle slot, with a transport that accepts the frame and later
  delivers the answer: the client's request is posted, the frame of the request is what goes
  to the transport, the answer comes back to the same entry, and the client gets the answer's
  header, lengths and payload; afterwards the entry is free again and nothing is in flight.
\<close>

lemma ncmp_command_roundtrip:
  assumes wf: "slot_wf slot" "wire_valid req" "wire_valid ans" "msg_wf out"
    and idle: "\<And>j. j < NCMP_QUEUE_DEPTH \<Longrightarrow> q_state (slot_entry slot j) = NCMP_Q_FREE"
      "comm_inflight slot = 0" "0 < max_inflight slot"
    and ids: "session_id (header ans) = sid" "sequence_id (header ans) = seq"
    and send: "send tr0 (Some (wire_frame req)) = (NCMP_OK, tr1)"
    and recv: "recv tr1 rxbuf NCMP_MAX_FRAME_SIZE = ((NCMP_OK, wire_frame ans @ rest, length (wire_frame ans)), tr2)"
    and out: "payload out = Some dst" "wire_sum ans \<le> payload_cap out"
  shows "\<exists>i slot1 slot2 slot3 slot4 out'.
    ncmp_slot_enqueue True slot sid seq req = Some (NCMP_OK, slot1, Some i) \<and>
    comm_dispatch send tr0 slot1 0 = Some (1, tr1, slot2) \<and>
    (\<exists>rx. comm_drain recv tr1 slot2 rxbuf NCMP_MAX_FRAME_SIZE = Some (1, tr2, slot3, rx)) \<and>
    ncmp_slot_wait (\<lambda>_ s. s) True slot3 (int i) out budget = Some (NCMP_OK, slot4, out') \<and>
    header out' = wire_header ans \<and> param_len out' = param_len ans \<and>
    take (wire_sum ans) (the (payload out')) = take (wire_sum ans) (the (payload ans)) \<and>
    q_state (slot_entry slot4 i) = NCMP_Q_FREE \<and> comm_inflight slot4 = 0"
  unfolding command_completes_def [symmetric]
  by (rule ncmp_command_flow [where send = send and recv = recv, OF wf idle ids send recv out])

end
