(* ===== verification/Ncmp_Conc.thy ===== *)
theory Ncmp_Conc
  imports Ncmp_Ring_Facts
begin

text \<open>
  Interleavings of the ring operations. Any number of client threads run
  \<^verbatim>\<open>ncmp_slot_enqueue\<close> and \<^verbatim>\<open>ncmp_slot_wait\<close> on a slot while its single communication
  thread runs \<^verbatim>\<open>comm_dispatch\<close> and \<^verbatim>\<open>comm_drain\<close>. A step is one compare-and-swap, one atomic
  load, or the plain writes a thread makes to an entry between two of them; every thread has
  a program counter that says where in the code it is.
\<close>

section \<open>States and steps\<close>

text \<open>
  Where a client is: idle; owner of a claimed entry that it fills; having filled it; waiting;
  past its budget with the first, then also the second compare-and-swap failed; and having
  seen its entry done, about to decode the response and give the entry back.
\<close>

datatype client_pc =
    CIdle
  | CFilling nat
  | CFilled nat u32 u32
  | CWaiting nat u32 u32
  | CExpired1 nat u32 u32
  | CExpired2 nat u32 u32
  | CReading nat u32 u32

text \<open>The communication thread: idle, about to send an entry, or about to publish a response.\<close>

datatype comm_pc = TIdle | TSending nat | TDelivering nat

record ring_sys =
  sys_ring :: "nat \<Rightarrow> ncmp_qentry"
  sys_inflight :: nat
  sys_max :: nat
  clients :: "nat \<Rightarrow> client_pc"
  comm :: comm_pc

definition try_cas :: "ring_sys \<Rightarrow> nat \<Rightarrow> ncmp_qstate \<Rightarrow> ncmp_qstate \<Rightarrow> ring_sys" where
  "try_cas s i from_st to_st = s\<lparr>sys_ring := (sys_ring s)(i := snd (ncmp_qentry_cas (sys_ring s i) from_st to_st))\<rparr>"

definition cas_ok :: "ring_sys \<Rightarrow> nat \<Rightarrow> ncmp_qstate \<Rightarrow> bool" where
  "cas_ok s i from_st = fst (ncmp_qentry_cas (sys_ring s i) from_st from_st)"

definition at_client :: "ring_sys \<Rightarrow> nat \<Rightarrow> client_pc \<Rightarrow> ring_sys" where
  "at_client s p c = s\<lparr>clients := (clients s)(p := c)\<rparr>"

inductive ring_step :: "ring_sys \<Rightarrow> ring_sys \<Rightarrow> bool" where
  claim: "clients s p = CIdle \<Longrightarrow> i < NCMP_QUEUE_DEPTH \<Longrightarrow> cas_ok s i NCMP_Q_FREE \<Longrightarrow>
    ring_step s (at_client (try_cas s i NCMP_Q_FREE NCMP_Q_CLAIMED) p (CFilling i))"
| rollback: "clients s p = CFilling i \<Longrightarrow>
    ring_step s (at_client (try_cas s i NCMP_Q_CLAIMED NCMP_Q_FREE) p CIdle)"
| fill: "clients s p = CFilling i \<Longrightarrow>
    ring_step s (at_client (s\<lparr>sys_ring := (sys_ring s)(i := (sys_ring s i)\<lparr>req_buf := buf, owner_sess := sid,
       q_sequence_id := seq, req_len := l, rsp_len := 0\<rparr>)\<rparr>) p (CFilled i sid seq))"
| post: "clients s p = CFilled i sid seq \<Longrightarrow> cas_ok s i NCMP_Q_CLAIMED \<Longrightarrow>
    ring_step s (at_client (try_cas s i NCMP_Q_CLAIMED NCMP_Q_POSTED) p (CWaiting i sid seq))"
| see_done: "clients s p = CWaiting i sid seq \<Longrightarrow> q_state (sys_ring s i) = NCMP_Q_DONE \<Longrightarrow>
    ring_step s (at_client s p (CReading i sid seq))"
| abandon_sent: "clients s p = CWaiting i sid seq \<Longrightarrow> cas_ok s i NCMP_Q_SENT \<Longrightarrow>
    ring_step s (at_client (try_cas s i NCMP_Q_SENT NCMP_Q_ABANDONED) p CIdle)"
| expire1: "clients s p = CWaiting i sid seq \<Longrightarrow> \<not> cas_ok s i NCMP_Q_SENT \<Longrightarrow>
    ring_step s (at_client s p (CExpired1 i sid seq))"
| abandon_posted: "clients s p = CExpired1 i sid seq \<Longrightarrow> cas_ok s i NCMP_Q_POSTED \<Longrightarrow>
    ring_step s (at_client (try_cas s i NCMP_Q_POSTED NCMP_Q_ABANDONED) p CIdle)"
| expire2: "clients s p = CExpired1 i sid seq \<Longrightarrow> \<not> cas_ok s i NCMP_Q_POSTED \<Longrightarrow>
    ring_step s (at_client s p (CExpired2 i sid seq))"
| raced: "clients s p = CExpired2 i sid seq \<Longrightarrow> q_state (sys_ring s i) = NCMP_Q_DONE \<Longrightarrow>
    ring_step s (at_client s p (CReading i sid seq))"
| give_up: "clients s p = CExpired2 i sid seq \<Longrightarrow> q_state (sys_ring s i) \<noteq> NCMP_Q_DONE \<Longrightarrow>
    ring_step s (at_client s p CIdle)"
| release: "clients s p = CReading i sid seq \<Longrightarrow>
    ring_step s (at_client (try_cas s i NCMP_Q_DONE NCMP_Q_FREE) p CIdle)"
| take: "comm s = TIdle \<Longrightarrow> sys_inflight s < sys_max s \<Longrightarrow> i < NCMP_QUEUE_DEPTH \<Longrightarrow> cas_ok s i NCMP_Q_POSTED \<Longrightarrow>
    ring_step s ((try_cas s i NCMP_Q_POSTED NCMP_Q_SENT)\<lparr>sys_inflight := sys_inflight s + 1, comm := TSending i\<rparr>)"
| sent: "comm s = TSending i \<Longrightarrow> ring_step s (s\<lparr>comm := TIdle\<rparr>)"
| send_failed: "comm s = TSending i \<Longrightarrow>
    ring_step s ((try_cas s i NCMP_Q_SENT NCMP_Q_POSTED)\<lparr>sys_inflight := sys_inflight s - 1, comm := TIdle\<rparr>)"
| receive: "comm s = TIdle \<Longrightarrow> 0 < sys_inflight s \<Longrightarrow> i < NCMP_QUEUE_DEPTH \<Longrightarrow>
    q_state (sys_ring s i) = NCMP_Q_SENT \<Longrightarrow>
    n \<le> length rx \<Longrightarrow> n \<le> NCMP_ENTRY_BUF_SIZE \<Longrightarrow>
    ncmp_wire_decode_header True rx n zero_header = Some (NCMP_OK, hdr) \<Longrightarrow>
    owner_sess (sys_ring s i) = session_id hdr \<Longrightarrow> q_sequence_id (sys_ring s i) = sequence_id hdr \<Longrightarrow>
    ring_step s (s\<lparr>sys_ring := (sys_ring s)(i := (sys_ring s i)\<lparr>rsp_buf := take n rx @ drop n (rsp_buf (sys_ring s i)),
       rsp_len := of_nat n\<rparr>), sys_inflight := sys_inflight s - 1, comm := TDelivering i\<rparr>)"
| receive_unmatched: "comm s = TIdle \<Longrightarrow> 0 < sys_inflight s \<Longrightarrow>
    ncmp_wire_decode_header True rx n zero_header = Some (NCMP_OK, hdr) \<Longrightarrow>
    \<forall>i < NCMP_QUEUE_DEPTH. \<not> (q_state (sys_ring s i) = NCMP_Q_SENT \<and>
      owner_sess (sys_ring s i) = session_id hdr \<and> q_sequence_id (sys_ring s i) = sequence_id hdr) \<Longrightarrow>
    ring_step s (s\<lparr>sys_inflight := sys_inflight s - 1\<rparr>)"
| publish: "comm s = TDelivering i \<Longrightarrow> cas_ok s i NCMP_Q_SENT \<Longrightarrow>
    ring_step s ((try_cas s i NCMP_Q_SENT NCMP_Q_DONE)\<lparr>comm := TIdle\<rparr>)"
| publish_abandoned: "comm s = TDelivering i \<Longrightarrow> \<not> cas_ok s i NCMP_Q_SENT \<Longrightarrow>
    ring_step s ((try_cas s i NCMP_Q_ABANDONED NCMP_Q_FREE)\<lparr>comm := TIdle\<rparr>)"

definition ring_init :: "nat \<Rightarrow> nat \<Rightarrow> ring_sys" where
  "ring_init hdr mx =
     \<lparr>sys_ring = init_entry hdr, sys_inflight = 0, sys_max = mx, clients = (\<lambda>_. CIdle), comm = TIdle\<rparr>"

definition ring_reach :: "ring_sys \<Rightarrow> bool" where
  "ring_reach s \<longleftrightarrow> (\<exists>hdr mx. ring_step\<^sup>*\<^sup>* (ring_init hdr mx) s)"

section \<open>The invariant\<close>

fun owned :: "client_pc \<Rightarrow> nat option" where
  "owned CIdle = None"
| "owned (CFilling i) = Some i"
| "owned (CFilled i _ _) = Some i"
| "owned (CWaiting i _ _) = Some i"
| "owned (CExpired1 i _ _) = Some i"
| "owned (CExpired2 i _ _) = Some i"
| "owned (CReading i _ _) = Some i"

definition ids_ok :: "ncmp_qentry \<Rightarrow> u32 \<Rightarrow> u32 \<Rightarrow> bool" where
  "ids_ok e sid seq \<longleftrightarrow> owner_sess e = sid \<and> q_sequence_id e = seq"

text \<open>The bytes of a response carry the entry's own session and sequence number.\<close>

definition answer_ok :: "ncmp_qentry \<Rightarrow> bool" where
  "answer_ok e \<longleftrightarrow> (\<exists>hdr. ncmp_wire_decode_header True (rsp_buf e) (unat (rsp_len e)) zero_header = Some (NCMP_OK, hdr) \<and>
     session_id hdr = owner_sess e \<and> sequence_id hdr = q_sequence_id e)"

fun client_ok :: "(nat \<Rightarrow> ncmp_qentry) \<Rightarrow> client_pc \<Rightarrow> bool" where
  "client_ok es CIdle = True"
| "client_ok es (CFilling i) = (q_state (es i) = NCMP_Q_CLAIMED)"
| "client_ok es (CFilled i sid seq) = (q_state (es i) = NCMP_Q_CLAIMED \<and> ids_ok (es i) sid seq)"
| "client_ok es (CWaiting i sid seq) = (q_state (es i) \<in> {NCMP_Q_POSTED, NCMP_Q_SENT, NCMP_Q_DONE} \<and> ids_ok (es i) sid seq)"
| "client_ok es (CExpired1 i sid seq) = (q_state (es i) \<in> {NCMP_Q_POSTED, NCMP_Q_SENT, NCMP_Q_DONE} \<and> ids_ok (es i) sid seq)"
| "client_ok es (CExpired2 i sid seq) = (q_state (es i) \<in> {NCMP_Q_POSTED, NCMP_Q_SENT, NCMP_Q_DONE} \<and> ids_ok (es i) sid seq)"
| "client_ok es (CReading i sid seq) = (q_state (es i) = NCMP_Q_DONE \<and> ids_ok (es i) sid seq)"

fun comm_ok :: "(nat \<Rightarrow> ncmp_qentry) \<Rightarrow> comm_pc \<Rightarrow> bool" where
  "comm_ok es TIdle = True"
| "comm_ok es (TSending i) = (q_state (es i) \<in> {NCMP_Q_SENT, NCMP_Q_ABANDONED})"
| "comm_ok es (TDelivering i) = (q_state (es i) \<in> {NCMP_Q_SENT, NCMP_Q_ABANDONED} \<and> answer_ok (es i))"

definition ring_inv :: "ring_sys \<Rightarrow> bool" where
  "ring_inv s \<longleftrightarrow>
     (\<forall>p. client_ok (sys_ring s) (clients s p)) \<and>
     (\<forall>p q i. owned (clients s p) = Some i \<longrightarrow> owned (clients s q) = Some i \<longrightarrow> p = q) \<and>
     comm_ok (sys_ring s) (comm s) \<and>
     (\<forall>i. q_state (sys_ring s i) = NCMP_Q_DONE \<longrightarrow> answer_ok (sys_ring s i)) \<and>
     sys_inflight s \<le> sys_max s"

lemma ring_invD:
  assumes "ring_inv s"
  shows ring_inv_client: "client_ok (sys_ring s) (clients s p)"
    and ring_inv_owner: "owned (clients s p) = Some i \<Longrightarrow> owned (clients s q) = Some i \<Longrightarrow> p = q"
    and ring_inv_comm: "comm_ok (sys_ring s) (comm s)"
    and ring_inv_answer: "q_state (sys_ring s j) = NCMP_Q_DONE \<Longrightarrow> answer_ok (sys_ring s j)"
    and ring_inv_bound: "sys_inflight s \<le> sys_max s"
  using assms unfolding ring_inv_def by blast+

lemma ring_init_inv: "ring_inv (ring_init hdr mx)"
  by (auto simp: ring_inv_def ring_init_def init_entry_def Let_def)

lemma client_ok_other: "owned c \<noteq> Some i \<Longrightarrow> client_ok (es(i := e)) c = client_ok es c"
  by (cases c) auto

lemma client_ok_owned: "client_ok es c \<Longrightarrow> owned c = Some i \<Longrightarrow>
    q_state (es i) \<in> {NCMP_Q_CLAIMED, NCMP_Q_POSTED, NCMP_Q_SENT, NCMP_Q_DONE}"
  by (cases c) auto

lemma comm_ok_other: "c \<noteq> TSending i \<Longrightarrow> c \<noteq> TDelivering i \<Longrightarrow> comm_ok (es(i := e)) c = comm_ok es c"
  by (cases c) auto

text \<open>A client changes the entry it owns (or claims); nobody else owns it.\<close>

lemma ring_inv_client_step:
  assumes inv: "ring_inv s" and own: "\<And>q. q \<noteq> p \<Longrightarrow> owned (clients s q) \<noteq> Some i"
    and c: "owned c \<in> {None, Some i}" "client_ok ((sys_ring s)(i := e)) c"
    and cm: "comm_ok ((sys_ring s)(i := e)) (comm s)" and ans: "q_state e = NCMP_Q_DONE \<Longrightarrow> answer_ok e"
  shows "ring_inv (at_client (s\<lparr>sys_ring := (sys_ring s)(i := e)\<rparr>) p c)"
  unfolding ring_inv_def
proof (intro conjI allI impI)
  let ?s = "at_client (s\<lparr>sys_ring := (sys_ring s)(i := e)\<rparr>) p c"
  show "client_ok (sys_ring ?s) (clients ?s q)" for q
    using c(2) own [of q] ring_inv_client [OF inv, of q] client_ok_other [of "clients s q" i "sys_ring s" e]
    by (simp add: at_client_def del: fun_upd_apply) (simp add: fun_upd_def)
  show "q = r" if "owned (clients ?s q) = Some j" "owned (clients ?s r) = Some j" for q r j
    using that c(1) own [of q] own [of r] ring_inv_owner [OF inv, of q j r]
    by (auto simp: at_client_def split: if_splits)
  show "comm_ok (sys_ring ?s) (comm ?s)" using cm by (simp add: at_client_def)
  show "answer_ok (sys_ring ?s j)" if "q_state (sys_ring ?s j) = NCMP_Q_DONE" for j
    using that ans ring_inv_answer [OF inv] by (auto simp: at_client_def split: if_splits)
  show "sys_inflight ?s \<le> sys_max ?s" using ring_inv_bound [OF inv] by (simp add: at_client_def)
qed

text \<open>The communication thread changes an entry; its owner, if any, must still be content.\<close>

lemma ring_inv_comm_step:
  assumes inv: "ring_inv s" and own: "\<And>p. owned (clients s p) = Some i \<Longrightarrow> client_ok ((sys_ring s)(i := e)) (clients s p)"
    and c: "comm_ok ((sys_ring s)(i := e)) c" and ans: "q_state e = NCMP_Q_DONE \<Longrightarrow> answer_ok e"
    and f: "f \<le> sys_max s"
  shows "ring_inv (s\<lparr>sys_ring := (sys_ring s)(i := e), sys_inflight := f, comm := c\<rparr>)"
  unfolding ring_inv_def
proof (intro conjI allI impI)
  let ?s = "s\<lparr>sys_ring := (sys_ring s)(i := e), sys_inflight := f, comm := c\<rparr>"
  show "client_ok (sys_ring ?s) (clients ?s q)" for q
    using own [of q] ring_inv_client [OF inv, of q] client_ok_other [of "clients s q" i "sys_ring s" e]
    by (cases "owned (clients s q) = Some i") (simp_all del: fun_upd_apply)
  show "q = r" if "owned (clients ?s q) = Some j" "owned (clients ?s r) = Some j" for q r j
    using that ring_inv_owner [OF inv, of q j r] by simp
  show "comm_ok (sys_ring ?s) (comm ?s)" using c by simp
  show "answer_ok (sys_ring ?s j)" if "q_state (sys_ring ?s j) = NCMP_Q_DONE" for j
    using that ans ring_inv_answer [OF inv] by (auto split: if_splits)
  show "sys_inflight ?s \<le> sys_max ?s" using f by simp
qed

lemma cas_ok_state [simp]: "cas_ok s i st = (q_state (sys_ring s i) = st)"
  by (simp add: cas_ok_def ncmp_qentry_cas_def)

lemma try_cas_state:
  "try_cas s i from_st to_st = s\<lparr>sys_ring := (sys_ring s)(i := if q_state (sys_ring s i) = from_st
     then (sys_ring s i)\<lparr>q_state := to_st\<rparr> else sys_ring s i)\<rparr>"
  by (simp add: try_cas_def ncmp_qentry_cas_def)

lemma ids_ok_state [simp]: "ids_ok (e\<lparr>q_state := st\<rparr>) = ids_ok e"
  by (simp add: ids_ok_def fun_eq_iff)

lemma answer_ok_state [simp]: "answer_ok (e\<lparr>q_state := st\<rparr>) = answer_ok e"
  by (simp add: answer_ok_def)

lemma comm_target:
  assumes "comm_ok es c" "q_state (es i) \<notin> {NCMP_Q_SENT, NCMP_Q_ABANDONED}"
  shows "comm_ok (es(i := e)) c"
  using assms by (cases c) auto

text \<open>An owned entry: the owner is the only one, and what its state may be.\<close>

lemma ring_inv_sole:
  assumes "ring_inv s" "owned (clients s p) = Some i" "q \<noteq> p"
  shows "owned (clients s q) \<noteq> Some i"
  using ring_inv_owner [OF assms(1,2), of q] assms(3) by blast

lemma ring_inv_idle_pc:
  assumes inv: "ring_inv s" and p: "owned (clients s p) = Some i"
    and c: "owned c \<in> {None, Some i}" "client_ok (sys_ring s) c"
  shows "ring_inv (at_client s p c)"
proof -
  have "ring_inv (at_client (s\<lparr>sys_ring := (sys_ring s)(i := sys_ring s i)\<rparr>) p c)"
    by (rule ring_inv_client_step [OF inv ring_inv_sole [OF inv p] c(1)])
       (use c ring_inv_comm [OF inv] ring_inv_answer [OF inv] in simp_all)
  then show ?thesis by simp
qed

lemma ring_step_inv_client:
  assumes inv: "ring_inv s"
  shows "clients s p = CIdle \<Longrightarrow> q_state (sys_ring s i) = NCMP_Q_FREE \<Longrightarrow>
      ring_inv (at_client (try_cas s i NCMP_Q_FREE NCMP_Q_CLAIMED) p (CFilling i))" (is "?a1 \<Longrightarrow> ?a2 \<Longrightarrow> ?A")
    and "clients s p = CFilling i \<Longrightarrow> ring_inv (at_client (try_cas s i NCMP_Q_CLAIMED NCMP_Q_FREE) p CIdle)"
    and "clients s p = CFilling i \<Longrightarrow>
      ring_inv (at_client (s\<lparr>sys_ring := (sys_ring s)(i := (sys_ring s i)\<lparr>req_buf := buf, owner_sess := sid,
       q_sequence_id := seq, req_len := l, rsp_len := 0\<rparr>)\<rparr>) p (CFilled i sid seq))"
    and "clients s p = CFilled i sid seq \<Longrightarrow>
      ring_inv (at_client (try_cas s i NCMP_Q_CLAIMED NCMP_Q_POSTED) p (CWaiting i sid seq))"
    and "clients s p = CWaiting i sid seq \<Longrightarrow> q_state (sys_ring s i) = NCMP_Q_SENT \<Longrightarrow>
      ring_inv (at_client (try_cas s i NCMP_Q_SENT NCMP_Q_ABANDONED) p CIdle)"
    and "clients s p = CExpired1 i sid seq \<Longrightarrow> q_state (sys_ring s i) = NCMP_Q_POSTED \<Longrightarrow>
      ring_inv (at_client (try_cas s i NCMP_Q_POSTED NCMP_Q_ABANDONED) p CIdle)"
    and "clients s p = CReading i sid seq \<Longrightarrow> ring_inv (at_client (try_cas s i NCMP_Q_DONE NCMP_Q_FREE) p CIdle)"
proof -
  note cm = ring_inv_comm [OF inv]
  note cl = ring_inv_client [OF inv, of p]
  { assume p: "clients s p = CIdle" "q_state (sys_ring s i) = NCMP_Q_FREE"
    have "owned (clients s q) \<noteq> Some i" for q
      using client_ok_owned [OF ring_inv_client [OF inv, of q], of i] p(2) by auto
    then show ?A unfolding try_cas_state
      by (intro ring_inv_client_step [OF inv]) (use p comm_target [OF cm] in auto) }
  { assume p: "clients s p = CFilling i"
    show "ring_inv (at_client (try_cas s i NCMP_Q_CLAIMED NCMP_Q_FREE) p CIdle)" unfolding try_cas_state
      by (intro ring_inv_client_step [OF inv ring_inv_sole [OF inv]]) (use p cl comm_target [OF cm] in auto) }
  { assume p: "clients s p = CFilling i"
    show "ring_inv (at_client (s\<lparr>sys_ring := (sys_ring s)(i := (sys_ring s i)\<lparr>req_buf := buf, owner_sess := sid,
       q_sequence_id := seq, req_len := l, rsp_len := 0\<rparr>)\<rparr>) p (CFilled i sid seq))"
      by (intro ring_inv_client_step [OF inv ring_inv_sole [OF inv]])
         (use p cl comm_target [OF cm] in \<open>auto simp: ids_ok_def\<close>) }
  { assume p: "clients s p = CFilled i sid seq"
    show "ring_inv (at_client (try_cas s i NCMP_Q_CLAIMED NCMP_Q_POSTED) p (CWaiting i sid seq))" unfolding try_cas_state
      by (intro ring_inv_client_step [OF inv ring_inv_sole [OF inv]]) (use p cl comm_target [OF cm] in auto) }
  { assume p: "clients s p = CWaiting i sid seq" "q_state (sys_ring s i) = NCMP_Q_SENT"
    have "comm_ok ((sys_ring s)(i := (sys_ring s i)\<lparr>q_state := NCMP_Q_ABANDONED\<rparr>)) (comm s)"
      using cm by (cases "comm s") auto
    then show "ring_inv (at_client (try_cas s i NCMP_Q_SENT NCMP_Q_ABANDONED) p CIdle)" unfolding try_cas_state
      by (intro ring_inv_client_step [OF inv ring_inv_sole [OF inv]]) (use p in auto) }
  { assume p: "clients s p = CExpired1 i sid seq" "q_state (sys_ring s i) = NCMP_Q_POSTED"
    show "ring_inv (at_client (try_cas s i NCMP_Q_POSTED NCMP_Q_ABANDONED) p CIdle)" unfolding try_cas_state
      by (intro ring_inv_client_step [OF inv ring_inv_sole [OF inv]]) (use p cl comm_target [OF cm] in auto) }
  { assume p: "clients s p = CReading i sid seq"
    show "ring_inv (at_client (try_cas s i NCMP_Q_DONE NCMP_Q_FREE) p CIdle)" unfolding try_cas_state
      by (intro ring_inv_client_step [OF inv ring_inv_sole [OF inv]]) (use p cl comm_target [OF cm] in auto) }
qed

text \<open>The communication thread: what its owner sees when an entry changes state.\<close>

lemma client_ok_comm_change:
  assumes "client_ok es c" "owned c = Some i" "q_state (es i) = st" "(st, st') \<in> {(NCMP_Q_POSTED, NCMP_Q_SENT),
      (NCMP_Q_SENT, NCMP_Q_POSTED), (NCMP_Q_SENT, NCMP_Q_DONE), (NCMP_Q_SENT, NCMP_Q_SENT)}"
    and "owner_sess e = owner_sess (es i)" "q_sequence_id e = q_sequence_id (es i)" "q_state e = st'"
  shows "client_ok (es(i := e)) c"
  using assms by (cases c) (auto simp: ids_ok_def)

lemma client_ok_cas:
  assumes "client_ok es c" "owned c = Some i"
  shows "q_state (es i) = NCMP_Q_POSTED \<Longrightarrow> client_ok (es(i := (es i)\<lparr>q_state := NCMP_Q_SENT\<rparr>)) c"
    and "q_state (es i) = NCMP_Q_SENT \<Longrightarrow> client_ok (es(i := (es i)\<lparr>q_state := NCMP_Q_POSTED\<rparr>)) c"
    and "q_state (es i) = NCMP_Q_SENT \<Longrightarrow> client_ok (es(i := (es i)\<lparr>q_state := NCMP_Q_DONE\<rparr>)) c"
  using assms by (cases c; force)+

lemma ring_step_inv_comm:
  assumes inv: "ring_inv s"
  shows "sys_inflight s < sys_max s \<Longrightarrow> comm s = TIdle \<Longrightarrow> q_state (sys_ring s i) = NCMP_Q_POSTED \<Longrightarrow>
      ring_inv ((try_cas s i NCMP_Q_POSTED NCMP_Q_SENT)\<lparr>sys_inflight := sys_inflight s + 1, comm := TSending i\<rparr>)"
    and "comm s = TSending i \<Longrightarrow>
      ring_inv ((try_cas s i NCMP_Q_SENT NCMP_Q_POSTED)\<lparr>sys_inflight := sys_inflight s - 1, comm := TIdle\<rparr>)"
    and "comm s = TDelivering i \<Longrightarrow> q_state (sys_ring s i) = NCMP_Q_SENT \<Longrightarrow>
      ring_inv ((try_cas s i NCMP_Q_SENT NCMP_Q_DONE)\<lparr>comm := TIdle\<rparr>)"
    and "comm s = TDelivering i \<Longrightarrow> q_state (sys_ring s i) \<noteq> NCMP_Q_SENT \<Longrightarrow>
      ring_inv ((try_cas s i NCMP_Q_ABANDONED NCMP_Q_FREE)\<lparr>comm := TIdle\<rparr>)"
proof -
  note b = ring_inv_bound [OF inv] and cm = ring_inv_comm [OF inv] and cl = ring_inv_client [OF inv]
  { assume a: "sys_inflight s < sys_max s" "comm s = TIdle" "q_state (sys_ring s i) = NCMP_Q_POSTED"
    show "ring_inv ((try_cas s i NCMP_Q_POSTED NCMP_Q_SENT)\<lparr>sys_inflight := sys_inflight s + 1, comm := TSending i\<rparr>)"
      unfolding try_cas_state using a
      by simp (intro ring_inv_comm_step [OF inv], use client_ok_cas [OF cl] in auto) }
  { assume a: "comm s = TSending i"
    show "ring_inv ((try_cas s i NCMP_Q_SENT NCMP_Q_POSTED)\<lparr>sys_inflight := sys_inflight s - 1, comm := TIdle\<rparr>)"
    proof (cases "q_state (sys_ring s i) = NCMP_Q_SENT")
      case True
      then show ?thesis unfolding try_cas_state using b
        by simp (intro ring_inv_comm_step [OF inv], use client_ok_cas [OF cl] in auto)
    next
      case False
      then have "q_state (sys_ring s i) = NCMP_Q_ABANDONED" using cm a by simp
      then have "ring_inv (s\<lparr>sys_ring := (sys_ring s)(i := sys_ring s i), sys_inflight := sys_inflight s - 1, comm := TIdle\<rparr>)"
        using b cl by (intro ring_inv_comm_step [OF inv]) auto
      with False show ?thesis unfolding try_cas_state by simp
    qed }
  { assume a: "comm s = TDelivering i" "q_state (sys_ring s i) = NCMP_Q_SENT"
    have "ring_inv (s\<lparr>sys_ring := (sys_ring s)(i := (sys_ring s i)\<lparr>q_state := NCMP_Q_DONE\<rparr>),
        sys_inflight := sys_inflight s, comm := TIdle\<rparr>)"
      by (rule ring_inv_comm_step [OF inv]) (use a b cm client_ok_cas [OF cl] in auto)
    with a show "ring_inv ((try_cas s i NCMP_Q_SENT NCMP_Q_DONE)\<lparr>comm := TIdle\<rparr>)"
      unfolding try_cas_state by simp }
  { assume a: "comm s = TDelivering i" "q_state (sys_ring s i) \<noteq> NCMP_Q_SENT"
    then have ab: "q_state (sys_ring s i) = NCMP_Q_ABANDONED" using cm by simp
    then have "owned (clients s p) \<noteq> Some i" for p using client_ok_owned [OF cl, of p i] by auto
    then have "ring_inv (s\<lparr>sys_ring := (sys_ring s)(i := (sys_ring s i)\<lparr>q_state := NCMP_Q_FREE\<rparr>),
        sys_inflight := sys_inflight s, comm := TIdle\<rparr>)"
      using b by (intro ring_inv_comm_step [OF inv]) auto
    with ab show "ring_inv ((try_cas s i NCMP_Q_ABANDONED NCMP_Q_FREE)\<lparr>comm := TIdle\<rparr>)"
      unfolding try_cas_state by simp }
qed

lemma ring_step_inv_receive:
  assumes inv: "ring_inv s" and a: "comm s = TIdle" "q_state (sys_ring s i) = NCMP_Q_SENT"
    and n: "n \<le> length rx" "n \<le> NCMP_ENTRY_BUF_SIZE"
    and hdr: "ncmp_wire_decode_header True rx n zero_header = Some (NCMP_OK, hdr)"
      "owner_sess (sys_ring s i) = session_id hdr" "q_sequence_id (sys_ring s i) = sequence_id hdr"
  shows "ring_inv (s\<lparr>sys_ring := (sys_ring s)(i := (sys_ring s i)\<lparr>rsp_buf := take n rx @ drop n (rsp_buf (sys_ring s i)),
       rsp_len := of_nat n\<rparr>), sys_inflight := sys_inflight s - 1, comm := TDelivering i\<rparr>)"
proof (rule ring_inv_comm_step [OF inv])
  let ?e = "(sys_ring s i)\<lparr>rsp_buf := take n rx @ drop n (rsp_buf (sys_ring s i)), rsp_len := of_nat n\<rparr>"
  show "client_ok ((sys_ring s)(i := ?e)) (clients s p)" if "owned (clients s p) = Some i" for p
    using that a client_ok_comm_change [OF ring_inv_client [OF inv] that a(2), of NCMP_Q_SENT ?e] by simp
  have "unat (of_nat n :: u32) = n" using n(2) by (simp add: unat_of_nat NCMP_ENTRY_BUF_SIZE_def ncmp_limits)
  then have "answer_ok ?e" using decode_header_take [OF n(1) hdr(1)] hdr(2,3) by (simp add: answer_ok_def)
  then show "comm_ok ((sys_ring s)(i := ?e)) (TDelivering i)" "q_state ?e = NCMP_Q_DONE \<Longrightarrow> answer_ok ?e"
    using a by auto
  show "sys_inflight s - 1 \<le> sys_max s" using ring_inv_bound [OF inv] by simp
qed

lemma ring_step_inv: "ring_step s s' \<Longrightarrow> ring_inv s \<Longrightarrow> ring_inv s'"
proof (induction rule: ring_step.induct)
  case (see_done s p i sid seq)
  then show ?case using ring_inv_client [OF see_done(3), of p] by (intro ring_inv_idle_pc) auto
next
  case (expire1 s p i sid seq)
  then show ?case using ring_inv_client [OF expire1(3), of p] by (intro ring_inv_idle_pc) auto
next
  case (expire2 s p i sid seq)
  then show ?case using ring_inv_client [OF expire2(3), of p] by (intro ring_inv_idle_pc) auto
next
  case (raced s p i sid seq)
  then show ?case using ring_inv_client [OF raced(3), of p] by (intro ring_inv_idle_pc) auto
next
  case (give_up s p i sid seq)
  then show ?case by (intro ring_inv_idle_pc [where i = i]) auto
next
  case (receive s i n rx hdr)
  then show ?case by (intro ring_step_inv_receive)
next
  case (sent s i)
  then show ?case using ring_invD [OF sent(2)] by (simp add: ring_inv_def)
next
  case (receive_unmatched s rx n hdr)
  then show ?case by (simp add: ring_inv_def) linarith
next
  case (take s i)
  then show ?case using ring_step_inv_comm(1) [of s i] by simp
next
  case (send_failed s i)
  then show ?case using ring_step_inv_comm(2) [of s i] by simp
qed (simp_all add: ring_step_inv_client ring_step_inv_comm)

lemma ring_reach_inv:
  assumes "ring_reach s"
  shows "ring_inv s"
proof -
  obtain hdr mx where "ring_step\<^sup>*\<^sup>* (ring_init hdr mx) s" using assms by (auto simp: ring_reach_def)
  then show ?thesis by (induction rule: rtranclp_induct) (auto intro: ring_init_inv ring_step_inv)
qed

section \<open>Abandoned entries\<close>

lemma ring_step_abandoned:
  "ring_step s s' \<Longrightarrow> q_state (sys_ring s i) = NCMP_Q_ABANDONED \<and> comm s \<noteq> TDelivering i \<Longrightarrow>
     q_state (sys_ring s' i) = NCMP_Q_ABANDONED \<and> comm s' \<noteq> TDelivering i"
  by (induction rule: ring_step.induct) (auto simp: try_cas_state at_client_def)

lemma ring_steps_abandoned:
  "ring_step\<^sup>*\<^sup>* s s' \<Longrightarrow> q_state (sys_ring s i) = NCMP_Q_ABANDONED \<and> comm s \<noteq> TDelivering i \<Longrightarrow>
     q_state (sys_ring s' i) = NCMP_Q_ABANDONED \<and> comm s' \<noteq> TDelivering i"
  by (induction rule: rtranclp_induct) (auto dest: ring_step_abandoned [where i = i])

section \<open>Properties\<close>

text \<open>
  C2: Under every interleaving of clients and communication thread, the response a client is
  about to decode carries the session and sequence number of the request that client made:
  a response never reaches the entry of a request with other numbers, nor an entry that was
  abandoned and claimed again in the meantime.
\<close>

theorem ring_response_matches:
  assumes "ring_reach s" "clients s p = CReading i sid seq"
  shows "\<exists>hdr. ncmp_wire_decode_header True (rsp_buf (sys_ring s i)) (unat (rsp_len (sys_ring s i))) zero_header =
      Some (NCMP_OK, hdr) \<and> session_id hdr = sid \<and> sequence_id hdr = seq"
  using ring_inv_client [OF ring_reach_inv [OF assms(1)], of p] ring_inv_answer [OF ring_reach_inv [OF assms(1)], of i] assms(2)
  by (auto simp: answer_ok_def ids_ok_def)

lemma ring_reach_init: "ring_reach (ring_init hdr mx)"
  unfolding ring_reach_def by blast

lemma ring_reach_step: "ring_reach s \<Longrightarrow> ring_step s s' \<Longrightarrow> ring_reach s'"
  unfolding ring_reach_def by (meson rtranclp.rtrancl_into_rtrancl)

text \<open>Client 0 fills and posts entry 0 with the numbers of the sample message.\<close>

lemma ring_reach_waiting:
  obtains s where "ring_reach s" "clients s 0 = CWaiting 0 1 2" "comm s = TIdle" "sys_inflight s = 0" "sys_max s = 4"
    "q_state (sys_ring s 0) = NCMP_Q_POSTED" "owner_sess (sys_ring s 0) = 1" "q_sequence_id (sys_ring s 0) = 2"
proof -
  let ?s0 = "ring_init 4096 4"
  have i0: "q_state (sys_ring ?s0 0) = NCMP_Q_FREE" by (simp add: ring_init_def init_entry_def Let_def)
  let ?s1 = "at_client (try_cas ?s0 0 NCMP_Q_FREE NCMP_Q_CLAIMED) 0 (CFilling 0)"
  have r1: "ring_reach ?s1"
    by (rule ring_reach_step [OF ring_reach_init ring_step.claim])
       (use i0 in \<open>simp_all add: ring_init_def NCMP_QUEUE_DEPTH_def\<close>)
  have c1: "clients ?s1 0 = CFilling 0" by (simp add: at_client_def)
  let ?s2 = "at_client (?s1\<lparr>sys_ring := (sys_ring ?s1)(0 := (sys_ring ?s1 0)\<lparr>req_buf := [], owner_sess := 1,
       q_sequence_id := 2, req_len := 0, rsp_len := 0\<rparr>)\<rparr>) 0 (CFilled 0 1 2)"
  have r2: "ring_reach ?s2" by (rule ring_reach_step [OF r1 ring_step.fill [OF c1]])
  have c2: "clients ?s2 0 = CFilled 0 1 2" "q_state (sys_ring ?s2 0) = NCMP_Q_CLAIMED"
    using i0 by (simp_all add: at_client_def try_cas_state)
  show ?thesis
  proof (rule that)
    show "ring_reach (at_client (try_cas ?s2 0 NCMP_Q_CLAIMED NCMP_Q_POSTED) 0 (CWaiting 0 1 2))"
      by (rule ring_reach_step [OF r2 ring_step.post]) (use c2 in simp_all)
  qed (use i0 in \<open>simp_all add: at_client_def try_cas_state ring_init_def\<close>)
qed

lemma ring_reach_reading:
  obtains s where "ring_reach s" "clients s 0 = CReading 0 1 2"
proof -
  obtain s where s: "ring_reach s" "clients s 0 = CWaiting 0 1 2" "comm s = TIdle" "sys_inflight s = 0" "sys_max s = 4"
    "q_state (sys_ring s 0) = NCMP_Q_POSTED" "owner_sess (sys_ring s 0) = 1" "q_sequence_id (sys_ring s 0) = 2"
    by (rule ring_reach_waiting)
  let ?s1 = "(try_cas s 0 NCMP_Q_POSTED NCMP_Q_SENT)\<lparr>sys_inflight := sys_inflight s + 1, comm := TSending 0\<rparr>"
  have r1: "ring_reach ?s1"
    by (rule ring_reach_step [OF s(1) ring_step.take]) (use s in \<open>simp_all add: NCMP_QUEUE_DEPTH_def\<close>)
  have r2: "ring_reach (?s1\<lparr>comm := TIdle\<rparr>)" (is "ring_reach ?s2")
    by (rule ring_reach_step [OF r1 ring_step.sent]) simp
  have e2: "q_state (sys_ring ?s2 0) = NCMP_Q_SENT" "owner_sess (sys_ring ?s2 0) = 1" "q_sequence_id (sys_ring ?s2 0) = 2"
    "clients ?s2 0 = CWaiting 0 1 2" "sys_inflight ?s2 = 1"
    using s by (simp_all add: try_cas_state)
  let ?rx = "wire_frame sample_msg" let ?n = "length ?rx"
  have n: "?n = 59" using length_wire_frame [OF sample_msg_valid(1)] by (simp add: sample_msg_valid(2))
  have hdr: "ncmp_wire_decode_header True ?rx ?n zero_header = Some (NCMP_OK, wire_header sample_msg)"
    using decode_header_frame [OF sample_msg_valid(1), of ?n "[]"] n by simp
  have ids: "session_id (wire_header sample_msg) = 1" "sequence_id (wire_header sample_msg) = 2"
    by simp_all (simp_all add: sample_msg_def)
  let ?s3 = "?s2\<lparr>sys_ring := (sys_ring ?s2)(0 := (sys_ring ?s2 0)\<lparr>rsp_buf := take ?n ?rx @ drop ?n (rsp_buf (sys_ring ?s2 0)),
       rsp_len := of_nat ?n\<rparr>), sys_inflight := sys_inflight ?s2 - 1, comm := TDelivering 0\<rparr>"
  have r3: "ring_reach ?s3"
    by (rule ring_reach_step [OF r2 ring_step.receive [where hdr = "wire_header sample_msg"]])
       (use e2 hdr n ids in \<open>simp_all add: NCMP_QUEUE_DEPTH_def NCMP_ENTRY_BUF_SIZE_def ncmp_limits\<close>)
  have e3: "q_state (sys_ring ?s3 0) = NCMP_Q_SENT" "clients ?s3 0 = CWaiting 0 1 2" using e2 by simp_all
  let ?s4 = "(try_cas ?s3 0 NCMP_Q_SENT NCMP_Q_DONE)\<lparr>comm := TIdle\<rparr>"
  have r4: "ring_reach ?s4" by (rule ring_reach_step [OF r3 ring_step.publish]) (use e3 in simp_all)
  have e4: "q_state (sys_ring ?s4 0) = NCMP_Q_DONE" "clients ?s4 0 = CWaiting 0 1 2"
    using e3 by (simp_all add: try_cas_state)
  show ?thesis
    by (rule that [OF ring_reach_step [OF r4 ring_step.see_done [OF e4(2,1)]]]) (simp add: at_client_def)
qed

theorem ring_response_matches_witness:
  "\<exists>s hdr. ring_reach s \<and> clients s 0 = CReading 0 1 2 \<and>
     ncmp_wire_decode_header True (rsp_buf (sys_ring s 0)) (unat (rsp_len (sys_ring s 0))) zero_header = Some (NCMP_OK, hdr) \<and>
     session_id hdr = 1 \<and> sequence_id hdr = 2"
proof -
  obtain s where "ring_reach s" "clients s 0 = CReading 0 1 2" by (rule ring_reach_reading)
  with ring_response_matches [OF this] show ?thesis by blast
qed

text \<open>
  C22: Under every interleaving no two clients ever work on the same entry, an entry being
  filled is claimed and hence invisible to the communication thread, and the number of
  commands in flight stays within the ceiling.
\<close>

theorem ring_mutual_exclusion:
  assumes "ring_reach s" "p \<noteq> q" "owned (clients s p) = Some i"
  shows "owned (clients s q) \<noteq> Some i \<and>
    (clients s p = CFilling i \<longrightarrow> q_state (sys_ring s i) = NCMP_Q_CLAIMED \<and> comm s \<noteq> TSending i \<and> comm s \<noteq> TDelivering i) \<and>
    sys_inflight s \<le> sys_max s"
  using ring_inv_owner [OF ring_reach_inv [OF assms(1)] assms(3), of q] assms(2)
    ring_inv_client [OF ring_reach_inv [OF assms(1)], of p] ring_inv_comm [OF ring_reach_inv [OF assms(1)]]
    ring_inv_bound [OF ring_reach_inv [OF assms(1)]]
  by auto

theorem ring_mutual_exclusion_witness:
  "\<exists>s. ring_reach s \<and> owned (clients s 0) = Some 0 \<and> owned (clients s 1) \<noteq> Some 0"
proof -
  obtain s where "ring_reach s" "clients s 0 = CWaiting 0 1 2" by (rule ring_reach_waiting)
  with ring_mutual_exclusion [of s 0 1 0] show ?thesis by auto
qed

text \<open>
  C29: An entry that a client abandons on timeout is lost: unless the communication thread
  happens to be in the middle of delivering that very entry, no later step of any thread, the
  arrival of its late response included, makes it free again.
\<close>

theorem abandoned_entry_lost:
  assumes "ring_reach s" "q_state (sys_ring s i) = NCMP_Q_ABANDONED" "comm s \<noteq> TDelivering i" "ring_step\<^sup>*\<^sup>* s s'"
  shows "q_state (sys_ring s' i) = NCMP_Q_ABANDONED"
  using ring_steps_abandoned [OF assms(4), of i] assms(2,3) by blast

theorem abandoned_entry_lost_witness:
  "\<exists>s. ring_reach s \<and> q_state (sys_ring s 0) = NCMP_Q_ABANDONED \<and>
     (\<nexists>s'. ring_step\<^sup>*\<^sup>* s s' \<and> q_state (sys_ring s' 0) = NCMP_Q_FREE)"
proof -
  obtain s where s: "ring_reach s" "clients s 0 = CWaiting 0 1 2" "comm s = TIdle" "q_state (sys_ring s 0) = NCMP_Q_POSTED"
    by (rule ring_reach_waiting)
  have r1: "ring_reach (at_client s 0 (CExpired1 0 1 2))" (is "ring_reach ?s1")
    by (rule ring_reach_step [OF s(1) ring_step.expire1]) (use s in simp_all)
  let ?s2 = "at_client (try_cas ?s1 0 NCMP_Q_POSTED NCMP_Q_ABANDONED) 0 CIdle"
  have "ring_reach ?s2"
    by (rule ring_reach_step [OF r1 ring_step.abandon_posted]) (use s in \<open>simp_all add: at_client_def\<close>)
  moreover have "q_state (sys_ring ?s2 0) = NCMP_Q_ABANDONED" "comm ?s2 \<noteq> TDelivering 0"
    using s by (simp_all add: at_client_def try_cas_state)
  ultimately show ?thesis using abandoned_entry_lost [of ?s2 0] by fastforce
qed





end
