(* ===== verification/Ncmp_Transport.thy ===== *)
theory Ncmp_Transport
  imports Ncmp_Ring_Facts
begin

text \<open>
  The USB transport of the daemon, \<^verbatim>\<open>ncmp/daemon/usb_transport.c\<close>. libusb is an argument:
  \<open>xfer\<close> is \<^verbatim>\<open>libusb_bulk_transfer\<close>, which gets the part of the buffer it may use and returns
  its code, the bytes that part holds afterwards and how many were transferred; the device
  list and the results of the other calls are arguments too.
\<close>

section \<open>Finding and opening devices\<close>

definition NCMP_FX3_VID :: nat where "NCMP_FX3_VID = 0x04B4"
definition NCMP_FX3_PID :: nat where "NCMP_FX3_PID = 0x00F1"
definition NCMP_FX3_EP_IN :: byte where "NCMP_FX3_EP_IN = 0x81"
definition INT32_MAX :: nat where "INT32_MAX = 2147483647"

text \<open>A device of the list with its vendor and product number, if the descriptor could be read.\<close>

fun ncmp_pick_loop :: "('d \<times> (nat \<times> nat) option) list \<Rightarrow> u32 \<Rightarrow> 'd option \<Rightarrow> u32 \<Rightarrow> 'd option \<times> u32" where
  "ncmp_pick_loop [] want chosen matches = (chosen, matches)"
| "ncmp_pick_loop ((d, desc) # ds) want chosen matches =
     (case desc of
        None \<Rightarrow> ncmp_pick_loop ds want chosen matches
      | Some (vid, pid) \<Rightarrow>
          if vid \<noteq> NCMP_FX3_VID \<or> pid \<noteq> NCMP_FX3_PID then ncmp_pick_loop ds want chosen matches
          else ncmp_pick_loop ds want (if matches = want then Some d else chosen) (matches + 1))"

definition ncmp_pick_device :: "('d \<times> (nat \<times> nat) option) list \<Rightarrow> u32 \<Rightarrow> 'd option \<times> u32" where
  "ncmp_pick_device ds want = ncmp_pick_loop ds want None 0"

text \<open>The device list is \<^term>\<open>None\<close> when libusb reports an error for it.\<close>

definition ncmp_transport_probe :: "bool \<Rightarrow> bool \<Rightarrow> ('d \<times> (nat \<times> nat) option) list option \<Rightarrow> ncmp_rc \<times> u32" where
  "ncmp_transport_probe ptr init_ok devs =
     (if \<not> ptr then (NCMP_ERR_INVAL, 0)
      else if \<not> init_ok then (NCMP_ERR_USB, 0)
      else
        let tot = (case devs of None \<Rightarrow> 0 | Some ds \<Rightarrow> snd (ncmp_pick_device ds (- 1)));
            n = (if unat tot > PKCS11_MAX_SLOT_COUNT then PKCS11_MAX_SLOT_COUNT else unat tot)
        in (NCMP_OK, fold (\<lambda>s mask. or mask (push_bit s 1)) [0..<n] 0))"

definition ncmp_transport_open :: "bool \<Rightarrow> u32 \<Rightarrow> bool \<Rightarrow> bool \<Rightarrow> ('d \<times> (nat \<times> nat) option) list option
    \<Rightarrow> ('d \<Rightarrow> 'h option) \<Rightarrow> ('h \<Rightarrow> bool) \<Rightarrow> ncmp_rc \<times> 'h option" where
  "ncmp_transport_open ptr sid alloc_ok init_ok devs usb_open claim =
     (if \<not> ptr \<or> unat sid \<ge> PKCS11_MAX_SLOT_COUNT then (NCMP_ERR_INVAL, None)
      else if \<not> alloc_ok then (NCMP_ERR_NOSPACE, None)
      else if \<not> init_ok then (NCMP_ERR_USB, None)
      else case devs of
          None \<Rightarrow> (NCMP_ERR_USB, None)
        | Some ds \<Rightarrow>
            (case Option.bind (fst (ncmp_pick_device ds sid)) usb_open of
               None \<Rightarrow> (NCMP_ERR_USB, None)
             | Some h \<Rightarrow> if \<not> claim h then (NCMP_ERR_USB, None) else (NCMP_OK, Some h)))"

definition ncmp_transport_close :: "'h option \<Rightarrow> ncmp_rc" where
  "ncmp_transport_close t = NCMP_OK"

section \<open>Transfers\<close>

datatype usb_rc = USB_OK | USB_TIMEOUT | USB_OTHER

function ncmp_bulk_exact :: "('dev \<Rightarrow> byte \<Rightarrow> byte list \<Rightarrow> usb_rc \<times> (nat \<Rightarrow> byte) \<times> nat \<times> 'dev) \<Rightarrow> 'dev \<Rightarrow> byte
    \<Rightarrow> byte list \<Rightarrow> nat \<Rightarrow> nat \<Rightarrow> nat \<Rightarrow> (ncmp_rc \<times> byte list \<times> 'dev) option" where
  "ncmp_bulk_exact xfer dev ep buf off len completed =
     (if \<not> completed < len then Some (NCMP_OK, buf, dev)
      else
        let chunk = (if len - completed > INT32_MAX then INT32_MAX else len - completed) in
        case get_bytes buf (off + completed) chunk of
          None \<Rightarrow> None
        | Some region \<Rightarrow>
            (case xfer dev ep region of
               (rc, content, transferred, dev) \<Rightarrow>
                 (case put_bytes buf (off + completed) (map content [0..<chunk]) of
                    None \<Rightarrow> None
                  | Some buf \<Rightarrow>
                      if rc = USB_TIMEOUT \<and> transferred = 0 then Some (NCMP_ERR_TIMEOUT, buf, dev)
                      else if rc \<noteq> USB_OK \<and> rc \<noteq> USB_TIMEOUT then Some (NCMP_ERR_USB, buf, dev)
                      else if transferred = 0 then Some (NCMP_ERR_USB, buf, dev)
                      else ncmp_bulk_exact xfer dev ep buf off len (completed + transferred))))"
  by pat_completeness auto
termination
  by (relation "measure (\<lambda>(xfer, dev, ep, buf, off, len, completed). len - completed)") auto

declare ncmp_bulk_exact.simps [simp del]


definition ncmp_transport_recv :: "('dev \<Rightarrow> byte \<Rightarrow> byte list \<Rightarrow> usb_rc \<times> (nat \<Rightarrow> byte) \<times> nat \<times> 'dev) \<Rightarrow> bool \<Rightarrow> 'dev
    \<Rightarrow> byte list \<Rightarrow> nat \<Rightarrow> ((ncmp_rc \<times> byte list \<times> nat) \<times> 'dev) option" where
  "ncmp_transport_recv xfer ptrs dev buf buf_len =
     (let fixed = NCMP_FRAME_PREFIX_SIZE + NCMP_HEADER_WIRE_SIZE in
      if \<not> ptrs then Some ((NCMP_ERR_INVAL, buf, 0), dev)
      else if buf_len < fixed then Some ((NCMP_ERR_TRUNCATED, buf, 0), dev)
      else do {
        (rc, buf, dev) \<leftarrow> ncmp_bulk_exact xfer dev NCMP_FX3_EP_IN buf 0 fixed 0;
        if rc \<noteq> NCMP_OK then Some ((rc, buf, 0), dev)
        else do {
          (rc, hdr) \<leftarrow> ncmp_wire_decode_header True buf fixed zero_header;
          if rc \<noteq> NCMP_OK then Some ((rc, buf, 0), dev)
          else if buf_len < fixed + unat (payload_len hdr) then Some ((NCMP_ERR_TRUNCATED, buf, 0), dev)
          else if payload_len hdr > 0 then do {
            (rc, buf, dev) \<leftarrow> ncmp_bulk_exact xfer dev NCMP_FX3_EP_IN buf fixed (unat (payload_len hdr)) 0;
            if rc \<noteq> NCMP_OK then Some ((rc, buf, 0), dev)
            else Some ((NCMP_OK, buf, fixed + unat (payload_len hdr)), dev)
          }
          else Some ((NCMP_OK, buf, fixed + unat (payload_len hdr)), dev)
        }
      })"

section \<open>Memory safety\<close>






section \<open>Receiving a frame\<close>

text \<open>
  A device whose IN endpoint delivers a stream of bytes, in transfers of any size up to the one
  asked for: what libusb documents for a bulk IN endpoint with data pending.
\<close>

definition usb_stream :: "('dev \<Rightarrow> byte \<Rightarrow> byte list \<Rightarrow> usb_rc \<times> (nat \<Rightarrow> byte) \<times> nat \<times> 'dev) \<Rightarrow> ('dev \<Rightarrow> byte list) \<Rightarrow> bool" where
  "usb_stream xfer pending \<longleftrightarrow>
     (\<forall>dev region. region \<noteq> [] \<longrightarrow> pending dev \<noteq> [] \<longrightarrow>
       (\<exists>f n dev'. xfer dev NCMP_FX3_EP_IN region = (USB_OK, f, n, dev') \<and> 1 \<le> n \<and> n \<le> length region \<and>
          n \<le> length (pending dev) \<and> (\<forall>i < n. f i = pending dev ! i) \<and>
          (\<forall>i. n \<le> i \<longrightarrow> i < length region \<longrightarrow> f i = region ! i) \<and> pending dev' = drop n (pending dev)))"

lemma usb_streamE:
  assumes "usb_stream xfer pending" "region \<noteq> []" "pending dev \<noteq> []"
  obtains f n dev' where "xfer dev NCMP_FX3_EP_IN region = (USB_OK, f, n, dev')" "1 \<le> n" "n \<le> length region"
    "n \<le> length (pending dev)" "map f [0..<length region] = take n (pending dev) @ drop n region"
    "pending dev' = drop n (pending dev)"
proof -
  obtain f n dev' where x: "xfer dev NCMP_FX3_EP_IN region = (USB_OK, f, n, dev')" "1 \<le> n" "n \<le> length region"
    "n \<le> length (pending dev)" "\<forall>i < n. f i = pending dev ! i" "\<forall>i. n \<le> i \<longrightarrow> i < length region \<longrightarrow> f i = region ! i"
    "pending dev' = drop n (pending dev)"
    using assms unfolding usb_stream_def by blast
  have "map f [0..<length region] = take n (pending dev) @ drop n region"
    using x(3-6) by (intro nth_equalityI) (auto simp: nth_append)
  from that [OF x(1-4) this x(7)] show ?thesis .
qed

lemma ncmp_bulk_exact_stream:
  assumes st: "usb_stream xfer pending"
  shows "completed \<le> len \<Longrightarrow> off + len \<le> length buf \<Longrightarrow> len - completed \<le> length (pending dev) \<Longrightarrow>
    \<exists>dev'. ncmp_bulk_exact xfer dev NCMP_FX3_EP_IN buf off len completed =
      Some (NCMP_OK, take (off + completed) buf @ take (len - completed) (pending dev) @ drop (off + len) buf, dev') \<and>
      pending dev' = drop (len - completed) (pending dev)"
proof (induction "len - completed" arbitrary: dev buf completed rule: less_induct)
  case less
  show ?case
  proof (cases "completed < len")
    case False
    with less.prems show ?thesis by (simp add: ncmp_bulk_exact.simps)
  next
    case True
    define chunk where "chunk = (if len - completed > INT32_MAX then INT32_MAX else len - completed)"
    have ch: "1 \<le> chunk" "completed + chunk \<le> len" using True by (auto simp: chunk_def INT32_MAX_def)
    have fit: "off + completed + chunk \<le> length buf" using less.prems ch by simp
    let ?region = "take chunk (drop (off + completed) buf)"
    have rl: "length ?region = chunk" "?region \<noteq> []" using fit ch by auto
    have pn: "pending dev \<noteq> []" using less.prems(3) True by auto
    obtain f n dev' where x: "xfer dev NCMP_FX3_EP_IN ?region = (USB_OK, f, n, dev')" "1 \<le> n" "n \<le> chunk"
      "n \<le> length (pending dev)" "map f [0..<chunk] = take n (pending dev) @ drop n ?region"
      "pending dev' = drop n (pending dev)"
      using usb_streamE [OF st rl(2) pn] unfolding rl(1) by blast
    let ?buf = "take (off + completed) buf @ (take n (pending dev) @ drop n ?region) @ drop (off + completed + chunk) buf"
    have lc: "length (take n (pending dev) @ drop n ?region) = chunk" using x rl(1) by simp
    have put: "put_bytes buf (off + completed) (map f [0..<chunk]) = Some ?buf"
      using fit lc unfolding x(5) put_bytes_def by simp
    have buf: "take (off + (completed + n)) ?buf = take (off + completed) buf @ take n (pending dev)"
      "drop (off + len) ?buf = drop (off + len) buf" "length ?buf = length buf"
      using fit ch x lc less.prems by (simp_all add: min_def) (simp add: add.commute)
    have pre: "len - (completed + n) < len - completed" "completed + n \<le> len" "off + len \<le> length ?buf"
      "len - (completed + n) \<le> length (pending dev')"
      using True x ch less.prems unfolding buf(3) by auto
    from less.hyps [OF pre] obtain dev'' where
      ih: "ncmp_bulk_exact xfer dev' NCMP_FX3_EP_IN ?buf off len (completed + n) =
        Some (NCMP_OK, take (off + (completed + n)) ?buf @ take (len - (completed + n)) (pending dev') @ drop (off + len) ?buf, dev'')"
      "pending dev'' = drop (len - (completed + n)) (pending dev')" by blast
    have split: "take (len - completed) (pending dev) = take n (pending dev) @ take (len - (completed + n)) (pending dev')"
      using x(3,6) ch by (simp add: take_add [symmetric])
    have "ncmp_bulk_exact xfer dev NCMP_FX3_EP_IN buf off len completed = ncmp_bulk_exact xfer dev' NCMP_FX3_EP_IN ?buf off len (completed + n)"
      using True fit x(1,2) put
      by (subst ncmp_bulk_exact.simps) (simp add: Let_def chunk_def [symmetric] get_bytes_def)
    moreover have "drop (len - (completed + n)) (pending dev') = drop (len - completed) (pending dev)"
      using x(3,6) ch by simp
    ultimately show ?thesis using ih unfolding buf(1,2) split by simp
  qed
qed

lemma ncmp_transport_recv_frame:
  assumes st: "usb_stream xfer pending" and pend: "pending dev = wire_frame m @ rest"
    and m: "wire_valid m" "56 + wire_sum m \<le> buf_len" "buf_len \<le> length buf"
  shows "\<exists>dev'. ncmp_transport_recv xfer True dev buf buf_len =
      Some ((NCMP_OK, wire_frame m @ drop (length (wire_frame m)) buf, length (wire_frame m)), dev') \<and> pending dev' = rest"
proof -
  have len: "length (wire_frame m) = 56 + wire_sum m" by (rule length_wire_frame [OF m(1)])
  have f1: "0 \<le> (24::nat)" "0 + 24 \<le> length buf" "24 - 0 \<le> length (pending dev)" using m len pend by auto
  let ?buf1 = "take 24 (wire_frame m) @ drop 24 buf"
  obtain dev1 where b1: "ncmp_bulk_exact xfer dev NCMP_FX3_EP_IN buf 0 24 0 = Some (NCMP_OK, ?buf1, dev1)"
    "pending dev1 = drop 24 (wire_frame m) @ rest"
    using ncmp_bulk_exact_stream [OF st f1] len by (auto simp: pend)
  have "ncmp_wire_decode_header True (wire_frame m) 24 zero_header = Some (NCMP_OK, wire_header m)"
    using decode_header_frame [OF m(1), of 24 "[]"] by simp
  then have dh: "ncmp_wire_decode_header True ?buf1 24 zero_header = Some (NCMP_OK, wire_header m)"
    using decode_header_take [of 24 "wire_frame m"] len by simp
  note pl = payload_len_wire_header [OF m(1)]
  have f2: "0 \<le> 32 + wire_sum m" "24 + (32 + wire_sum m) \<le> length ?buf1" "32 + wire_sum m - 0 \<le> length (pending dev1)"
    using m len b1(2) by auto
  obtain dev2 where b2: "ncmp_bulk_exact xfer dev1 NCMP_FX3_EP_IN ?buf1 24 (32 + wire_sum m) 0 =
      Some (NCMP_OK, take (24 + 0) ?buf1 @ take (32 + wire_sum m - 0) (pending dev1) @ drop (24 + (32 + wire_sum m)) ?buf1, dev2)"
    "pending dev2 = drop (32 + wire_sum m - 0) (pending dev1)"
    using ncmp_bulk_exact_stream [OF st f2] by blast
  have "take (24 + 0) ?buf1 @ take (32 + wire_sum m - 0) (pending dev1) @ drop (24 + (32 + wire_sum m)) ?buf1 =
      wire_frame m @ drop (length (wire_frame m)) buf"
    using len m b1(2) by (simp add: add.commute)
  moreover have "pending dev2 = rest" using b2(2) b1(2) len by simp
  moreover have "0 < payload_len (wire_header m)" using pl by (metis add_is_0 unat_0 word_gt_0 zero_neq_numeral)
  ultimately show ?thesis
    using b1(1) dh b2(1) pl len m(2) by (simp add: ncmp_transport_recv_def ncmp_limits)
qed

section \<open>Devices and slots\<close>

definition is_fx3 :: "'d \<times> (nat \<times> nat) option \<Rightarrow> bool" where
  "is_fx3 d \<longleftrightarrow> snd d = Some (NCMP_FX3_VID, NCMP_FX3_PID)"

lemma ncmp_pick_loop_spec:
  assumes "k + length (filter is_fx3 ds) < 2 ^ 32" "w < 2 ^ 32"
  shows "ncmp_pick_loop ds (of_nat w) chosen (of_nat k) =
    (if k \<le> w \<and> w < k + length (filter is_fx3 ds) then Some (fst (filter is_fx3 ds ! (w - k))) else chosen,
     of_nat (k + length (filter is_fx3 ds)))"
  using assms(1)
proof (induction ds arbitrary: k chosen)
  case Nil
  then show ?case by auto
next
  case (Cons x ds)
  obtain d desc where x: "x = (d, desc)" by (cases x)
  show ?case
  proof (cases "is_fx3 x")
    case False
    then have "ncmp_pick_loop (x # ds) (of_nat w) chosen (of_nat k) = ncmp_pick_loop ds (of_nat w) chosen (of_nat k)"
      using x by (auto simp: is_fx3_def split: option.split)
    then show ?thesis using Cons.IH [of k chosen] Cons.prems False by simp
  next
    case True
    have eq: "(of_nat k = (of_nat w :: u32)) = (k = w)"
      using Cons.prems assms(2) True by (auto simp: word_unat_eq_iff unat_of_nat)
    have d: "desc = Some (NCMP_FX3_VID, NCMP_FX3_PID)" using True x by (simp add: is_fx3_def)
    have "ncmp_pick_loop (x # ds) (of_nat w) chosen (of_nat k) =
        ncmp_pick_loop ds (of_nat w) (if k = w then Some d else chosen) (of_nat (Suc k))"
      unfolding x d by (simp add: eq add.commute)
    also have "\<dots> = (if Suc k \<le> w \<and> w < Suc k + length (filter is_fx3 ds) then Some (fst (filter is_fx3 ds ! (w - Suc k)))
        else if k = w then Some d else chosen, of_nat (Suc k + length (filter is_fx3 ds)))"
      using Cons.IH [of "Suc k" "if k = w then Some d else chosen"] Cons.prems True by simp
    finally show ?thesis
      using True x by (auto simp: nth_Cons' not_le le_less_Suc_eq Suc_diff_le diff_Suc split: nat.splits)
  qed
qed

lemma fold_or_bits: "bit (fold (\<lambda>s mask. or mask (push_bit s 1)) [0..<n] (0 :: u32)) k \<longleftrightarrow> k < n \<and> k < 32"
  by (induction n) (auto simp: bit_simps less_Suc_eq)

section \<open>Properties\<close>



text \<open>
  The two-step read of the USB transport takes exactly one frame off the stream, however
  the device splits it into transfers, and leaves what follows for the next call.
\<close>

lemma usb_recv_exact_frame:
  assumes "usb_stream xfer pending" "pending dev = wire_frame m @ rest"
    and "wire_valid m" "length (wire_frame m) \<le> buf_len" "buf_len \<le> length buf"
  shows "\<exists>dev'. ncmp_transport_recv xfer True dev buf buf_len =
      Some ((NCMP_OK, wire_frame m @ drop (length (wire_frame m)) buf, length (wire_frame m)), dev') \<and> pending dev' = rest"
  using ncmp_transport_recv_frame [OF assms(1-3) _ assms(5)] assms(4) length_wire_frame [OF assms(3)] by simp

text \<open>
  Probing and opening agree: the slot mask has a bit exactly for the first four FX3
  devices on the bus, and opening a slot gives the device of that number, so a slot is in
  the mask exactly when opening it finds a device.
\<close>

lemma usb_probe_open_agree:
  assumes "length (filter is_fx3 ds) < 2 ^ 32 - 1" "s < PKCS11_MAX_SLOT_COUNT"
  shows "\<exists>mask. ncmp_transport_probe True True (Some ds) = (NCMP_OK, mask) \<and>
    (bit mask s \<longleftrightarrow> s < length (filter is_fx3 ds)) \<and>
    fst (ncmp_pick_device ds (of_nat s)) = (if bit mask s then Some (fst (filter is_fx3 ds ! s)) else None)"
proof -
  let ?n = "length (filter is_fx3 ds)"
  have m1: "(- 1 :: u32) = of_nat (2 ^ 32 - 1)" by simp
  have "snd (ncmp_pick_device ds (- 1)) = of_nat ?n"
    using ncmp_pick_loop_spec [of 0 ds "2 ^ 32 - 1" None] assms(1) unfolding ncmp_pick_device_def m1 by simp
  moreover have "unat (of_nat ?n :: u32) = ?n" using assms(1) by (simp add: unat_of_nat)
  moreover have "fst (ncmp_pick_device ds (of_nat s)) = (if s < ?n then Some (fst (filter is_fx3 ds ! s)) else None)"
    using ncmp_pick_loop_spec [of 0 ds s None] assms by (simp add: ncmp_pick_device_def PKCS11_MAX_SLOT_COUNT_def)
  ultimately show ?thesis
    using assms(2) by (simp add: ncmp_transport_probe_def fold_or_bits [simplified] PKCS11_MAX_SLOT_COUNT_def Let_def)
qed

end
