(* ===== verification/Ncmp_Mock.thy ===== *)
theory Ncmp_Mock
  imports Ncmp_Ring_Facts
begin

text \<open>
  The software token, \<^verbatim>\<open>ncmp/mock\<close>: the mover that stages frames in the four containers
  (\<^verbatim>\<open>container.c\<close>), the scheduler with its commands (\<^verbatim>\<open>mcu_scheduler.c\<close>), the transport on
  top of them (\<^verbatim>\<open>mock_transport.c\<close>) and the command numbers of \<^verbatim>\<open>ncmp_cmd.h\<close>. A pointer into
  the payload is an offset; a read or write outside an array is \<^term>\<open>None\<close>. The bytes of the
  scheduler's uninitialised local buffer are an argument, and so is the byte order of the
  host, on which the mover's reading of the length prefix depends.
\<close>

section \<open>Commands\<close>

definition NCMP_CMD_OPCODE_MASK :: u32 where "NCMP_CMD_OPCODE_MASK = 0x0000FFFF"
definition NCMP_CMD_NOP :: u32 where "NCMP_CMD_NOP = 0x0000"
definition NCMP_CMD_RNG :: u32 where "NCMP_CMD_RNG = 0x0001"
definition NCMP_CMD_DIGEST :: u32 where "NCMP_CMD_DIGEST = 0x0002"
definition NCMP_CMD_DIGEST_INIT :: u32 where "NCMP_CMD_DIGEST_INIT = 0x0004"
definition NCMP_CMD_DIGEST_UPDATE :: u32 where "NCMP_CMD_DIGEST_UPDATE = 0x0005"
definition NCMP_CMD_DIGEST_FINAL :: u32 where "NCMP_CMD_DIGEST_FINAL = 0x0006"
definition NCMP_CMD_AES_CBC :: u32 where "NCMP_CMD_AES_CBC = 0x0010"
definition NCMP_CMD_AES_ECB :: u32 where "NCMP_CMD_AES_ECB = 0x0011"
definition NCMP_CMD_AES_GCM :: u32 where "NCMP_CMD_AES_GCM = 0x0012"
definition NCMP_CMD_RSA_SIGN :: u32 where "NCMP_CMD_RSA_SIGN = 0x0020"
definition NCMP_CMD_EC_SIGN :: u32 where "NCMP_CMD_EC_SIGN = 0x0021"
definition NCMP_DIGEST_CTX_NONE :: u32 where "NCMP_DIGEST_CTX_NONE = 0xFFFFFFFF"
definition NCMP_AES_BLOCK :: u32 where "NCMP_AES_BLOCK = 16"
definition NCMP_MOCK_CMD_FAIL_BIT :: u32 where "NCMP_MOCK_CMD_FAIL_BIT = 0x80000000"

lemmas ncmp_opcodes = NCMP_CMD_OPCODE_MASK_def NCMP_CMD_NOP_def NCMP_CMD_RNG_def NCMP_CMD_DIGEST_def
  NCMP_CMD_DIGEST_INIT_def NCMP_CMD_DIGEST_UPDATE_def NCMP_CMD_DIGEST_FINAL_def NCMP_CMD_AES_CBC_def
  NCMP_CMD_AES_ECB_def NCMP_CMD_AES_GCM_def NCMP_CMD_RSA_SIGN_def NCMP_CMD_EC_SIGN_def
  NCMP_MOCK_CMD_FAIL_BIT_def

definition ncmp_digest_size :: "u32 \<Rightarrow> u32" where
  "ncmp_digest_size mech =
     (if mech = 0x220 then 20 else if mech = 0x255 then 28 else if mech = 0x250 then 32
      else if mech = 0x260 then 48 else if mech = 0x270 then 64 else 0)"

definition ncmp_cmd_opcode :: "u32 \<Rightarrow> u32" where
  "ncmp_cmd_opcode cmd = and cmd NCMP_CMD_OPCODE_MASK"

definition ncmp_rd_u32le :: "byte list \<Rightarrow> nat option \<Rightarrow> u32 option" where
  "ncmp_rd_u32le buf p = do { p \<leftarrow> p; get_u32le buf p }"

definition ncmp_wr_u32le :: "byte list \<Rightarrow> nat \<Rightarrow> u32 \<Rightarrow> byte list option" where
  "ncmp_wr_u32le buf p v = put_u32le buf p v"

definition NCMP_MOCK_RNG_BYTE :: "nat \<Rightarrow> byte" where
  "NCMP_MOCK_RNG_BYTE i = 0x5A + of_nat i"

section \<open>The device\<close>

definition NCMP_DEV_CONTAINER_COUNT :: nat where "NCMP_DEV_CONTAINER_COUNT = 4"
definition NCMP_DEV_CONTAINER_SIZE :: nat where "NCMP_DEV_CONTAINER_SIZE = 64 * 1024"
definition NCMP_MOCK_DIGEST_CTX_MAX :: nat where "NCMP_MOCK_DIGEST_CTX_MAX = 8"

record mock_container =
  c_data :: "byte list"
  c_used :: u32
  c_busy :: bool

record mock_digest_ctx =
  dc_in_use :: bool
  dc_mech :: u32
  dc_acc :: u32

record mock_device =
  container :: "mock_container list"
  rr_cursor :: u32
  digest_ctx :: "mock_digest_ctx list"

definition mock_device_zero :: mock_device where
  "mock_device_zero =
     \<lparr>container = replicate NCMP_DEV_CONTAINER_COUNT
        \<lparr>c_data = replicate NCMP_DEV_CONTAINER_SIZE 0, c_used = 0, c_busy = False\<rparr>,
      rr_cursor = 0,
      digest_ctx = replicate NCMP_MOCK_DIGEST_CTX_MAX \<lparr>dc_in_use = False, dc_mech = 0, dc_acc = 0\<rparr>\<rparr>"

section \<open>The mover\<close>

definition host_u32 :: "bool \<Rightarrow> byte list \<Rightarrow> u32" where
  "host_u32 big_endian bs = le_u32 (if big_endian then rev bs else bs)"

text \<open>The first free container takes the frame; the boolean says whether there was one.\<close>

fun mock_ingest_loop :: "mock_container list \<Rightarrow> byte list \<Rightarrow> (bool \<times> mock_container list) option" where
  "mock_ingest_loop [] frame = Some (False, [])"
| "mock_ingest_loop (c # cs) frame =
     (if c_used c = 0 \<and> \<not> c_busy c
      then do {
        d \<leftarrow> put_bytes (c_data c) 0 frame;
        Some (True, c\<lparr>c_data := d, c_used := of_nat (length frame), c_busy := True\<rparr> # cs)
      }
      else do { (r, cs) \<leftarrow> mock_ingest_loop cs frame; Some (r, c # cs) })"

definition mock_mover_ingest :: "bool \<Rightarrow> mock_device \<Rightarrow> byte list option \<Rightarrow> nat \<Rightarrow> (ncmp_rc \<times> mock_device) option" where
  "mock_mover_ingest big_endian dev frame len =
     (case frame of
        None \<Rightarrow> Some (NCMP_ERR_INVAL, dev)
      | Some f \<Rightarrow>
          if len < NCMP_FRAME_PREFIX_SIZE then Some (NCMP_ERR_INVAL, dev)
          else do {
            prefix \<leftarrow> get_bytes f 0 4;
            if unat (host_u32 big_endian prefix) + NCMP_FRAME_PREFIX_SIZE \<noteq> len then Some (NCMP_ERR_TRUNCATED, dev)
            else if len > NCMP_DEV_CONTAINER_SIZE then Some (NCMP_ERR_NOSPACE, dev)
            else do {
              bs \<leftarrow> get_bytes f 0 len;
              (r, cs) \<leftarrow> mock_ingest_loop (container dev) bs;
              if r then Some (NCMP_OK, dev\<lparr>container := cs\<rparr>) else Some (NCMP_ERR_FULL, dev)
            }
          })"

section \<open>Executing a command\<close>

definition MOCK_CKR_OK :: u32 where "MOCK_CKR_OK = 0"
definition MOCK_CKR_FUNCTION_FAILED :: u32 where "MOCK_CKR_FUNCTION_FAILED = 0x6"
definition MOCK_CKR_ENCRYPTED_DATA_INVALID :: u32 where "MOCK_CKR_ENCRYPTED_DATA_INVALID = 0x40"
definition MOCK_CKR_DEVICE_MEMORY :: u32 where "MOCK_CKR_DEVICE_MEMORY = 0x31"
definition MOCK_CKR_MECHANISM_INVALID :: u32 where "MOCK_CKR_MECHANISM_INVALID = 0x70"
definition MOCK_DIGEST_SEED :: u32 where "MOCK_DIGEST_SEED = 0x811C9DC5"

definition mock_digest_fold :: "u32 \<Rightarrow> byte list \<Rightarrow> u32" where
  "mock_digest_fold acc d = fold (\<lambda>b acc. xor acc (ucast b) * 16777619) d acc"

definition mock_digest_finalize :: "u32 \<Rightarrow> u32 \<Rightarrow> nat \<Rightarrow> byte list" where
  "mock_digest_finalize acc mech hsize =
     map (\<lambda>i. ucast (drop_bit (i mod 8) acc + of_nat i * 31 + mech)) [0..<hsize]"

text \<open>The two ways a command ends: with one result parameter, or with an error code.\<close>

definition mock_reply :: "ncmp_message \<Rightarrow> byte list \<Rightarrow> u32 \<Rightarrow> ncmp_message" where
  "mock_reply msg p n =
     msg\<lparr>header := (header msg)\<lparr>ack := MOCK_CKR_OK\<rparr>, payload := Some p,
         param_len := n # replicate (NCMP_MAX_PARAM_COUNT - 1) 0\<rparr>"

definition mock_error :: "ncmp_message \<Rightarrow> u32 \<Rightarrow> ncmp_message" where
  "mock_error msg code =
     msg\<lparr>header := (header msg)\<lparr>ack := code\<rparr>, param_len := (param_len msg)[0 := 0]\<rparr>"

text \<open>Reading \<open>n\<close> bytes behind a pointer that may be NULL when \<open>n\<close> is 0.\<close>

definition rd_bytes :: "byte list \<Rightarrow> nat option \<Rightarrow> u32 \<Rightarrow> byte list option" where
  "rd_bytes buf p n = (if n = 0 then Some [] else do { p \<leftarrow> p; get_bytes buf p (unat n) })"

definition param_ptr :: "ncmp_message \<Rightarrow> nat \<Rightarrow> nat option \<times> u32" where
  "param_ptr msg i = snd (ncmp_msg_param True msg (int i))"

text \<open>
  The loops that combine data and key stream write position \<open>i\<close> of the payload and read
  position \<open>off + i\<close> of the same buffer, one byte at a time.
\<close>

fun mock_xor_loop :: "(nat \<Rightarrow> byte) \<Rightarrow> nat option \<Rightarrow> nat \<Rightarrow> nat \<Rightarrow> byte list \<Rightarrow> byte list option" where
  "mock_xor_loop ks pd i 0 p = Some p"
| "mock_xor_loop ks pd i (Suc n) p = do {
     off \<leftarrow> pd;
     if off + i < length p \<and> i < length p
     then mock_xor_loop ks pd (Suc i) n (p[i := xor (p ! (off + i)) (ks i)])
     else None
   }"

definition mock_exec_rng :: "ncmp_message \<Rightarrow> byte list \<Rightarrow> ncmp_message option" where
  "mock_exec_rng msg p = do {
     want \<leftarrow> (if param_len msg ! 0 \<ge> 4 then ncmp_rd_u32le p (Some 0) else Some 0);
     let want = (if unat want > NCMP_MAX_PARAM_SIZE then of_nat NCMP_MAX_PARAM_SIZE else want);
     p \<leftarrow> put_bytes p 0 (map NCMP_MOCK_RNG_BYTE [0..<unat want]);
     Some (mock_reply msg p want)
   }"

definition mock_exec_digest :: "ncmp_message \<Rightarrow> byte list \<Rightarrow> ncmp_message option" where
  "mock_exec_digest msg p = do {
     let in_len = param_len msg ! 0;
     mech \<leftarrow> (if in_len \<ge> 4 then ncmp_rd_u32le p (Some 0) else Some 0);
     let hsize = ncmp_digest_size mech;
     if hsize = 0 \<or> in_len < 4 then Some (mock_error msg MOCK_CKR_MECHANISM_INVALID)
     else do {
       d \<leftarrow> rd_bytes p (Some 4) (in_len - 4);
       let acc = mock_digest_fold (xor mech MOCK_DIGEST_SEED) d;
       p \<leftarrow> put_bytes p 0 (mock_digest_finalize acc mech (unat hsize));
       Some (mock_reply msg p hsize)
     }
   }"

fun mock_ctx_free :: "mock_digest_ctx list \<Rightarrow> nat \<Rightarrow> nat option" where
  "mock_ctx_free [] i = None"
| "mock_ctx_free (c # cs) i = (if \<not> dc_in_use c then Some i else mock_ctx_free cs (Suc i))"

definition mock_exec_digest_init :: "mock_device \<Rightarrow> ncmp_message \<Rightarrow> byte list \<Rightarrow> (mock_device \<times> ncmp_message) option" where
  "mock_exec_digest_init dev msg p = do {
     mech \<leftarrow> (if param_len msg ! 0 \<ge> 4 then ncmp_rd_u32le p (Some 0) else Some 0);
     if ncmp_digest_size mech = 0 then Some (dev, mock_error msg MOCK_CKR_MECHANISM_INVALID)
     else case mock_ctx_free (digest_ctx dev) 0 of
         None \<Rightarrow> Some (dev, mock_error msg MOCK_CKR_DEVICE_MEMORY)
       | Some slot \<Rightarrow> do {
           let dev = dev\<lparr>digest_ctx := (digest_ctx dev)[slot :=
             \<lparr>dc_in_use = True, dc_mech = mech, dc_acc = xor mech MOCK_DIGEST_SEED\<rparr>]\<rparr>;
           p \<leftarrow> ncmp_wr_u32le p 0 (of_nat slot);
           Some (dev, mock_reply msg p 4)
         }
   }"

definition mock_exec_digest_update :: "mock_device \<Rightarrow> ncmp_message \<Rightarrow> byte list \<Rightarrow> (mock_device \<times> ncmp_message) option" where
  "mock_exec_digest_update dev msg p =
     (let (pid, lid) = param_ptr msg 0; (pd, ld) = param_ptr msg 1 in
      if lid < 4 then Some (dev, mock_error msg MOCK_CKR_FUNCTION_FAILED)
      else do {
        id \<leftarrow> ncmp_rd_u32le p pid;
        if unat id \<ge> NCMP_MOCK_DIGEST_CTX_MAX \<or> \<not> dc_in_use (digest_ctx dev ! unat id)
        then Some (dev, mock_error msg MOCK_CKR_FUNCTION_FAILED)
        else do {
          d \<leftarrow> rd_bytes p pd ld;
          let c = digest_ctx dev ! unat id;
          let dev = dev\<lparr>digest_ctx := (digest_ctx dev)[unat id := c\<lparr>dc_acc := mock_digest_fold (dc_acc c) d\<rparr>]\<rparr>;
          Some (dev, mock_reply msg p 0)
        }
      })"

definition mock_exec_digest_final :: "mock_device \<Rightarrow> ncmp_message \<Rightarrow> byte list \<Rightarrow> (mock_device \<times> ncmp_message) option" where
  "mock_exec_digest_final dev msg p = do {
     id \<leftarrow> (if param_len msg ! 0 \<ge> 4 then ncmp_rd_u32le p (Some 0) else Some NCMP_DIGEST_CTX_NONE);
     if unat id \<ge> NCMP_MOCK_DIGEST_CTX_MAX \<or> \<not> dc_in_use (digest_ctx dev ! unat id)
     then Some (dev, mock_error msg MOCK_CKR_FUNCTION_FAILED)
     else do {
       let c = digest_ctx dev ! unat id;
       let hsize = ncmp_digest_size (dc_mech c);
       p \<leftarrow> put_bytes p 0 (mock_digest_finalize (dc_acc c) (dc_mech c) (unat hsize));
       let dev = dev\<lparr>digest_ctx := (digest_ctx dev)[unat id := c\<lparr>dc_in_use := False\<rparr>]\<rparr>;
       Some (dev, mock_reply msg p hsize)
     }
   }"

definition aes_key_len :: "u32 \<Rightarrow> bool" where
  "aes_key_len lk \<longleftrightarrow> lk = 16 \<or> lk = 24 \<or> lk = 32"

definition mock_exec_aes_cbc :: "ncmp_message \<Rightarrow> byte list \<Rightarrow> ncmp_message option" where
  "mock_exec_aes_cbc msg p =
     (let (pf, lf) = param_ptr msg 0; (pk, lk) = param_ptr msg 1;
          (piv, liv) = param_ptr msg 2; (pd, ld) = param_ptr msg 3 in
      if lf < 4 \<or> \<not> aes_key_len lk \<or> liv \<noteq> NCMP_AES_BLOCK \<or> ld mod NCMP_AES_BLOCK \<noteq> 0
      then Some (mock_error msg MOCK_CKR_MECHANISM_INVALID)
      else do {
        key \<leftarrow> rd_bytes p pk lk;
        iv \<leftarrow> rd_bytes p piv liv;
        p \<leftarrow> mock_xor_loop (\<lambda>i. xor (xor (key ! (i mod length key)) (iv ! (i mod unat NCMP_AES_BLOCK))) (of_nat i)) pd 0 (unat ld) p;
        Some (mock_reply msg p ld)
      })"

definition mock_exec_aes_ecb :: "ncmp_message \<Rightarrow> byte list \<Rightarrow> ncmp_message option" where
  "mock_exec_aes_ecb msg p =
     (let (pf, lf) = param_ptr msg 0; (pk, lk) = param_ptr msg 1; (pd, ld) = param_ptr msg 2 in
      if lf < 4 \<or> \<not> aes_key_len lk \<or> ld mod NCMP_AES_BLOCK \<noteq> 0
      then Some (mock_error msg MOCK_CKR_MECHANISM_INVALID)
      else do {
        key \<leftarrow> rd_bytes p pk lk;
        p \<leftarrow> mock_xor_loop (\<lambda>i. xor (key ! (i mod length key)) (of_nat i)) pd 0 (unat ld) p;
        Some (mock_reply msg p ld)
      })"

definition gcm_stream :: "byte list \<Rightarrow> byte list \<Rightarrow> nat \<Rightarrow> byte" where
  "gcm_stream key iv i = xor (xor (key ! (i mod length key)) (iv ! (i mod length iv))) (of_nat i)"

definition mock_gcm_encrypt :: "ncmp_message \<Rightarrow> byte list \<Rightarrow> byte list \<Rightarrow> byte list \<Rightarrow> u32 \<Rightarrow> nat option \<Rightarrow> u32 \<Rightarrow> u32
    \<Rightarrow> ncmp_message option" where
  "mock_gcm_encrypt msg p key iv acc pd ld taglen =
     (let outlen = ld + taglen in
      if unat outlen > NCMP_MAX_PARAM_SIZE then Some (mock_error msg MOCK_CKR_MECHANISM_INVALID)
      else do {
        p \<leftarrow> mock_xor_loop (gcm_stream key iv) pd 0 (unat ld) p;
        ct \<leftarrow> get_bytes p 0 (unat ld);
        let acc = mock_digest_fold acc ct;
        p \<leftarrow> put_bytes p (unat ld) (mock_digest_finalize acc 0 (unat taglen));
        Some (mock_reply msg p outlen)
      })"

definition mock_gcm_decrypt :: "ncmp_message \<Rightarrow> byte list \<Rightarrow> byte list \<Rightarrow> byte list \<Rightarrow> u32 \<Rightarrow> nat option \<Rightarrow> u32 \<Rightarrow> u32
    \<Rightarrow> ncmp_message option" where
  "mock_gcm_decrypt msg p key iv acc pd ld taglen =
     (if ld < taglen then Some (mock_error msg MOCK_CKR_ENCRYPTED_DATA_INVALID)
      else do {
        let ctlen = ld - taglen;
        ct \<leftarrow> rd_bytes p pd ctlen;
        let tag = mock_digest_finalize (mock_digest_fold acc ct) 0 (unat taglen);
        given \<leftarrow> rd_bytes p (map_option (\<lambda>o'. o' + unat ctlen) pd) taglen;
        if tag \<noteq> given then Some (mock_error msg MOCK_CKR_ENCRYPTED_DATA_INVALID)
        else do {
          p \<leftarrow> mock_xor_loop (gcm_stream key iv) pd 0 (unat ctlen) p;
          Some (mock_reply msg p ctlen)
        }
      })"

definition mock_exec_aes_gcm :: "ncmp_message \<Rightarrow> byte list \<Rightarrow> ncmp_message option" where
  "mock_exec_aes_gcm msg p =
     (let (pf, lf) = param_ptr msg 0; (pk, lk) = param_ptr msg 1; (piv, liv) = param_ptr msg 2;
          (paad, laad) = param_ptr msg 3; (ptl, ltl) = param_ptr msg 4; (pd, ld) = param_ptr msg 5 in
      if lf < 4 \<or> \<not> aes_key_len lk \<or> liv = 0 \<or> liv > 16 \<or> ltl < 4
      then Some (mock_error msg MOCK_CKR_MECHANISM_INVALID)
      else do {
        flags \<leftarrow> ncmp_rd_u32le p pf;
        taglen \<leftarrow> ncmp_rd_u32le p ptl;
        if taglen = 0 \<or> taglen > 16 then Some (mock_error msg MOCK_CKR_MECHANISM_INVALID)
        else do {
          key \<leftarrow> rd_bytes p pk lk;
          iv \<leftarrow> rd_bytes p piv liv;
          aad \<leftarrow> rd_bytes p paad laad;
          let acc = mock_digest_fold (mock_digest_fold (mock_digest_fold MOCK_DIGEST_SEED key) iv) aad;
          if and flags 1 \<noteq> 0 then mock_gcm_encrypt msg p key iv acc pd ld taglen
          else mock_gcm_decrypt msg p key iv acc pd ld taglen
        }
      })"

definition mock_exec_ec_sign :: "ncmp_message \<Rightarrow> byte list \<Rightarrow> ncmp_message option" where
  "mock_exec_ec_sign msg p =
     (let (pparams, lp) = param_ptr msg 0; (ppriv, lpriv) = param_ptr msg 1; (pdata, ldata) = param_ptr msg 2 in
      if lpriv = 0 \<or> lpriv > 66 then Some (mock_error msg MOCK_CKR_MECHANISM_INVALID)
      else do {
        let siglen = 2 * lpriv;
        priv \<leftarrow> rd_bytes p ppriv lpriv;
        params \<leftarrow> rd_bytes p pparams lp;
        data \<leftarrow> rd_bytes p pdata ldata;
        let acc = mock_digest_fold (mock_digest_fold (mock_digest_fold (xor MOCK_DIGEST_SEED lp) params) data) priv;
        p \<leftarrow> put_bytes p 0 (map (\<lambda>i. ucast (drop_bit (i mod 8) acc + of_nat i * 197 + ucast (priv ! (i mod length priv)) :: u32))
               [0..<unat siglen]);
        Some (mock_reply msg p siglen)
      })"

definition mock_exec_rsa_sign :: "ncmp_message \<Rightarrow> byte list \<Rightarrow> ncmp_message option" where
  "mock_exec_rsa_sign msg p =
     (let (pmod, lmod) = param_ptr msg 0; (pexp, lexp) = param_ptr msg 1; (pdata, ldata) = param_ptr msg 2 in
      if lmod = 0 \<or> lmod > 512 then Some (mock_error msg MOCK_CKR_MECHANISM_INVALID)
      else do {
        md \<leftarrow> rd_bytes p pmod lmod;
        expo \<leftarrow> rd_bytes p pexp lexp;
        data \<leftarrow> rd_bytes p pdata ldata;
        let acc = mock_digest_fold (mock_digest_fold (xor MOCK_DIGEST_SEED lmod) expo) data;
        p \<leftarrow> put_bytes p 0 (map (\<lambda>i. ucast (drop_bit (i mod 8) acc + of_nat i * 131 + ucast (md ! i) :: u32)) [0..<unat lmod]);
        Some (mock_reply msg p lmod)
      })"

definition same_dev :: "mock_device \<Rightarrow> ncmp_message option \<Rightarrow> (mock_device \<times> ncmp_message) option" where
  "same_dev dev r = map_option (Pair dev) r"

definition mock_exec_command :: "mock_device \<Rightarrow> ncmp_message \<Rightarrow> (mock_device \<times> ncmp_message) option" where
  "mock_exec_command dev msg = do {
     p \<leftarrow> payload msg;
     let opc = ncmp_cmd_opcode (command_id (header msg));
     if opc = NCMP_CMD_RNG then same_dev dev (mock_exec_rng msg p)
     else if opc = NCMP_CMD_DIGEST then same_dev dev (mock_exec_digest msg p)
     else if opc = NCMP_CMD_DIGEST_INIT then mock_exec_digest_init dev msg p
     else if opc = NCMP_CMD_DIGEST_UPDATE then mock_exec_digest_update dev msg p
     else if opc = NCMP_CMD_DIGEST_FINAL then mock_exec_digest_final dev msg p
     else if opc = NCMP_CMD_AES_CBC then same_dev dev (mock_exec_aes_cbc msg p)
     else if opc = NCMP_CMD_AES_GCM then same_dev dev (mock_exec_aes_gcm msg p)
     else if opc = NCMP_CMD_AES_ECB then same_dev dev (mock_exec_aes_ecb msg p)
     else if opc = NCMP_CMD_EC_SIGN then same_dev dev (mock_exec_ec_sign msg p)
     else if opc = NCMP_CMD_RSA_SIGN then same_dev dev (mock_exec_rsa_sign msg p)
     else Some (dev, msg\<lparr>header := (header msg)\<lparr>ack := MOCK_CKR_OK\<rparr>\<rparr>)
   }"

section \<open>The scheduler\<close>

text \<open>One container: the staged request is decoded, executed and encoded into \<open>rsp\<close>.\<close>

definition mock_mcu_run :: "mock_device \<Rightarrow> mock_container \<Rightarrow> byte list \<Rightarrow> byte list \<Rightarrow> nat
    \<Rightarrow> (ncmp_rc \<times> byte list \<times> nat \<times> mock_device) option" where
  "mock_mcu_run dev c scratch rsp rsp_cap = do {
     (rc, msg) \<leftarrow> ncmp_wire_decode True (c_data c) (unat (c_used c))
        \<lparr>header = zero_header, param_len = replicate NCMP_MAX_PARAM_COUNT 0, payload = Some scratch,
         payload_cap = NCMP_MAX_PAYLOAD_SIZE\<rparr>;
     if rc \<noteq> NCMP_OK then Some (rc, rsp, 0, dev)
     else do {
       (dev, msg) \<leftarrow> (if and (command_id (header msg)) NCMP_MOCK_CMD_FAIL_BIT \<noteq> 0
                      then Some (dev, msg\<lparr>header := (header msg)\<lparr>ack := MOCK_CKR_FUNCTION_FAILED\<rparr>\<rparr>)
                      else mock_exec_command dev msg);
       (rc, rsp, n) \<leftarrow> ncmp_wire_encode True msg rsp rsp_cap;
       Some (rc, rsp, n, dev)
     }
   }"

text \<open>The round over the containers; \<open>n\<close> counts up to the number of containers.\<close>

function mock_mcu_loop :: "mock_device \<Rightarrow> nat \<Rightarrow> byte list \<Rightarrow> byte list \<Rightarrow> nat
    \<Rightarrow> (ncmp_rc \<times> byte list \<times> nat \<times> mock_device) option" where
  "mock_mcu_loop dev n scratch rsp rsp_cap =
     (if n \<ge> NCMP_DEV_CONTAINER_COUNT then Some (NCMP_ERR_STATE, rsp, 0, dev)
      else
        let idx = (rr_cursor dev + of_nat n) mod of_nat NCMP_DEV_CONTAINER_COUNT;
            c = container dev ! unat idx in
        if \<not> c_busy c \<or> c_used c = 0 then mock_mcu_loop dev (Suc n) scratch rsp rsp_cap
        else do {
          (rc, rsp, len, dev) \<leftarrow> mock_mcu_run dev c scratch rsp rsp_cap;
          Some (rc, rsp, len,
            dev\<lparr>container := (container dev)[unat idx := c\<lparr>c_used := 0, c_busy := False\<rparr>],
                rr_cursor := (idx + 1) mod of_nat NCMP_DEV_CONTAINER_COUNT\<rparr>)
        })"
  by pat_completeness auto
termination
  by (relation "measure (\<lambda>(dev, n, s, r, c). NCMP_DEV_CONTAINER_COUNT - n)") auto

declare mock_mcu_loop.simps [simp del]

definition mock_mcu_step :: "bool \<Rightarrow> mock_device \<Rightarrow> byte list \<Rightarrow> byte list \<Rightarrow> nat
    \<Rightarrow> (ncmp_rc \<times> byte list \<times> nat \<times> mock_device) option" where
  "mock_mcu_step ptrs dev scratch rsp rsp_cap =
     (if \<not> ptrs then Some (NCMP_ERR_INVAL, rsp, 0, dev) else mock_mcu_loop dev 0 scratch rsp rsp_cap)"

section \<open>The transport\<close>

definition NCMP_MOCK_SLOT_COUNT :: nat where "NCMP_MOCK_SLOT_COUNT = 1"

definition mock_transport_probe :: "bool \<Rightarrow> ncmp_rc \<times> u32" where
  "mock_transport_probe ptr =
     (if \<not> ptr then (NCMP_ERR_INVAL, 0)
      else (NCMP_OK, fold (\<lambda>s mask. or mask (push_bit s 1)) [0..<min NCMP_MOCK_SLOT_COUNT PKCS11_MAX_SLOT_COUNT] 0))"

text \<open>The devices are global, one per slot; a handle is the number of its device.\<close>

definition mock_transport_open :: "bool \<Rightarrow> u32 \<Rightarrow> bool \<Rightarrow> mock_device list \<Rightarrow> ncmp_rc \<times> nat option \<times> mock_device list" where
  "mock_transport_open ptr sid alloc_ok devs =
     (if \<not> ptr \<or> unat sid \<ge> PKCS11_MAX_SLOT_COUNT then (NCMP_ERR_INVAL, None, devs)
      else if \<not> alloc_ok then (NCMP_ERR_NOSPACE, None, devs)
      else (NCMP_OK, Some (unat sid), devs[unat sid := mock_device_zero]))"

definition mock_transport_send :: "bool \<Rightarrow> bool \<Rightarrow> mock_device \<Rightarrow> byte list option \<Rightarrow> nat \<Rightarrow> (ncmp_rc \<times> mock_device) option" where
  "mock_transport_send big_endian ptr dev frame len =
     (if \<not> ptr \<or> frame = None then Some (NCMP_ERR_INVAL, dev) else mock_mover_ingest big_endian dev frame len)"

definition mock_transport_recv :: "bool \<Rightarrow> mock_device \<Rightarrow> byte list \<Rightarrow> byte list \<Rightarrow> nat
    \<Rightarrow> (ncmp_rc \<times> byte list \<times> nat \<times> mock_device) option" where
  "mock_transport_recv ptrs dev scratch buf buf_len =
     (if \<not> ptrs then Some (NCMP_ERR_INVAL, buf, 0, dev) else mock_mcu_step True dev scratch buf buf_len)"

definition mock_transport_close :: "nat option \<Rightarrow> ncmp_rc" where
  "mock_transport_close t = NCMP_OK"
end
