(* ===== verification/Ncmp_Mock_Facts.thy ===== *)
theory Ncmp_Mock_Facts
  imports Ncmp_Mock
begin

text \<open>
  What the software token of \<^verbatim>\<open>Ncmp_Mock\<close> does with well-formed and with hostile requests:
  the commands as functions of their parameters, memory safety for valid frames, the
  round-robin scheduler, and a whole command through ring, transport and token.
\<close>

section \<open>Parameters of a request\<close>

text \<open>A request carries an operation number and a list of parameters.\<close>

definition carries :: "ncmp_message \<Rightarrow> u32 \<Rightarrow> byte list list \<Rightarrow> bool" where
  "carries msg opc ps \<longleftrightarrow>
     ncmp_cmd_opcode (command_id (header msg)) = opc \<and> length ps \<le> 8 \<and>
     param_len msg = map (\<lambda>x. of_nat (length x)) ps @ replicate (8 - length ps) 0 \<and>
     length (concat ps) \<le> 40928 \<and> payload_cap msg = 40960 \<and>
     (\<exists>rest. payload msg = Some (concat ps @ rest) \<and> length (concat ps @ rest) = 40960)"

lemma carriesE:
  assumes "carries msg opc ps"
  obtains p where "payload msg = Some p" "length p = 40960" "take (length (concat ps)) p = concat ps"
    "length (concat ps) \<le> 40928" "length ps \<le> 8" "ncmp_cmd_opcode (command_id (header msg)) = opc"
    "payload_cap msg = 40960"
proof -
  from assms have c: "ncmp_cmd_opcode (command_id (header msg)) = opc" "length ps \<le> 8" "length (concat ps) \<le> 40928"
    "payload_cap msg = 40960" "\<exists>rest. payload msg = Some (concat ps @ rest) \<and> length (concat ps @ rest) = 40960"
    unfolding carries_def by iprover+
  then obtain rest where r: "payload msg = Some (concat ps @ rest)" "length (concat ps @ rest) = 40960" by iprover
  show ?thesis by (rule that [OF r _ c(3,2,1,4)]) simp
qed

lemma concat_split: "i < length ps \<Longrightarrow> concat ps = concat (take i ps) @ ps ! i @ concat (drop (Suc i) ps)"
  using arg_cong [OF id_take_nth_drop [of i ps], of concat] by simp

definition poff :: "byte list list \<Rightarrow> nat \<Rightarrow> nat" where
  "poff ps i = length (concat (take i ps))"

lemma poff_0 [simp]: "poff ps 0 = 0"
  by (simp add: poff_def)

lemma length_concat_nth: "i < length ps \<Longrightarrow> poff ps i + length (ps ! i) \<le> length (concat ps)"
  using arg_cong [OF concat_split, of i ps length] by (simp add: poff_def del: length_concat)

lemma slice_append: "take (length y) (drop (length x) (x @ y @ z)) = y"
  by simp

lemma concat_slice:
  assumes "i < length ps"
  shows "take (length (ps ! i)) (drop (poff ps i) (concat ps)) = ps ! i"
  using slice_append [of "ps ! i" "concat (take i ps)" "concat (drop (Suc i) ps)"]
  unfolding concat_split [OF assms, symmetric] poff_def .

lemma take_drop_take: "k + l \<le> n \<Longrightarrow> take l (drop k (take n xs)) = take l (drop k xs)"
  by (simp add: drop_take min_def)

lemma unat_small: "n \<le> 65535 \<Longrightarrow> unat (of_nat n :: u32) = n"
  by (simp add: unat_of_nat)

lemma carries_param:
  assumes c: "carries msg opc ps" and p: "payload msg = Some p" and i: "i < length ps"
  shows carries_len: "snd (param_ptr msg i) = of_nat (length (ps ! i))" "param_len msg ! i = of_nat (length (ps ! i))"
    and carries_unat: "unat (of_nat (length (ps ! i)) :: u32) = length (ps ! i)" "length (ps ! i) \<le> 40928"
    and carries_ptr: "fst (param_ptr msg i) = (if ps ! i = [] then None else Some (poff ps i))"
    and carries_at: "poff ps i + length (ps ! i) \<le> length p"
      "take (length (ps ! i)) (drop (poff ps i) p) = ps ! i"
proof -
  note le = length_concat_nth [OF i]
  have lc: "length (concat ps) \<le> 40928" "length p = 40960" "length ps \<le> 8" and tk: "take (length (concat ps)) p = concat ps"
    and pl: "param_len msg = map (\<lambda>x. of_nat (length x)) ps @ replicate (8 - length ps) 0"
    using c p by (auto simp: carries_def)
  show u: "unat (of_nat (length (ps ! i)) :: u32) = length (ps ! i)" "length (ps ! i) \<le> 40928"
    using le lc by (auto intro!: unat_small)
  have each: "unat (of_nat (length x) :: u32) = length x" if "x \<in> set (take i ps)" for x
  proof -
    have "x \<in> set ps" using that by (rule in_set_takeD)
    then obtain j where "j < length ps" "x = ps ! j" by (metis in_set_conv_nth)
    then have "length x \<le> 40928" using length_concat_nth [of j ps] lc by simp
    then show ?thesis by (intro unat_small) simp
  qed
  have "map unat (take i (param_len msg)) = map (\<lambda>x. unat (of_nat (length x) :: u32)) (take i ps)"
    using i by (simp add: pl take_map)
  also have "\<dots> = map length (take i ps)" by (intro map_cong refl each)
  finally have "sum_list (map unat (take i (param_len msg))) = poff ps i"
    by (simp add: length_concat poff_def)
  moreover show "param_len msg ! i = of_nat (length (ps ! i))" using i by (simp add: pl nth_append)
  moreover have "(0 < (of_nat (length (ps ! i)) :: u32)) = (ps ! i \<noteq> [])" using u(1) by (auto simp: word_gt_0 unat_eq_0 [symmetric])
  ultimately show "snd (param_ptr msg i) = of_nat (length (ps ! i))"
    "fst (param_ptr msg i) = (if ps ! i = [] then None else Some (poff ps i))"
    using i lc by (auto simp: param_ptr_def ncmp_msg_param_def ncmp_limits Let_def)
  show "poff ps i + length (ps ! i) \<le> length p" using le lc by simp
  show "take (length (ps ! i)) (drop (poff ps i) p) = ps ! i"
    using take_drop_take [OF le, of p] unfolding tk concat_slice [OF i] by (rule sym)
qed

lemma carries_get:
  assumes "carries msg opc ps" "payload msg = Some p" "i < length ps" "n \<le> length (ps ! i)"
  shows "get_bytes p (poff ps i) n = Some (take n (ps ! i))"
proof -
  note c = carries_at [OF assms(1-3)]
  have "take n (drop (poff ps i) p) = take n (take (length (ps ! i)) (drop (poff ps i) p))" using assms(4) by (simp add: min_def)
  then show ?thesis using c(1) assms(4) unfolding c(2) get_bytes_def by simp
qed

lemma carries_rd:
  assumes "carries msg opc ps" "payload msg = Some p" "i < length ps"
  shows "rd_bytes p (fst (param_ptr msg i)) (snd (param_ptr msg i)) = Some (ps ! i)"
proof -
  note c = carries_param [OF assms]
  have "(of_nat (length (ps ! i)) = (0 :: u32)) \<longleftrightarrow> ps ! i = []" using c(3) unat_eq_0 [of "of_nat (length (ps ! i)) :: u32"] by auto
  then show ?thesis
    unfolding rd_bytes_def c(1,5) using carries_get [OF assms order_refl] by (simp add: c(3))
qed

lemma carries_rd_u32:
  assumes "carries msg opc ps" "payload msg = Some p" "i < length ps" "4 \<le> length (ps ! i)"
  shows "ncmp_rd_u32le p (fst (param_ptr msg i)) = Some (le_u32 (take 4 (ps ! i)))"
proof -
  have "ps ! i \<noteq> []" using assms(4) by auto
  then show ?thesis
    unfolding ncmp_rd_u32le_def carries_ptr [OF assms(1-3)] get_u32le_def by (simp add: carries_get [OF assms])
qed

lemma carries_rd_first:
  assumes "carries msg opc ps" "payload msg = Some p" "ps \<noteq> []" "4 \<le> length (ps ! 0)"
  shows "ncmp_rd_u32le p (Some 0) = Some (le_u32 (take 4 (ps ! 0)))"
proof -
  have "0 < length ps" using assms(3) by simp
  moreover have "ps ! 0 \<noteq> []" using assms(4) by auto
  ultimately show ?thesis using carries_rd_u32 [OF assms(1,2), of 0] carries_ptr [OF assms(1,2), of 0] assms(4) by simp
qed

text \<open>The in-place loop reads every byte before it overwrites it.\<close>

lemma mock_xor_loop_map:
  assumes "off + i + n \<le> length p"
  shows "mock_xor_loop ks (Some off) i n p =
    Some (take i p @ map (\<lambda>j. xor (p ! (off + j)) (ks j)) [i..<i + n] @ drop (i + n) p)"
  using assms
proof (induction n arbitrary: i p)
  case (Suc n)
  let ?q = "p[i := xor (p ! (off + i)) (ks i)]"
  have "mock_xor_loop ks (Some off) i (Suc n) p = mock_xor_loop ks (Some off) (Suc i) n ?q"
    using Suc.prems by simp
  also have "\<dots> = Some (take (Suc i) ?q @ map (\<lambda>j. xor (?q ! (off + j)) (ks j)) [Suc i..<Suc i + n] @ drop (Suc i + n) ?q)"
    using Suc.IH [of "Suc i" ?q] Suc.prems by simp
  also have "map (\<lambda>j. xor (?q ! (off + j)) (ks j)) [Suc i..<Suc i + n] = map (\<lambda>j. xor (p ! (off + j)) (ks j)) [Suc i..<Suc i + n]"
    by (intro map_cong) auto
  also have "take (Suc i) ?q = take i p @ [xor (p ! (off + i)) (ks i)]"
    using Suc.prems by (simp add: take_Suc_conv_app_nth)
  also have "drop (Suc i + n) ?q = drop (Suc i + n) p" by simp
  finally have "mock_xor_loop ks (Some off) i (Suc n) p = Some ((take i p @ [xor (p ! (off + i)) (ks i)]) @
      map (\<lambda>j. xor (p ! (off + j)) (ks j)) [Suc i..<Suc i + n] @ drop (Suc i + n) p)" .
  moreover have "[i..<i + Suc n] = i # [Suc i..<Suc i + n]" by (simp add: upt_conv_Cons del: upt_Suc)
  ultimately show ?case by simp
qed simp

lemma carries_xor:
  assumes "carries msg opc ps" "payload msg = Some p" "i < length ps" "n \<le> length (ps ! i)"
  shows "mock_xor_loop ks (fst (param_ptr msg i)) 0 n p =
    Some (map (\<lambda>j. xor (ps ! i ! j) (ks j)) [0..<n] @ drop n p)"
proof (cases "ps ! i = []")
  case True
  then show ?thesis using assms(4) by simp
next
  case False
  note c = carries_param [OF assms(1-3)]
  let ?off = "poff ps i"
  have "p ! (?off + j) = ps ! i ! j" if "j < n" for j
    using that assms(4) c(6) nth_take [of j "length (ps ! i)" "drop ?off p"] unfolding c(7) by simp
  then have "map (\<lambda>j. xor (p ! (?off + j)) (ks j)) [0..<n] = map (\<lambda>j. xor (ps ! i ! j) (ks j)) [0..<n]"
    by (intro map_cong refl) simp
  moreover have "?off + 0 + n \<le> length p" using c(6) assms(4) by simp
  moreover have "fst (param_ptr msg i) = Some ?off" using c(5) False by simp
  ultimately show ?thesis using mock_xor_loop_map [of ?off 0 n p ks] by simp
qed

section \<open>Digests\<close>

text \<open>The result parameter of a response.\<close>

definition answer :: "ncmp_message \<Rightarrow> byte list" where
  "answer msg = take (unat (param_len msg ! 0)) (the (payload msg))"

lemma mock_reply_simps [simp]:
  "ack (header (mock_reply msg p n)) = MOCK_CKR_OK" "param_len (mock_reply msg p n) ! 0 = n"
  "payload (mock_reply msg p n) = Some p" "answer (mock_reply msg p n) = take (unat n) p"
  "session_id (header (mock_reply msg p n)) = session_id (header msg)"
  "sequence_id (header (mock_reply msg p n)) = sequence_id (header msg)"
  "command_id (header (mock_reply msg p n)) = command_id (header msg)"
  "payload_cap (mock_reply msg p n) = payload_cap msg" "length (param_len (mock_reply msg p n)) = 8"
  by (simp_all add: mock_reply_def answer_def NCMP_MAX_PARAM_COUNT_def)

lemma mock_error_simps [simp]:
  "ack (header (mock_error msg c)) = c" "payload (mock_error msg c) = payload msg"
  "session_id (header (mock_error msg c)) = session_id (header msg)"
  "sequence_id (header (mock_error msg c)) = sequence_id (header msg)"
  "command_id (header (mock_error msg c)) = command_id (header msg)"
  "payload_cap (mock_error msg c) = payload_cap msg" "length (param_len (mock_error msg c)) = length (param_len msg)"
  by (simp_all add: mock_error_def)

lemma mock_digest_fold_append: "mock_digest_fold acc (xs @ ys) = mock_digest_fold (mock_digest_fold acc xs) ys"
  by (simp add: mock_digest_fold_def)

lemma length_mock_digest_finalize [simp]: "length (mock_digest_finalize acc mech n) = n"
  by (simp add: mock_digest_finalize_def)

lemma ncmp_digest_size_le: "unat (ncmp_digest_size mech) \<le> 64"
  by (simp add: ncmp_digest_size_def)

lemma mock_ctx_free_nth:
  "mock_ctx_free cs k = Some i \<Longrightarrow> k \<le> i \<and> i < k + length cs \<and> \<not> dc_in_use (cs ! (i - k))"
  by (induction cs arbitrary: k) (fastforce split: if_splits simp: Suc_diff_le)+

definition digest_of :: "u32 \<Rightarrow> byte list \<Rightarrow> byte list" where
  "digest_of mech d =
     mock_digest_finalize (mock_digest_fold (xor mech MOCK_DIGEST_SEED) d) mech (unat (ncmp_digest_size mech))"

lemma put_digest:
  assumes "length p = 40960"
  shows "put_bytes p 0 (mock_digest_finalize acc mech (unat (ncmp_digest_size mech'))) =
    Some (mock_digest_finalize acc mech (unat (ncmp_digest_size mech')) @ drop (unat (ncmp_digest_size mech')) p)"
  using put_bytes_0 [of "mock_digest_finalize acc mech (unat (ncmp_digest_size mech'))" p]
    ncmp_digest_size_le [of mech'] assms by simp

lemma exec_digest:
  assumes c: "carries msg NCMP_CMD_DIGEST [u32le mech @ d]" and m: "ncmp_digest_size mech \<noteq> 0"
  shows "\<exists>r. mock_exec_command dev msg = Some (dev, r) \<and> ack (header r) = MOCK_CKR_OK \<and> answer r = digest_of mech d"
proof -
  obtain p where p: "payload msg = Some p" "length p = 40960" "ncmp_cmd_opcode (command_id (header msg)) = NCMP_CMD_DIGEST"
    using c by (rule carriesE)
  note cp = carries_param [OF c p(1), of 0, simplified]
  have n: "4 + length d \<le> 40928" using cp(4) by simp
  have il: "param_len msg ! 0 = 4 + of_nat (length d)" using cp(2) by simp
  have u: "unat (4 + of_nat (length d) :: u32) = 4 + length d" using cp(3) by simp
  have lt: "\<not> (4 + of_nat (length d) < (4 :: u32))" by (simp add: word_less_nat_alt u)
  have mech: "ncmp_rd_u32le p (Some 0) = Some mech" using carries_rd_first [OF c p(1)] by simp
  have "get_bytes p 0 (4 + length d) = Some (u32le mech @ d)" using carries_get [OF c p(1), of 0 "4 + length d"] by simp
  then have "take (4 + length d) p = u32le mech @ d" using n p(2) by (simp add: get_bytes_def)
  then have "take (length d) (drop 4 p) = d" by (metis append_eq_conv_conj length_u32le take_drop add.commute)
  then have "get_bytes p 4 (length d) = Some d" using n p(2) by (simp add: get_bytes_def)
  then have rd: "rd_bytes p (Some 4) (of_nat (length d)) = Some d"
    using n unat_small [of "length d"] unat_eq_0 [of "of_nat (length d) :: u32"] by (auto simp: rd_bytes_def)
  show ?thesis
    using m by (simp add: mock_exec_command_def p ncmp_opcodes same_dev_def mock_exec_digest_def il lt mech rd put_digest digest_of_def
        not_less [symmetric] Let_def)
qed

lemma exec_digest_init:
  assumes c: "carries msg NCMP_CMD_DIGEST_INIT [u32le mech]" and m: "ncmp_digest_size mech \<noteq> 0"
    and f: "mock_ctx_free (digest_ctx dev) 0 = Some i"
  shows "\<exists>r. mock_exec_command dev msg = Some (dev\<lparr>digest_ctx := (digest_ctx dev)[i :=
      \<lparr>dc_in_use = True, dc_mech = mech, dc_acc = xor mech MOCK_DIGEST_SEED\<rparr>]\<rparr>, r) \<and>
    ack (header r) = MOCK_CKR_OK \<and> answer r = u32le (of_nat i)"
proof -
  obtain p where p: "payload msg = Some p" "length p = 40960" "ncmp_cmd_opcode (command_id (header msg)) = NCMP_CMD_DIGEST_INIT"
    using c by (rule carriesE)
  note cp = carries_param [OF c p(1), of 0, simplified]
  have mech: "ncmp_rd_u32le p (Some 0) = Some mech" using carries_rd_first [OF c p(1)] by simp
  have "put_u32le p 0 (of_nat i) = Some (u32le (of_nat i) @ drop 4 p)"
    using p(2) by (simp add: put_u32le_def put_bytes_0)
  then show ?thesis
    using m f cp(2) by (simp add: mock_exec_command_def p ncmp_opcodes mock_exec_digest_init_def mech ncmp_wr_u32le_def)
qed

lemma exec_digest_update:
  assumes c: "carries msg NCMP_CMD_DIGEST_UPDATE [u32le (of_nat i), d]" and i: "i < 8" "dc_in_use (digest_ctx dev ! i)"
  shows "\<exists>r. mock_exec_command dev msg = Some (dev\<lparr>digest_ctx := (digest_ctx dev)[i :=
      (digest_ctx dev ! i)\<lparr>dc_acc := mock_digest_fold (dc_acc (digest_ctx dev ! i)) d\<rparr>]\<rparr>, r) \<and>
    ack (header r) = MOCK_CKR_OK"
proof -
  obtain p where p: "payload msg = Some p" "length p = 40960" "ncmp_cmd_opcode (command_id (header msg)) = NCMP_CMD_DIGEST_UPDATE"
    using c by (rule carriesE)
  have id: "ncmp_rd_u32le p (fst (param_ptr msg 0)) = Some (of_nat i)" using carries_rd_u32 [OF c p(1), of 0] by simp
  have d: "rd_bytes p (fst (param_ptr msg 1)) (snd (param_ptr msg 1)) = Some d" using carries_rd [OF c p(1), of 1] by simp
  have l: "snd (param_ptr msg 0) = 4" using carries_len(1) [OF c p(1), of 0] by simp
  have "unat (of_nat i :: u32) = i" using i by (simp add: unat_of_nat)
  then show ?thesis
    using i id d l by (simp add: mock_exec_command_def p ncmp_opcodes mock_exec_digest_update_def NCMP_MOCK_DIGEST_CTX_MAX_def
        case_prod_beta Let_def)
qed

lemma exec_digest_final:
  assumes c: "carries msg NCMP_CMD_DIGEST_FINAL [u32le (of_nat i)]" and i: "i < 8" "digest_ctx dev ! i = ctx" "dc_in_use ctx"
  shows "\<exists>r. mock_exec_command dev msg = Some (dev\<lparr>digest_ctx := (digest_ctx dev)[i := ctx\<lparr>dc_in_use := False\<rparr>]\<rparr>, r) \<and>
    ack (header r) = MOCK_CKR_OK \<and>
    answer r = mock_digest_finalize (dc_acc ctx) (dc_mech ctx) (unat (ncmp_digest_size (dc_mech ctx)))"
proof -
  obtain p where p: "payload msg = Some p" "length p = 40960" "ncmp_cmd_opcode (command_id (header msg)) = NCMP_CMD_DIGEST_FINAL"
    using c by (rule carriesE)
  note cp = carries_param [OF c p(1), of 0, simplified]
  have id: "ncmp_rd_u32le p (Some 0) = Some (of_nat i)" using carries_rd_first [OF c p(1)] by simp
  have "unat (of_nat i :: u32) = i" using i by (simp add: unat_of_nat)
  then show ?thesis
    using i id cp(2) by (simp add: mock_exec_command_def p ncmp_opcodes mock_exec_digest_final_def NCMP_MOCK_DIGEST_CTX_MAX_def
        Let_def put_digest)
qed

text \<open>A sequence of commands, with the responses of the token.\<close>

fun mock_run :: "mock_device \<Rightarrow> ncmp_message list \<Rightarrow> (mock_device \<times> ncmp_message list) option" where
  "mock_run dev [] = Some (dev, [])"
| "mock_run dev (m # ms) = do {
     (dev, r) \<leftarrow> mock_exec_command dev m;
     (dev, rs) \<leftarrow> mock_run dev ms;
     Some (dev, r # rs)
   }"

lemma mock_run_append:
  "mock_run dev (ms @ ns) = do { (dev, rs) \<leftarrow> mock_run dev ms; (dev, rs') \<leftarrow> mock_run dev ns; Some (dev, rs @ rs') }"
  by (induction ms arbitrary: dev) (auto simp: bind_eq_Some_conv split: bind_splits)

lemma mock_run_updates:
  assumes "list_all2 (\<lambda>m d. carries m NCMP_CMD_DIGEST_UPDATE [u32le (of_nat i), d]) ms ds"
    and "i < 8" "i < length (digest_ctx dev)" "dc_in_use (digest_ctx dev ! i)"
  shows "\<exists>rs. mock_run dev ms = Some (dev\<lparr>digest_ctx := (digest_ctx dev)[i :=
      (digest_ctx dev ! i)\<lparr>dc_acc := mock_digest_fold (dc_acc (digest_ctx dev ! i)) (concat ds)\<rparr>]\<rparr>, rs) \<and>
    (\<forall>r \<in> set rs. ack (header r) = MOCK_CKR_OK)"
  using assms
proof (induction ms ds arbitrary: dev rule: list_all2_induct)
  case Nil
  then show ?case by (simp add: mock_digest_fold_def)
next
  case (Cons m ms d ds)
  let ?c = "(digest_ctx dev ! i)\<lparr>dc_acc := mock_digest_fold (dc_acc (digest_ctx dev ! i)) d\<rparr>"
  let ?dev = "dev\<lparr>digest_ctx := (digest_ctx dev)[i := ?c]\<rparr>"
  obtain r where r: "mock_exec_command dev m = Some (?dev, r)" "ack (header r) = MOCK_CKR_OK"
    using exec_digest_update [OF Cons.hyps(1) Cons.prems(1,3)] by blast
  have "dc_in_use (digest_ctx ?dev ! i)" "i < length (digest_ctx ?dev)" using Cons.prems by simp_all
  then obtain rs where "mock_run ?dev ms = Some (?dev\<lparr>digest_ctx := (digest_ctx ?dev)[i :=
      (digest_ctx ?dev ! i)\<lparr>dc_acc := mock_digest_fold (dc_acc (digest_ctx ?dev ! i)) (concat ds)\<rparr>]\<rparr>, rs)"
    "\<forall>r \<in> set rs. ack (header r) = MOCK_CKR_OK" using Cons.IH [of ?dev] Cons.prems by blast
  then show ?case using r Cons.prems by (simp add: mock_digest_fold_append)
qed

lemma mock_run_digest:
  assumes "carries mi NCMP_CMD_DIGEST_INIT [u32le mech]" "ncmp_digest_size mech \<noteq> 0"
    and f: "mock_ctx_free (digest_ctx dev) 0 = Some i" and l: "length (digest_ctx dev) = 8"
    and "list_all2 (\<lambda>m d. carries m NCMP_CMD_DIGEST_UPDATE [u32le (of_nat i), d]) mus ds"
    and "carries mf NCMP_CMD_DIGEST_FINAL [u32le (of_nat i)]"
  shows "\<exists>dev' rs r. mock_run dev (mi # mus @ [mf]) = Some (dev', rs @ [r]) \<and>
    answer r = digest_of mech (concat ds) \<and> (\<forall>x \<in> set (rs @ [r]). ack (header x) = MOCK_CKR_OK) \<and>
    map dc_in_use (digest_ctx dev') = map dc_in_use (digest_ctx dev)"
proof -
  have i: "i < 8" "\<not> dc_in_use (digest_ctx dev ! i)" using mock_ctx_free_nth [OF f] l by simp_all
  let ?c = "\<lparr>dc_in_use = True, dc_mech = mech, dc_acc = xor mech MOCK_DIGEST_SEED\<rparr>"
  let ?d1 = "dev\<lparr>digest_ctx := (digest_ctx dev)[i := ?c]\<rparr>"
  let ?c2 = "?c\<lparr>dc_acc := mock_digest_fold (xor mech MOCK_DIGEST_SEED) (concat ds)\<rparr>"
  let ?d2 = "dev\<lparr>digest_ctx := (digest_ctx dev)[i := ?c2]\<rparr>"
  obtain r1 where r1: "mock_exec_command dev mi = Some (?d1, r1)" "ack (header r1) = MOCK_CKR_OK"
    using exec_digest_init [OF assms(1,2) f] by blast
  obtain rs where rs: "mock_run ?d1 mus = Some (?d2, rs)" "\<forall>r \<in> set rs. ack (header r) = MOCK_CKR_OK"
    using mock_run_updates [OF assms(5) i(1), of ?d1] i(1) l by auto
  obtain r where r: "mock_exec_command ?d2 mf = Some (?d2\<lparr>digest_ctx := (digest_ctx ?d2)[i := ?c2\<lparr>dc_in_use := False\<rparr>]\<rparr>, r)"
    "ack (header r) = MOCK_CKR_OK" "answer r = digest_of mech (concat ds)"
    using exec_digest_final [OF assms(6) i(1), of ?d2 ?c2] i(1) l by (auto simp: digest_of_def)
  have "map dc_in_use ((digest_ctx dev)[i := ?c2\<lparr>dc_in_use := False\<rparr>]) = map dc_in_use (digest_ctx dev)"
    using i l by (simp add: map_update list_update_same_conv)
  then show ?thesis using r1 rs r by (auto simp: mock_run_append)
qed

section \<open>Ciphers\<close>

definition stream_xor :: "(nat \<Rightarrow> byte) \<Rightarrow> byte list \<Rightarrow> byte list" where
  "stream_xor ks d = map (\<lambda>j. xor (d ! j) (ks j)) [0..<length d]"

lemma length_stream_xor [simp]: "length (stream_xor ks d) = length d"
  by (simp add: stream_xor_def)

lemma stream_xor_twice [simp]: "stream_xor ks (stream_xor ks d) = d"
  by (intro nth_equalityI) (simp_all add: stream_xor_def xor.assoc)

definition aes_key :: "byte list \<Rightarrow> bool" where
  "aes_key key \<longleftrightarrow> length key = 16 \<or> length key = 24 \<or> length key = 32"

lemma aes_key_len_of_nat: "aes_key key \<Longrightarrow> aes_key_len (of_nat (length key))"
  by (auto simp: aes_key_def aes_key_len_def)

definition cbc_stream :: "byte list \<Rightarrow> byte list \<Rightarrow> nat \<Rightarrow> byte" where
  "cbc_stream key iv i = xor (xor (key ! (i mod length key)) (iv ! (i mod 16))) (of_nat i)"

lemma of_nat_mod_16:
  assumes "n \<le> 40928" "n mod 16 = 0"
  shows "(of_nat n :: u32) mod 16 = 0"
proof -
  have "unat ((of_nat n :: u32) mod 16) = 0" using assms unat_small [of n] by (simp add: unat_mod)
  then show ?thesis by (simp only: unat_eq_0)
qed

lemma exec_cbc:
  assumes c: "carries msg NCMP_CMD_AES_CBC [fl, key, iv, d]"
    and l: "4 \<le> length fl" "aes_key key" "length iv = 16" "length d mod 16 = 0"
  shows "\<exists>r. mock_exec_command dev msg = Some (dev, r) \<and> ack (header r) = MOCK_CKR_OK \<and>
    answer r = stream_xor (cbc_stream key iv) d"
proof -
  obtain p where p: "payload msg = Some p" "length p = 40960" "ncmp_cmd_opcode (command_id (header msg)) = NCMP_CMD_AES_CBC"
    using c by (rule carriesE)
  note cp = carries_param [OF c p(1)]
  have lens: "snd (param_ptr msg 0) = of_nat (length fl)" "snd (param_ptr msg 1) = of_nat (length key)"
    "snd (param_ptr msg 2) = 16" "snd (param_ptr msg 3) = of_nat (length d)"
    using cp(1) [of 0] cp(1) [of 1] cp(1) [of 2] cp(1) [of 3] l(3) by simp_all
  have fl: "\<not> of_nat (length fl) < (4 :: u32)" using cp(3) [of 0] l(1) by (simp add: word_less_nat_alt)
  have d: "unat (of_nat (length d) :: u32) = length d" "length d \<le> 40928" using cp(3,4) [of 3] by simp_all
  have rd: "rd_bytes p (fst (param_ptr msg 1)) (of_nat (length key)) = Some key" "rd_bytes p (fst (param_ptr msg 2)) 16 = Some iv"
    using carries_rd [OF c p(1), of 1] carries_rd [OF c p(1), of 2] lens by simp_all
  have x: "mock_xor_loop ks (fst (param_ptr msg 3)) 0 (length d) p = Some (stream_xor ks d @ drop (length d) p)" for ks
    using carries_xor [OF c p(1), of 3 "length d" ks] by (simp add: stream_xor_def)
  show ?thesis
    using l aes_key_len_of_nat [OF l(2)] of_nat_mod_16 [OF d(2) l(4)] d(1)
    by (simp add: mock_exec_command_def p ncmp_opcodes same_dev_def mock_exec_aes_cbc_def case_prod_beta Let_def lens fl rd x
        NCMP_AES_BLOCK_def cbc_stream_def [abs_def] del: One_nat_def)
qed

definition gcm_acc :: "byte list \<Rightarrow> byte list \<Rightarrow> byte list \<Rightarrow> u32" where
  "gcm_acc key iv aad = mock_digest_fold (mock_digest_fold (mock_digest_fold MOCK_DIGEST_SEED key) iv) aad"

definition gcm_tag :: "byte list \<Rightarrow> byte list \<Rightarrow> byte list \<Rightarrow> byte list \<Rightarrow> nat \<Rightarrow> byte list" where
  "gcm_tag key iv aad ct n = mock_digest_finalize (mock_digest_fold (gcm_acc key iv aad) ct) 0 n"

lemma length_gcm_tag [simp]: "length (gcm_tag key iv aad ct n) = n"
  by (simp add: gcm_tag_def)

text \<open>The part of a GCM request both directions share.\<close>

lemma exec_gcm:
  assumes c: "carries msg NCMP_CMD_AES_GCM [u32le fl, key, iv, aad, u32le t, d]"
    and l: "aes_key key" "1 \<le> length iv" "length iv \<le> 16" "1 \<le> unat t" "unat t \<le> 16" and p: "payload msg = Some p"
  shows "mock_exec_command dev msg = same_dev dev
    (if and fl 1 \<noteq> 0 then mock_gcm_encrypt msg p key iv (gcm_acc key iv aad) (fst (param_ptr msg 5)) (of_nat (length d)) t
     else mock_gcm_decrypt msg p key iv (gcm_acc key iv aad) (fst (param_ptr msg 5)) (of_nat (length d)) t)"
proof -
  have opc: "ncmp_cmd_opcode (command_id (header msg)) = NCMP_CMD_AES_GCM" using c by (rule carriesE)
  note cp = carries_param [OF c p]
  have lens: "snd (param_ptr msg 0) = 4" "snd (param_ptr msg 1) = of_nat (length key)" "snd (param_ptr msg 2) = of_nat (length iv)"
    "snd (param_ptr msg 3) = of_nat (length aad)" "snd (param_ptr msg 4) = 4" "snd (param_ptr msg 5) = of_nat (length d)"
    using cp(1) [of 0] cp(1) [of 1] cp(1) [of 2] cp(1) [of 3] cp(1) [of 4] cp(1) [of 5] by simp_all
  have iv: "of_nat (length iv) \<noteq> (0 :: u32)" "\<not> (16 < (of_nat (length iv) :: u32))"
    using cp(3) [of 2] l(2,3) by (auto simp: word_less_nat_alt unat_eq_0 [symmetric] simp del: unat_eq_0)
  have t: "t \<noteq> 0" "\<not> 16 < t" using l(4,5) by (auto simp: word_less_nat_alt)
  have rd: "rd_bytes p (fst (param_ptr msg 1)) (of_nat (length key)) = Some key"
    "rd_bytes p (fst (param_ptr msg 2)) (of_nat (length iv)) = Some iv"
    "rd_bytes p (fst (param_ptr msg 3)) (of_nat (length aad)) = Some aad"
    using carries_rd [OF c p, of 1] carries_rd [OF c p, of 2] carries_rd [OF c p, of 3] lens by simp_all
  have fs: "ncmp_rd_u32le p (fst (param_ptr msg 0)) = Some fl" "ncmp_rd_u32le p (fst (param_ptr msg 4)) = Some t"
    using carries_rd_u32 [OF c p, of 0] carries_rd_u32 [OF c p, of 4] by simp_all
  show ?thesis
    using aes_key_len_of_nat [OF l(1)] iv t
    by (simp add: mock_exec_command_def p opc ncmp_opcodes mock_exec_aes_gcm_def case_prod_beta Let_def lens rd fs gcm_acc_def
        del: One_nat_def)
qed

lemma exec_gcm_encrypt:
  assumes c: "carries msg NCMP_CMD_AES_GCM [u32le fl, key, iv, aad, u32le t, d]"
    and l: "aes_key key" "1 \<le> length iv" "length iv \<le> 16" "1 \<le> unat t" "unat t \<le> 16"
    and e: "and fl 1 \<noteq> 0" and fit: "length d + unat t \<le> NCMP_MAX_PARAM_SIZE"
  shows "\<exists>r. mock_exec_command dev msg = Some (dev, r) \<and> ack (header r) = MOCK_CKR_OK \<and>
    answer r = stream_xor (gcm_stream key iv) d @ gcm_tag key iv aad (stream_xor (gcm_stream key iv) d) (unat t)"
proof -
  obtain p where p: "payload msg = Some p" "length p = 40960" using c by (rule carriesE)
  have d: "unat (of_nat (length d) :: u32) = length d" using carries_unat(1) [OF c p(1), of 5] by simp
  have o: "unat (of_nat (length d) + t) = length d + unat t"
    using fit d by (subst unat_add_lem [THEN iffD1]) (simp_all add: ncmp_limits)
  let ?ct = "stream_xor (gcm_stream key iv) d"
  have x: "mock_xor_loop (gcm_stream key iv) (fst (param_ptr msg 5)) 0 (length d) p = Some (?ct @ drop (length d) p)"
    using carries_xor [OF c p(1), of 5 "length d" "gcm_stream key iv"] by (simp add: stream_xor_def)
  have g: "get_bytes (?ct @ drop (length d) p) 0 (length d) = Some ?ct"
    using fit p(2) by (simp add: get_bytes_def ncmp_limits)
  have "put_bytes (?ct @ drop (length d) p) (length d) (gcm_tag key iv aad ?ct (unat t)) =
      Some (?ct @ gcm_tag key iv aad ?ct (unat t) @ drop (unat t) (drop (length d) p))"
    using put_bytes_append [of ?ct "length d" "gcm_tag key iv aad ?ct (unat t)" "drop (length d) p"] fit p(2)
    by (simp add: ncmp_limits)
  then show ?thesis
    using e fit d x g o
    by (simp add: exec_gcm [OF c l p(1)] mock_gcm_encrypt_def same_dev_def Let_def gcm_tag_def not_le [symmetric])
qed

lemma exec_gcm_decrypt:
  assumes c: "carries msg NCMP_CMD_AES_GCM [u32le fl, key, iv, aad, u32le t, ct @ tag]"
    and l: "aes_key key" "1 \<le> length iv" "length iv \<le> 16" "1 \<le> unat t" "unat t \<le> 16"
    and e: "and fl 1 = 0" and tag: "length tag = unat t"
  shows "\<exists>r. mock_exec_command dev msg = Some (dev, r) \<and>
    (if tag = gcm_tag key iv aad ct (unat t)
     then ack (header r) = MOCK_CKR_OK \<and> answer r = stream_xor (gcm_stream key iv) ct
     else ack (header r) = MOCK_CKR_ENCRYPTED_DATA_INVALID \<and> answer r = [])"
proof -
  obtain p where p: "payload msg = Some p" "length p = 40960" using c by (rule carriesE)
  note cp = carries_param [OF c p(1), of 5, simplified]
  let ?off = "poff [u32le fl, key, iv, aad, u32le t, ct @ tag] 5"
  have ll: "length ct + unat t \<le> 40928" using cp(4) tag by simp
  have u: "unat (of_nat (length ct) + of_nat (length tag) :: u32) = length ct + unat t" using cp(3) tag by simp
  have tg: "of_nat (length tag) = t" using tag by simp
  have ptr: "fst (param_ptr msg 5) = Some ?off" using cp(5) tag l(4) by auto
  have nl: "\<not> of_nat (length ct) + t < t" using u tg by (simp add: word_less_nat_alt)
  have uc: "unat (of_nat (length ct) :: u32) = length ct" using ll by (intro unat_small) simp
  have sub: "of_nat (length ct) + t - t = (of_nat (length ct) :: u32)" by simp
  have g: "get_bytes p ?off (length (ct @ tag)) = Some (ct @ tag)"
    using carries_get [OF c p(1), of 5 "length (ct @ tag)"] by simp
  then have whole: "take (length (ct @ tag)) (drop ?off p) = ct @ tag" "?off + length (ct @ tag) \<le> length p"
    by (auto simp: get_bytes_def split: if_splits)
  have g1: "get_bytes p ?off (length ct) = Some ct" using carries_get [OF c p(1), of 5 "length ct"] by simp
  have "take (length tag) (drop (?off + length ct) p) = tag"
    using arg_cong [OF whole(1), of "drop (length ct)"] by (simp add: drop_take add.commute)
  then have g2: "get_bytes p (?off + length ct) (unat t) = Some tag"
    using whole(2) tag by (simp add: get_bytes_def)
  have rc: "rd_bytes p (Some ?off) (of_nat (length ct)) = Some ct"
    using g1 uc unat_eq_0 [of "of_nat (length ct) :: u32"] by (auto simp: rd_bytes_def)
  have rt: "rd_bytes p (Some (?off + length ct)) t = Some tag" using g2 l(4) by (auto simp: rd_bytes_def)
  have x: "mock_xor_loop (gcm_stream key iv) (Some ?off) 0 (length ct) p =
      Some (stream_xor (gcm_stream key iv) ct @ drop (length ct) p)"
    using carries_xor [OF c p(1), of 5 "length ct" "gcm_stream key iv"] ptr
    by (simp add: stream_xor_def nth_append cong: map_cong)
  have pl: "param_len msg \<noteq> []" using c by (auto simp: carries_def)
  show ?thesis
    using e nl sub rc rt x uc pl
    by (simp add: exec_gcm [OF c l p(1)] mock_gcm_decrypt_def same_dev_def Let_def ptr tg gcm_tag_def [symmetric])
       (simp add: answer_def mock_error_def)
qed

section \<open>Every valid request is executed safely\<close>



definition reply_ok :: "ncmp_message \<Rightarrow> ncmp_message \<Rightarrow> bool" where
  "reply_ok msg r \<longleftrightarrow>
     session_id (header r) = session_id (header msg) \<and> sequence_id (header r) = sequence_id (header msg) \<and>
     command_id (header r) = command_id (header msg) \<and> length (param_len r) = 8 \<and> payload_cap r = 40960 \<and>
     (\<exists>p. payload r = Some p \<and> length p = 40960)"



definition safe_result :: "ncmp_message \<Rightarrow> ncmp_message option \<Rightarrow> bool" where
  "safe_result msg r \<longleftrightarrow> (\<exists>m. r = Some m \<and> reply_ok msg m)"

lemma safe_result_Some [simp]: "safe_result msg (Some m) = reply_ok msg m"
  by (simp add: safe_result_def)

text \<open>A request cut into its eight parameters.\<close>

definition request :: "ncmp_message \<Rightarrow> byte list \<Rightarrow> byte list list \<Rightarrow> bool" where
  "request msg p ps \<longleftrightarrow> length ps = 8 \<and> payload msg = Some p \<and> (\<exists>opc. carries msg opc ps)"

lemma requestD:
  assumes "request msg p ps"
  shows request_wf: "payload msg = Some p" "length p = 40960" "payload_cap msg = 40960" "length (param_len msg) = 8"
    and request_rd: "i < 8 \<Longrightarrow> rd_bytes p (fst (param_ptr msg i)) (snd (param_ptr msg i)) = Some (ps ! i)"
    and request_len: "i < 8 \<Longrightarrow> unat (snd (param_ptr msg i)) = length (ps ! i)" "i < 8 \<Longrightarrow> length (ps ! i) \<le> 40928"
    and request_u32: "i < 8 \<Longrightarrow> 4 \<le> snd (param_ptr msg i) \<Longrightarrow> \<exists>v. ncmp_rd_u32le p (fst (param_ptr msg i)) = Some v"
    and request_xor: "i < 8 \<Longrightarrow> n \<le> unat (snd (param_ptr msg i)) \<Longrightarrow>
      \<exists>q. mock_xor_loop ks (fst (param_ptr msg i)) 0 n p = Some q \<and> length q = 40960"
    and request_first: "\<exists>v. ncmp_rd_u32le p (Some 0) = Some v" "unat (param_len msg ! 0) \<le> 40928"
proof -
  from assms obtain opc where c: "carries msg opc ps" and l: "length ps = 8" and p: "payload msg = Some p"
    by (auto simp: request_def)
  show w: "payload msg = Some p" "length p = 40960" "payload_cap msg = 40960" "length (param_len msg) = 8"
    using c p l by (auto simp: carries_def)
  note cp = carries_param [OF c p]
  show "i < 8 \<Longrightarrow> rd_bytes p (fst (param_ptr msg i)) (snd (param_ptr msg i)) = Some (ps ! i)"
    using carries_rd [OF c p] l by simp
  show len: "i < 8 \<Longrightarrow> unat (snd (param_ptr msg i)) = length (ps ! i)" "i < 8 \<Longrightarrow> length (ps ! i) \<le> 40928" for i
    using cp(1,3,4) [of i] l by simp_all
  show "i < 8 \<Longrightarrow> 4 \<le> snd (param_ptr msg i) \<Longrightarrow> \<exists>v. ncmp_rd_u32le p (fst (param_ptr msg i)) = Some v"
    using carries_rd_u32 [OF c p, of i] l len(1) [of i] by (auto simp: word_le_nat_alt)
  show "\<exists>q. mock_xor_loop ks (fst (param_ptr msg i)) 0 n p = Some q \<and> length q = 40960"
    if "i < 8" "n \<le> unat (snd (param_ptr msg i))"
    using carries_xor [OF c p, of i n ks] that l len [of i] w(2) by simp
  show "\<exists>v. ncmp_rd_u32le p (Some 0) = Some v" using w(2) by (simp add: ncmp_rd_u32le_def get_u32le_in)
  show "unat (param_len msg ! 0) \<le> 40928" using cp(2,3,4) [of 0] l by simp
qed











definition safe_step :: "mock_device \<Rightarrow> ncmp_message \<Rightarrow> (mock_device \<times> ncmp_message) option \<Rightarrow> bool" where
  "safe_step dev msg r \<longleftrightarrow> (\<exists>dev' m. r = Some (dev', m) \<and> reply_ok msg m \<and> container dev' = container dev \<and>
     rr_cursor dev' = rr_cursor dev \<and> length (digest_ctx dev') = length (digest_ctx dev))"

lemma safe_step_Some [simp]: "safe_step dev msg (Some (dev', m)) \<longleftrightarrow> reply_ok msg m \<and> container dev' = container dev \<and>
     rr_cursor dev' = rr_cursor dev \<and> length (digest_ctx dev') = length (digest_ctx dev)"
  by (simp add: safe_step_def)






section \<open>The scheduler\<close>

























section \<open>Staging a frame\<close>


lemma mock_ingest_loop_free:
  assumes "i < length cs" "\<not> c_busy (cs ! i)" "c_used (cs ! i) = 0" "\<And>j. j < i \<Longrightarrow> c_busy (cs ! j)"
    and "length frame \<le> length (c_data (cs ! i))"
  shows "mock_ingest_loop cs frame = Some (True, cs[i := (cs ! i)\<lparr>c_data := frame @ drop (length frame) (c_data (cs ! i)),
    c_used := of_nat (length frame), c_busy := True\<rparr>])"
  using assms
proof (induction cs arbitrary: i)
  case (Cons c cs)
  show ?case
  proof (cases i)
    case 0
    then show ?thesis using Cons.prems put_bytes_0 [of frame "c_data c"] by simp
  next
    case (Suc j)
    then have "mock_ingest_loop cs frame = Some (True, cs[j := (cs ! j)\<lparr>c_data := frame @ drop (length frame) (c_data (cs ! j)),
        c_used := of_nat (length frame), c_busy := True\<rparr>])"
      using Cons.IH [of j] Cons.prems(4) [of "Suc _"] Cons.prems by fastforce
    then show ?thesis using Suc Cons.prems(4) [of 0] by simp
  qed
qed simp


section \<open>Through the ring\<close>





section \<open>Properties\<close>

text \<open>Requests for the witnesses.\<close>

definition token_msg :: "u32 \<Rightarrow> byte list list \<Rightarrow> ncmp_message" where
  "token_msg opc ps =
     \<lparr>header = zero_header\<lparr>command_id := opc\<rparr>,
      param_len = map (\<lambda>x. of_nat (length x)) ps @ replicate (8 - length ps) 0,
      payload = Some (concat ps @ replicate (40960 - length (concat ps)) 0), payload_cap = 40960\<rparr>"

lemma carries_token_msg:
  "length ps \<le> 8 \<Longrightarrow> length (concat ps) \<le> 40928 \<Longrightarrow> ncmp_cmd_opcode opc = opc \<Longrightarrow> carries (token_msg opc ps) opc ps"
  by (simp add: carries_def token_msg_def)

text \<open>
  Hashing in several commands gives what one command gives: after a \<open>DIGEST_INIT\<close> any
  sequence of \<open>DIGEST_UPDATE\<close> commands and the \<open>DIGEST_FINAL\<close> are all accepted, the last one
  returns the digest that the one-shot \<open>DIGEST\<close> command returns for the concatenated data,
  and the context is free again afterwards.
\<close>

lemma mock_digest_multipart:
  assumes "carries mi NCMP_CMD_DIGEST_INIT [u32le mech]" "ncmp_digest_size mech \<noteq> 0"
    and "mock_ctx_free (digest_ctx dev) 0 = Some i" "length (digest_ctx dev) = NCMP_MOCK_DIGEST_CTX_MAX"
    and "list_all2 (\<lambda>m d. carries m NCMP_CMD_DIGEST_UPDATE [u32le (of_nat i), d]) mus ds"
    and "carries mf NCMP_CMD_DIGEST_FINAL [u32le (of_nat i)]"
    and "carries m1 NCMP_CMD_DIGEST [u32le mech @ concat ds]"
  shows "\<exists>dev' rs r r1. mock_run dev (mi # mus @ [mf]) = Some (dev', rs @ [r]) \<and>
    mock_exec_command dev m1 = Some (dev, r1) \<and> answer r = answer r1 \<and>
    (\<forall>x \<in> set (r1 # rs @ [r]). ack (header x) = MOCK_CKR_OK) \<and>
    map dc_in_use (digest_ctx dev') = map dc_in_use (digest_ctx dev)"
proof -
  have l: "length (digest_ctx dev) = 8" using assms(4) by (simp add: NCMP_MOCK_DIGEST_CTX_MAX_def)
  obtain r1 where "mock_exec_command dev m1 = Some (dev, r1)" "ack (header r1) = MOCK_CKR_OK"
    "answer r1 = digest_of mech (concat ds)"
    using exec_digest [OF assms(7,2)] by blast
  then show ?thesis using mock_run_digest [OF assms(1-3) l assms(5,6)] by fastforce
qed

text \<open>
  Authenticated encryption round trip. What the token encrypts it decrypts again to the
  same bytes, although it works in place on overlapping buffers; and it refuses every message
  whose tag is not the one computed over key, initialisation vector, associated data and
  ciphertext.
\<close>

lemma mock_gcm_roundtrip:
  assumes par: "aes_key key" "1 \<le> length iv" "length iv \<le> 16" "1 \<le> unat t" "unat t \<le> 16"
    and enc: "carries me NCMP_CMD_AES_GCM [u32le fe, key, iv, aad, u32le t, d]" "and fe 1 \<noteq> 0"
    and fit: "length d + unat t \<le> NCMP_MAX_PARAM_SIZE"
  shows "\<exists>r. mock_exec_command dev me = Some (dev, r) \<and> ack (header r) = MOCK_CKR_OK \<and>
    length (answer r) = length d + unat t \<and>
    (\<forall>md fd. carries md NCMP_CMD_AES_GCM [u32le fd, key, iv, aad, u32le t, answer r] \<longrightarrow> and fd 1 = 0 \<longrightarrow>
      (\<exists>r'. mock_exec_command dev md = Some (dev, r') \<and> ack (header r') = MOCK_CKR_OK \<and> answer r' = d)) \<and>
    (\<forall>md fd tag. carries md NCMP_CMD_AES_GCM [u32le fd, key, iv, aad, u32le t, take (length d) (answer r) @ tag] \<longrightarrow>
      and fd 1 = 0 \<longrightarrow> length tag = unat t \<longrightarrow> tag \<noteq> drop (length d) (answer r) \<longrightarrow>
      (\<exists>r'. mock_exec_command dev md = Some (dev, r') \<and> ack (header r') = MOCK_CKR_ENCRYPTED_DATA_INVALID \<and> answer r' = []))"
proof -
  let ?ct = "stream_xor (gcm_stream key iv) d"
  let ?tag = "gcm_tag key iv aad ?ct (unat t)"
  obtain r where r: "mock_exec_command dev me = Some (dev, r)" "ack (header r) = MOCK_CKR_OK" "answer r = ?ct @ ?tag"
    using exec_gcm_encrypt [OF enc(1) par enc(2) fit] by blast
  have good: "\<exists>r'. mock_exec_command dev md = Some (dev, r') \<and> ack (header r') = MOCK_CKR_OK \<and> answer r' = d"
    if "carries md NCMP_CMD_AES_GCM [u32le fd, key, iv, aad, u32le t, ?ct @ ?tag]" "and fd 1 = 0" for md fd
    using exec_gcm_decrypt [OF that(1) par that(2)] by simp
  have bad: "\<exists>r'. mock_exec_command dev md = Some (dev, r') \<and> ack (header r') = MOCK_CKR_ENCRYPTED_DATA_INVALID \<and> answer r' = []"
    if "carries md NCMP_CMD_AES_GCM [u32le fd, key, iv, aad, u32le t, ?ct @ tag]" "and fd 1 = 0" "length tag = unat t" "tag \<noteq> ?tag"
    for md fd tag
    using exec_gcm_decrypt [OF that(1) par that(2,3)] that(4) by simp
  show ?thesis
    by (rule exI [of _ r]) (use r good bad in simp)
qed



text \<open>
  C33: A frame whose lengths wrap around in the decoder's 32-bit sum is staged and decoded, and
  executing it makes the token read almost 4 GB behind a buffer of 40 KB: undefined behaviour.
\<close>

definition hostile_frame :: "byte list" where
  "hostile_frame = concat (map u32le [56, 1, 2, 2, 0, 36, 0xFFFFFFFF, 5, 0, 0, 0, 0, 0, 0]) @ u32le 0x250"

lemma hostile_decode:
  assumes "length scratch = 40960" "used = 60"
  shows "\<exists>m. ncmp_wire_decode True (hostile_frame @ rest) used
        \<lparr>header = zero_header, param_len = replicate NCMP_MAX_PARAM_COUNT 0, payload = Some scratch,
         payload_cap = NCMP_MAX_PAYLOAD_SIZE\<rparr> = Some (NCMP_OK, m) \<and>
    command_id (header m) = 2 \<and> param_len m ! 0 = 0xFFFFFFFF \<and> payload m = Some (u32le 0x250 @ drop 4 scratch)"
proof -
  define ls :: "u32 list" where "ls = [0xFFFFFFFF, 5, 0, 0, 0, 0, 0, 0]"
  let ?hd = "u32le 56 @ u32le 1 @ u32le 2 @ u32le 2 @ u32le 0 @ u32le 36"
  have w: "hostile_frame @ rest = ?hd @ concat (map u32le ls) @ u32le 0x250 @ rest"
    by (simp add: hostile_frame_def ls_def)
  have ll: "length ls = 8" by (simp add: ls_def)
  have dh: "ncmp_wire_decode_header True (hostile_frame @ rest) 60 h =
      Some (NCMP_OK, \<lparr>session_id = 1, sequence_id = 2, command_id = 2, ack = 0, payload_len = 36\<rparr>)" for h
    by (simp add: ncmp_wire_decode_header_def w get_fixed ncmp_limits)
  have lens: "get_lens (hostile_frame @ rest) 24 8 = Some ls"
    using get_lens_append [of ?hd 24 ls "u32le 0x250 @ rest"] by (simp add: w ll)
  have sum: "sum_list ls = 4" by (simp add: ls_def)
  have gb: "get_bytes (hostile_frame @ rest) 56 4 = Some (u32le 0x250)"
    using get_bytes_append [of "?hd @ concat (map u32le ls)" 56 "u32le 0x250" 4 rest] by (simp add: w ll)
  show ?thesis
    unfolding assms(2)
    using assms(1) by (simp add: ncmp_wire_decode_def dh lens gb sum ncmp_limits put_bytes_0 Let_def) (simp add: ls_def)
qed

theorem mock_wrapped_length_overread:
  "\<exists>dev. mock_mover_ingest False mock_device_zero (Some hostile_frame) (length hostile_frame) = Some (NCMP_OK, dev) \<and>
     mock_mcu_step True dev (replicate NCMP_MAX_PAYLOAD_SIZE b) rsp cap = None"
proof -
  let ?scratch = "replicate 40960 b"
  let ?c = "\<lparr>c_data = hostile_frame @ drop 60 (replicate NCMP_DEV_CONTAINER_SIZE 0), c_used = 60, c_busy = True\<rparr>"
  let ?dev = "mock_device_zero\<lparr>container := (container mock_device_zero)[0 := ?c]\<rparr>"
  have len: "length hostile_frame = 60" by (simp add: hostile_frame_def)
  have c0: "container mock_device_zero ! 0 = \<lparr>c_data = replicate NCMP_DEV_CONTAINER_SIZE 0, c_used = 0, c_busy = False\<rparr>"
    "length (container mock_device_zero) = 4" by (simp_all add: mock_device_zero_def NCMP_DEV_CONTAINER_COUNT_def)
  have "mock_ingest_loop (container mock_device_zero) hostile_frame = Some (True, (container mock_device_zero)[0 := ?c])"
    using mock_ingest_loop_free [of 0 "container mock_device_zero" hostile_frame] c0 len by (simp add: NCMP_DEV_CONTAINER_SIZE_def)
  moreover have "take 4 hostile_frame = u32le 56" by (simp add: hostile_frame_def)
  ultimately have ing: "mock_mover_ingest False mock_device_zero (Some hostile_frame) 60 = Some (NCMP_OK, ?dev)"
    by (simp add: mock_mover_ingest_def get_bytes_def len host_u32_def ncmp_limits NCMP_DEV_CONTAINER_SIZE_def)
  obtain m where m: "ncmp_wire_decode True (c_data ?c) (unat (c_used ?c))
        \<lparr>header = zero_header, param_len = replicate NCMP_MAX_PARAM_COUNT 0, payload = Some ?scratch,
         payload_cap = NCMP_MAX_PAYLOAD_SIZE\<rparr> = Some (NCMP_OK, m)"
    "command_id (header m) = 2" "param_len m ! 0 = 0xFFFFFFFF" "payload m = Some (u32le 0x250 @ drop 4 ?scratch)"
    using hostile_decode [of ?scratch 60 "drop 60 (replicate NCMP_DEV_CONTAINER_SIZE 0)"] by auto
  have "get_u32le (u32le 0x250 @ drop 4 ?scratch) 0 = Some 0x250" using get_u32le_append [of "[]" 0 "0x250"] by simp
  then have "mock_exec_digest m (u32le 0x250 @ drop 4 ?scratch) = None"
    using m(3) by (simp add: mock_exec_digest_def ncmp_rd_u32le_def ncmp_digest_size_def rd_bytes_def get_bytes_def Let_def)
  then have "mock_mcu_run ?dev ?c ?scratch rsp cap = None"
    unfolding mock_mcu_run_def m(1) using m(2,4)
    by (simp add: mock_exec_command_def ncmp_cmd_opcode_def ncmp_opcodes same_dev_def)
  then have "mock_mcu_step True ?dev ?scratch rsp cap = None"
    using c0(2) by (simp add: mock_mcu_step_def mock_mcu_loop.simps [of _ 0] NCMP_DEV_CONTAINER_COUNT_def mock_device_zero_def Let_def)
  with ing show ?thesis unfolding len by (intro exI [of _ ?dev]) (simp add: NCMP_MAX_PAYLOAD_SIZE_def)
qed


end
