(* ===== verification/Ncmp_Client.thy ===== *)
theory Ncmp_Client
  imports Ncmp_Ring_Facts
begin

text \<open>
  The client library and the start of the daemon: the handshake of \<^verbatim>\<open>common/ncmp_ipc.c\<close> and
  \<^verbatim>\<open>daemon/conn_thread.c\<close>, the commands of \<^verbatim>\<open>stdll/ncmp_client.c\<close>, the error mapping of
  \<^verbatim>\<open>stdll/ncmp_ckr.c\<close>, the entry points of \<^verbatim>\<open>stdll/ncmp_specific.c\<close> and the start-up loop of
  \<^verbatim>\<open>daemon/main.c\<close>. A socket is an input/output state with the results of \<^verbatim>\<open>read\<close> and \<^verbatim>\<open>write\<close>
  as arguments; structures travel as the bytes of their fields in the byte order of the host.
\<close>

section \<open>Handshake messages\<close>

definition NCMP_IPC_SOCK_PATH :: string where "NCMP_IPC_SOCK_PATH = ''/run/ncmpd/ncmpd.sock''"
definition NCMP_IPC_VERSION :: u32 where "NCMP_IPC_VERSION = 1"
definition NCMP_IPC_HELLO :: u32 where "NCMP_IPC_HELLO = 1"
definition NCMP_IPC_ATTACH :: u32 where "NCMP_IPC_ATTACH = 2"
definition NCMP_IPC_ERROR :: u32 where "NCMP_IPC_ERROR = 0xFF"
definition NCMP_SHM_NAME :: "byte list" where
  "NCMP_SHM_NAME = [0x2F, 0x6E, 0x63, 0x6D, 0x70, 0x64, 0x5F, 0x73, 0x68, 0x6D]"

text \<open>The size of \<^verbatim>\<open>sun_path\<close> on Linux.\<close>

definition SUN_PATH_SIZE :: nat where "SUN_PATH_SIZE = 108"

record ncmp_ipc_msg =
  ipc_op :: u32
  ipc_version :: u32
  ipc_status :: u32
  ipc_slot_mask :: u32
  ipc_shm_name :: "byte list"

definition IPC_MSG_SIZE :: nat where "IPC_MSG_SIZE = 48"

definition host_bytes :: "bool \<Rightarrow> u32 \<Rightarrow> byte list" where
  "host_bytes big_endian v = (if big_endian then rev (u32le v) else u32le v)"

definition host_word :: "bool \<Rightarrow> byte list \<Rightarrow> u32" where
  "host_word big_endian bs = le_u32 (if big_endian then rev bs else bs)"

definition ipc_bytes :: "bool \<Rightarrow> ncmp_ipc_msg \<Rightarrow> byte list" where
  "ipc_bytes be m = host_bytes be (ipc_op m) @ host_bytes be (ipc_version m) @ host_bytes be (ipc_status m) @
     host_bytes be (ipc_slot_mask m) @ ipc_shm_name m"

definition ipc_of_bytes :: "bool \<Rightarrow> byte list \<Rightarrow> ncmp_ipc_msg" where
  "ipc_of_bytes be bs =
     \<lparr>ipc_op = host_word be (take 4 bs), ipc_version = host_word be (take 4 (drop 4 bs)),
      ipc_status = host_word be (take 4 (drop 8 bs)), ipc_slot_mask = host_word be (take 4 (drop 12 bs)),
      ipc_shm_name = take 32 (drop 16 bs)\<rparr>"

section \<open>Client side of the handshake\<close>

definition ncmp_ipc_addr :: "string option \<Rightarrow> ncmp_rc \<times> string" where
  "ncmp_ipc_addr path =
     (let path = (case path of None \<Rightarrow> NCMP_IPC_SOCK_PATH | Some p \<Rightarrow> p) in
      if length path \<ge> SUN_PATH_SIZE then (NCMP_ERR_INVAL, []) else (NCMP_OK, path))"






definition ncmp_ipc_listen :: "bool \<Rightarrow> string option \<Rightarrow> nat option \<Rightarrow> bool \<Rightarrow> bool \<Rightarrow> ncmp_rc \<times> nat option" where
  "ncmp_ipc_listen ptr path sock bind_ok listen_ok =
     (if \<not> ptr then (NCMP_ERR_INVAL, None)
      else if fst (ncmp_ipc_addr path) \<noteq> NCMP_OK then (fst (ncmp_ipc_addr path), None)
      else case sock of
          None \<Rightarrow> (NCMP_ERR_STATE, None)
        | Some fd \<Rightarrow> if \<not> bind_ok \<or> \<not> listen_ok then (NCMP_ERR_STATE, None) else (NCMP_OK, Some fd))"

section \<open>Daemon side\<close>

definition ncmpd_online_mask :: "ncmp_shm \<Rightarrow> u32" where
  "ncmpd_online_mask h =
     fold (\<lambda>s mask. if slot_state (slots h ! s) = NCMP_SLOT_ONLINE then or mask (push_bit s 1) else mask) [0..<slot_count h] 0"

text \<open>
  One accepted client: \<open>inp\<close> is what the single \<^verbatim>\<open>read\<close> returned; the reply, if there is one.
  The codes of \<^verbatim>\<open>ncmp_errno.h\<close> are negative numbers, stored modulo 2^32.
\<close>

definition ncmpd_conn_serve_one :: "bool \<Rightarrow> ncmp_shm \<Rightarrow> byte list \<Rightarrow> byte list option" where
  "ncmpd_conn_serve_one be h inp =
     (if length inp \<noteq> IPC_MSG_SIZE then None
      else
        let m = ipc_of_bytes be inp in
        Some (ipc_bytes be
          (if ipc_op m = NCMP_IPC_HELLO \<and> ipc_version m = NCMP_IPC_VERSION
           then \<lparr>ipc_op = NCMP_IPC_ATTACH, ipc_version = NCMP_IPC_VERSION, ipc_status = of_int (ncmp_errno NCMP_OK),
                 ipc_slot_mask = ncmpd_online_mask h,
                 ipc_shm_name = NCMP_SHM_NAME @ replicate (32 - length NCMP_SHM_NAME) 0\<rparr>
           else \<lparr>ipc_op = NCMP_IPC_ERROR, ipc_version = NCMP_IPC_VERSION, ipc_status = of_int (ncmp_errno NCMP_ERR_VERSION),
                 ipc_slot_mask = 0, ipc_shm_name = replicate 32 0\<rparr>)))"

text \<open>
  The accept loop: an event is a time-out or failed accept (\<^term>\<open>None\<close>) or a client with what it
  sent and the state of the region at that moment; the stop flag is seen after the last one.
  The replies are listed in order.
\<close>

fun ncmpd_conn_thread :: "bool \<Rightarrow> ncmp_rc \<Rightarrow> (ncmp_shm \<times> byte list) option list \<Rightarrow> byte list option list" where
  "ncmpd_conn_thread be listen_rc [] = []"
| "ncmpd_conn_thread be listen_rc (ev # evs) =
     (if listen_rc \<noteq> NCMP_OK then []
      else case ev of
          None \<Rightarrow> ncmpd_conn_thread be listen_rc evs
        | Some (h, inp) \<Rightarrow> ncmpd_conn_serve_one be h inp # ncmpd_conn_thread be listen_rc evs)"

text \<open>
  The start-up loop of \<^verbatim>\<open>main\<close>: \<open>opened s\<close> and \<open>created s\<close> say whether the transport of slot \<open>s\<close>
  could be opened and its thread created. The result is the region and the mask of started slots.
\<close>

fun ncmpd_start_loop :: "u32 \<Rightarrow> (nat \<Rightarrow> bool) \<Rightarrow> (nat \<Rightarrow> bool) \<Rightarrow> nat list \<Rightarrow> ncmp_shm \<Rightarrow> u32 \<Rightarrow> (ncmp_shm \<times> u32) option" where
  "ncmpd_start_loop smask opened created [] h started = Some (h, started)"
| "ncmpd_start_loop smask opened created (s # ss) h started =
     (if and smask (push_bit s 1) = 0 then ncmpd_start_loop smask opened created ss h started
      else if \<not> opened s then ncmpd_start_loop smask opened created ss h started
      else if \<not> created s then ncmpd_start_loop smask opened created ss h started
      else do {
        slot \<leftarrow> ncmp_shm_slot (Some h) s;
        ncmpd_start_loop smask opened created ss (h\<lparr>slots := (slots h)[s := slot\<lparr>slot_state := NCMP_SLOT_ONLINE\<rparr>]\<rparr>)
          (or started (push_bit s 1))
      })"

definition ncmpd_start :: "bool \<Rightarrow> ncmp_rc \<times> bool \<times> ncmp_shm option \<Rightarrow> ncmp_rc \<times> u32 \<Rightarrow> (nat \<Rightarrow> bool) \<Rightarrow> (nat \<Rightarrow> bool)
    \<Rightarrow> (int + ncmp_shm \<times> u32) option" where
  "ncmpd_start signals_ok shm probe opened created =
     (if \<not> signals_ok then Some (Inl 1)
      else if fst shm \<noteq> NCMP_OK then Some (Inl 1)
      else do {
        h \<leftarrow> snd (snd shm);
        r \<leftarrow> ncmpd_start_loop (if fst probe \<noteq> NCMP_OK then 0 else snd probe) opened created [0..<PKCS11_MAX_SLOT_COUNT] h 0;
        Some (Inr r)
      })"

text \<open>The shut-down: conn thread first, then the started slots in order.\<close>

definition ncmpd_stop_order :: "u32 \<Rightarrow> nat list" where
  "ncmpd_stop_order started = filter (\<lambda>s. and started (push_bit s 1) \<noteq> 0) [0..<PKCS11_MAX_SLOT_COUNT]"

section \<open>The client\<close>

record ncmp_client =
  ipc_fd :: "nat option"
  shm_base :: bool
  slot_mask :: u32
  cl_seq :: u32

definition NCMP_CLIENT_SPIN_BUDGET :: nat where "NCMP_CLIENT_SPIN_BUDGET = 200000000"

definition client_zero :: ncmp_client where
  "client_zero = \<lparr>ipc_fd = None, shm_base = False, slot_mask = 0, cl_seq = 0\<rparr>"

text \<open>\<open>conn\<close> is what connecting gives, \<open>att\<close> what attaching the region gives.\<close>

definition ncmp_client_init :: "bool \<Rightarrow> ncmp_rc \<times> (nat \<times> u32) option \<Rightarrow> ncmp_rc \<Rightarrow> ncmp_client \<Rightarrow> ncmp_rc \<times> ncmp_client" where
  "ncmp_client_init ptr conn att c =
     (if \<not> ptr then (NCMP_ERR_INVAL, c)
      else
        let c = client_zero in
        case conn of
          (rc, r) \<Rightarrow>
            if rc \<noteq> NCMP_OK then (rc, c)
            else
              let c = c\<lparr>ipc_fd := map_option fst r, slot_mask := (case r of None \<Rightarrow> 0 | Some (_, m) \<Rightarrow> m)\<rparr> in
              if att \<noteq> NCMP_OK then (att, c\<lparr>ipc_fd := None\<rparr>) else (NCMP_OK, c\<lparr>shm_base := True\<rparr>))"

definition ncmp_client_exec :: "(nat \<Rightarrow> ncmp_slot \<Rightarrow> ncmp_slot) \<Rightarrow> bool \<Rightarrow> ncmp_client \<Rightarrow> ncmp_shm \<Rightarrow> u32 \<Rightarrow> ncmp_message
    \<Rightarrow> ncmp_message \<Rightarrow> nat \<Rightarrow> (ncmp_rc \<times> ncmp_shm \<times> ncmp_message) option" where
  "ncmp_client_exec env ptrs c h sid req rsp spin_budget =
     (if \<not> ptrs \<or> \<not> shm_base c then Some (NCMP_ERR_INVAL, h, rsp)
      else if unat sid \<ge> PKCS11_MAX_SLOT_COUNT then Some (NCMP_ERR_INVAL, h, rsp)
      else if and (slot_mask c) (push_bit (unat sid) 1) = 0 then Some (NCMP_ERR_NODAEMON, h, rsp)
      else case ncmp_shm_slot (Some h) (unat sid) of
          None \<Rightarrow> Some (NCMP_ERR_INVAL, h, rsp)
        | Some slot \<Rightarrow> do {
            (rc, slot, idx) \<leftarrow> ncmp_slot_enqueue True slot (session_id (header req)) (sequence_id (header req)) req;
            let h = h\<lparr>slots := (slots h)[unat sid := slot]\<rparr>;
            if rc \<noteq> NCMP_OK then Some (rc, h, rsp)
            else do {
              (rc, slot, rsp) \<leftarrow> ncmp_slot_wait env True slot (case idx of None \<Rightarrow> - 1 | Some i \<Rightarrow> int i) rsp spin_budget;
              Some (rc, h\<lparr>slots := (slots h)[unat sid := slot]\<rparr>, rsp)
            }
          })"

text \<open>The request of a command with one parameter.\<close>

definition client_request :: "u32 \<Rightarrow> u32 \<Rightarrow> byte list option \<Rightarrow> u32 \<Rightarrow> ncmp_message" where
  "client_request seq opcode inp in_len =
     \<lparr>header = zero_header\<lparr>session_id := 0, sequence_id := seq, command_id := opcode\<rparr>,
      param_len = in_len # replicate (NCMP_MAX_PARAM_COUNT - 1) 0, payload = inp, payload_cap = unat in_len\<rparr>"

text \<open>
  A command with one parameter. \<open>inp\<close> and \<open>out\<close> are the buffers, \<^term>\<open>None\<close> for NULL. Beside the
  code the result has the client, the region, the response buffer and, on success, the
  response's first length and acknowledgement.
\<close>

definition ncmp_client_command :: "(nat \<Rightarrow> ncmp_slot \<Rightarrow> ncmp_slot) \<Rightarrow> bool \<Rightarrow> ncmp_client \<Rightarrow> ncmp_shm \<Rightarrow> u32 \<Rightarrow> u32
    \<Rightarrow> byte list option \<Rightarrow> u32 \<Rightarrow> byte list option \<Rightarrow> u32
    \<Rightarrow> (ncmp_rc \<times> ncmp_client \<times> ncmp_shm \<times> byte list option \<times> (u32 \<times> u32) option) option" where
  "ncmp_client_command env ptr c h sid opcode inp in_len out out_cap =
     (if \<not> ptr \<or> (in_len \<noteq> 0 \<and> inp = None) \<or> (out_cap \<noteq> 0 \<and> out = None) then Some (NCMP_ERR_INVAL, c, h, out, None)
      else if unat in_len > NCMP_MAX_PARAM_SIZE then Some (NCMP_ERR_PARAM_SIZE, c, h, out, None)
      else do {
        let c = c\<lparr>cl_seq := cl_seq c + 1\<rparr>;
        let req = client_request (cl_seq c) opcode inp in_len;
        let rsp = \<lparr>header = zero_header, param_len = replicate NCMP_MAX_PARAM_COUNT 0, payload = out, payload_cap = unat out_cap\<rparr>;
        (rc, h, rsp) \<leftarrow> ncmp_client_exec env True c h sid req rsp NCMP_CLIENT_SPIN_BUDGET;
        if rc \<noteq> NCMP_OK then Some (rc, c, h, payload rsp, None)
        else Some (NCMP_OK, c, h, payload rsp, Some (param_len rsp ! 0, ack (header rsp)))
      })"

text \<open>
  A command with several parameters, packed into a buffer of their total size; \<open>alloc_ok\<close> says
  whether it could be allocated.
\<close>

definition ncmp_client_command_mp :: "(nat \<Rightarrow> ncmp_slot \<Rightarrow> ncmp_slot) \<Rightarrow> bool \<Rightarrow> ncmp_client \<Rightarrow> ncmp_shm \<Rightarrow> u32 \<Rightarrow> u32
    \<Rightarrow> byte list option list \<Rightarrow> u32 list \<Rightarrow> int \<Rightarrow> byte list option \<Rightarrow> u32 \<Rightarrow> bool \<Rightarrow> ncmp_message
    \<Rightarrow> (ncmp_rc \<times> ncmp_client \<times> ncmp_shm \<times> ncmp_message) option" where
  "ncmp_client_command_mp env ptrs c h sid opcode inp in_len n_in out out_cap alloc_ok out_msg =
     (if \<not> ptrs \<or> n_in < 1 \<or> n_in > int NCMP_MAX_PARAM_COUNT then Some (NCMP_ERR_INVAL, c, h, out_msg)
      else if length in_len < nat n_in then None
      else
        let tot = sum_list (map unat (take (nat n_in) in_len));
            cap = (if tot = 0 then 1 else tot) in
        if \<not> alloc_ok then Some (NCMP_ERR_NOSPACE, c, h, out_msg)
        else do {
          (rc, req, _) \<leftarrow> ncmp_msg_pack True
             \<lparr>header = zero_header, param_len = replicate NCMP_MAX_PARAM_COUNT 0, payload = None, payload_cap = 0\<rparr>
             (replicate cap 0) cap inp in_len n_in;
          if rc \<noteq> NCMP_OK then Some (rc, c, h, out_msg)
          else do {
            let c = c\<lparr>cl_seq := cl_seq c + 1\<rparr>;
            let req = req\<lparr>header := (header req)\<lparr>session_id := 0, sequence_id := cl_seq c, command_id := opcode\<rparr>\<rparr>;
            let rsp = \<lparr>header = zero_header, param_len = replicate NCMP_MAX_PARAM_COUNT 0, payload = out, payload_cap = unat out_cap\<rparr>;
            (rc, h, rsp) \<leftarrow> ncmp_client_exec env True c h sid req rsp NCMP_CLIENT_SPIN_BUDGET;
            Some (rc, c, h, rsp)
          }
        })"

definition ncmp_client_fini :: "bool \<Rightarrow> ncmp_client \<Rightarrow> ncmp_rc \<times> ncmp_client" where
  "ncmp_client_fini ptr c =
     (if \<not> ptr then (NCMP_ERR_INVAL, c) else (NCMP_OK, c\<lparr>shm_base := False, ipc_fd := None\<rparr>))"

section \<open>Error codes and entry points\<close>


definition ncmp_token_specific_init :: "nat \<Rightarrow> ncmp_rc" where
  "ncmp_token_specific_init sid = NCMP_ERR_NODAEMON"

definition ncmp_token_specific_final :: "nat \<Rightarrow> ncmp_rc" where
  "ncmp_token_specific_final sid = NCMP_OK"

section \<open>Structures as bytes\<close>

lemma host_word_bytes [simp]: "host_word be (host_bytes be v) = v"
  by (simp add: host_word_def host_bytes_def)

lemma length_host_bytes [simp]: "length (host_bytes be v) = 4"
  by (simp add: host_bytes_def)


section \<open>Reading and writing completely\<close>






section \<open>Masks\<close>

lemma fold_or_bits_if:
  "bit (fold (\<lambda>s mask. if P s then or mask (push_bit s 1) else mask) [0..<n] (0 :: u32)) k \<longleftrightarrow> k < n \<and> k < 32 \<and> P k"
  by (induction n) (auto simp: bit_simps less_Suc_eq)

lemma ncmpd_online_mask_bit:
  "bit (ncmpd_online_mask h) s \<longleftrightarrow> s < slot_count h \<and> s < 32 \<and> slot_state (slots h ! s) = NCMP_SLOT_ONLINE"
  by (simp add: ncmpd_online_mask_def fold_or_bits_if [simplified])

lemma and_push_bit_1: "and (m :: u32) (push_bit s 1) = 0 \<longleftrightarrow> \<not> bit m s"
  by (simp add: and_exp_eq_0_iff_not_bit)

text \<open>The start-up loop marks exactly the slots that are present, opened and served.\<close>

lemma ncmpd_start_loop_spec:
  assumes "slot_count h = n" "length (slots h) = n" "set ss \<subseteq> {0..<n}" "distinct ss"
  shows "\<exists>h'. ncmpd_start_loop m opened created ss h st = Some (h', fold (\<lambda>s a. if bit m s \<and> opened s \<and> created s then or a (push_bit s 1) else a) ss st) \<and>
    slot_count h' = n \<and> length (slots h') = n \<and>
    (\<forall>s < n. slots h' ! s = (if s \<in> set ss \<and> bit m s \<and> opened s \<and> created s then (slots h ! s)\<lparr>slot_state := NCMP_SLOT_ONLINE\<rparr> else slots h ! s))"
  using assms
proof (induction ss arbitrary: h st)
  case (Cons s ss)
  show ?case
  proof (cases "bit m s \<and> opened s \<and> created s")
    case False
    obtain h' where h': "ncmpd_start_loop m opened created ss h st = Some (h', fold (\<lambda>s a. if bit m s \<and> opened s \<and> created s then or a (push_bit s 1) else a) ss st)"
      "slot_count h' = n" "length (slots h') = n" "\<forall>s < n. slots h' ! s = (if s \<in> set ss \<and> bit m s \<and> opened s \<and> created s then (slots h ! s)\<lparr>slot_state := NCMP_SLOT_ONLINE\<rparr> else slots h ! s)"
      using Cons.IH [of h st] Cons.prems by auto
    have "ncmpd_start_loop m opened created (s # ss) h st = ncmpd_start_loop m opened created ss h st"
      using False unfolding ncmpd_start_loop.simps and_push_bit_1 by simp
    then show ?thesis using h' False by auto
  next
    case True
    let ?h = "h\<lparr>slots := (slots h)[s := (slots h ! s)\<lparr>slot_state := NCMP_SLOT_ONLINE\<rparr>]\<rparr>"
    have s: "s < n" "s \<notin> set ss" using Cons.prems by auto
    obtain h' where h': "ncmpd_start_loop m opened created ss ?h (or st (push_bit s 1)) =
        Some (h', fold (\<lambda>s a. if bit m s \<and> opened s \<and> created s then or a (push_bit s 1) else a) ss (or st (push_bit s 1)))"
      "slot_count h' = n" "length (slots h') = n" "\<forall>t < n. slots h' ! t = (if t \<in> set ss \<and> bit m t \<and> opened t \<and> created t then (slots ?h ! t)\<lparr>slot_state := NCMP_SLOT_ONLINE\<rparr> else slots ?h ! t)"
      using Cons.IH [of ?h "or st (push_bit s 1)"] Cons.prems by auto
    have "ncmpd_start_loop m opened created (s # ss) h st = ncmpd_start_loop m opened created ss ?h (or st (push_bit s 1))"
      using True s(1) Cons.prems(1) unfolding ncmpd_start_loop.simps and_push_bit_1 by (simp add: ncmp_shm_slot_def)
    moreover have "slots ?h ! t = (if t = s then (slots h ! s)\<lparr>slot_state := NCMP_SLOT_ONLINE\<rparr> else slots h ! t)" if "t < n" for t
      using that Cons.prems(2) by simp
    ultimately show ?thesis using h' True s by auto
  qed
qed simp

section \<open>Matching responses\<close>


lemma client_request_ids [simp]:
  "session_id (header (client_request seq opc inp n)) = 0" "sequence_id (header (client_request seq opc inp n)) = seq"
  by (simp_all add: client_request_def)


section \<open>Properties\<close>







text \<open>
  The start of the daemon: with a created region every start ends, the slots brought online
  are exactly those that were probed, whose transport opened and whose thread was created, and
  the mask handed to clients is the mask of the started slots.
\<close>

lemma ncmpd_start_online:
  assumes "ncmp_shm_create hs True True True True True (\<lambda>_. True) = (rc, named, shm)"
  shows "\<exists>h started. ncmpd_start True (rc, named, shm) (NCMP_OK, pm) opened created = Some (Inr (h, started)) \<and>
    ncmpd_online_mask h = started \<and>
    (\<forall>s < PKCS11_MAX_SLOT_COUNT. bit started s \<longleftrightarrow> bit pm s \<and> opened s \<and> created s)"
proof -
  obtain h0 where h0: "rc = NCMP_OK" "shm = Some h0" "slot_count h0 = 4" "length (slots h0) = 4"
    and ab: "\<And>s. s < 4 \<Longrightarrow> slot_state (slots h0 ! s) = NCMP_SLOT_ABSENT"
    using assms by (fastforce simp: ncmp_shm_create_def list_all_iff PKCS11_MAX_SLOT_COUNT_def init_slot_def Let_def)
  let ?P = "\<lambda>s. bit pm s \<and> opened s \<and> created s"
  let ?st = "fold (\<lambda>s a. if ?P s then or a (push_bit s 1) else a) [0..<4] (0 :: u32)"
  obtain h where h: "ncmpd_start_loop pm opened created [0..<4] h0 0 = Some (h, ?st)" "slot_count h = 4"
    "\<forall>s < 4. slots h ! s = (if ?P s then (slots h0 ! s)\<lparr>slot_state := NCMP_SLOT_ONLINE\<rparr> else slots h0 ! s)"
    using ncmpd_start_loop_spec [OF h0(3,4), of "[0..<4]" pm opened created 0] by auto
  have b: "bit ?st s \<longleftrightarrow> s < 4 \<and> s < 32 \<and> ?P s" for s by (rule fold_or_bits_if)
  have "ncmpd_online_mask h = ?st"
    by (rule bit_word_eqI) (use h(2,3) ab in \<open>auto simp: ncmpd_online_mask_bit b split: if_splits\<close>)
  then show ?thesis
    using h(1) h0 b by (auto simp: ncmpd_start_def PKCS11_MAX_SLOT_COUNT_def)
qed







end
