(* ===== verification/Ber.thy ===== *)
theory Ber
  imports Ock_Prelude
begin

text \<open>
  The BER primitives of \<^verbatim>\<open>usr/lib/common/asn1.c\<close>: encoders and decoders of INTEGER, OCTET STRING,
  BIT STRING, SEQUENCE and CHOICE. A pointer is the memory from its target to the end of the
  allocation, \<^term>\<open>None\<close> for NULL, so \<open>p + k\<close> is \<^term>\<open>drop k\<close> and a read past the allocation is
  undefined. \<open>mem\<close> is \<^verbatim>\<open>malloc\<close>: the contents of the fresh block of the requested size, or NULL.
  Lengths are \<^typ>\<open>nat\<close>: every addition of the code follows a check that bounds its operands
  by \<open>2\<^sup>2\<^sup>4\<close>, so that none of them wraps at the width of \<^verbatim>\<open>CK_ULONG\<close>.

  The code repeats the four forms of the length field (short form, one, two and three length
  octets) in each function; here they are written once.
\<close>

section \<open>Encoders\<close>

type_synonym malloc = "nat \<Rightarrow> byte list option"
type_synonym ptr = "byte list option"

text \<open>The size \<^verbatim>\<open>len\<close> of a field with \<open>n\<close> content bytes, and the identifier and length octets.\<close>

definition ber_field_len :: "nat \<Rightarrow> nat" where
  "ber_field_len n =
     (if n < 128 then 1 + 1 + n
      else if n < 256 then 1 + (1 + 1) + n
      else if n < 2 ^ 16 then 1 + (1 + 2) + n
      else 1 + (1 + 3) + n)"

definition ber_header :: "byte \<Rightarrow> nat \<Rightarrow> byte list" where
  "ber_header tag n =
     (if n < 128 then [tag, of_nat n]
      else if n < 256 then [tag, 0x81, of_nat n]
      else if n < 2 ^ 16 then [tag, 0x82, of_nat (drop_bit 8 n), of_nat n]
      else [tag, 0x83, of_nat (drop_bit 16 n), of_nat (drop_bit 8 n), of_nat n])"

text \<open>
  The common rest of an encoder: report the length, or allocate the field and fill it with
  the header, the bytes \<open>pre\<close> and the copied \<open>src\<close>.
\<close>

definition ber_emit :: "bool \<Rightarrow> malloc \<Rightarrow> byte \<Rightarrow> nat \<Rightarrow> byte list \<Rightarrow> byte list option \<Rightarrow> (nat \<times> ptr) ck" where
  "ber_emit length_only mem tag n pre src =
     (if length_only then ck_ok (ber_field_len n, None)
      else case mem (ber_field_len n) of
        None \<Rightarrow> ck_fail CKR_HOST_MEMORY
      | Some buf \<Rightarrow> do {
          buf \<leftarrow> put_bytes buf 0 (ber_header tag n @ pre);
          bs \<leftarrow> src;
          buf \<leftarrow> put_bytes buf (length (ber_header tag n @ pre)) bs;
          ck_ok (ber_field_len n, Some buf) })"

text \<open>\<^verbatim>\<open>if (data && data_len) memcpy(...)\<close>, and \<^verbatim>\<open>memcpy\<close> without the test.\<close>

definition copy_guarded :: "ptr \<Rightarrow> nat \<Rightarrow> byte list option" where
  "copy_guarded data n = (case data of None \<Rightarrow> Some [] | Some d \<Rightarrow> if n = 0 then Some [] else get_bytes d 0 n)"

definition copy_plain :: "ptr \<Rightarrow> nat \<Rightarrow> byte list option" where
  "copy_plain data n = (case data of None \<Rightarrow> if n = 0 then Some [] else None | Some d \<Rightarrow> get_bytes d 0 n)"

definition ber_int_padding :: "bool \<Rightarrow> ptr \<Rightarrow> nat \<Rightarrow> nat option" where
  "ber_int_padding length_only data data_len =
     (if data_len = 0 then Some 0
      else case data of
        None \<Rightarrow> Some (if length_only then 1 else 0)
      | Some d \<Rightarrow> do { b \<leftarrow> peek d 0; Some (if and b 0x80 \<noteq> 0 then 1 else 0) })"

definition ber_encode_INTEGER :: "bool \<Rightarrow> malloc \<Rightarrow> ptr \<Rightarrow> nat \<Rightarrow> (nat \<times> ptr) ck" where
  "ber_encode_INTEGER length_only mem data data_len = do {
     padding \<leftarrow> ber_int_padding length_only data data_len;
     if data_len > 2 ^ 24 - 1 - padding then ck_fail CKR_FUNCTION_FAILED
     else ber_emit length_only mem 0x02 (data_len + padding) (replicate padding 0x00) (copy_guarded data data_len) }"

definition ber_encode_OCTET_STRING :: "bool \<Rightarrow> malloc \<Rightarrow> ptr \<Rightarrow> nat \<Rightarrow> (nat \<times> ptr) ck" where
  "ber_encode_OCTET_STRING length_only mem data data_len =
     (if data_len < 2 ^ 24 then ber_emit length_only mem 0x04 data_len [] (copy_plain data data_len)
      else ck_fail CKR_FUNCTION_FAILED)"

definition ber_encode_BIT_STRING :: "bool \<Rightarrow> malloc \<Rightarrow> ptr \<Rightarrow> nat \<Rightarrow> byte \<Rightarrow> (nat \<times> ptr) ck" where
  "ber_encode_BIT_STRING length_only mem data data_len unused_bits =
     (if data_len \<ge> 2 ^ 24 - 1 then ck_fail CKR_FUNCTION_FAILED
      else ber_emit length_only mem 0x03 (data_len + 1) [unused_bits] (copy_guarded data data_len))"

definition ber_encode_SEQUENCE :: "bool \<Rightarrow> malloc \<Rightarrow> ptr \<Rightarrow> nat \<Rightarrow> (nat \<times> ptr) ck" where
  "ber_encode_SEQUENCE length_only mem data data_len =
     (if data_len < 2 ^ 24 then ber_emit length_only mem 0x30 data_len [] (copy_plain data data_len)
      else ck_fail CKR_FUNCTION_FAILED)"

definition choice_class :: "bool \<Rightarrow> byte" where
  "choice_class constructed = or 0x80 (if constructed then 0x20 else 0x00)"

definition ber_encode_CHOICE :: "bool \<Rightarrow> malloc \<Rightarrow> byte \<Rightarrow> ptr \<Rightarrow> nat \<Rightarrow> bool \<Rightarrow> (nat \<times> ptr) ck" where
  "ber_encode_CHOICE length_only mem opt data data_len constructed =
     (if data_len < 2 ^ 24
      then ber_emit length_only mem (or (choice_class constructed) opt) data_len [] (copy_plain data data_len)
      else ck_fail CKR_FUNCTION_FAILED)"

section \<open>Decoders\<close>

text \<open>
  The length field of a field whose identifier octet has been accepted: the size of the header
  and of the content, after the code's checks that both lie inside the \<open>n\<close> bytes given.
\<close>

definition ber_len_checked :: "nat \<Rightarrow> nat \<Rightarrow> nat \<Rightarrow> (nat \<times> nat) ck" where
  "ber_len_checked n hdr len = (if hdr + len > n then ck_fail CKR_FUNCTION_FAILED else ck_ok (hdr, len))"

definition ber_decode_len :: "byte list \<Rightarrow> nat \<Rightarrow> (nat \<times> nat) ck" where
  "ber_decode_len m n = do {
     b1 \<leftarrow> peek m 1;
     if and b1 0x80 = 0 then ber_len_checked n 2 (unat (and b1 0x7F))
     else let length_octets = unat (and b1 0x7F) in
       if 1 + 1 + length_octets > n then ck_fail CKR_FUNCTION_FAILED
       else if length_octets = 1 then do {
         b2 \<leftarrow> peek m 2;
         ber_len_checked n 3 (unat b2) }
       else if length_octets = 2 then do {
         b2 \<leftarrow> peek m 2; b3 \<leftarrow> peek m 3;
         ber_len_checked n 4 (or (push_bit 8 (unat b2)) (unat b3)) }
       else if length_octets = 3 then do {
         b2 \<leftarrow> peek m 2; b3 \<leftarrow> peek m 3; b4 \<leftarrow> peek m 4;
         ber_len_checked n 5 (or (push_bit 8 (or (push_bit 8 (unat b2)) (unat b3))) (unat b4)) }
       else ck_fail CKR_FUNCTION_FAILED }"

text \<open>The frame of a decoder: NULL and minimum size, identifier test, length field.\<close>

definition ber_open :: "(byte \<Rightarrow> bool) \<Rightarrow> ptr \<Rightarrow> nat \<Rightarrow> (byte list \<times> nat \<times> nat) ck" where
  "ber_open tag_ok p n =
     (case p of
        None \<Rightarrow> ck_fail CKR_FUNCTION_FAILED
      | Some m \<Rightarrow>
          if n < 2 then ck_fail CKR_FUNCTION_FAILED
          else do {
            b0 \<leftarrow> peek m 0;
            if \<not> tag_ok b0 then ck_fail CKR_FUNCTION_FAILED
            else ck_bind (ber_decode_len m n) (\<lambda>(hdr, len). ck_ok (drop hdr m, len, hdr + len)) })"

text \<open>Each decoder yields the data pointer, the data length and the length of the whole field.\<close>

definition ber_decode_INTEGER :: "ptr \<Rightarrow> nat \<Rightarrow> (byte list \<times> nat \<times> nat) ck" where
  "ber_decode_INTEGER p n = ck_bind (ber_open (\<lambda>b. b = 0x02) p n) (\<lambda>(d, len, field_len).
     if len > 0 then do {
       b \<leftarrow> peek d 0;
       if b = 0x00 then ck_ok (drop 1 d, len - 1, field_len) else ck_ok (d, len, field_len) }
     else ck_ok (d, len, field_len))"

definition ber_decode_OCTET_STRING :: "ptr \<Rightarrow> nat \<Rightarrow> (byte list \<times> nat \<times> nat) ck" where
  "ber_decode_OCTET_STRING p n = ber_open (\<lambda>b. b = 0x04) p n"

definition ber_decode_BIT_STRING :: "ptr \<Rightarrow> nat \<Rightarrow> (byte list \<times> nat \<times> nat) ck" where
  "ber_decode_BIT_STRING p n = ck_bind (ber_open (\<lambda>b. b = 0x03) p n) (\<lambda>(d, len, field_len).
     if len < 1 then ck_fail CKR_FUNCTION_FAILED else ck_ok (d, len, field_len))"

definition ber_decode_SEQUENCE :: "ptr \<Rightarrow> nat \<Rightarrow> (byte list \<times> nat \<times> nat) ck" where
  "ber_decode_SEQUENCE p n = ber_open (\<lambda>b. b = 0x30) p n"

definition ber_decode_CHOICE :: "ptr \<Rightarrow> nat \<Rightarrow> bool \<Rightarrow> (byte list \<times> nat \<times> nat \<times> nat) ck" where
  "ber_decode_CHOICE p n constructed =
     ck_bind (ber_open (\<lambda>b. and b 0xE0 = choice_class constructed) p n) (\<lambda>(d, len, field_len). do {
       m \<leftarrow> p;
       b \<leftarrow> peek m 0;
       ck_ok (d, len, field_len, unat (and b 0x1F)) })"

end
