(* ===== verification/Ber_Facts.thy ===== *)
theory Ber_Facts
  imports Ber
begin

text \<open>
  What the BER primitives promise. The abstract field \<open>ber_tlv\<close> is what every encoder writes;
  the contract of a decoder (\<open>ber_decoder\<close>: it never reads outside the bytes it is given and
  what it returns lies inside them) and of a decoder with its wire format (\<open>ber_codec\<close>) are
  locales, interpreted for every primitive.
\<close>

section \<open>The abstract field\<close>

definition ber_tlv :: "byte \<Rightarrow> byte list \<Rightarrow> byte list" where
  "ber_tlv tag c = ber_header tag (length c) @ c"

lemma length_ber_header: "length (ber_header tag n) = ber_field_len n - n"
  by (simp add: ber_header_def ber_field_len_def)

lemma ber_field_len_bounds: "n + 2 \<le> ber_field_len n" "ber_field_len n \<le> n + 5"
  by (simp_all add: ber_field_len_def)

lemma ber_field_len_mono: "m \<le> n \<Longrightarrow> ber_field_len m \<le> ber_field_len n"
  by (simp add: ber_field_len_def)

lemma length_ber_tlv: "length (ber_tlv tag c) = ber_field_len (length c)"
  using ber_field_len_bounds(1) [of "length c"] by (simp add: ber_tlv_def length_ber_header)

lemma ber_tlv_Cons: "\<exists>t. ber_tlv tag c = tag # t"
  by (simp add: ber_tlv_def ber_header_def)

section \<open>Encoders write the abstract field\<close>

text \<open>\<^verbatim>\<open>malloc\<close> returns a block of the requested size when it returns one.\<close>

definition malloc_sized :: "malloc \<Rightarrow> bool" where
  "malloc_sized mem \<longleftrightarrow> (\<forall>n buf. mem n = Some buf \<longrightarrow> length buf = n)"

lemma malloc_sizedD: "malloc_sized mem \<Longrightarrow> mem n = Some buf \<Longrightarrow> length buf = n"
  by (simp add: malloc_sized_def)

text \<open>The outcome of an encoder that writes \<open>w\<close>: only the allocation can fail.\<close>

definition ber_result :: "malloc \<Rightarrow> byte list \<Rightarrow> (nat \<times> ptr) ck" where
  "ber_result mem w = (case mem (length w) of None \<Rightarrow> ck_fail CKR_HOST_MEMORY | Some _ \<Rightarrow> ck_ok (length w, Some w))"

lemma ber_emit_tlv:
  assumes "malloc_sized mem" "n = length (pre @ bs)"
  shows "ber_emit False mem tag n pre (Some bs) = ber_result mem (ber_tlv tag (pre @ bs))"
proof (cases "mem (ber_field_len n)")
  case (Some buf)
  let ?hd = "ber_header tag n @ pre"
  have "length buf = ber_field_len n" using assms(1) Some by (rule malloc_sizedD)
  then have "length buf = length ?hd + length bs"
    using assms(2) ber_field_len_bounds(1) [of n] by (simp add: length_ber_header)
  then have "put_bytes buf 0 ?hd = Some (?hd @ drop (length ?hd) buf)"
    and "put_bytes (?hd @ drop (length ?hd) buf) (length ?hd) bs = Some (?hd @ bs)"
    by (simp_all only: put_bytes_0 put_bytes_append le_add1 length_drop add_diff_cancel_left' order_refl) simp
  moreover have "length (ber_tlv tag (pre @ bs)) = ber_field_len n" using assms(2) by (simp add: length_ber_tlv)
  ultimately show ?thesis using Some assms(2)
    by (simp add: ber_emit_def ber_result_def ber_tlv_def del: length_append)
qed (use assms(2) in \<open>simp add: ber_emit_def ber_result_def length_ber_tlv\<close>)

section \<open>The length field\<close>

lemma or_push_bit_8: "b < 256 \<Longrightarrow> or (push_bit 8 a) b = a * 256 + (b :: nat)"
proof -
  assume "b < 256"
  then have "b = take_bit 8 b" by (simp add: take_bit_nat_eq_self)
  moreover have "and (push_bit 8 a) (take_bit 8 b) = 0" by (intro bit_eqI) (auto simp: bit_simps)
  ultimately have "or (push_bit 8 a) b = push_bit 8 a + b" by (metis disjunctive_add_eq_or)
  then show ?thesis by (simp add: push_bit_eq_mult)
qed

lemma unat_byte_less [simp]: "unat (b :: byte) < 256"
  using unsigned_less [of b] by simp

lemma byte_7bit:
  assumes "l < 128"
  shows "and (of_nat l :: byte) 0x80 = 0" "and (of_nat l :: byte) 0x7F = of_nat l"
proof -
  have "\<not> bit (of_nat l :: byte) 7" using assms bit_iff_odd [of l 7] by (simp add: bit_of_nat_iff)
  then show "and (of_nat l :: byte) 0x80 = 0" using and_exp_eq_0_iff_not_bit [of "of_nat l :: byte" 7] by simp
  have "and l 127 = l" using assms take_bit_eq_mask [of 7 l] by (simp add: mask_eq_exp_minus_1 take_bit_nat_eq_self)
  then show "and (of_nat l :: byte) 0x7F = of_nat l" using of_nat_and_eq [of l 127, where 'a = byte] by simp
qed

lemma byte_8bit:
  assumes "128 \<le> l" "l < 256"
  shows "and (of_nat l :: byte) 0x80 \<noteq> 0" "unat (and (of_nat l :: byte) 0x7F) = l - 128"
proof -
  have "l div 128 = 1" using assms by auto
  then have "bit (of_nat l :: byte) 7" using bit_iff_odd [of l 7] by (simp add: bit_of_nat_iff)
  then show "and (of_nat l :: byte) 0x80 \<noteq> 0" using and_exp_eq_0_iff_not_bit [of "of_nat l :: byte" 7] by simp
  have "and l 127 = l mod 128" using take_bit_eq_mask [of 7 l] by (simp add: mask_eq_exp_minus_1 take_bit_eq_mod)
  also have "\<dots> = l - 128" using assms by (simp add: mod_if)
  finally have "and (of_nat l :: byte) 0x7F = of_nat (l - 128)" using of_nat_and_eq [of l 127, where 'a = byte] by simp
  moreover have "unat (of_nat (l - 128) :: byte) = l - 128" using assms by (simp only: unat_of_nat) simp
  ultimately show "unat (and (of_nat l :: byte) 0x7F) = l - 128" by simp
qed

lemma three_octets: "65536 * (l div 65536) + l div 256 mod 256 * 256 + l mod 256 = (l :: nat)"
proof -
  have "l div 65536 = l div 256 div 256" using div_mult2_eq [of l 256 256] by simp
  then show ?thesis
    using div_mult_mod_eq [of l 256] div_mult_mod_eq [of "l div 256" 256] by linarith
qed

lemma ber_decode_len_inside:
  assumes "ber_decode_len m n = ck_ok (h, l)"
  shows "2 \<le> h" "h + l \<le> n"
  using assms
  by (auto simp: ber_decode_len_def ber_len_checked_def Let_def bind_eq_Some_conv split: if_splits)

lemma ber_decode_len_defined:
  assumes "2 \<le> n" "n \<le> length m"
  shows "ber_decode_len m n \<noteq> None"
  using assms by (auto simp: ber_decode_len_def ber_len_checked_def Let_def peek_inside)

lemma ber_decode_len_header:
  assumes "l < 2 ^ 24" "ber_field_len l \<le> n"
  shows "ber_decode_len (ber_header tag l @ rest) n = ck_ok (length (ber_header tag l), l)"
proof -
  consider "l < 128" | "128 \<le> l" "l < 256" | "256 \<le> l" "l < 2 ^ 16" | "2 ^ 16 \<le> l" using assms(1) by linarith
  then show ?thesis
  proof cases
    case 1
    then show ?thesis using assms
      by (simp add: byte_7bit ber_header_def ber_field_len_def ber_decode_len_def ber_len_checked_def unat_of_nat)
  next
    case 2
    then show ?thesis using assms
      by (simp add: ber_header_def ber_field_len_def ber_decode_len_def ber_len_checked_def unat_of_nat)
  next
    case 3
    then show ?thesis using assms
      by (simp add: ber_header_def ber_field_len_def ber_decode_len_def ber_len_checked_def unat_of_nat
          or_push_bit_8 drop_bit_eq_div)
  next
    case 4
    then show ?thesis using assms
      by (simp add: ber_header_def ber_field_len_def ber_decode_len_def ber_len_checked_def unat_of_nat
          or_push_bit_8 drop_bit_eq_div three_octets)
  qed
qed

section \<open>The contract of a decoder\<close>

text \<open>What a decoder returns: data, its length and the field length, all inside the input.\<close>

definition ber_inside :: "byte list \<Rightarrow> nat \<Rightarrow> byte list \<times> nat \<times> nat \<Rightarrow> bool" where
  "ber_inside m n = (\<lambda>(d, l, f). \<exists>k. d = drop k m \<and> k + l = f \<and> 2 \<le> f \<and> f \<le> n)"

locale ber_decoder =
  fixes dec :: "ptr \<Rightarrow> nat \<Rightarrow> (byte list \<times> nat \<times> nat) ck"
  assumes dec_null: "dec None n = ck_fail CKR_FUNCTION_FAILED"
    and dec_defined: "n \<le> length m \<Longrightarrow> dec (Some m) n \<noteq> None"
    and dec_inside: "dec (Some m) n = ck_ok r \<Longrightarrow> ber_inside m n r"
begin

text \<open>The contract as one rule, for operations composed of decoders.\<close>

lemma dec_safe: "n \<le> length m \<Longrightarrow> ck_safe (dec (Some m) n) (ber_inside m n)"
  using dec_defined dec_inside by (simp add: ck_safe_def)

end

text \<open>A decoder with the wire format it inverts, up to \<open>norm\<close> (what is read back for a content).\<close>

locale ber_codec = ber_decoder dec
  for dec :: "ptr \<Rightarrow> nat \<Rightarrow> (byte list \<times> nat \<times> nat) ck" +
  fixes wire :: "'a \<Rightarrow> byte list" and norm :: "'a \<Rightarrow> byte list" and ok :: "'a \<Rightarrow> bool"
  assumes dec_wire: "ok x \<Longrightarrow> length (wire x) \<le> n \<Longrightarrow>
    dec (Some (wire x @ rest)) n = ck_ok (norm x @ rest, length (norm x), length (wire x))"
begin

text \<open>Decoding a field given with exactly its length.\<close>

lemma dec_exact: "ok x \<Longrightarrow> dec (Some (wire x @ rest)) (length (wire x)) = ck_ok (norm x @ rest, length (norm x), length (wire x))"
  by (rule dec_wire) simp_all

end

section \<open>The primitives satisfy the contract\<close>

lemma ber_open_defined: "n \<le> length m \<Longrightarrow> ber_open t (Some m) n \<noteq> None"
proof (cases "n < 2")
  case False
  assume "n \<le> length m"
  with False have "ber_decode_len m n \<noteq> None" "0 < length m" by (intro ber_decode_len_defined, linarith+)
  with False show ?thesis
    by (simp add: ber_open_def peek_inside ck_bind_defined split_beta del: length_greater_0_conv not_None_eq)
qed (simp add: ber_open_def)

lemma ber_open_inside:
  assumes "ber_open t (Some m) n = ck_ok (d, l, f)"
  shows "\<exists>h. d = drop h m \<and> h + l = f \<and> 2 \<le> h \<and> f \<le> n"
  using assms ber_decode_len_inside
  by (fastforce simp: ber_open_def ck_bind_ok_iff bind_eq_Some_conv split: if_splits)

lemma ber_open_tag:
  assumes "ber_open t (Some m) n = ck_ok r"
  shows "0 < length m" "t (m ! 0)"
  using assms by (auto simp: ber_open_def peek_def split: if_splits)

lemma ber_open_tlv:
  assumes "t tag" "length c < 2 ^ 24" "length (ber_tlv tag c) \<le> n"
  shows "ber_open t (Some (ber_tlv tag c @ rest)) n = ck_ok (c @ rest, length c, length (ber_tlv tag c))"
proof -
  have n: "ber_field_len (length c) \<le> n" using assms(3) by (simp add: length_ber_tlv)
  have n2: "\<not> n < 2" using n ber_field_len_bounds(1) [of "length c"] by linarith
  have p: "peek (ber_header tag (length c) @ c @ rest) 0 = Some tag" by (simp add: ber_header_def)
  show ?thesis using assms(1) n2 p ber_decode_len_header [OF assms(2) n, of tag "c @ rest"]
    by (simp add: ber_open_def ber_tlv_def)
qed

text \<open>
  The bytes of an INTEGER whose unsigned big-endian value is \<open>x\<close>, and what is read back: a
  leading zero byte is dropped.
\<close>

definition ber_int_content :: "byte list \<Rightarrow> byte list" where
  "ber_int_content x = (if x \<noteq> [] \<and> and (hd x) 0x80 \<noteq> 0 then 0 # x else x)"

definition ber_int_norm :: "byte list \<Rightarrow> byte list" where
  "ber_int_norm x = (if x \<noteq> [] \<and> hd x = 0 then tl x else x)"

abbreviation ber_int :: "byte list \<Rightarrow> byte list" where
  "ber_int x \<equiv> ber_tlv 0x02 (ber_int_content x)"

lemma length_ber_int_content: "length (ber_int_content x) \<le> Suc (length x)" "length x \<le> length (ber_int_content x)"
  by (simp_all add: ber_int_content_def)

interpretation ber_integer: ber_codec ber_decode_INTEGER ber_int ber_int_norm
    "\<lambda>x. length (ber_int_content x) < 2 ^ 24"
proof unfold_locales
  fix n show "ber_decode_INTEGER None n = ck_fail CKR_FUNCTION_FAILED"
    by (simp add: ber_decode_INTEGER_def ber_open_def)
next
  fix n and m :: "byte list" assume "n \<le> length m"
  then show "ber_decode_INTEGER (Some m) n \<noteq> None" unfolding ber_decode_INTEGER_def
    by (intro ck_bind_defined ber_open_defined) (auto dest!: ber_open_inside simp: peek_inside)
next
  fix m n r assume "ber_decode_INTEGER (Some m) n = ck_ok r"
  then obtain d l f where o: "ber_open (\<lambda>b. b = 0x02) (Some m) n = ck_ok (d, l, f)"
    and r: "r = (d, l, f) \<or> 0 < l \<and> r = (drop 1 d, l - 1, f)"
    by (fastforce simp: ber_decode_INTEGER_def ck_bind_ok_iff bind_eq_Some_conv split: if_splits)
  from ber_open_inside [OF o] obtain h where h: "d = drop h m" "h + l = f" "2 \<le> h" "f \<le> n" by blast
  from r show "ber_inside m n r"
  proof
    assume "0 < l \<and> r = (drop 1 d, l - 1, f)"
    with h show ?thesis by (auto simp: ber_inside_def intro!: exI [of _ "Suc h"])
  qed (use h in \<open>auto simp: ber_inside_def\<close>)
next
  fix x n rest assume "length (ber_int_content x) < 2 ^ 24" "length (ber_int x) \<le> n"
  from ber_open_tlv [where t = "\<lambda>b. b = 0x02", OF refl this, of rest]
  show "ber_decode_INTEGER (Some (ber_int x @ rest)) n
      = ck_ok (ber_int_norm x @ rest, length (ber_int_norm x), length (ber_int x))"
    by (cases x) (auto simp: ber_decode_INTEGER_def ber_int_content_def ber_int_norm_def)
qed

interpretation ber_octet: ber_codec ber_decode_OCTET_STRING "ber_tlv 0x04" "\<lambda>x. x" "\<lambda>x. length x < 2 ^ 24"
  by unfold_locales (auto simp: ber_decode_OCTET_STRING_def ber_open_tlv ber_inside_def ber_open_defined
      dest!: ber_open_inside, simp add: ber_open_def)

interpretation ber_sequence: ber_codec ber_decode_SEQUENCE "ber_tlv 0x30" "\<lambda>x. x" "\<lambda>x. length x < 2 ^ 24"
  by unfold_locales (auto simp: ber_decode_SEQUENCE_def ber_open_tlv ber_inside_def ber_open_defined
      dest!: ber_open_inside, simp add: ber_open_def)

interpretation ber_bits: ber_codec ber_decode_BIT_STRING "\<lambda>(u, x). ber_tlv 0x03 (u # x)" "\<lambda>(u, x). u # x"
    "\<lambda>(u, x). length (u # x) < 2 ^ 24"
proof unfold_locales
  fix n show "ber_decode_BIT_STRING None n = ck_fail CKR_FUNCTION_FAILED"
    by (simp add: ber_decode_BIT_STRING_def ber_open_def)
next
  fix n and m :: "byte list" assume "n \<le> length m"
  then show "ber_decode_BIT_STRING (Some m) n \<noteq> None" unfolding ber_decode_BIT_STRING_def
    by (intro ck_bind_defined ber_open_defined) auto
next
  fix m n r assume "ber_decode_BIT_STRING (Some m) n = ck_ok r"
  then show "ber_inside m n r"
    by (auto simp: ber_decode_BIT_STRING_def ck_bind_ok_iff ber_inside_def dest!: ber_open_inside split: if_splits)
next
  fix ux :: "byte \<times> byte list" and n rest
  assume "(\<lambda>(u, x). length (u # x) < 2 ^ 24) ux" "length ((\<lambda>(u, x). ber_tlv 0x03 (u # x)) ux) \<le> n"
  then show "ber_decode_BIT_STRING (Some ((\<lambda>(u, x). ber_tlv 0x03 (u # x)) ux @ rest)) n
      = ck_ok ((\<lambda>(u, x). u # x) ux @ rest, length ((\<lambda>(u, x). u # x) ux), length ((\<lambda>(u, x). ber_tlv 0x03 (u # x)) ux))"
    using ber_open_tlv [where t = "\<lambda>b. b = 0x03", OF refl, of "fst ux # snd ux" n rest]
    by (simp add: ber_decode_BIT_STRING_def split_beta)
qed

text \<open>A CHOICE also reports the number of the alternative, five bits of the identifier.\<close>

definition choice_tag :: "bool \<Rightarrow> byte \<Rightarrow> byte" where
  "choice_tag constructed opt = or (choice_class constructed) opt"

lemma low5_mask: "and b (0x1F :: byte) = take_bit 5 b"
  by (simp add: take_bit_eq_mask mask_eq_exp_minus_1)

lemma choice_tag_bits:
  assumes "opt < 0x20"
  shows "and (choice_tag c opt) 0xE0 = choice_class c" "and (choice_tag c opt) 0x1F = opt"
proof -
  have *: "take_bit 5 opt = opt"
    using assms by (simp add: word_unat_eq_iff word_less_nat_alt unsigned_take_bit_eq take_bit_nat_eq_self)
  have "and opt 0xE0 = and (and opt 0x1F) (0xE0 :: byte)" using * by (simp add: low5_mask)
  also have "\<dots> = 0" by (simp add: and.assoc)
  finally show "and (choice_tag c opt) 0xE0 = choice_class c"
    by (simp add: choice_tag_def choice_class_def bit.conj_disj_distrib2)
  show "and (choice_tag c opt) 0x1F = opt"
    using * by (simp add: choice_tag_def choice_class_def bit.conj_disj_distrib2 low5_mask)
qed

lemma ber_decode_CHOICE_tlv:
  assumes "opt < 0x20" "length c < 2 ^ 24" "length (ber_tlv (choice_tag k opt) c) \<le> n"
  shows "ber_decode_CHOICE (Some (ber_tlv (choice_tag k opt) c @ rest)) n k =
    ck_ok (c @ rest, length c, length (ber_tlv (choice_tag k opt) c), unat opt)"
  using ber_open_tlv [where t = "\<lambda>b. and b 0xE0 = choice_class k", OF choice_tag_bits(1) [OF assms(1)] assms(2,3)]
    choice_tag_bits(2) [OF assms(1), of k] ber_tlv_Cons [of "choice_tag k opt" c]
  by (auto simp: ber_decode_CHOICE_def)

lemma ber_decode_CHOICE_safe:
  assumes "n \<le> length m"
  shows "ber_decode_CHOICE (Some m) n k \<noteq> None"
    and "ber_decode_CHOICE (Some m) n k = ck_ok (d, l, f, opt) \<Longrightarrow> ber_inside m n (d, l, f) \<and> opt < 32"
proof -
  show "ber_decode_CHOICE (Some m) n k \<noteq> None" unfolding ber_decode_CHOICE_def
    using assms by (intro ck_bind_defined ber_open_defined) (auto dest!: ber_open_inside simp: peek_def)
  have "unat (and b (0x1F :: byte)) < 32" for b
    using take_bit_nat_less_exp [of 5 "unat b"] by (simp add: low5_mask unsigned_take_bit_eq)
  then show "ber_decode_CHOICE (Some m) n k = ck_ok (d, l, f, opt) \<Longrightarrow> ber_inside m n (d, l, f) \<and> opt < 32"
    by (auto simp: ber_decode_CHOICE_def ck_bind_ok_iff bind_eq_Some_conv ber_inside_def dest!: ber_open_inside)
qed

lemma ber_decode_CHOICE_rule:
  "n \<le> length m \<Longrightarrow> ck_safe (ber_decode_CHOICE (Some m) n k) (\<lambda>(d, l, f, opt). ber_inside m n (d, l, f) \<and> opt < 32)"
  using ber_decode_CHOICE_safe [of n m k] by (auto simp: ck_safe_def)

section \<open>The encoders\<close>

text \<open>The length an INTEGER of \<open>n\<close> unknown bytes is given: room for the padding is included.\<close>

definition ber_int_bound :: "nat \<Rightarrow> nat" where
  "ber_int_bound n = ber_field_len (if n = 0 then 0 else n + 1)"

lemma length_ber_int: "length (ber_int x) \<le> ber_int_bound (length x)"
  by (auto simp: length_ber_tlv ber_int_bound_def ber_int_content_def intro: ber_field_len_mono)

lemma ber_int_bound_le: "ber_int_bound n \<le> n + 6"
  using ber_field_len_bounds(2) [of "n + 1"] ber_field_len_bounds(2) [of 0] by (simp add: ber_int_bound_def)

lemma ber_encode_INTEGER_len:
  "ber_encode_INTEGER True mem None n =
     (if n + 1 < 2 ^ 24 then ck_ok (ber_int_bound n, None) else ck_fail CKR_FUNCTION_FAILED)"
  by (simp add: ber_encode_INTEGER_def ber_int_padding_def ber_emit_def ber_int_bound_def)

lemma ber_encode_INTEGER_wire:
  assumes "malloc_sized mem" "length (ber_int_content x) < 2 ^ 24" "n = length x"
  shows "ber_encode_INTEGER False mem (Some (x @ rest)) n = ber_result mem (ber_int x)"
proof -
  have p: "ber_int_padding False (Some (x @ rest)) n = Some (length (ber_int_content x) - n)"
    using assms(3) by (cases x) (simp_all add: ber_int_padding_def ber_int_content_def)
  have r: "replicate (length (ber_int_content x) - n) 0x00 @ x = ber_int_content x"
    using assms(3) by (simp add: ber_int_content_def)
  have c: "copy_guarded (Some (x @ rest)) n = Some x"
    using assms(3) by (simp add: copy_guarded_def get_bytes_def)
  have l: "n \<le> length (ber_int_content x)" using assms(3) length_ber_int_content(2) by simp
  then have g: "\<not> n > 2 ^ 24 - 1 - (length (ber_int_content x) - n)" using assms(2) by linarith
  show ?thesis using p c r l g assms(2) ber_emit_tlv [OF assms(1), of "length (ber_int_content x)"
        "replicate (length (ber_int_content x) - n) 0x00" x "0x02"]
    by (simp add: ber_encode_INTEGER_def)
qed

lemma copy_plain_wire: "n = length x \<Longrightarrow> copy_plain (Some (x @ rest)) n = Some x"
  by (simp add: copy_plain_def get_bytes_def)

lemma ber_encode_OCTET_STRING_wire:
  assumes "malloc_sized mem" "length x < 2 ^ 24" "n = length x"
  shows "ber_encode_OCTET_STRING False mem (Some (x @ rest)) n = ber_result mem (ber_tlv 0x04 x)"
  using assms ber_emit_tlv [of mem n "[]" x "0x04"]
  by (simp add: ber_encode_OCTET_STRING_def copy_plain_wire)

lemma ber_encode_SEQUENCE_wire:
  assumes "malloc_sized mem" "length x < 2 ^ 24" "n = length x"
  shows "ber_encode_SEQUENCE False mem (Some (x @ rest)) n = ber_result mem (ber_tlv 0x30 x)"
  using assms ber_emit_tlv [of mem n "[]" x "0x30"]
  by (simp add: ber_encode_SEQUENCE_def copy_plain_wire)

lemma ber_encode_CHOICE_wire:
  assumes "malloc_sized mem" "length x < 2 ^ 24" "n = length x"
  shows "ber_encode_CHOICE False mem opt (Some (x @ rest)) n k = ber_result mem (ber_tlv (choice_tag k opt) x)"
  using assms ber_emit_tlv [of mem n "[]" x "choice_tag k opt"]
  by (simp add: ber_encode_CHOICE_def copy_plain_wire choice_tag_def)

lemma ber_encode_BIT_STRING_wire:
  assumes "malloc_sized mem" "length x + 1 < 2 ^ 24" "n = length x"
  shows "ber_encode_BIT_STRING False mem (Some (x @ rest)) n u = ber_result mem (ber_tlv 0x03 (u # x))"
proof -
  have "copy_guarded (Some (x @ rest)) n = Some x"
    using assms(3) by (simp add: copy_guarded_def get_bytes_def)
  then show ?thesis using assms ber_emit_tlv [of mem "n + 1" "[u]" x "0x03"]
    by (simp add: ber_encode_BIT_STRING_def)
qed

section \<open>Round trips\<close>

lemma ber_result_ok: "mem (length w) \<noteq> None \<Longrightarrow> ber_result mem w = ck_ok (length w, Some w)"
  by (auto simp: ber_result_def)

text \<open>
  C23: Every primitive reads back what it wrote, for contents of any length the three length
  octets can express and in front of any further bytes: a BIT STRING with its unused-bits byte,
  a CHOICE with its alternative, an INTEGER without its leading zero byte.
\<close>

theorem ber_primitives_roundtrip:
  assumes "malloc_sized mem" "\<forall>n. mem n \<noteq> None"
  shows "(length (ber_int_content x) < 2 ^ 24 \<longrightarrow>
      (\<exists>w. ber_encode_INTEGER False mem (Some x) (length x) = ck_ok (length w, Some w) \<and>
        ber_decode_INTEGER (Some (w @ rest)) (length w) = ck_ok (ber_int_norm x @ rest, length (ber_int_norm x), length w)))
    \<and> (length x < 2 ^ 24 \<longrightarrow>
      (\<exists>w. ber_encode_OCTET_STRING False mem (Some x) (length x) = ck_ok (length w, Some w) \<and>
        ber_decode_OCTET_STRING (Some (w @ rest)) (length w) = ck_ok (x @ rest, length x, length w))
      \<and> (\<exists>w. ber_encode_SEQUENCE False mem (Some x) (length x) = ck_ok (length w, Some w) \<and>
        ber_decode_SEQUENCE (Some (w @ rest)) (length w) = ck_ok (x @ rest, length x, length w))
      \<and> (opt < 0x20 \<longrightarrow> (\<exists>w. ber_encode_CHOICE False mem opt (Some x) (length x) k = ck_ok (length w, Some w) \<and>
        ber_decode_CHOICE (Some (w @ rest)) (length w) k = ck_ok (x @ rest, length x, length w, unat opt))))
    \<and> (length x + 1 < 2 ^ 24 \<longrightarrow>
      (\<exists>w. ber_encode_BIT_STRING False mem (Some x) (length x) u = ck_ok (length w, Some w) \<and>
        ber_decode_BIT_STRING (Some (w @ rest)) (length w) = ck_ok (u # x @ rest, length x + 1, length w)))"
proof (intro conjI impI)
  have ok: "ber_result mem w = ck_ok (length w, Some w)" for w
    using assms(2) by (intro ber_result_ok) blast
  note sized = assms(1)
  show "\<exists>w. ber_encode_INTEGER False mem (Some x) (length x) = ck_ok (length w, Some w) \<and>
      ber_decode_INTEGER (Some (w @ rest)) (length w) = ck_ok (ber_int_norm x @ rest, length (ber_int_norm x), length w)"
    if "length (ber_int_content x) < 2 ^ 24"
    using ber_encode_INTEGER_wire [OF sized that refl, of "[]"] ber_integer.dec_exact [OF that] ok by auto
  show "\<exists>w. ber_encode_OCTET_STRING False mem (Some x) (length x) = ck_ok (length w, Some w) \<and>
      ber_decode_OCTET_STRING (Some (w @ rest)) (length w) = ck_ok (x @ rest, length x, length w)" if "length x < 2 ^ 24"
    using ber_encode_OCTET_STRING_wire [OF sized that refl, of "[]"] ber_octet.dec_exact [OF that] ok by auto
  show "\<exists>w. ber_encode_SEQUENCE False mem (Some x) (length x) = ck_ok (length w, Some w) \<and>
      ber_decode_SEQUENCE (Some (w @ rest)) (length w) = ck_ok (x @ rest, length x, length w)" if "length x < 2 ^ 24"
    using ber_encode_SEQUENCE_wire [OF sized that refl, of "[]"] ber_sequence.dec_exact [OF that] ok by auto
  show "\<exists>w. ber_encode_CHOICE False mem opt (Some x) (length x) k = ck_ok (length w, Some w) \<and>
      ber_decode_CHOICE (Some (w @ rest)) (length w) k = ck_ok (x @ rest, length x, length w, unat opt)"
    if "length x < 2 ^ 24" "opt < 0x20"
    using ber_encode_CHOICE_wire [OF sized that(1) refl, of opt "[]" k] ber_decode_CHOICE_tlv [OF that(2,1) order_refl] ok
    by auto
  show "\<exists>w. ber_encode_BIT_STRING False mem (Some x) (length x) u = ck_ok (length w, Some w) \<and>
      ber_decode_BIT_STRING (Some (w @ rest)) (length w) = ck_ok (u # x @ rest, length x + 1, length w)"
    if "length x + 1 < 2 ^ 24"
    using ber_encode_BIT_STRING_wire [OF sized that refl, of "[]" u] ber_bits.dec_exact [of "(u, x)" rest]
      ok that by auto
qed

theorem ber_primitives_roundtrip_witness:
  "\<exists>w. ber_encode_INTEGER False (\<lambda>n. Some (replicate n 0)) (Some [0x80, 1]) (length [0x80, 1 :: byte])
       = ck_ok (length w, Some w) \<and>
     ber_decode_INTEGER (Some (w @ [7])) (length w) = ck_ok ([0x80, 1, 7], length [0x80, 1 :: byte], length w)"
  using ber_primitives_roundtrip [of "\<lambda>n. Some (replicate n 0)" "[0x80, 1]" "[7]" 0 True 0]
  by (simp add: malloc_sized_def ber_int_content_def ber_int_norm_def)

end
