(* ===== verification/Ber_Keys.thy ===== *)
theory Ber_Keys
  imports Ber
begin

text \<open>
  The key formats of \<^verbatim>\<open>usr/lib/common/asn1.c\<close> built from the BER primitives: PKCS\#8
  \<^verbatim>\<open>PrivateKeyInfo\<close>, X.509 \<^verbatim>\<open>SubjectPublicKeyInfo\<close>, and RSA, DSA and DH keys; the identifiers
  are those of \<^verbatim>\<open>globals.c\<close>, attributes are built by \<^verbatim>\<open>build_attribute\<close> of \<^verbatim>\<open>utility.c\<close>.

  \<open>mem i\<close> is the \<open>i\<close>-th call of \<^verbatim>\<open>malloc\<close> of an operation. The runs of
  equal calls the code writes out (one \<^verbatim>\<open>ber_encode_INTEGER\<close> or \<^verbatim>\<open>ber_decode_INTEGER\<close> per key
  component) are recursions over the list of components. Blocks freed on the way out are not
  tracked.
\<close>

section \<open>Attributes\<close>

text \<open>The types of the attributes the key decoders build; none of them is an attribute array.\<close>

datatype cka = CKA_MODULUS | CKA_PUBLIC_EXPONENT | CKA_PRIVATE_EXPONENT | CKA_PRIME_1 | CKA_PRIME_2
  | CKA_EXPONENT_1 | CKA_EXPONENT_2 | CKA_COEFFICIENT | CKA_PRIME | CKA_SUBPRIME | CKA_BASE | CKA_VALUE
  | CKA_EC_PARAMS | CKA_EC_POINT

text \<open>
  A \<^verbatim>\<open>CK_ATTRIBUTE\<close>: \<open>behind\<close> is the memory right behind the structure, where the private key
  encoders read the value, \<open>pValue\<close> the pointer the other encoders read.
\<close>

record ck_attribute =
  atype :: cka
  ulValueLen :: nat
  pValue :: ptr
  behind :: "byte list"

definition SIZEOF_CK_ATTRIBUTE :: nat where "SIZEOF_CK_ATTRIBUTE = 24"

definition build_attribute :: "malloc \<Rightarrow> cka \<Rightarrow> ptr \<Rightarrow> nat \<Rightarrow> ck_attribute ck" where
  "build_attribute mem ty data data_len =
     (case mem (SIZEOF_CK_ATTRIBUTE + data_len) of
        None \<Rightarrow> ck_fail CKR_HOST_MEMORY
      | Some attr \<Rightarrow>
          if data_len > 0 then do {
            bs \<leftarrow> copy_plain data data_len;
            v \<leftarrow> put_bytes (drop SIZEOF_CK_ATTRIBUTE attr) 0 bs;
            ck_ok \<lparr>atype = ty, ulValueLen = data_len, pValue = Some v, behind = v\<rparr> }
          else ck_ok \<lparr>atype = ty, ulValueLen = data_len, pValue = None, behind = drop SIZEOF_CK_ATTRIBUTE attr\<rparr>)"

section \<open>Identifiers\<close>

definition ber_idDSA :: "byte list" where
  "ber_idDSA = [0x06, 0x07, 0x2a, 0x86, 0x48, 0xce, 0x38, 0x04, 0x01]"

definition ber_idEC :: "byte list" where
  "ber_idEC = [0x06, 0x07, 0x2a, 0x86, 0x48, 0xce, 0x3d, 0x02, 0x01]"

definition ber_rsaEncryption :: "byte list" where
  "ber_rsaEncryption = [0x06, 0x09, 0x2a, 0x86, 0x48, 0x86, 0xf7, 0x0d, 0x01, 0x01, 0x01]"

definition ber_idDH :: "byte list" where
  "ber_idDH = [0x06, 0x09, 0x2a, 0x86, 0x48, 0x86, 0xF7, 0x0D, 0x01, 0x03, 0x01]"

definition ber_AlgIdRSAEncryption :: "byte list" where
  "ber_AlgIdRSAEncryption =
     [0x30, 0x0D, 0x06, 0x09, 0x2a, 0x86, 0x48, 0x86, 0xf7, 0x0d, 0x01, 0x01, 0x01, 0x05, 0x00]"

definition der_AlgIdECBase :: "byte list" where
  "der_AlgIdECBase = [0x30, 0x09, 0x06, 0x07, 0x2A, 0x86, 0x48, 0xCE, 0x3D, 0x02, 0x01]"

section \<open>Memory operations\<close>

text \<open>\<^verbatim>\<open>memcpy(buf + off, src, n)\<close>, and \<^verbatim>\<open>memcmp(p, id, len) != 0\<close> for an identifier.\<close>

definition memcpy_at :: "byte list \<Rightarrow> nat \<Rightarrow> ptr \<Rightarrow> nat \<Rightarrow> byte list option" where
  "memcpy_at buf off src n = do { bs \<leftarrow> copy_plain src n; put_bytes buf off bs }"

definition memcmp_differs :: "byte list \<Rightarrow> byte list \<Rightarrow> bool option" where
  "memcmp_differs p ident = do { bs \<leftarrow> get_bytes p 0 (length ident); Some (bs \<noteq> ident) }"

text \<open>Subtraction on \<^verbatim>\<open>CK_ULONG\<close>.\<close>

definition ulong_sub :: "nat \<Rightarrow> nat \<Rightarrow> nat" where
  "ulong_sub a b = (if b \<le> a then a - b else 2 ^ 64 - (b - a))"

section \<open>PrivateKeyInfo and SubjectPublicKeyInfo\<close>

definition ber_encode_PrivateKeyInfo ::
    "bool \<Rightarrow> (nat \<Rightarrow> malloc) \<Rightarrow> ptr \<Rightarrow> nat \<Rightarrow> ptr \<Rightarrow> nat \<Rightarrow> (nat \<times> ptr) ck" where
  "ber_encode_PrivateKeyInfo length_only mem algorithm_id algorithm_id_len priv_key priv_key_len =
     ck_bind (ber_encode_INTEGER True (mem 0) (Some [0]) 1) (\<lambda>(ver_len, _).
     ck_bind (ber_encode_OCTET_STRING True (mem 0) priv_key priv_key_len) (\<lambda>(key_len, _).
     let len = ver_len + algorithm_id_len + key_len in
     if length_only then ck_bind (ber_encode_SEQUENCE True (mem 0) None len) (\<lambda>(total_len, _). ck_ok (total_len, None))
     else case mem 0 len of
       None \<Rightarrow> ck_fail CKR_HOST_MEMORY
     | Some buf \<Rightarrow>
         ck_bind (ber_encode_INTEGER False (mem 1) (Some [0]) 1) (\<lambda>(total_len, tmp). do {
           buf \<leftarrow> memcpy_at buf 0 tmp total_len;
           buf \<leftarrow> memcpy_at buf total_len algorithm_id algorithm_id_len;
           let len = total_len + algorithm_id_len;
           ck_bind (ber_encode_OCTET_STRING False (mem 2) priv_key priv_key_len) (\<lambda>(total_len, tmp). do {
             buf \<leftarrow> memcpy_at buf len tmp total_len;
             ber_encode_SEQUENCE False (mem 3) (Some buf) (len + total_len) }) })))"

definition ber_decode_PrivateKeyInfo :: "ptr \<Rightarrow> nat \<Rightarrow> (byte list \<times> nat \<times> byte list \<times> nat) ck" where
  "ber_decode_PrivateKeyInfo data data_len =
     (if data = None \<or> data_len = 0 then ck_fail CKR_FUNCTION_FAILED
      else
        ck_bind (ber_decode_SEQUENCE data data_len) (\<lambda>(buf, buf_len, _).
        ck_bind (ber_decode_INTEGER (Some buf) buf_len) (\<lambda>(_, _, field_len).
        let offset = field_len in
        ck_bind (ber_decode_SEQUENCE (Some (drop offset buf)) (buf_len - offset)) (\<lambda>(alg, alg_len, field_len).
        let offset = offset + field_len in
        ck_bind (ber_decode_OCTET_STRING (Some (drop offset buf)) (buf_len - offset)) (\<lambda>(priv_key, priv_key_len, _).
        ck_ok (alg, alg_len, priv_key, priv_key_len))))))"

text \<open>The algorithm identifier, its parameters and the key, each with its length.\<close>

definition ber_decode_SPKI ::
    "ptr \<Rightarrow> nat \<Rightarrow> (byte list \<times> nat \<times> byte list \<times> nat \<times> byte list \<times> nat) ck" where
  "ber_decode_SPKI spki spki_len =
     ck_bind (ber_decode_SEQUENCE spki spki_len) (\<lambda>(_, data_len, field_len). do {
       out_seq \<leftarrow> spki;
       let id_seq = drop (field_len - data_len) out_seq;
       let id_seq_len = spki_len - field_len + data_len;
       ck_bind (ber_decode_SEQUENCE (Some id_seq) id_seq_len) (\<lambda>(data, data_len, field_len).
         if data_len < 2 then ck_fail CKR_FUNCTION_FAILED
         else do {
           b \<leftarrow> peek data 1;
           let alg_oid_len = unat b + 2;
           if alg_oid_len > data_len then ck_fail CKR_FUNCTION_FAILED
           else
             ck_bind (ber_decode_BIT_STRING (Some (drop field_len id_seq)) (id_seq_len - field_len)) (\<lambda>(key, key_len, _).
             ck_ok (data, alg_oid_len, drop alg_oid_len data, data_len - alg_oid_len, drop 1 key, key_len - 1)) }) })"

section \<open>Runs of INTEGERs\<close>

text \<open>\<^verbatim>\<open>rc |= ber_encode_INTEGER(TRUE, NULL, &len, NULL, n); offset += len;\<close> for each component.\<close>

fun ber_len_INTEGERs :: "nat list \<Rightarrow> nat ck" where
  "ber_len_INTEGERs [] = ck_ok 0"
| "ber_len_INTEGERs (n # ns) =
     ck_bind (ber_encode_INTEGER True (\<lambda>_. None) None n) (\<lambda>(len, _).
     ck_bind (ber_len_INTEGERs ns) (\<lambda>offset. ck_ok (len + offset)))"

text \<open>Encode each component into a block of its own and append it to \<open>buf\<close>.\<close>

fun ber_put_INTEGERs :: "(nat \<Rightarrow> malloc) \<Rightarrow> byte list \<Rightarrow> nat \<Rightarrow> (ptr \<times> nat) list \<Rightarrow> (byte list \<times> nat) ck" where
  "ber_put_INTEGERs mem buf offset [] = ck_ok (buf, offset)"
| "ber_put_INTEGERs mem buf offset ((data, n) # xs) =
     ck_bind (ber_encode_INTEGER False (mem 0) data n) (\<lambda>(len, tmp). do {
       buf \<leftarrow> memcpy_at buf offset tmp len;
       ber_put_INTEGERs (\<lambda>i. mem (Suc i)) buf (offset + len) xs })"

text \<open>The first pass of the private key decoders over \<open>k\<close> components, and the second one.\<close>

fun ber_skip_INTEGERs :: "nat \<Rightarrow> byte list \<Rightarrow> nat \<Rightarrow> nat \<Rightarrow> nat ck" where
  "ber_skip_INTEGERs 0 buf buf_len offset = ck_ok offset"
| "ber_skip_INTEGERs (Suc k) buf buf_len offset =
     ck_bind (ber_decode_INTEGER (Some (drop offset buf)) (buf_len - offset)) (\<lambda>(_, _, field_len).
     ber_skip_INTEGERs k buf buf_len (offset + field_len))"

fun ber_build_INTEGERs :: "(nat \<Rightarrow> malloc) \<Rightarrow> cka list \<Rightarrow> byte list \<Rightarrow> nat \<Rightarrow> nat \<Rightarrow> ck_attribute list ck" where
  "ber_build_INTEGERs mem [] buf buf_len offset = ck_ok []"
| "ber_build_INTEGERs mem (ty # tys) buf buf_len offset =
     ck_bind (ber_decode_INTEGER (Some (drop offset buf)) (buf_len - offset)) (\<lambda>(tmp, len, field_len).
     ck_bind (build_attribute (mem 0) ty (Some tmp) len) (\<lambda>attr.
     ck_bind (ber_build_INTEGERs (\<lambda>i. mem (Suc i)) tys buf buf_len (offset + field_len)) (\<lambda>attrs.
     ck_ok (attr # attrs))))"

section \<open>RSA keys\<close>

definition ber_encode_RSAPrivateKey ::
    "bool \<Rightarrow> (nat \<Rightarrow> malloc) \<Rightarrow> ck_attribute \<Rightarrow> ck_attribute \<Rightarrow> ck_attribute \<Rightarrow> ck_attribute \<Rightarrow> ck_attribute \<Rightarrow>
     ck_attribute \<Rightarrow> ck_attribute \<Rightarrow> ck_attribute \<Rightarrow> (nat \<times> ptr) ck" where
  "ber_encode_RSAPrivateKey length_only mem modulus publ_exp priv_exp prime1 prime2 exponent1 exponent2 coeff =
     (let attrs = [modulus, publ_exp, priv_exp, prime1, prime2, exponent1, exponent2, coeff] in
      ck_bind (ber_len_INTEGERs (1 # map ulValueLen attrs)) (\<lambda>offset.
      if length_only then
        ck_bind (ber_encode_SEQUENCE True (mem 0) None offset) (\<lambda>(len, _).
        ber_encode_PrivateKeyInfo True mem None (length ber_AlgIdRSAEncryption) None len)
      else case mem 0 offset of
        None \<Rightarrow> ck_fail CKR_HOST_MEMORY
      | Some buf \<Rightarrow>
          ck_bind (ber_put_INTEGERs (\<lambda>i. mem (i + 1)) buf 0
              ((Some [0], 1) # map (\<lambda>a. (Some (behind a), ulValueLen a)) attrs)) (\<lambda>(buf, offset).
          ck_bind (ber_encode_SEQUENCE False (mem 10) (Some buf) offset) (\<lambda>(len, buf2).
          ber_encode_PrivateKeyInfo False (\<lambda>i. mem (i + 11)) (Some ber_AlgIdRSAEncryption)
            (length ber_AlgIdRSAEncryption) buf2 len))))"

text \<open>The attributes in the order of the output parameters.\<close>

definition ber_decode_RSAPrivateKey :: "(nat \<Rightarrow> malloc) \<Rightarrow> ptr \<Rightarrow> nat \<Rightarrow> ck_attribute list ck" where
  "ber_decode_RSAPrivateKey mem data data_len =
     ck_bind (ber_decode_PrivateKeyInfo data data_len) (\<lambda>(alg, _, rsa_priv_key, rsa_priv_key_len). do {
       differs \<leftarrow> memcmp_differs alg ber_rsaEncryption;
       if differs then ck_fail CKR_FUNCTION_FAILED
       else
         ck_bind (ber_decode_SEQUENCE (Some rsa_priv_key) rsa_priv_key_len) (\<lambda>(buf, buf_len, _).
         ck_bind (ber_skip_INTEGERs 9 buf buf_len 0) (\<lambda>offset.
         if offset > buf_len then ck_fail CKR_FUNCTION_FAILED
         else
           ck_bind (ber_decode_INTEGER (Some buf) buf_len) (\<lambda>(_, _, field_len).
           ber_build_INTEGERs mem [CKA_MODULUS, CKA_PUBLIC_EXPONENT, CKA_PRIVATE_EXPONENT, CKA_PRIME_1,
             CKA_PRIME_2, CKA_EXPONENT_1, CKA_EXPONENT_2, CKA_COEFFICIENT] buf buf_len field_len))) })"

text \<open>
  \<open>put_bitstring\<close> stands for the calls of liblber that encode and flatten a BIT STRING of
  \<open>n * 8\<close> bits: the bytes of the \<^verbatim>\<open>BerValue\<close>, \<^term>\<open>None\<close> on failure.
\<close>

definition ber_encode_RSAPublicKey ::
    "(byte list \<Rightarrow> byte list option) \<Rightarrow> (nat \<Rightarrow> malloc) \<Rightarrow> ck_attribute \<Rightarrow> ck_attribute \<Rightarrow> (nat \<times> ptr) ck" where
  "ber_encode_RSAPublicKey put_bitstring mem modulus publ_exp =
     (let attrs = [modulus, publ_exp] in
      ck_bind (ber_len_INTEGERs (map ulValueLen attrs)) (\<lambda>offset.
      case mem 0 offset of
        None \<Rightarrow> ck_fail CKR_HOST_MEMORY
      | Some buf \<Rightarrow>
          ck_bind (ber_put_INTEGERs (\<lambda>i. mem (i + 1)) buf 0 (map (\<lambda>a. (Some (behind a), ulValueLen a)) attrs))
            (\<lambda>(buf, offset).
          ck_bind (ber_encode_SEQUENCE False (mem 3) (Some buf) offset) (\<lambda>(len, buf2).
          ck_bind (ber_encode_BIT_STRING True (mem 0) None len 0) (\<lambda>(total_len, _).
          if total_len > 2 ^ 64 - 1 - length ber_AlgIdRSAEncryption then ck_fail CKR_KEY_SIZE_RANGE
          else case mem 4 (length ber_AlgIdRSAEncryption + total_len) of
            None \<Rightarrow> ck_fail CKR_HOST_MEMORY
          | Some buf3 \<Rightarrow> do {
              buf3 \<leftarrow> memcpy_at buf3 0 (Some ber_AlgIdRSAEncryption) (length ber_AlgIdRSAEncryption);
              content \<leftarrow> copy_plain buf2 len;
              case put_bitstring content of
                None \<Rightarrow> ck_fail CKR_FUNCTION_FAILED
              | Some val \<Rightarrow> do {
                  buf3 \<leftarrow> put_bytes buf3 (length ber_AlgIdRSAEncryption) val;
                  ber_encode_SEQUENCE False (mem 5) (Some buf3) (length ber_AlgIdRSAEncryption + length val) } })))))"

definition ber_decode_RSAPublicKey :: "(nat \<Rightarrow> malloc) \<Rightarrow> ptr \<Rightarrow> nat \<Rightarrow> (ck_attribute \<times> ck_attribute) ck" where
  "ber_decode_RSAPublicKey mem data data_len =
     ck_bind (ber_decode_SPKI data data_len) (\<lambda>(algid, _, _, _, val, val_len).
     ck_bind (ber_decode_SEQUENCE (Some ber_AlgIdRSAEncryption) (length ber_AlgIdRSAEncryption)) (\<lambda>(base, len, _). do {
       differs \<leftarrow> memcmp_differs algid (take len base);
       if differs then ck_fail CKR_FUNCTION_FAILED
       else
         ck_bind (ber_decode_SEQUENCE (Some val) val_len) (\<lambda>(seq, seq_len, _).
         ck_bind (ber_decode_INTEGER (Some seq) seq_len) (\<lambda>(md, mod_len, field_len).
         ck_bind (ber_decode_INTEGER (Some (drop field_len seq)) (seq_len - field_len)) (\<lambda>(ex, exp_len, _).
         ck_bind (build_attribute (mem 0) CKA_MODULUS (Some md) mod_len) (\<lambda>modulus.
         ck_bind (build_attribute (mem 1) CKA_PUBLIC_EXPONENT (Some ex) exp_len) (\<lambda>publ_exp.
         ck_ok (modulus, publ_exp)))))) }))"

end
