(* ===== verification/Ber_Keys_Facts.thy ===== *)
theory Ber_Keys_Facts
  imports Ber_Facts Ber_Keys
begin

text \<open>
  Facts on the key formats: what an encoder writes when its allocations succeed, that the
  decoders read it back, and which inputs make a decoder read outside its input.
\<close>

section \<open>Allocation outcomes\<close>

text \<open>
  Every block has the requested size; with \<open>sure\<close> no allocation fails. An operation delivers
  a value when that is its result, or else an allocation failed.
\<close>

definition mallocs :: "bool \<Rightarrow> (nat \<Rightarrow> malloc) \<Rightarrow> bool" where
  "mallocs sure mem \<longleftrightarrow> (\<forall>i. malloc_sized (mem i)) \<and> (sure \<longrightarrow> (\<forall>i n. mem i n \<noteq> None))"

definition delivers :: "bool \<Rightarrow> 'a ck \<Rightarrow> 'a \<Rightarrow> bool" where
  "delivers sure r x \<longleftrightarrow> r = ck_ok x \<or> \<not> sure \<and> r = ck_fail CKR_HOST_MEMORY"

lemma mallocs_shift: "mallocs sure mem \<Longrightarrow> mallocs sure (\<lambda>i. mem (f i))"
  by (simp add: mallocs_def)

lemma delivers_ok [simp]: "delivers sure (ck_ok x) x"
  by (simp add: delivers_def)

lemma delivers_True [simp]: "delivers True r x \<longleftrightarrow> r = ck_ok x"
  by (simp add: delivers_def)

lemma delivers_bind: "delivers sure m x \<Longrightarrow> delivers sure (f x) y \<Longrightarrow> delivers sure (ck_bind m f) y"
  by (auto simp: delivers_def)

lemma delivers_malloc:
  assumes "mallocs sure mem" "\<And>buf. length buf = n \<Longrightarrow> delivers sure (f buf) y"
  shows "delivers sure (case mem i n of None \<Rightarrow> ck_fail CKR_HOST_MEMORY | Some buf \<Rightarrow> f buf) y"
proof (cases "mem i n")
  case None
  then have "\<not> sure" using assms(1) unfolding mallocs_def by blast
  with None show ?thesis by (simp add: delivers_def)
next
  case (Some buf)
  with assms show ?thesis by (auto simp: mallocs_def malloc_sized_def)
qed

lemma delivers_result: "mallocs sure mem \<Longrightarrow> delivers sure (ber_result (mem i) w) (length w, Some w)"
  unfolding ber_result_def by (erule delivers_malloc) simp

lemma mallocs_sized: "mallocs sure mem \<Longrightarrow> malloc_sized (mem i)"
  by (simp add: mallocs_def)

section \<open>Attributes\<close>

definition mk_attr :: "cka \<Rightarrow> byte list \<Rightarrow> ck_attribute" where
  "mk_attr ty v = \<lparr>atype = ty, ulValueLen = length v, pValue = (if v = [] then None else Some v), behind = v\<rparr>"

text \<open>An attribute as \<^verbatim>\<open>build_attribute\<close> leaves it.\<close>

definition attr_wf :: "ck_attribute \<Rightarrow> bool" where
  "attr_wf a \<longleftrightarrow> a = mk_attr (atype a) (behind a)"

lemma attr_wfD:
  assumes "attr_wf a"
  shows "ulValueLen a = length (behind a)" "pValue a = (if behind a = [] then None else Some (behind a))"
proof -
  have "a = mk_attr (atype a) (behind a)" using assms by (simp add: attr_wf_def)
  then have "ulValueLen a = ulValueLen (mk_attr (atype a) (behind a))"
    and "pValue a = pValue (mk_attr (atype a) (behind a))" by simp_all
  then show "ulValueLen a = length (behind a)" "pValue a = (if behind a = [] then None else Some (behind a))"
    by (simp_all add: mk_attr_def)
qed

lemma mk_attr_wf [simp]: "attr_wf (mk_attr ty v)"
  by (simp add: attr_wf_def mk_attr_def)

lemma mk_attr_sel [simp]: "behind (mk_attr ty v) = v" "ulValueLen (mk_attr ty v) = length v" "atype (mk_attr ty v) = ty"
  by (simp_all add: mk_attr_def)

lemma build_attribute_delivers:
  assumes "mallocs sure mem" "n \<le> length d"
  shows "delivers sure (build_attribute (mem i) ty (Some d) n) (mk_attr ty (take n d))"
  unfolding build_attribute_def
  by (rule delivers_malloc [OF assms(1)])
    (use assms(2) in \<open>auto simp: copy_plain_def get_bytes_def put_bytes_def mk_attr_def\<close>)

section \<open>Safety of the frames\<close>

lemma drop_inside:
  assumes "ber_inside m n (d, l, f)" "n \<le> length m"
  shows "l \<le> length d" "f \<le> n" "n - f \<le> length (drop f m)" "2 \<le> f"
    "d ! l = m ! f" "length d = length m - (f - l)" "l \<le> f"
  using assms by (auto simp: ber_inside_def)

lemma ber_octet_tag:
  "n \<le> length m \<Longrightarrow> ck_safe (ber_decode_OCTET_STRING (Some m) n) (\<lambda>r. ber_inside m n r \<and> 2 \<le> n \<and> m ! 0 = 0x04)"
  using ber_octet.dec_safe [of n m] ber_open_tag [of _ m n]
  by (fastforce simp: ck_safe_def ber_decode_OCTET_STRING_def ber_inside_def)

text \<open>
  The algorithm identifier of a \<^verbatim>\<open>PrivateKeyInfo\<close> is followed, in memory, by the tag of the key's
  OCTET STRING.
\<close>

definition pki_inside :: "byte list \<times> nat \<times> byte list \<times> nat \<Rightarrow> bool" where
  "pki_inside = (\<lambda>(alg, al, k, kl). al + 2 \<le> length alg \<and> alg ! al = 0x04 \<and> kl \<le> length k)"

lemma ber_decode_PrivateKeyInfo_safe:
  assumes "n \<le> length m"
  shows "ck_safe (ber_decode_PrivateKeyInfo (Some m) n) pki_inside"
proof -
  have octet: "ck_safe (ck_bind (ber_decode_OCTET_STRING (Some (drop (o1 + f) buf)) (bl - (o1 + f)))
      (\<lambda>(k, kl, _). ck_ok (alg, al, k, kl))) pki_inside"
    if "bl \<le> length buf" "o1 \<le> bl" "ber_inside (drop o1 buf) (bl - o1) (alg, al, f)" for buf bl o1 f alg al
  proof (rule ck_safe_bind [OF ber_octet_tag])
    have in_alg: "f \<le> bl - o1" "alg ! al = buf ! (o1 + f)" "length alg = length buf - o1 - (f - al)" "al \<le> f"
      using that drop_inside [OF that(3)] by (simp_all add: nth_drop)
    show "bl - (o1 + f) \<le> length (drop (o1 + f) buf)" using that(1) by simp
    fix r assume r: "ber_inside (drop (o1 + f) buf) (bl - (o1 + f)) r \<and> 2 \<le> bl - (o1 + f) \<and> drop (o1 + f) buf ! 0 = 0x04"
    show "ck_safe ((\<lambda>(k, kl, _). ck_ok (alg, al, k, kl)) r) pki_inside"
      using r in_alg that by (cases r) (auto simp: pki_inside_def dest: drop_inside(1))
  qed
  have alg: "ck_safe (ck_bind (ber_decode_SEQUENCE (Some (drop o1 buf)) (bl - o1)) (\<lambda>(alg, al, f).
      ck_bind (ber_decode_OCTET_STRING (Some (drop (o1 + f) buf)) (bl - (o1 + f)))
        (\<lambda>(k, kl, _). ck_ok (alg, al, k, kl)))) pki_inside"
    if "bl \<le> length buf" "o1 \<le> bl" for buf bl o1
    by (rule ck_safe_bind [OF ber_sequence.dec_safe]) (use that in \<open>auto intro!: octet\<close>)
  have ver: "ck_safe (ck_bind (ber_decode_INTEGER (Some buf) bl) (\<lambda>(_, _, o1).
      ck_bind (ber_decode_SEQUENCE (Some (drop o1 buf)) (bl - o1)) (\<lambda>(alg, al, f).
      ck_bind (ber_decode_OCTET_STRING (Some (drop (o1 + f) buf)) (bl - (o1 + f)))
        (\<lambda>(k, kl, _). ck_ok (alg, al, k, kl))))) pki_inside"
    if "bl \<le> length buf" for buf bl
    by (rule ck_safe_bind [OF ber_integer.dec_safe]) (use that in \<open>auto intro!: alg dest: drop_inside(2)\<close>)
  show ?thesis unfolding ber_decode_PrivateKeyInfo_def Let_def
    by (auto intro!: ck_safe_bind [OF ber_sequence.dec_safe] ver assms dest: drop_inside(1))
qed

text \<open>The three parts of a \<^verbatim>\<open>SubjectPublicKeyInfo\<close>, all inside the memory of the input.\<close>

definition spki_inside :: "byte list \<times> nat \<times> byte list \<times> nat \<times> byte list \<times> nat \<Rightarrow> bool" where
  "spki_inside = (\<lambda>(alg, al, par, pl, key, kl).
     2 \<le> al \<and> par = drop al alg \<and> al + pl \<le> length alg \<and> kl \<le> length key)"

lemma ber_decode_SPKI_safe:
  assumes "n \<le> length m"
  shows "ck_safe (ber_decode_SPKI (Some m) n) spki_inside"
proof -
  have bits: "ck_safe (ck_bind (ber_decode_BIT_STRING (Some (drop f s)) (sl - f)) (\<lambda>(key, kl, _).
      ck_ok (d, al, drop al d, l - al, drop 1 key, kl - 1))) spki_inside"
    if "sl \<le> length s" "ber_inside s sl (d, l, f)" "2 \<le> al" "al \<le> l" for s sl d l f al
    by (rule ck_safe_bind [OF ber_bits.dec_safe])
      (use that drop_inside(1) [OF that(2)] in \<open>auto simp: spki_inside_def dest!: drop_inside(1)\<close>)
  have ident: "ck_safe (ck_bind (ber_decode_SEQUENCE (Some s) sl) (\<lambda>(d, l, f).
      if l < 2 then ck_fail CKR_FUNCTION_FAILED
      else do {
        b \<leftarrow> peek d 1;
        if unat b + 2 > l then ck_fail CKR_FUNCTION_FAILED
        else ck_bind (ber_decode_BIT_STRING (Some (drop f s)) (sl - f)) (\<lambda>(key, kl, _).
          ck_ok (d, unat b + 2, drop (unat b + 2) d, l - (unat b + 2), drop 1 key, kl - 1)) })) spki_inside"
    if "sl \<le> length s" for s sl
  proof (rule ck_safe_bind [OF ber_sequence.dec_safe [OF that]])
    fix r assume r: "ber_inside s sl r"
    obtain d l f where dlf: "r = (d, l, f)" by (cases r)
    have "l \<le> length d" using drop_inside(1) [OF r [unfolded dlf] that] .
    then show "ck_safe ((\<lambda>(d, l, f).
      if l < 2 then ck_fail CKR_FUNCTION_FAILED
      else do {
        b \<leftarrow> peek d 1;
        if unat b + 2 > l then ck_fail CKR_FUNCTION_FAILED
        else ck_bind (ber_decode_BIT_STRING (Some (drop f s)) (sl - f)) (\<lambda>(key, kl, _).
          ck_ok (d, unat b + 2, drop (unat b + 2) d, l - (unat b + 2), drop 1 key, kl - 1)) }) r) spki_inside"
      using bits [OF that r [unfolded dlf], of "unat (d ! 1) + 2"] by (simp add: dlf peek_inside)
  qed
  show ?thesis unfolding ber_decode_SPKI_def Let_def
  proof (rule ck_safe_bind [OF ber_sequence.dec_safe [OF assms]])
    fix r assume r: "ber_inside m n r"
    obtain d l f where dlf: "r = (d, l, f)" by (cases r)
    have "l \<le> f" "f \<le> n" using drop_inside(7) [OF r [unfolded dlf] assms] drop_inside(2) [OF r [unfolded dlf] assms] .
    then show "ck_safe ((\<lambda>(_, data_len, field_len). do {
       out_seq \<leftarrow> Some m;
       ck_bind (ber_decode_SEQUENCE (Some (drop (field_len - data_len) out_seq)) (n - field_len + data_len)) (\<lambda>(d, l, f).
         if l < 2 then ck_fail CKR_FUNCTION_FAILED
         else do {
           b \<leftarrow> peek d 1;
           if unat b + 2 > l then ck_fail CKR_FUNCTION_FAILED
           else ck_bind (ber_decode_BIT_STRING (Some (drop f (drop (field_len - data_len) out_seq)))
               (n - field_len + data_len - f)) (\<lambda>(key, kl, _).
             ck_ok (d, unat b + 2, drop (unat b + 2) d, l - (unat b + 2), drop 1 key, kl - 1)) }) }) r) spki_inside"
      using ident [of "n - f + l" "drop (f - l) m"] assms by (simp add: dlf)
  qed
qed

section \<open>Runs of INTEGERs\<close>

lemma ber_skip_INTEGERs_safe:
  assumes "bl \<le> length buf" "off \<le> bl"
  shows "ck_safe (ber_skip_INTEGERs k buf bl off) (\<lambda>off'. off' \<le> bl)"
  using assms(2)
proof (induction k arbitrary: off)
  case (Suc k)
  have "ck_safe (ber_decode_INTEGER (Some (drop off buf)) (bl - off)) (ber_inside (drop off buf) (bl - off))"
    using assms(1) by (intro ber_integer.dec_safe) simp
  then show ?case using Suc assms(1) by (auto intro!: ck_safe_bind dest!: drop_inside(2))
qed simp

lemma build_attribute_safe:
  assumes "mallocs sure mem" "n \<le> length d"
  shows "ck_safe (build_attribute (mem i) ty (Some d) n) (\<lambda>a. attr_wf a \<and> atype a = ty)"
  using build_attribute_delivers [OF assms, of i ty] by (auto simp: delivers_def)

lemma ber_build_INTEGERs_safe:
  assumes "mallocs sure mem" "bl \<le> length buf" "off \<le> bl"
  shows "ck_safe (ber_build_INTEGERs mem tys buf bl off) (\<lambda>as. list_all attr_wf as \<and> map atype as = tys)"
  using assms(1,3)
proof (induction tys arbitrary: mem off)
  case (Cons ty tys)
  have dec: "ck_safe (ber_decode_INTEGER (Some (drop off buf)) (bl - off)) (ber_inside (drop off buf) (bl - off))"
    using assms(2) by (intro ber_integer.dec_safe) simp
  have rest: "ck_safe (ck_bind (ber_build_INTEGERs (\<lambda>i. mem (Suc i)) tys buf bl (off + f)) (\<lambda>as. ck_ok (a # as)))
      (\<lambda>as. list_all attr_wf as \<and> map atype as = ty # tys)"
    if "f \<le> bl - off" "attr_wf a" "atype a = ty" for f a
    using that Cons by (intro ck_safe_bind [OF Cons.IH]) (auto intro: mallocs_shift)
  show ?case unfolding ber_build_INTEGERs.simps
  proof (rule ck_safe_bind [OF dec], clarify)
    fix d l f assume "ber_inside (drop off buf) (bl - off) (d, l, f)"
    then have "l \<le> length d" "f \<le> bl - off" using assms(2) by (auto dest: drop_inside(1,2))
    then show "ck_safe (ck_bind (build_attribute (mem 0) ty (Some d) l) (\<lambda>a.
        ck_bind (ber_build_INTEGERs (\<lambda>i. mem (Suc i)) tys buf bl (off + f)) (\<lambda>as. ck_ok (a # as))))
      (\<lambda>as. list_all attr_wf as \<and> map atype as = ty # tys)"
      using Cons.prems(1) by (intro ck_safe_bind [OF build_attribute_safe]) (simp_all add: rest)
  qed
qed simp

section \<open>What the RSA decoder requires of its input\<close>

lemma memcmp_differs_None: "memcmp_differs p ident = None \<longleftrightarrow> length p < length ident"
  by (auto simp: memcmp_differs_def get_bytes_def)

lemma ber_rsa_body_safe:
  assumes "mallocs sure mem" "kl \<le> length k"
  shows "ck_safe (ck_bind (ber_decode_SEQUENCE (Some k) kl) (\<lambda>(buf, bl, _).
      ck_bind (ber_skip_INTEGERs c buf bl 0) (\<lambda>off.
      if off > bl then ck_fail CKR_FUNCTION_FAILED
      else ck_bind (ber_decode_INTEGER (Some buf) bl) (\<lambda>(_, _, f). ber_build_INTEGERs mem tys buf bl f))))
    (\<lambda>as. list_all attr_wf as \<and> map atype as = tys)"
proof (rule ck_safe_bind [OF ber_sequence.dec_safe [OF assms(2)]], clarify)
  fix buf bl f assume "ber_inside k kl (buf, bl, f)"
  then have bl: "bl \<le> length buf" using assms(2) by (rule drop_inside(1))
  have int: "ck_safe (ck_bind (ber_decode_INTEGER (Some buf) bl) (\<lambda>(_, _, f). ber_build_INTEGERs mem tys buf bl f))
      (\<lambda>as. list_all attr_wf as \<and> map atype as = tys)"
    using bl by (intro ck_safe_bind [OF ber_integer.dec_safe])
      (auto intro!: ber_build_INTEGERs_safe [OF assms(1)] dest: drop_inside(2))
  show "ck_safe (ck_bind (ber_skip_INTEGERs c buf bl 0) (\<lambda>off.
      if off > bl then ck_fail CKR_FUNCTION_FAILED
      else ck_bind (ber_decode_INTEGER (Some buf) bl) (\<lambda>(_, _, f). ber_build_INTEGERs mem tys buf bl f)))
    (\<lambda>as. list_all attr_wf as \<and> map atype as = tys)"
    using int by (intro ck_safe_bind [OF ber_skip_INTEGERs_safe [OF bl]]) auto
qed

section \<open>The formats on the wire\<close>

definition pki_der :: "byte list \<Rightarrow> byte list \<Rightarrow> byte list" where
  "pki_der alg key = ber_tlv 0x30 (ber_int [0] @ alg @ ber_tlv 0x04 key)"

definition ints_der :: "byte list list \<Rightarrow> byte list" where
  "ints_der xs = concat (map (\<lambda>x. ber_int x) xs)"

lemma ints_der_simps [simp]: "ints_der [] = []" "ints_der (x # xs) = ber_int x @ ints_der xs"
  by (simp_all add: ints_der_def)

lemma ber_int_zero [simp]: "ber_int_content [0] = [0]" "ber_tlv 0x02 [0] = [0x02, 0x01, 0x00]"
  by (simp_all add: ber_int_content_def ber_tlv_def ber_header_def)

lemma length_ints_der_le: "length (ints_der xs) \<le> sum_list (map (\<lambda>x. ber_int_bound (length x)) xs)"
proof (induction xs)
  case (Cons x xs)
  then show ?case using length_ber_int [of x] by simp
qed simp

lemma sum_int_bound: "sum_list (map (\<lambda>x. ber_int_bound (length x)) xs) \<le> sum_list (map length xs) + 6 * length xs"
proof (induction xs)
  case (Cons x xs)
  then show ?case using ber_int_bound_le [of "length x"] by simp
qed simp

lemma ber_len_INTEGERs_ok:
  assumes "\<forall>n \<in> set ns. n + 1 < 2 ^ 24"
  shows "ber_len_INTEGERs ns = ck_ok (sum_list (map ber_int_bound ns))"
  using assms by (induction ns) (simp_all add: ber_encode_INTEGER_len)

lemma memcpy_at_append:
  assumes "length pre = off" "length w = n" "n \<le> length buf"
  shows "memcpy_at (pre @ buf) off (Some w) n = Some (pre @ w @ drop n buf)"
  using assms by (auto simp add: memcpy_at_def copy_plain_def get_bytes_def put_bytes_append)

lemma ber_put_INTEGERs_delivers:
  assumes "mallocs sure mem" "length pre = off" "length (ints_der xs) \<le> length buf"
    and "\<forall>x \<in> set xs. length x + 1 < 2 ^ 24"
    and "ps = map (\<lambda>x. (Some x, length x)) xs"
  shows "delivers sure (ber_put_INTEGERs mem (pre @ buf) off ps)
    (pre @ ints_der xs @ drop (length (ints_der xs)) buf, off + length (ints_der xs))"
  using assms
proof (induction xs arbitrary: mem pre off buf ps)
  case (Cons x xs)
  let ?w = "ber_int x"
  have "length (ber_int_content x) < 2 ^ 24"
    using Cons.prems(4) length_ber_int_content(1) [of x] by simp
  then have enc: "delivers sure (ber_encode_INTEGER False (mem 0) (Some x) (length x)) (length ?w, Some ?w)"
    using ber_encode_INTEGER_wire [OF mallocs_sized [OF Cons.prems(1)], of x "length x" 0 "[]"]
      delivers_result [OF Cons.prems(1)] by simp
  have cp: "memcpy_at (pre @ buf) off (Some ?w) (length ?w) = Some ((pre @ ?w) @ drop (length ?w) buf)"
    using Cons.prems(2,3) by (simp add: memcpy_at_append)
  have "delivers sure (ber_put_INTEGERs (\<lambda>i. mem (Suc i)) ((pre @ ?w) @ drop (length ?w) buf) (off + length ?w)
      (map (\<lambda>x. (Some x, length x)) xs))
    ((pre @ ?w) @ ints_der xs @ drop (length (ints_der xs)) (drop (length ?w) buf), (off + length ?w) + length (ints_der xs))"
    using Cons.prems by (intro Cons.IH) (auto intro: mallocs_shift)
  then show ?case using cp Cons.prems(5) by (auto intro!: delivers_bind [OF enc] simp: ac_simps)
qed simp

lemma ber_encode_PrivateKeyInfo_delivers:
  assumes "mallocs sure mem" "al = length alg" "kl = length key" "length alg + length key + 8 < 2 ^ 24"
  shows "delivers sure (ber_encode_PrivateKeyInfo False mem (Some alg) al (Some key) kl)
    (length (pki_der alg key), Some (pki_der alg key))"
proof -
  let ?k = "ber_tlv 0x04 key" and ?v = "[0x02, 0x01, 0x00 :: byte]"
  have lens: "ber_encode_INTEGER True (mem 0) (Some [0]) 1 = ck_ok (3, None)"
    "ber_encode_OCTET_STRING True (mem 0) (Some key) kl = ck_ok (length ?k, None)"
    using assms by (simp_all add: ber_encode_INTEGER_def ber_int_padding_def ber_emit_def ber_field_len_def
        ber_encode_OCTET_STRING_def length_ber_tlv)
  have kb: "length ?k \<le> length key + 5" using ber_field_len_bounds(2) by (simp add: length_ber_tlv)
  have ver: "delivers sure (ber_encode_INTEGER False (mem 1) (Some [0]) 1) (3, Some ?v)"
    using ber_encode_INTEGER_wire [OF mallocs_sized [OF assms(1)], of "[0]" 1 1 "[]"]
      delivers_result [OF assms(1), of 1 ?v] by (simp add: numeral_3_eq_3)
  have oct: "delivers sure (ber_encode_OCTET_STRING False (mem 2) (Some key) kl) (length ?k, Some ?k)"
    using ber_encode_OCTET_STRING_wire [OF mallocs_sized [OF assms(1)], of key kl 2 "[]"] assms(3,4)
      delivers_result [OF assms(1)] by simp
  have seq: "delivers sure (ber_encode_SEQUENCE False (mem 3) (Some (?v @ alg @ ?k)) (3 + al + length ?k))
      (length (pki_der alg key), Some (pki_der alg key))"
    using ber_encode_SEQUENCE_wire [OF mallocs_sized [OF assms(1)], of "?v @ alg @ ?k" "3 + al + length ?k" 3 "[]"]
      assms(2,4) kb delivers_result [OF assms(1), of 3 "pki_der alg key"] by (simp add: pki_der_def)
  have fill: "memcpy_at buf 0 (Some ?v) 3 = Some (?v @ drop 3 buf)"
    "memcpy_at (?v @ drop 3 buf) 3 (Some alg) al = Some (?v @ alg @ drop (3 + al) buf)"
    "memcpy_at (?v @ alg @ drop (3 + al) buf) (3 + al) (Some ?k) (length ?k) = Some (?v @ alg @ ?k)"
    if "length buf = 3 + al + length ?k" for buf
    using that assms(2) memcpy_at_append [of "[]" 0 ?v 3 buf] memcpy_at_append [of ?v 3 alg al "drop 3 buf"]
      memcpy_at_append [of "?v @ alg" "3 + al" ?k "length ?k" "drop (3 + al) buf"] by (simp_all add: add.commute)
  show ?thesis unfolding ber_encode_PrivateKeyInfo_def Let_def lens
    by (auto intro!: delivers_malloc [OF assms(1)] delivers_bind [OF ver] delivers_bind [OF oct] seq [unfolded append.simps]
        simp: fill [unfolded append.simps])
qed

lemma ber_decode_PrivateKeyInfo_wire:
  assumes "length algc + length key + 13 < 2 ^ 24" "length (pki_der (ber_tlv 0x30 algc) key) \<le> n"
  shows "ber_decode_PrivateKeyInfo (Some (pki_der (ber_tlv 0x30 algc) key @ rest)) n
    = ck_ok (algc @ ber_tlv 0x04 key @ rest, length algc, key @ rest, length key)"
proof -
  let ?a = "ber_tlv 0x30 algc" and ?k = "ber_tlv 0x04 key"
  let ?c = "ber_int [0] @ ?a @ ?k"
  have b: "length ?a \<le> length algc + 5" "length ?k \<le> length key + 5"
    using ber_field_len_bounds(2) by (simp_all add: length_ber_tlv)
  have "length ?c < 2 ^ 24" using b assms(1) by simp
  note seq = ber_sequence.dec_wire [OF this assms(2) [unfolded pki_der_def], of rest, folded pki_der_def]
  have int: "ber_decode_INTEGER (Some (?c @ rest)) (length ?c) = ck_ok ([] @ ?a @ ?k @ rest, 0, 3)"
    using ber_integer.dec_wire [of "[0]" "length ?c" "?a @ ?k @ rest"] by (simp add: ber_int_norm_def)
  have alg: "ber_decode_SEQUENCE (Some (drop 3 (?c @ rest))) (length ?c - 3)
      = ck_ok (algc @ ?k @ rest, length algc, length ?a)"
    using ber_sequence.dec_wire [of algc "length ?c - 3" "?k @ rest"] assms(1) by simp
  have oct: "ber_decode_OCTET_STRING (Some (drop (3 + length ?a) (?c @ rest))) (length ?c - (3 + length ?a))
      = ck_ok (key @ rest, length key, length ?k)"
    using ber_octet.dec_wire [of key "length ?c - (3 + length ?a)" rest] assms(1) by (simp add: numeral_3_eq_3)
  have "n \<noteq> 0" using assms(2) by (auto simp: pki_der_def length_ber_tlv ber_field_len_def split: if_splits)
  then show ?thesis using seq int alg oct
    by (simp add: ber_decode_PrivateKeyInfo_def Let_def del: append_assoc)
qed

lemma ber_skip_INTEGERs_wire:
  assumes "length pre = off" "\<forall>x \<in> set xs. length x + 1 < 2 ^ 24" "off + length (ints_der xs) \<le> bl"
    "k = length xs"
  shows "ber_skip_INTEGERs k (pre @ ints_der xs @ rest) bl off = ck_ok (off + length (ints_der xs))"
  using assms
proof (induction xs arbitrary: pre off k)
  case (Cons x xs)
  have "length (ber_int_content x) < 2 ^ 24"
    using Cons.prems(2) length_ber_int_content(1) [of x] by simp
  then have dec: "ber_decode_INTEGER (Some (ber_int x @ ints_der xs @ rest)) (bl - off)
      = ck_ok (ber_int_norm x @ ints_der xs @ rest, length (ber_int_norm x), length (ber_int x))"
    using Cons.prems(3) by (intro ber_integer.dec_wire) simp_all
  show ?case using dec Cons.IH [of "pre @ ber_int x" "off + length (ber_int x)" "length xs"] Cons.prems
    by (simp add: add.assoc)
qed simp

lemma ber_build_INTEGERs_delivers:
  assumes "mallocs sure mem" "length pre = off" "\<forall>x \<in> set xs. length x + 1 < 2 ^ 24"
    "off + length (ints_der xs) \<le> bl" "length tys = length xs"
  shows "delivers sure (ber_build_INTEGERs mem tys (pre @ ints_der xs @ rest) bl off)
    (map2 (\<lambda>ty x. mk_attr ty (ber_int_norm x)) tys xs)"
  using assms
proof (induction xs arbitrary: mem tys pre off)
  case (Cons x xs)
  obtain ty tys' where tys: "tys = ty # tys'" "length tys' = length xs" using Cons.prems(5) by (cases tys) auto
  have "length (ber_int_content x) < 2 ^ 24"
    using Cons.prems(3) length_ber_int_content(1) [of x] by simp
  then have dec: "ber_decode_INTEGER (Some (ber_int x @ ints_der xs @ rest)) (bl - off)
      = ck_ok (ber_int_norm x @ ints_der xs @ rest, length (ber_int_norm x), length (ber_int x))"
    using Cons.prems(4) by (intro ber_integer.dec_wire) simp_all
  have bld: "delivers sure (build_attribute (mem 0) ty (Some (ber_int_norm x @ ints_der xs @ rest)) (length (ber_int_norm x)))
      (mk_attr ty (ber_int_norm x))"
    using build_attribute_delivers [OF Cons.prems(1), of "length (ber_int_norm x)" "ber_int_norm x @ ints_der xs @ rest"]
    by simp
  have IH: "delivers sure (ber_build_INTEGERs (\<lambda>i. mem (Suc i)) tys' (pre @ ber_int x @ ints_der xs @ rest) bl
      (off + length (ber_int x))) (map2 (\<lambda>ty x. mk_attr ty (ber_int_norm x)) tys' xs)"
    using Cons.IH [of "\<lambda>i. mem (Suc i)" "pre @ ber_int x" "off + length (ber_int x)" tys'] Cons.prems tys
    by (simp add: mallocs_shift)
  show ?case unfolding tys(1) ber_build_INTEGERs.simps using dec Cons.prems(2)
    by (auto intro!: delivers_bind [OF bld] delivers_bind [OF IH [unfolded Cons.prems(2) [symmetric]]])
qed simp

section \<open>RSA private keys\<close>

definition rsa_types :: "cka list" where
  "rsa_types = [CKA_MODULUS, CKA_PUBLIC_EXPONENT, CKA_PRIVATE_EXPONENT, CKA_PRIME_1,
     CKA_PRIME_2, CKA_EXPONENT_1, CKA_EXPONENT_2, CKA_COEFFICIENT]"

definition rsa_der :: "byte list list \<Rightarrow> byte list" where
  "rsa_der xs = pki_der ber_AlgIdRSAEncryption (ber_tlv 0x30 (ints_der ([0] # xs)))"

text \<open>The sizes of the nested fields, for components of \<open>s\<close> bytes together.\<close>

lemma rsa_der_sizes:
  assumes "length xs = 8" "sum_list (map length xs) + 128 < 2 ^ 24"
  shows "length (ints_der ([0] # xs)) \<le> sum_list (map length xs) + 52"
    "length (ber_tlv 0x30 (ints_der ([0] # xs))) \<le> sum_list (map length xs) + 57"
    "\<forall>x \<in> set ([0] # xs). length x + 1 < 2 ^ 24"
proof -
  have "length (ints_der xs) \<le> sum_list (map length xs) + 48"
    using length_ints_der_le [of xs] sum_int_bound [of xs] assms(1) by linarith
  then show "length (ints_der ([0] # xs)) \<le> sum_list (map length xs) + 52" by simp
  then show "length (ber_tlv 0x30 (ints_der ([0] # xs))) \<le> sum_list (map length xs) + 57"
    using ber_field_len_bounds(2) [of "length (ints_der ([0] # xs))"] unfolding length_ber_tlv by linarith
  have "length x \<le> sum_list (map length xs)" if "x \<in> set xs" for x
    using that by (simp add: member_le_sum_list)
  then show "\<forall>x \<in> set ([0] # xs). length x + 1 < 2 ^ 24" using assms(2) by fastforce
qed

lemma AlgIdRSA_tlv: "ber_AlgIdRSAEncryption = ber_tlv 0x30 (ber_rsaEncryption @ [0x05, 0x00])"
  by (simp add: ber_AlgIdRSAEncryption_def ber_rsaEncryption_def ber_tlv_def ber_header_def)

lemma ber_encode_RSAPrivateKey_delivers:
  assumes "mallocs sure mem" "attrs = [m, e, d, p, q, e1, e2, c]" "list_all attr_wf attrs"
    "sum_list (map ulValueLen attrs) + 128 < 2 ^ 24"
  shows "delivers sure (ber_encode_RSAPrivateKey False mem m e d p q e1 e2 c)
    (length (rsa_der (map behind attrs)), Some (rsa_der (map behind attrs)))"
proof -
  define xs where "xs = [0] # map behind attrs"
  define body where "body = ints_der xs"
  have len: "map ulValueLen attrs = map length (map behind attrs)" using assms(2,3) by (simp add: attr_wfD)
  have ns: "1 # map ulValueLen attrs = map length xs" unfolding len by (simp add: xs_def)
  have "length (map behind attrs) = 8" using assms(2) by simp
  note sz = rsa_der_sizes [OF this assms(4) [unfolded len], folded xs_def, folded body_def]
  have ps: "(Some [0], 1) # map (\<lambda>a. (Some (behind a), ulValueLen a)) attrs = map (\<lambda>x. (Some x, length x)) xs"
    using len by (simp add: xs_def assms(2))
  have off: "ber_len_INTEGERs (1 # map ulValueLen attrs) = ck_ok (sum_list (map (\<lambda>x. ber_int_bound (length x)) xs))"
    unfolding ns using ber_len_INTEGERs_ok [of "map length xs"] sz(3) by (simp add: o_def)
  have put: "delivers sure (ber_put_INTEGERs (\<lambda>i. mem (i + 1)) buf 0
      ((Some [0], 1) # map (\<lambda>a. (Some (behind a), ulValueLen a)) attrs)) (body @ drop (length body) buf, length body)"
    if "length buf = sum_list (map (\<lambda>x. ber_int_bound (length x)) xs)" for buf
    unfolding ps using ber_put_INTEGERs_delivers [OF mallocs_shift [OF assms(1), of "\<lambda>i. i + 1"], of "[]" 0 xs buf]
      length_ints_der_le [of xs] sz(3) that by (simp add: body_def)
  have seq: "delivers sure (ber_encode_SEQUENCE False (mem 10) (Some (body @ r)) (length body))
      (length (ber_tlv 0x30 body), Some (ber_tlv 0x30 body))" for r
    using ber_encode_SEQUENCE_wire [OF mallocs_sized [OF assms(1)], of body "length body" 10 r] sz(1) assms(4) len
      delivers_result [OF assms(1)] by simp
  have pki: "delivers sure (ber_encode_PrivateKeyInfo False (\<lambda>i. mem (i + 11)) (Some ber_AlgIdRSAEncryption)
      (length ber_AlgIdRSAEncryption) (Some (ber_tlv 0x30 body)) (length (ber_tlv 0x30 body)))
      (length (rsa_der (map behind attrs)), Some (rsa_der (map behind attrs)))"
    using ber_encode_PrivateKeyInfo_delivers [OF mallocs_shift [OF assms(1), of "\<lambda>i. i + 11"] refl refl,
        of ber_AlgIdRSAEncryption "ber_tlv 0x30 body"] sz(2) assms(4) len
    by (simp add: rsa_der_def xs_def body_def ber_AlgIdRSAEncryption_def)
  show ?thesis unfolding ber_encode_RSAPrivateKey_def Let_def assms(2) [symmetric] off
    by (auto intro!: delivers_malloc [OF assms(1)] delivers_bind [OF put] delivers_bind [OF seq] pki)
qed

lemma ber_encode_RSAPrivateKey_len:
  assumes "attrs = [m, e, d, p, q, e1, e2, c]" "list_all attr_wf attrs" "sum_list (map ulValueLen attrs) + 128 < 2 ^ 24"
  shows "\<exists>l. ber_encode_RSAPrivateKey True mem m e d p q e1 e2 c = ck_ok (l, None) \<and>
    length (rsa_der (map behind attrs)) \<le> l"
proof -
  define xs where "xs = [0] # map behind attrs"
  define off where "off = sum_list (map (\<lambda>x. ber_int_bound (length x)) xs)"
  have len: "map ulValueLen attrs = map length (map behind attrs)" using assms(1,2) by (simp add: attr_wfD)
  have ns: "1 # map ulValueLen attrs = map length xs" unfolding len by (simp add: xs_def)
  have "length (map behind attrs) = 8" using assms(1) by simp
  note sz = rsa_der_sizes [OF this assms(3) [unfolded len], folded xs_def]
  have o: "ber_len_INTEGERs (1 # map ulValueLen attrs) = ck_ok off"
    unfolding ns using ber_len_INTEGERs_ok [of "map length xs"] sz(3) by (simp add: off_def o_def)
  have le: "length (ints_der xs) \<le> off" using length_ints_der_le by (simp add: off_def)
  have "off \<le> sum_list (map length xs) + 54" using sum_int_bound [of xs] assms(1) by (simp add: off_def xs_def)
  then have ob: "off + 64 < 2 ^ 24" using assms(3) len by (simp add: xs_def)
  define k where "k = ber_field_len off"
  have kb: "length (ber_tlv 0x30 (ints_der xs)) \<le> k" "k \<le> off + 5"
    using le ber_field_len_bounds(2) by (simp_all add: k_def length_ber_tlv ber_field_len_mono)
  have "ber_encode_RSAPrivateKey True mem m e d p q e1 e2 c = ck_ok (ber_field_len (18 + ber_field_len k), None)"
    using ob kb ber_field_len_bounds(2) [of k] unfolding ber_encode_RSAPrivateKey_def Let_def assms(1) [symmetric] o
    by (simp add: ber_encode_SEQUENCE_def ber_emit_def ber_encode_PrivateKeyInfo_def ber_encode_INTEGER_def
        ber_int_padding_def ber_encode_OCTET_STRING_def ber_AlgIdRSAEncryption_def k_def [symmetric] Let_def)
      (simp add: ber_field_len_def)
  moreover have "length (rsa_der (map behind attrs)) \<le> ber_field_len (18 + ber_field_len k)"
    using kb(1) by (auto simp: rsa_der_def pki_der_def length_ber_tlv [of "0x30"] length_ber_tlv [of "0x04"] xs_def
        ber_AlgIdRSAEncryption_def intro!: ber_field_len_mono)
  ultimately show ?thesis by blast
qed

lemma memcmp_same: "memcmp_differs (ident @ r) ident = Some False"
  by (simp add: memcmp_differs_def get_bytes_def)

lemma ber_decode_RSAPrivateKey_delivers:
  assumes "mallocs sure mem" "length xs = 8" "sum_list (map length xs) + 128 < 2 ^ 24" "length (rsa_der xs) \<le> n"
  shows "delivers sure (ber_decode_RSAPrivateKey mem (Some (rsa_der xs @ rest)) n)
    (map2 (\<lambda>ty x. mk_attr ty (ber_int_norm x)) rsa_types xs)"
proof -
  define body where "body = ints_der ([0] # xs)"
  define key where "key = ber_tlv 0x30 body"
  note sz = rsa_der_sizes [OF assms(2,3), folded body_def, folded key_def]
  have pki: "ber_decode_PrivateKeyInfo (Some (rsa_der xs @ rest)) n
      = ck_ok (ber_rsaEncryption @ [0x05, 0x00] @ ber_tlv 0x04 key @ rest, 13, key @ rest, length key)"
    using ber_decode_PrivateKeyInfo_wire [of "ber_rsaEncryption @ [0x05, 0x00]" key n rest] sz(2) assms(3,4)
    by (simp add: rsa_der_def AlgIdRSA_tlv body_def key_def ber_rsaEncryption_def)
  have seq: "ber_decode_SEQUENCE (Some (key @ rest)) (length key) = ck_ok (body @ rest, length body, length key)"
    using ber_sequence.dec_wire [of body "length key" rest] sz(1) assms(3) by (simp add: key_def)
  have skip: "ber_skip_INTEGERs 9 (body @ rest) (length body) 0 = ck_ok (length body)"
    using ber_skip_INTEGERs_wire [of "[]" 0 "[0] # xs" "length body" 9 rest] sz(3) assms(2) by (simp add: body_def)
  have ver: "ber_decode_INTEGER (Some (body @ rest)) (length body) = ck_ok (ints_der xs @ rest, 0, 3)"
    using ber_integer.dec_wire [of "[0]" "length body" "ints_der xs @ rest"] by (simp add: body_def ber_int_norm_def)
  have bld: "delivers sure (ber_build_INTEGERs mem rsa_types (body @ rest) (length body) 3)
      (map2 (\<lambda>ty x. mk_attr ty (ber_int_norm x)) rsa_types xs)"
    using ber_build_INTEGERs_delivers [OF assms(1), of "[0x02, 0x01, 0x00]" 3 xs "length body" rsa_types rest] sz(3) assms(2)
    by (simp add: body_def rsa_types_def)
  show ?thesis unfolding ber_decode_RSAPrivateKey_def pki using seq skip ver bld
    by (simp add: memcmp_same rsa_types_def [symmetric])
qed

text \<open>
  C8: An RSA private key survives encoding and decoding. When the allocations succeed and the
  eight components have fewer than \<open>2\<^sup>2\<^sup>4 - 128\<close> bytes together, \<^verbatim>\<open>ber_encode_RSAPrivateKey\<close>
  yields a buffer no longer than the length it announces, and \<^verbatim>\<open>ber_decode_RSAPrivateKey\<close> gives
  back each component, without its leading zero byte, from that buffer and whatever follows it.
\<close>

theorem rsa_private_key_roundtrip:
  assumes "mallocs True mem" "mallocs True mem'" "list_all attr_wf [m, e, d, p, q, e1, e2, c]"
    "sum_list (map ulValueLen [m, e, d, p, q, e1, e2, c]) + 128 < 2 ^ 24"
  shows "\<exists>der l. ber_encode_RSAPrivateKey False mem m e d p q e1 e2 c = ck_ok (length der, Some der)
    \<and> ber_encode_RSAPrivateKey True mem m e d p q e1 e2 c = ck_ok (l, None) \<and> length der \<le> l
    \<and> (\<forall>rest n. length der \<le> n \<longrightarrow>
         ber_decode_RSAPrivateKey mem' (Some (der @ rest)) n
         = ck_ok (map2 (\<lambda>ty a. mk_attr ty (ber_int_norm (behind a))) rsa_types [m, e, d, p, q, e1, e2, c]))"
proof -
  let ?as = "[m, e, d, p, q, e1, e2, c]"
  obtain l where l: "ber_encode_RSAPrivateKey True mem m e d p q e1 e2 c = ck_ok (l, None)"
    "length (rsa_der (map behind ?as)) \<le> l"
    using ber_encode_RSAPrivateKey_len [OF refl assms(3,4)] by blast
  have s: "sum_list (map length (map behind ?as)) + 128 < 2 ^ 24" using assms(3,4) by (simp add: attr_wfD)
  have "ber_decode_RSAPrivateKey mem' (Some (rsa_der (map behind ?as) @ rest)) n
      = ck_ok (map2 (\<lambda>ty a. mk_attr ty (ber_int_norm (behind a))) rsa_types ?as)"
    if "length (rsa_der (map behind ?as)) \<le> n" for rest n
    using ber_decode_RSAPrivateKey_delivers [OF assms(2) _ s that, of rest] by (simp add: rsa_types_def)
  then show ?thesis using ber_encode_RSAPrivateKey_delivers [OF assms(1) refl assms(3,4)] l by auto
qed

abbreviation zero_mem :: "nat \<Rightarrow> malloc" where
  "zero_mem \<equiv> \<lambda>_ n. Some (replicate n 0)"

lemma mallocs_zero_mem [simp]: "mallocs sure zero_mem"
  by (simp add: mallocs_def malloc_sized_def)

theorem rsa_private_key_roundtrip_witness:
  "\<exists>der. ber_encode_RSAPrivateKey False zero_mem (mk_attr CKA_MODULUS [0xC5, 1]) (mk_attr CKA_PUBLIC_EXPONENT [1, 0, 1])
      (mk_attr CKA_PRIVATE_EXPONENT [7]) (mk_attr CKA_PRIME_1 [0x80]) (mk_attr CKA_PRIME_2 [3]) (mk_attr CKA_EXPONENT_1 [4])
      (mk_attr CKA_EXPONENT_2 [5]) (mk_attr CKA_COEFFICIENT [6]) = ck_ok (length der, Some der)
    \<and> ber_decode_RSAPrivateKey zero_mem (Some (der @ [0xFF])) (length der)
      = ck_ok [mk_attr CKA_MODULUS [0xC5, 1], mk_attr CKA_PUBLIC_EXPONENT [1, 0, 1], mk_attr CKA_PRIVATE_EXPONENT [7],
          mk_attr CKA_PRIME_1 [0x80], mk_attr CKA_PRIME_2 [3], mk_attr CKA_EXPONENT_1 [4], mk_attr CKA_EXPONENT_2 [5],
          mk_attr CKA_COEFFICIENT [6]]"
  using rsa_private_key_roundtrip [OF mallocs_zero_mem mallocs_zero_mem, of
      "mk_attr CKA_MODULUS [0xC5, 1]" "mk_attr CKA_PUBLIC_EXPONENT [1, 0, 1]" "mk_attr CKA_PRIVATE_EXPONENT [7]"
      "mk_attr CKA_PRIME_1 [0x80]" "mk_attr CKA_PRIME_2 [3]" "mk_attr CKA_EXPONENT_1 [4]" "mk_attr CKA_EXPONENT_2 [5]"
      "mk_attr CKA_COEFFICIENT [6]"]
  by (auto simp: ber_int_norm_def rsa_types_def)

section \<open>Reads outside the input\<close>

text \<open>
  C12: No BER decoder reads outside the \<open>n\<close> bytes it is given, whatever they are: INTEGER, OCTET
  STRING, BIT STRING, SEQUENCE, CHOICE, \<^verbatim>\<open>PrivateKeyInfo\<close> and \<^verbatim>\<open>SubjectPublicKeyInfo\<close> are defined on
  every input, and the data, parameters and keys they return can be read in full.
\<close>

theorem ber_decoders_stay_inside:
  assumes "n \<le> length m"
  shows "(\<forall>dec \<in> {ber_decode_INTEGER, ber_decode_OCTET_STRING, ber_decode_BIT_STRING, ber_decode_SEQUENCE}.
      ck_safe (dec (Some m) n) (\<lambda>(d, l, f). l \<le> length d \<and> 2 \<le> f \<and> f \<le> n))
    \<and> ck_safe (ber_decode_CHOICE (Some m) n k) (\<lambda>(d, l, f, opt). l \<le> length d \<and> 2 \<le> f \<and> f \<le> n \<and> opt < 32)
    \<and> ck_safe (ber_decode_PrivateKeyInfo (Some m) n) (\<lambda>(alg, al, key, kl). al \<le> length alg \<and> kl \<le> length key)
    \<and> ck_safe (ber_decode_SPKI (Some m) n) (\<lambda>(alg, al, par, pl, key, kl).
      2 \<le> al \<and> al \<le> length alg \<and> pl \<le> length par \<and> kl \<le> length key)"
proof (intro conjI)
  have *: "ber_inside m n (d, l, f) \<Longrightarrow> l \<le> length d \<and> 2 \<le> f \<and> f \<le> n" for d l f
    using drop_inside [OF _ assms] by blast
  then show "\<forall>dec \<in> {ber_decode_INTEGER, ber_decode_OCTET_STRING, ber_decode_BIT_STRING, ber_decode_SEQUENCE}.
      ck_safe (dec (Some m) n) (\<lambda>(d, l, f). l \<le> length d \<and> 2 \<le> f \<and> f \<le> n)"
    by (auto intro!: ck_safe_weaken [OF ber_integer.dec_safe [OF assms]] ck_safe_weaken [OF ber_octet.dec_safe [OF assms]]
        ck_safe_weaken [OF ber_bits.dec_safe [OF assms]] ck_safe_weaken [OF ber_sequence.dec_safe [OF assms]])
  show "ck_safe (ber_decode_CHOICE (Some m) n k) (\<lambda>(d, l, f, opt). l \<le> length d \<and> 2 \<le> f \<and> f \<le> n \<and> opt < 32)"
    using * by (auto intro!: ck_safe_weaken [OF ber_decode_CHOICE_rule [OF assms]])
qed (auto intro!: ck_safe_weaken [OF ber_decode_PrivateKeyInfo_safe [OF assms]]
    ck_safe_weaken [OF ber_decode_SPKI_safe [OF assms]] simp: pki_inside_def spki_inside_def)

theorem ber_decoders_stay_inside_witness:
  "ck_safe (ber_decode_SPKI (Some [0x30, 0x83, 0xFF, 0xFF, 0xFF, 0x30]) 6) (\<lambda>(alg, al, par, pl, key, kl).
      2 \<le> al \<and> al \<le> length alg \<and> pl \<le> length par \<and> kl \<le> length key)"
  using ber_decoders_stay_inside [of 6 "[0x30, 0x83, 0xFF, 0xFF, 0xFF, 0x30]" True] by simp

text \<open>
  The check that a private key is an RSA key reads eleven bytes of the algorithm identifier
  without regard to its length. On an input inside its buffer \<^verbatim>\<open>ber_decode_RSAPrivateKey\<close> is
  undefined exactly when the \<^verbatim>\<open>PrivateKeyInfo\<close> is accepted and fewer than eleven bytes of memory
  follow the start of the identifier; nothing else of it can go wrong.
\<close>

lemma rsa_private_key_overread:
  assumes "mallocs sure mem" "n \<le> length m"
  shows "ber_decode_RSAPrivateKey mem (Some m) n = None \<longleftrightarrow>
    (\<exists>alg al key kl. ber_decode_PrivateKeyInfo (Some m) n = ck_ok (alg, al, key, kl) \<and> length alg < 11)"
proof (cases "ber_decode_PrivateKeyInfo (Some m) n")
  case None
  with ber_decode_PrivateKeyInfo_safe [OF assms(2)] show ?thesis by simp
next
  case (Some r)
  show ?thesis
  proof (cases r)
    case (Inr b)
    obtain alg al key kl where b: "b = (alg, al, key, kl)" by (cases b)
    have kl: "kl \<le> length key"
      using ber_decode_PrivateKeyInfo_safe [OF assms(2)] Some Inr b by (simp add: pki_inside_def)
    show ?thesis
    proof (cases "memcmp_differs alg ber_rsaEncryption")
      case None
      then have "length alg < 11" by (simp add: memcmp_differs_None ber_rsaEncryption_def)
      then show ?thesis using None Some Inr b by (simp add: ber_decode_RSAPrivateKey_def)
    next
      case (Some diff)
      then have "\<not> length alg < 11" using memcmp_differs_None [of alg ber_rsaEncryption]
        by (simp add: ber_rsaEncryption_def)
      then show ?thesis
        using Some \<open>ber_decode_PrivateKeyInfo (Some m) n = Some r\<close> Inr b
          ck_safe_defined [OF ber_rsa_body_safe [OF assms(1) kl, of 9 rsa_types]]
        unfolding ber_decode_RSAPrivateKey_def rsa_types_def [symmetric] by (cases diff) simp_all
    qed
  qed (use Some in \<open>simp add: ber_decode_RSAPrivateKey_def\<close>)
qed

section \<open>Public keys\<close>

definition spki_der :: "byte list \<Rightarrow> byte list \<Rightarrow> byte list" where
  "spki_der algc key = ber_tlv 0x30 (ber_tlv 0x30 algc @ ber_tlv 0x03 (0 # key))"

text \<open>An object identifier: the second byte is the number of the bytes that follow.\<close>

definition is_oid :: "byte list \<Rightarrow> bool" where
  "is_oid v \<longleftrightarrow> 2 \<le> length v \<and> length v = unat (v ! 1) + 2"

lemma ber_decode_SPKI_wire:
  assumes "is_oid ident" "length ident + length par + length key + 20 < 2 ^ 24" "length (spki_der (ident @ par) key) \<le> n"
    "t = ber_tlv 0x03 (0 # key) @ rest"
  shows "ber_decode_SPKI (Some (spki_der (ident @ par) key @ rest)) n
    = ck_ok (ident @ par @ t, length ident, par @ t, length par, key @ rest, length key)"
proof -
  let ?a = "ber_tlv 0x30 (ident @ par)" and ?b = "ber_tlv 0x03 (0 # key)"
  let ?w = "spki_der (ident @ par) key" and ?c = "?a @ ?b"
  have b: "length ?a \<le> length ident + length par + 5" "length ?b \<le> length key + 6"
    using ber_field_len_bounds(2) [of "length ident + length par"] ber_field_len_bounds(2) [of "length (0 # key)"]
    by (simp_all add: length_ber_tlv)
  have "length ?c < 2 ^ 24" using b assms(2) by simp
  note outer = ber_sequence.dec_wire [OF this assms(3) [unfolded spki_der_def], of rest, folded spki_der_def]
  have hdr: "drop (length ?w - length ?c) (?w @ rest) = ?c @ rest" "length ?c \<le> length ?w" by (simp_all add: spki_der_def ber_tlv_def [of _ "?a @ ?b"])
  let ?sl = "n - length ?w + length ?c"
  have ident: "ber_decode_SEQUENCE (Some (?c @ rest)) ?sl = ck_ok (ident @ par @ t, length (ident @ par), length ?a)"
    using ber_sequence.dec_wire [of "ident @ par" ?sl t] assms(2,4) by simp
  have "length ?b \<le> ?sl - length ?a" by simp
  then have bits: "ber_decode_BIT_STRING (Some (drop (length ?a) (?c @ rest))) (?sl - length ?a) = ck_ok ((0 # key) @ rest, length (0 # key), length ?b)"
    using ber_bits.dec_wire [of "(0, key)" "?sl - length ?a" rest] assms(2) by simp
  have oid: "\<not> length (ident @ par) < 2" "peek (ident @ par @ t) 1 = Some (ident ! 1)" "unat (ident ! 1) + 2 = length ident"
    using assms(1) by (simp_all add: is_oid_def peek_def nth_append)
  show ?thesis unfolding ber_decode_SPKI_def outer ck_bind_simps prod.case Option.bind.simps Let_def hdr(1) ident if_not_P [OF oid(1)] oid(2,3) bits
    by simp
qed

definition rsa_spki :: "byte list \<Rightarrow> byte list \<Rightarrow> byte list" where
  "rsa_spki m e = spki_der (ber_rsaEncryption @ [0x05, 0x00]) (ber_tlv 0x30 (ints_der [m, e]))"

lemma rsa_spki_sizes:
  assumes "length m + length e + 128 < 2 ^ 24"
  shows "length (ints_der [m, e]) \<le> length m + length e + 12"
    "length (ber_tlv 0x30 (ints_der [m, e])) \<le> length m + length e + 17"
proof -
  show i: "length (ints_der [m, e]) \<le> length m + length e + 12"
    using length_ints_der_le [of "[m, e]"] sum_int_bound [of "[m, e]"] by simp
  then show "length (ber_tlv 0x30 (ints_der [m, e])) \<le> length m + length e + 17"
    using ber_field_len_bounds(2) [of "length (ints_der [m, e])"] unfolding length_ber_tlv by linarith
qed

lemma ber_encode_RSAPublicKey_wire:
  assumes "mallocs True mem" "attr_wf m" "attr_wf e" "length (behind m) + length (behind e) + 128 < 2 ^ 24"
    "\<forall>c. length c + 1 < 2 ^ 24 \<longrightarrow> put_bitstring c = Some (ber_tlv 0x03 (0 # c))"
  shows "ber_encode_RSAPublicKey put_bitstring mem m e
    = ck_ok (length (rsa_spki (behind m) (behind e)), Some (rsa_spki (behind m) (behind e)))"
proof -
  define xs where "xs = [behind m, behind e]"
  define off where "off = sum_list (map (\<lambda>x. ber_int_bound (length x)) xs)"
  define key where "key = ber_tlv 0x30 (ints_der xs)"
  define al where "al = ber_AlgIdRSAEncryption"
  note sz = rsa_spki_sizes [OF assms(4), folded xs_def, folded key_def]
  note sized = mallocs_sized [OF assms(1)]
  have res: "ber_result (mem i) w = ck_ok (length w, Some w)" for i w using delivers_result [OF assms(1), of i w] by simp
  have get: "\<exists>buf. mem i n = Some buf \<and> length buf = n" for i n
    using assms(1) malloc_sizedD [OF sized [of i]] unfolding mallocs_def by blast
  have small: "\<forall>x \<in> set xs. length x + 1 < 2 ^ 24" using assms(4) by (simp add: xs_def)
  have len: "map ulValueLen [m, e] = map length xs" "map (\<lambda>a. (Some (behind a), ulValueLen a)) [m, e] = map (\<lambda>x. (Some x, length x)) xs"
    using assms(2,3) by (simp_all add: xs_def attr_wfD)
  have o: "ber_len_INTEGERs (map ulValueLen [m, e]) = ck_ok off"
    unfolding len(1) using ber_len_INTEGERs_ok [of "map length xs"] small by (simp add: off_def o_def)
  obtain buf where buf: "mem 0 off = Some buf" "length buf = off" using get by blast
  have put: "ber_put_INTEGERs (\<lambda>i. mem (i + 1)) buf 0 (map (\<lambda>a. (Some (behind a), ulValueLen a)) [m, e])
      = ck_ok (ints_der xs @ drop (length (ints_der xs)) buf, length (ints_der xs))"
    unfolding len(2) using ber_put_INTEGERs_delivers [OF mallocs_shift [OF assms(1), of "\<lambda>i. i + 1"], of "[]" 0 xs buf] small buf(2)
      length_ints_der_le [of xs] by (simp add: off_def)
  have "length (ints_der xs) < 2 ^ 24" using sz(1) assms(4) by linarith
  then have seq: "ber_encode_SEQUENCE False (mem 3) (Some (ints_der xs @ r)) (length (ints_der xs)) = ck_ok (length key, Some key)" for r
    using ber_encode_SEQUENCE_wire [OF sized _ refl, of "ints_der xs" 3 r] res by (simp add: key_def)
  let ?b = "ber_tlv 0x03 (0 # key)"
  have kl: "length key + 1 < 2 ^ 24" using sz(2) assms(4) by linarith
  then have bits: "ber_encode_BIT_STRING True (mem 0) None (length key) 0 = ck_ok (length ?b, None)"
    by (simp add: ber_encode_BIT_STRING_def ber_emit_def length_ber_tlv)
  have bl: "length ?b \<le> length key + 6" using ber_field_len_bounds(2) [of "length (0 # key)"] by (simp add: length_ber_tlv)
  have all: "length al = 15" by (simp add: al_def ber_AlgIdRSAEncryption_def)
  have rng: "\<not> length ?b > 2 ^ 64 - 1 - length al" using bl kl all by simp
  obtain buf3 where buf3: "mem 4 (length al + length ?b) = Some buf3" "length buf3 = length al + length ?b" using get by blast
  have fill: "memcpy_at buf3 0 (Some al) (length al) = Some (al @ drop (length al) buf3)"
    "put_bytes (al @ drop (length al) buf3) (length al) ?b = Some (al @ ?b)"
    using memcpy_at_append [of "[]" 0 al _ buf3] put_bytes_append [of al _ ?b "drop (length al) buf3"] buf3(2) by simp_all
  have bs: "put_bitstring key = Some ?b" using assms(5) kl by blast
  have cont: "copy_plain (Some key) (length key) = Some key" using copy_plain_wire [of "length key" key "[]"] by simp
  have "length (al @ ?b) < 2 ^ 24" using bl all sz(2) assms(4) by simp
  from ber_encode_SEQUENCE_wire [OF sized this length_append [symmetric], of 5 "[]"]
  have fin: "ber_encode_SEQUENCE False (mem 5) (Some (al @ ?b)) (length al + length ?b)
      = ck_ok (length (rsa_spki (behind m) (behind e)), Some (rsa_spki (behind m) (behind e)))"
    by (simp add: res rsa_spki_def spki_der_def al_def AlgIdRSA_tlv key_def xs_def del: length_append)
  show ?thesis unfolding ber_encode_RSAPublicKey_def Let_def o ck_bind_simps buf(1) option.case put prod.case seq bits
      al_def [symmetric] if_not_P [OF rng] buf3(1) fill(1) Option.bind.simps cont bs fill(2) fin ..
qed

lemma ber_decode_RSAPublicKey_wire:
  assumes "mallocs True mem" "length m + length e + 128 < 2 ^ 24" "length (rsa_spki m e) \<le> n"
  shows "ber_decode_RSAPublicKey mem (Some (rsa_spki m e @ rest)) n
    = ck_ok (mk_attr CKA_MODULUS (ber_int_norm m), mk_attr CKA_PUBLIC_EXPONENT (ber_int_norm e))"
proof -
  define key where "key = ber_tlv 0x30 (ints_der [m, e])"
  define t where "t = ber_tlv 0x03 (0 # key) @ rest"
  note sz = rsa_spki_sizes [OF assms(2), folded key_def]
  have oid: "is_oid ber_rsaEncryption" by (simp add: is_oid_def ber_rsaEncryption_def)
  have "length ber_rsaEncryption = 11" by (simp add: ber_rsaEncryption_def)
  then have spki: "ber_decode_SPKI (Some (rsa_spki m e @ rest)) n
      = ck_ok (ber_rsaEncryption @ [0x05, 0x00] @ t, 11, [0x05, 0x00] @ t, 2, key @ rest, length key)"
    using ber_decode_SPKI_wire [OF oid _ _ t_def, of "[0x05, 0x00]" n] sz(2) assms(2,3)
    by (simp add: rsa_spki_def key_def numeral_2_eq_2)
  have base: "ber_decode_SEQUENCE (Some ber_AlgIdRSAEncryption) (length ber_AlgIdRSAEncryption)
      = ck_ok (ber_rsaEncryption @ [0x05, 0x00], 13, 15)"
    by (simp add: ber_decode_SEQUENCE_def ber_open_def ber_decode_len_def ber_len_checked_def ber_AlgIdRSAEncryption_def ber_rsaEncryption_def)
  have "memcmp_differs ((ber_rsaEncryption @ [0x05, 0x00]) @ t) (ber_rsaEncryption @ [0x05, 0x00]) = Some False" by (rule memcmp_same)
  then have cmp: "memcmp_differs (ber_rsaEncryption @ [0x05, 0x00] @ t) (take 13 (ber_rsaEncryption @ [0x05, 0x00])) = Some False"
    by (simp add: ber_rsaEncryption_def)
  have "length (ints_der [m, e]) < 2 ^ 24" using sz(1) assms(2) by linarith
  then have seq: "ber_decode_SEQUENCE (Some (key @ rest)) (length key) = ck_ok (ber_int m @ ber_int e @ rest, length (ints_der [m, e]), length key)"
    using ber_sequence.dec_wire [of "ints_der [m, e]" "length key" rest] by (simp add: key_def)
  have c: "length (ber_int_content m) < 2 ^ 24" "length (ber_int_content e) < 2 ^ 24"
    using length_ber_int_content(1) [of m] length_ber_int_content(1) [of e] assms(2) by linarith+
  have i1: "ber_decode_INTEGER (Some (ber_int m @ ber_int e @ rest)) (length (ints_der [m, e]))
      = ck_ok (ber_int_norm m @ ber_int e @ rest, length (ber_int_norm m), length (ber_int m))"
    by (rule ber_integer.dec_wire [OF c(1)]) simp
  have i2: "ber_decode_INTEGER (Some (drop (length (ber_int m)) (ber_int m @ ber_int e @ rest))) (length (ints_der [m, e]) - length (ber_int m))
      = ck_ok (ber_int_norm e @ rest, length (ber_int_norm e), length (ber_int e))"
    using ber_integer.dec_exact [OF c(2), of rest] by simp
  have bld: "build_attribute (mem i) ty (Some (x @ r)) (length x) = ck_ok (mk_attr ty x)" for i ty x r
    using build_attribute_delivers [OF assms(1), of "length x" "x @ r" i ty] by simp
  show ?thesis unfolding ber_decode_RSAPublicKey_def spki ck_bind_simps prod.case base cmp Option.bind.simps if_False seq i1 i2 bld ..
qed

text \<open>
  An RSA public key survives encoding and decoding, given that liblber encodes a BIT STRING
  as DER prescribes: the modulus and the exponent are given back without leading zero bytes.
\<close>

lemma rsa_public_key_roundtrip:
  assumes "mallocs True mem" "mallocs True mem'" "attr_wf m" "attr_wf e" "ulValueLen m + ulValueLen e + 128 < 2 ^ 24"
    "\<forall>c. length c + 1 < 2 ^ 24 \<longrightarrow> put_bitstring c = Some (ber_tlv 0x03 (0 # c))"
  shows "\<exists>der. ber_encode_RSAPublicKey put_bitstring mem m e = ck_ok (length der, Some der)
    \<and> (\<forall>rest. ber_decode_RSAPublicKey mem' (Some (der @ rest)) (length (der @ rest))
      = ck_ok (mk_attr CKA_MODULUS (ber_int_norm (behind m)), mk_attr CKA_PUBLIC_EXPONENT (ber_int_norm (behind e))))"
proof -
  have s: "length (behind m) + length (behind e) + 128 < 2 ^ 24" using assms(3-5) by (simp add: attr_wfD)
  show ?thesis using ber_encode_RSAPublicKey_wire [OF assms(1,3,4) s assms(6)] ber_decode_RSAPublicKey_wire [OF assms(2) s]
    by (intro exI [of _ "rsa_spki (behind m) (behind e)"]) simp
qed

end
