(* ===== verification/Ber_Dss.thy ===== *)
theory Ber_Dss
  imports Ber_Keys
begin

text \<open>
  The DSA and DH keys of \<^verbatim>\<open>usr/lib/common/asn1.c\<close>. Both are INTEGERs whose algorithm identifier
  carries the domain parameters. The DH functions are the DSA functions with another object
  identifier and two parameters instead of three; the common code is written once, over the
  identifier, the place an attribute's value is read from (\<open>src\<close>) and the parameters.
\<close>

section \<open>Private keys\<close>

text \<open>
  A result \<^term>\<open>Some (Inr None)\<close> is \<^verbatim>\<open>CKR_OK\<close> with the outputs left unset: when the allocation
  of the identifier fails, the code jumps to its exit with the \<^verbatim>\<open>rc\<close> of the previous call.
\<close>

definition dss_encode_private ::
    "byte list \<Rightarrow> (ck_attribute \<Rightarrow> ptr) \<Rightarrow> bool \<Rightarrow> (nat \<Rightarrow> malloc) \<Rightarrow> ck_attribute list \<Rightarrow> ck_attribute \<Rightarrow>
     (nat \<times> ptr) option ck" where
  "dss_encode_private ident src length_only mem params priv_key =
     ck_bind (ber_len_INTEGERs (map ulValueLen params)) (\<lambda>offset.
     if length_only then
       ck_bind (ber_encode_SEQUENCE True (mem 0) None offset) (\<lambda>(param_len, _).
       ck_bind (ber_encode_INTEGER True (mem 0) None (ulValueLen priv_key)) (\<lambda>(len, _).
       ck_bind (ber_encode_PrivateKeyInfo True mem None (length ident + param_len) None len) (\<lambda>r. ck_ok (Some r))))
     else case mem 0 offset of
       None \<Rightarrow> ck_fail CKR_HOST_MEMORY
     | Some buf \<Rightarrow>
         let k = length params in
         ck_bind (ber_put_INTEGERs (\<lambda>i. mem (i + 1)) buf 0 (map (\<lambda>a. (src a, ulValueLen a)) params)) (\<lambda>(buf, offset).
         ck_bind (ber_encode_SEQUENCE False (mem (k + 1)) (Some buf) offset) (\<lambda>(param_len, param).
         case mem (k + 2) (length ident + param_len) of
           None \<Rightarrow> ck_ok None
         | Some buf \<Rightarrow> do {
             buf \<leftarrow> memcpy_at buf 0 (Some ident) (length ident);
             buf \<leftarrow> memcpy_at buf (length ident) param param_len;
             ck_bind (ber_encode_SEQUENCE False (mem (k + 3)) (Some buf) (length ident + param_len)) (\<lambda>(alg_len, alg).
             ck_bind (ber_encode_INTEGER False (mem (k + 4)) (src priv_key) (ulValueLen priv_key)) (\<lambda>(len, buf).
             ck_bind (ber_encode_PrivateKeyInfo False (\<lambda>i. mem (i + k + 5)) alg alg_len buf len) (\<lambda>r. ck_ok (Some r)))) })))"

definition ber_encode_DSAPrivateKey ::
    "bool \<Rightarrow> (nat \<Rightarrow> malloc) \<Rightarrow> ck_attribute \<Rightarrow> ck_attribute \<Rightarrow> ck_attribute \<Rightarrow> ck_attribute \<Rightarrow> (nat \<times> ptr) option ck" where
  "ber_encode_DSAPrivateKey length_only mem prime1 prime2 base priv_key =
     dss_encode_private ber_idDSA (\<lambda>a. Some (behind a)) length_only mem [prime1, prime2, base] priv_key"

definition ber_encode_DHPrivateKey ::
    "bool \<Rightarrow> (nat \<Rightarrow> malloc) \<Rightarrow> ck_attribute \<Rightarrow> ck_attribute \<Rightarrow> ck_attribute \<Rightarrow> (nat \<times> ptr) option ck" where
  "ber_encode_DHPrivateKey length_only mem prime base priv_key =
     dss_encode_private ber_idDH pValue length_only mem [prime, base] priv_key"

text \<open>
  The parameters are decoded from \<^verbatim>\<open>alg + identLen\<close> with the length \<^verbatim>\<open>len - identLen\<close>, an unsigned
  subtraction. The attributes are in the order of the output parameters.
\<close>

definition dss_decode_private ::
    "byte list \<Rightarrow> cka list \<Rightarrow> (nat \<Rightarrow> malloc) \<Rightarrow> ptr \<Rightarrow> nat \<Rightarrow> ck_attribute list ck" where
  "dss_decode_private ident tys mem data data_len =
     ck_bind (ber_decode_PrivateKeyInfo data data_len) (\<lambda>(alg, len, key, key_len). do {
       differs \<leftarrow> memcmp_differs alg ident;
       if differs then ck_fail CKR_FUNCTION_FAILED
       else
         ck_bind (ber_decode_SEQUENCE (Some (drop (length ident) alg)) (ulong_sub len (length ident))) (\<lambda>(buf, buf_len, _).
         ck_bind (ber_skip_INTEGERs (length tys) buf buf_len 0) (\<lambda>offset.
         if offset > buf_len then ck_fail CKR_FUNCTION_FAILED
         else
           ck_bind (ber_build_INTEGERs mem tys buf buf_len 0) (\<lambda>attrs.
           ck_bind (ber_decode_INTEGER (Some key) key_len) (\<lambda>(tmp, len, _).
           ck_bind (build_attribute (mem (length tys)) CKA_VALUE (Some tmp) len) (\<lambda>x_attr.
           ck_ok (attrs @ [x_attr])))))) })"

definition ber_decode_DSAPrivateKey :: "(nat \<Rightarrow> malloc) \<Rightarrow> ptr \<Rightarrow> nat \<Rightarrow> ck_attribute list ck" where
  "ber_decode_DSAPrivateKey = dss_decode_private ber_idDSA [CKA_PRIME, CKA_SUBPRIME, CKA_BASE]"

definition ber_decode_DHPrivateKey :: "(nat \<Rightarrow> malloc) \<Rightarrow> ptr \<Rightarrow> nat \<Rightarrow> ck_attribute list ck" where
  "ber_decode_DHPrivateKey = dss_decode_private ber_idDH [CKA_PRIME, CKA_BASE]"

section \<open>Public keys\<close>

text \<open>The run of \<^verbatim>\<open>ber_decode_INTEGER\<close> calls of the public key decoders: data and lengths.\<close>

fun ber_read_INTEGERs :: "nat \<Rightarrow> byte list \<Rightarrow> nat \<Rightarrow> nat \<Rightarrow> (byte list \<times> nat) list ck" where
  "ber_read_INTEGERs 0 seq seq_len offset = ck_ok []"
| "ber_read_INTEGERs (Suc k) seq seq_len offset =
     ck_bind (ber_decode_INTEGER (Some (drop offset seq)) (seq_len - offset)) (\<lambda>(d, l, field_len).
     ck_bind (ber_read_INTEGERs k seq seq_len (offset + field_len)) (\<lambda>xs. ck_ok ((d, l) # xs)))"

fun build_attributes :: "(nat \<Rightarrow> malloc) \<Rightarrow> (cka \<times> byte list \<times> nat) list \<Rightarrow> ck_attribute list ck" where
  "build_attributes mem [] = ck_ok []"
| "build_attributes mem ((ty, d, l) # xs) =
     ck_bind (build_attribute (mem 0) ty (Some d) l) (\<lambda>attr.
     ck_bind (build_attributes (\<lambda>i. mem (Suc i)) xs) (\<lambda>attrs. ck_ok (attr # attrs)))"

definition dss_decode_public ::
    "byte list \<Rightarrow> cka list \<Rightarrow> (nat \<Rightarrow> malloc) \<Rightarrow> ptr \<Rightarrow> nat \<Rightarrow> ck_attribute list ck" where
  "dss_decode_public ident tys mem data data_len =
     ck_bind (ber_decode_SPKI data data_len) (\<lambda>(algid, _, param, param_len, val, val_len). do {
       differs \<leftarrow> memcmp_differs algid ident;
       if differs then ck_fail CKR_FUNCTION_FAILED
       else
         ck_bind (ber_decode_SEQUENCE (Some param) param_len) (\<lambda>(seq, seq_len, _).
         ck_bind (ber_read_INTEGERs (length tys) seq seq_len 0) (\<lambda>ps.
         ck_bind (ber_decode_INTEGER (Some val) val_len) (\<lambda>(v, v_len, _).
         build_attributes mem (zip tys ps @ [(CKA_VALUE, v, v_len)])))) })"

definition ber_decode_DSAPublicKey :: "(nat \<Rightarrow> malloc) \<Rightarrow> ptr \<Rightarrow> nat \<Rightarrow> ck_attribute list ck" where
  "ber_decode_DSAPublicKey = dss_decode_public ber_idDSA [CKA_PRIME, CKA_SUBPRIME, CKA_BASE]"

definition ber_decode_DHPublicKey :: "(nat \<Rightarrow> malloc) \<Rightarrow> ptr \<Rightarrow> nat \<Rightarrow> ck_attribute list ck" where
  "ber_decode_DHPublicKey = dss_decode_public ber_idDH [CKA_PRIME, CKA_BASE]"

text \<open>
  The length variable shared by the length computations keeps the value of the last call that
  succeeded.
\<close>

definition ber_stale_len :: "nat list \<Rightarrow> nat" where
  "ber_stale_len ns =
     fold (\<lambda>n l. case ber_encode_INTEGER True (\<lambda>_. None) None n of Some (Inr (len, _)) \<Rightarrow> len | _ \<Rightarrow> l) ns 0"

text \<open>The container length computed first: the size of the algorithm identifier.\<close>

definition dss_id_len :: "byte list \<Rightarrow> nat list \<Rightarrow> nat ck" where
  "dss_id_len ident ns =
     ck_bind (ber_len_INTEGERs ns) (\<lambda>offset.
     ck_bind (ber_encode_SEQUENCE True (\<lambda>_. None) None offset) (\<lambda>(parm_len, _).
     ck_bind (ber_encode_SEQUENCE True (\<lambda>_. None) None (length ident + parm_len)) (\<lambda>(id_len, _). ck_ok id_len)))"

text \<open>The last part: the value as a BIT STRING behind the identifier, in the outer SEQUENCE.\<close>

definition dss_public_finish ::
    "(byte list \<Rightarrow> byte list option) \<Rightarrow> (nat \<Rightarrow> malloc) \<Rightarrow> ck_attribute \<Rightarrow> nat \<Rightarrow> ptr \<Rightarrow> (nat \<times> ptr) ck" where
  "dss_public_finish put_bitstring mem value id_len ident =
     ck_bind (ber_encode_INTEGER False (mem 0) (pValue value) (ulValueLen value)) (\<lambda>(len, buf). do {
       content \<leftarrow> copy_plain buf len;
       case put_bitstring content of
         None \<Rightarrow> ck_fail CKR_FUNCTION_FAILED
       | Some val \<Rightarrow>
           if length val > 2 ^ 64 - 1 - id_len then ck_fail CKR_HOST_MEMORY
           else (case mem 1 (id_len + length val) of
             None \<Rightarrow> ck_fail CKR_HOST_MEMORY
           | Some buf \<Rightarrow> do {
               buf \<leftarrow> memcpy_at buf 0 ident id_len;
               buf \<leftarrow> put_bytes buf id_len val;
               ber_encode_SEQUENCE False (mem 2) (Some buf) (id_len + length val) }) })"

text \<open>
  The public key: \<open>put_bitstring\<close> stands for liblber as in the RSA case. Its result is awaited
  before the error of an earlier call is looked at; when the INTEGER could not be encoded it is
  called with a NULL string of the stale length, which is undefined unless that length is 0.
\<close>

definition dss_encode_public ::
    "(byte list \<Rightarrow> byte list option) \<Rightarrow> byte list \<Rightarrow> bool \<Rightarrow> (nat \<Rightarrow> malloc) \<Rightarrow> ck_attribute list \<Rightarrow> ck_attribute \<Rightarrow>
     (nat \<times> ptr) ck" where
  "dss_encode_public put_bitstring ident length_only mem params value =
     (let k = length params in
      case ber_encode_INTEGER False (mem 0) (pValue value) (ulValueLen value) of
        None \<Rightarrow> None
      | Some (Inl _) \<Rightarrow> if ber_stale_len (map ulValueLen params) = 0 then ck_fail CKR_FUNCTION_FAILED else None
      | Some (Inr (len, buf)) \<Rightarrow> do {
          content \<leftarrow> copy_plain buf len;
          case put_bitstring content of
            None \<Rightarrow> ck_fail CKR_FUNCTION_FAILED
          | Some val \<Rightarrow>
              (case dss_id_len ident (map ulValueLen params) of
                 None \<Rightarrow> None
               | Some (Inl _) \<Rightarrow> ck_fail CKR_FUNCTION_FAILED
               | Some (Inr id_len) \<Rightarrow>
                   ck_bind (ber_encode_SEQUENCE True (mem 0) None (id_len + length val)) (\<lambda>(total_len, _).
                   if length_only then ck_ok (total_len, None)
                   else if length val > 2 ^ 64 - 1 - id_len then ck_fail CKR_HOST_MEMORY
                   else case mem 1 (id_len + length val) of
                     None \<Rightarrow> ck_fail CKR_HOST_MEMORY
                   | Some buf \<Rightarrow>
                       ck_bind (ber_put_INTEGERs (\<lambda>i. mem (i + 2)) buf 0 (map (\<lambda>a. (pValue a, ulValueLen a)) params)) (\<lambda>(buf, offset).
                       ck_bind (ber_encode_SEQUENCE False (mem (k + 2)) (Some buf) offset) (\<lambda>(parm_len, buf2). do {
                         buf \<leftarrow> memcpy_at buf 0 (Some ident) (length ident);
                         buf \<leftarrow> memcpy_at buf (length ident) buf2 parm_len;
                         ck_bind (ber_encode_SEQUENCE False (mem (k + 3)) (Some buf) (length ident + parm_len)) (\<lambda>(id_len, buf2).
                         dss_public_finish put_bitstring (\<lambda>i. mem (i + k + 4)) value id_len buf2) })))) })"

definition ber_encode_DSAPublicKey ::
    "(byte list \<Rightarrow> byte list option) \<Rightarrow> bool \<Rightarrow> (nat \<Rightarrow> malloc) \<Rightarrow> ck_attribute \<Rightarrow> ck_attribute \<Rightarrow> ck_attribute \<Rightarrow> ck_attribute \<Rightarrow>
     (nat \<times> ptr) ck" where
  "ber_encode_DSAPublicKey put_bitstring length_only mem prime subprime base value =
     dss_encode_public put_bitstring ber_idDSA length_only mem [prime, subprime, base] value"

definition ber_encode_DHPublicKey ::
    "(byte list \<Rightarrow> byte list option) \<Rightarrow> bool \<Rightarrow> (nat \<Rightarrow> malloc) \<Rightarrow> ck_attribute \<Rightarrow> ck_attribute \<Rightarrow> ck_attribute \<Rightarrow> (nat \<times> ptr) ck" where
  "ber_encode_DHPublicKey put_bitstring length_only mem prime base value =
     dss_encode_public put_bitstring ber_idDH length_only mem [prime, base] value"

end
