(* ===== verification/Ber_Dss_Facts.thy ===== *)
theory Ber_Dss_Facts
  imports Ber_Keys_Facts Ber_Dss
begin

text \<open>
  Facts on DSA and DH keys: round trips, the length announced, a failed allocation reported as
  success, and the inputs on which the DSA decoder leaves its buffer.
\<close>

section \<open>Encoding\<close>

definition dss_alg :: "byte list \<Rightarrow> byte list list \<Rightarrow> byte list" where
  "dss_alg ident ps = ident @ ber_tlv 0x30 (ints_der ps)"

definition dss_der :: "byte list \<Rightarrow> byte list list \<Rightarrow> byte list \<Rightarrow> byte list" where
  "dss_der ident ps x = pki_der (ber_tlv 0x30 (dss_alg ident ps)) (ber_int x)"

text \<open>A key small enough for three length octets everywhere.\<close>

definition dss_small :: "byte list list \<Rightarrow> byte list \<Rightarrow> bool" where
  "dss_small ps x \<longleftrightarrow> length ps \<le> 3 \<and> sum_list (map length ps) + length x + 128 < 2 ^ 24"

lemma dss_sizes:
  assumes "dss_small ps x" "length ident \<le> 11"
  shows "\<forall>p \<in> set ps. length p + 1 < 2 ^ 24" "length x + 1 < 2 ^ 24" "length (ber_int_content x) < 2 ^ 24"
    "sum_list (map (\<lambda>p. ber_int_bound (length p)) ps) < 2 ^ 24"
    "length (ints_der ps) < 2 ^ 24" "length (dss_alg ident ps) < 2 ^ 24"
    "length (dss_alg ident ps) + length (ber_int x) + 13 < 2 ^ 24"
proof -
  let ?s = "sum_list (map length ps)"
  have s: "?s + length x + 128 < 2 ^ 24" "length ps \<le> 3" using assms(1) by (auto simp: dss_small_def)
  have "length p \<le> ?s" if "p \<in> set ps" for p using that by (simp add: member_le_sum_list)
  then show "\<forall>p \<in> set ps. length p + 1 < 2 ^ 24" using s by fastforce
  show x: "length x + 1 < 2 ^ 24" using s by simp
  then show "length (ber_int_content x) < 2 ^ 24" using length_ber_int_content(1) [of x] by linarith
  have b: "sum_list (map (\<lambda>p. ber_int_bound (length p)) ps) \<le> ?s + 18" using sum_int_bound [of ps] s by linarith
  then show "sum_list (map (\<lambda>p. ber_int_bound (length p)) ps) < 2 ^ 24" using s by linarith
  have i: "length (ints_der ps) \<le> ?s + 18" using length_ints_der_le [of ps] b by linarith
  then show "length (ints_der ps) < 2 ^ 24" using s by linarith
  have a: "length (dss_alg ident ps) \<le> ?s + 34"
    using i assms(2) ber_field_len_bounds(2) [of "length (ints_der ps)"]
    unfolding dss_alg_def length_append length_ber_tlv by linarith
  then show "length (dss_alg ident ps) < 2 ^ 24" using s by linarith
  have "length (ber_int x) \<le> length x + 6"
    using length_ber_int [of x] ber_int_bound_le [of "length x"] by linarith
  then show "length (dss_alg ident ps) + length (ber_int x) + 13 < 2 ^ 24" using a s by linarith
qed

text \<open>Reading a value behind the attribute or through its pointer gives the same encoding.\<close>

definition reads :: "(ck_attribute \<Rightarrow> ptr) \<Rightarrow> bool" where
  "reads src \<longleftrightarrow> (\<forall>a. attr_wf a \<longrightarrow> src a = Some (behind a) \<or> src a = None \<and> behind a = [])"

lemma reads_simps [simp]: "reads (\<lambda>a. Some (behind a))" "reads pValue"
  by (auto simp: reads_def attr_wfD)

lemma ber_encode_INTEGER_src:
  assumes "reads src" "attr_wf a"
  shows "ber_encode_INTEGER False mem (src a) (ulValueLen a) = ber_encode_INTEGER False mem (Some (behind a)) (length (behind a))"
proof -
  have "src a = Some (behind a) \<or> src a = None \<and> behind a = []" using assms by (simp add: reads_def)
  then show ?thesis
  proof
    assume "src a = None \<and> behind a = []"
    then show ?thesis using attr_wfD(1) [OF assms(2)]
      by (simp add: ber_encode_INTEGER_def ber_int_padding_def copy_guarded_def)
  qed (simp add: attr_wfD(1) [OF assms(2)])
qed

lemma ber_put_INTEGERs_src:
  assumes "reads src" "list_all attr_wf as"
  shows "ber_put_INTEGERs mem buf off (map (\<lambda>a. (src a, ulValueLen a)) as)
    = ber_put_INTEGERs mem buf off (map (\<lambda>x. (Some x, length x)) (map behind as))"
  using assms(2)
proof (induction as arbitrary: mem buf off)
  case (Cons a as)
  then show ?case by (simp add: ber_encode_INTEGER_src [OF assms(1)])
qed simp

lemma ber_put_INTEGERs_cong:
  assumes "\<forall>i < length ps. mem i = mem' i"
  shows "ber_put_INTEGERs mem buf off ps = ber_put_INTEGERs mem' buf off ps"
  using assms
proof (induction ps arbitrary: mem mem' buf off)
  case (Cons p ps)
  have "mem 0 = mem' 0" "\<And>b o'. ber_put_INTEGERs (\<lambda>i. mem (Suc i)) b o' ps = ber_put_INTEGERs (\<lambda>i. mem' (Suc i)) b o' ps"
    using Cons.prems by (auto intro!: Cons.IH)
  then show ?case by (cases p) simp
qed simp

text \<open>
  The encoder up to the allocation of the identifier, when the allocations before it succeed.
\<close>

lemma dss_encode_front:
  assumes "\<forall>i \<le> length params + 1. malloc_sized (mem i) \<and> (\<forall>n. mem i n \<noteq> None)"
    and "reads src" "list_all attr_wf params" "dss_small (map behind params) x" "length ident \<le> 11"
    and "param = ber_tlv 0x30 (ints_der (map behind params))" "k = length params"
  shows "dss_encode_private ident src False mem params priv_key =
    (case mem (k + 2) (length ident + length param) of
       None \<Rightarrow> ck_ok None
     | Some buf \<Rightarrow> do {
         buf \<leftarrow> memcpy_at buf 0 (Some ident) (length ident);
         buf \<leftarrow> memcpy_at buf (length ident) (Some param) (length param);
         ck_bind (ber_encode_SEQUENCE False (mem (k + 3)) (Some buf) (length ident + length param)) (\<lambda>(alg_len, alg).
         ck_bind (ber_encode_INTEGER False (mem (k + 4)) (src priv_key) (ulValueLen priv_key)) (\<lambda>(len, buf).
         ck_bind (ber_encode_PrivateKeyInfo False (\<lambda>i. mem (i + k + 5)) alg alg_len buf len) (\<lambda>r. ck_ok (Some r)))) })"
proof -
  define mem0 where "mem0 = (\<lambda>i. if i \<le> k + 1 then mem i else (\<lambda>n. Some (replicate n 0)))"
  have m0: "mallocs True mem0" using assms(1,7) by (auto simp: mem0_def mallocs_def malloc_sized_def)
  note sz = dss_sizes [OF assms(4,5)]
  let ?xs = "map behind params"
  let ?off = "sum_list (map (\<lambda>p. ber_int_bound (length p)) ?xs)"
  have len: "map ulValueLen params = map length ?xs" using assms(3) by (simp add: list_all_iff attr_wfD)
  have off: "ber_len_INTEGERs (map ulValueLen params) = ck_ok ?off"
    unfolding len using ber_len_INTEGERs_ok [of "map length ?xs"] sz(1) by (simp add: o_def)
  obtain buf where buf: "mem 0 ?off = Some buf" "length buf = ?off"
    using assms(1) malloc_sizedD [of "mem 0" ?off] by fastforce
  have "ber_put_INTEGERs (\<lambda>i. mem (i + 1)) buf 0 (map (\<lambda>x. (Some x, length x)) ?xs)
      = ber_put_INTEGERs (\<lambda>i. mem0 (i + 1)) buf 0 (map (\<lambda>x. (Some x, length x)) ?xs)"
    by (rule ber_put_INTEGERs_cong) (simp add: mem0_def assms(7))
  also have "\<dots> = ck_ok (ints_der ?xs @ drop (length (ints_der ?xs)) buf, length (ints_der ?xs))"
    using ber_put_INTEGERs_delivers [OF mallocs_shift [OF m0, of "\<lambda>i. i + 1"], of "[]" 0 ?xs buf] sz(1) buf(2)
      length_ints_der_le [of ?xs] by simp
  finally have put: "ber_put_INTEGERs (\<lambda>i. mem (i + 1)) buf 0 (map (\<lambda>a. (src a, ulValueLen a)) params)
      = ck_ok (ints_der ?xs @ drop (length (ints_der ?xs)) buf, length (ints_der ?xs))"
    by (simp only: ber_put_INTEGERs_src [OF assms(2,3)])
  have "ber_encode_SEQUENCE False (mem0 (k + 1)) (Some (ints_der ?xs @ r)) (length (ints_der ?xs)) = ck_ok (length param, Some param)" for r
    using ber_encode_SEQUENCE_wire [OF mallocs_sized [OF m0], of "ints_der ?xs" _ "k + 1" r] sz(5)
      delivers_result [OF m0, of "k + 1" param] assms(6) by simp
  then have seq: "ber_encode_SEQUENCE False (mem (k + 1)) (Some (ints_der ?xs @ r)) (length (ints_der ?xs))
      = ck_ok (length param, Some param)" for r by (simp add: mem0_def)
  show ?thesis unfolding dss_encode_private_def Let_def off assms(7) [symmetric] ck_bind_simps if_False buf(1) option.case put
      prod.case seq ..
qed

lemma dss_encode_back:
  assumes "mallocs True mem" "reads src" "list_all attr_wf (priv_key # params)"
    "dss_small (map behind params) (behind priv_key)" "length ident \<le> 11"
  shows "dss_encode_private ident src False mem params priv_key =
    ck_ok (Some (length (dss_der ident (map behind params) (behind priv_key)),
      Some (dss_der ident (map behind params) (behind priv_key))))"
proof -
  let ?xs = "map behind params" and ?x = "behind priv_key"
  define param where "param = ber_tlv 0x30 (ints_der ?xs)"
  define k where "k = length params"
  note sz = dss_sizes [OF assms(4,5)]
  have wf: "attr_wf priv_key" "list_all attr_wf params" using assms(3) by simp_all
  note sized = mallocs_sized [OF assms(1)]
  have res: "ber_result (mem i) w = ck_ok (length w, Some w)" for i w using delivers_result [OF assms(1), of i w] by simp
  obtain buf where buf: "mem (k + 2) (length ident + length param) = Some buf" "length buf = length ident + length param"
    using assms(1) malloc_sizedD [OF sized [of "k + 2"]] unfolding mallocs_def by blast
  have alg: "ident @ param = dss_alg ident ?xs" by (simp add: dss_alg_def param_def)
  have fill: "memcpy_at buf 0 (Some ident) (length ident) = Some (ident @ drop (length ident) buf)"
    "memcpy_at (ident @ drop (length ident) buf) (length ident) (Some param) (length param) = Some (ident @ param)"
    using memcpy_at_append [of "[]" 0 ident _ buf] memcpy_at_append [of ident _ param _ "drop (length ident) buf"] buf(2)
    by simp_all
  have small: "length (ident @ param) < 2 ^ 24" using sz(6) by (simp only: alg)
  have seq: "ber_encode_SEQUENCE False (mem (k + 3)) (Some (ident @ param)) (length ident + length param)
      = ck_ok (length (ber_tlv 0x30 (ident @ param)), Some (ber_tlv 0x30 (ident @ param)))"
    using ber_encode_SEQUENCE_wire [OF sized small length_append [symmetric], of "k + 3" "[]"]
    by (simp only: append_Nil2 res)
  have int: "ber_encode_INTEGER False (mem (k + 4)) (src priv_key) (ulValueLen priv_key) = ck_ok (length (ber_int ?x), Some (ber_int ?x))"
    using ber_encode_INTEGER_wire [OF sized sz(3) refl, of "k + 4" "[]"] res by (simp add: ber_encode_INTEGER_src [OF assms(2) wf(1)])
  have "length (ber_tlv 0x30 (ident @ param)) + length (ber_int ?x) + 8 < 2 ^ 24"
    using sz(7) ber_field_len_bounds(2) [of "length (ident @ param)"] unfolding alg length_ber_tlv by linarith
  then have pki: "ber_encode_PrivateKeyInfo False (\<lambda>i. mem (i + k + 5)) (Some (ber_tlv 0x30 (ident @ param)))
      (length (ber_tlv 0x30 (ident @ param))) (Some (ber_int ?x)) (length (ber_int ?x))
      = ck_ok (length (dss_der ident ?xs ?x), Some (dss_der ident ?xs ?x))"
    using ber_encode_PrivateKeyInfo_delivers [OF mallocs_shift [OF assms(1), of "\<lambda>i. i + k + 5"] refl refl,
        of "ber_tlv 0x30 (ident @ param)" "ber_int ?x"] by (simp add: dss_der_def alg)
  have "\<forall>i \<le> length params + 1. malloc_sized (mem i) \<and> (\<forall>n. mem i n \<noteq> None)" using assms(1) by (simp add: mallocs_def)
  from dss_encode_front [OF this assms(2) wf(2) assms(4,5) param_def k_def]
  show ?thesis using buf fill seq int pki by simp
qed

section \<open>Decoding what was encoded\<close>

lemma dss_decode_delivers:
  assumes "mallocs sure mem" "dss_small ps x" "length ident \<le> 11" "length tys = length ps"
    "length (dss_der ident ps x) \<le> n"
  shows "delivers sure (dss_decode_private ident tys mem (Some (dss_der ident ps x @ rest)) n)
    (map2 (\<lambda>ty p. mk_attr ty (ber_int_norm p)) tys ps @ [mk_attr CKA_VALUE (ber_int_norm x)])"
proof -
  define param where "param = ber_tlv 0x30 (ints_der ps)"
  define alg where "alg = dss_alg ident ps"
  define key where "key = ber_int x"
  note sz = dss_sizes [OF assms(2,3), folded alg_def]
  have alg: "alg = ident @ param" by (simp add: alg_def dss_alg_def param_def)
  define tail where "tail = ber_tlv 0x04 key @ rest"
  have pki: "ber_decode_PrivateKeyInfo (Some (dss_der ident ps x @ rest)) n = ck_ok (alg @ tail, length alg, key @ rest, length key)"
    using ber_decode_PrivateKeyInfo_wire [of alg key n rest] sz(7) assms(5)
    by (simp add: dss_der_def alg_def key_def tail_def)
  have seq: "ber_decode_SEQUENCE (Some (drop (length ident) (alg @ tail))) (ulong_sub (length alg) (length ident))
      = ck_ok (ints_der ps @ tail, length (ints_der ps), length param)"
    using ber_sequence.dec_wire [of "ints_der ps" "length param" tail] sz(5) by (simp add: alg ulong_sub_def param_def)
  have skip: "ber_skip_INTEGERs (length tys) (ints_der ps @ tail) (length (ints_der ps)) 0 = ck_ok (length (ints_der ps))"
    using ber_skip_INTEGERs_wire [of "[]" 0 ps "length (ints_der ps)" "length tys" tail] sz(1) assms(4) by simp
  have bld: "delivers sure (ber_build_INTEGERs mem tys (ints_der ps @ tail) (length (ints_der ps)) 0)
      (map2 (\<lambda>ty p. mk_attr ty (ber_int_norm p)) tys ps)"
    using ber_build_INTEGERs_delivers [OF assms(1), of "[]" 0 ps _ tys tail] sz(1) assms(4) by simp
  have int: "ber_decode_INTEGER (Some (key @ rest)) (length key) = ck_ok (ber_int_norm x @ rest, length (ber_int_norm x), length key)"
    using ber_integer.dec_wire [OF sz(3), of "length key" rest] by (simp add: key_def)
  have val: "delivers sure (build_attribute (mem (length tys)) CKA_VALUE (Some (ber_int_norm x @ rest)) (length (ber_int_norm x)))
      (mk_attr CKA_VALUE (ber_int_norm x))"
    using build_attribute_delivers [OF assms(1), of "length (ber_int_norm x)" "ber_int_norm x @ rest"] by simp
  have cmp: "memcmp_differs (alg @ tail) ident = Some False" by (simp add: alg memcmp_same)
  show ?thesis unfolding dss_decode_private_def pki ck_bind_simps prod.case cmp seq skip
    by (simp add: seq skip) (auto intro!: delivers_bind [OF bld] delivers_bind [OF val] simp: int)
qed

lemma dss_decode_whole:
  assumes "mallocs True mem" "dss_small ps x" "length ident \<le> 11" "length tys = length ps"
  shows "\<forall>rest. dss_decode_private ident tys mem (Some (dss_der ident ps x @ rest)) (length (dss_der ident ps x @ rest)) =
    ck_ok (map2 (\<lambda>ty p. mk_attr ty (ber_int_norm p)) tys ps @ [mk_attr CKA_VALUE (ber_int_norm x)])"
  using dss_decode_delivers [OF assms] by simp

text \<open>
  C16: DSA and DH private keys survive encoding and decoding: when the allocations succeed and the
  components are small enough for three length octets, the encoder yields a buffer from which
  the decoder gives back the domain parameters and the private value, without leading zero
  bytes, whatever follows the buffer.
\<close>

theorem dss_private_key_roundtrip:
  assumes "mallocs True mem" "mallocs True mem'" "list_all attr_wf [p, q, g, x]"
    "ulValueLen p + ulValueLen q + ulValueLen g + ulValueLen x + 128 < 2 ^ 24"
  shows "(\<exists>der. ber_encode_DSAPrivateKey False mem p q g x = ck_ok (Some (length der, Some der)) \<and>
      (\<forall>rest. ber_decode_DSAPrivateKey mem' (Some (der @ rest)) (length (der @ rest)) =
         ck_ok [mk_attr CKA_PRIME (ber_int_norm (behind p)), mk_attr CKA_SUBPRIME (ber_int_norm (behind q)),
           mk_attr CKA_BASE (ber_int_norm (behind g)), mk_attr CKA_VALUE (ber_int_norm (behind x))]))
    \<and> (\<exists>der. ber_encode_DHPrivateKey False mem p g x = ck_ok (Some (length der, Some der)) \<and>
      (\<forall>rest. ber_decode_DHPrivateKey mem' (Some (der @ rest)) (length (der @ rest)) =
         ck_ok [mk_attr CKA_PRIME (ber_int_norm (behind p)), mk_attr CKA_BASE (ber_int_norm (behind g)),
           mk_attr CKA_VALUE (ber_int_norm (behind x))]))"
proof
  have ids: "length ber_idDSA \<le> 11" "length ber_idDH \<le> 11" by (simp_all add: ber_idDSA_def ber_idDH_def)
  have dsa: "dss_small (map behind [p, q, g]) (behind x)" and dh: "dss_small (map behind [p, g]) (behind x)"
    using assms(3,4) by (auto simp: dss_small_def attr_wfD)
  have wf: "list_all attr_wf (x # [p, q, g])" "list_all attr_wf (x # [p, g])" using assms(3) by simp_all
  note dsa_dec = dss_decode_whole [OF assms(2) dsa ids(1), of "[CKA_PRIME, CKA_SUBPRIME, CKA_BASE]"]
    and dh_dec = dss_decode_whole [OF assms(2) dh ids(2), of "[CKA_PRIME, CKA_BASE]"]
  show "\<exists>der. ber_encode_DSAPrivateKey False mem p q g x = ck_ok (Some (length der, Some der)) \<and>
      (\<forall>rest. ber_decode_DSAPrivateKey mem' (Some (der @ rest)) (length (der @ rest)) =
         ck_ok [mk_attr CKA_PRIME (ber_int_norm (behind p)), mk_attr CKA_SUBPRIME (ber_int_norm (behind q)),
           mk_attr CKA_BASE (ber_int_norm (behind g)), mk_attr CKA_VALUE (ber_int_norm (behind x))])"
    unfolding ber_encode_DSAPrivateKey_def ber_decode_DSAPrivateKey_def
      dss_encode_back [OF assms(1) reads_simps(1) wf(1) dsa ids(1)] using dsa_dec by (intro exI conjI) simp_all
  show "\<exists>der. ber_encode_DHPrivateKey False mem p g x = ck_ok (Some (length der, Some der)) \<and>
      (\<forall>rest. ber_decode_DHPrivateKey mem' (Some (der @ rest)) (length (der @ rest)) =
         ck_ok [mk_attr CKA_PRIME (ber_int_norm (behind p)), mk_attr CKA_BASE (ber_int_norm (behind g)),
           mk_attr CKA_VALUE (ber_int_norm (behind x))])"
    unfolding ber_encode_DHPrivateKey_def ber_decode_DHPrivateKey_def
      dss_encode_back [OF assms(1) reads_simps(2) wf(2) dh ids(2)] using dh_dec by (intro exI conjI) simp_all
qed

theorem dss_private_key_roundtrip_witness:
  "\<exists>der. ber_encode_DHPrivateKey False zero_mem (mk_attr CKA_PRIME [0xF1]) (mk_attr CKA_BASE [2]) (mk_attr CKA_VALUE [0, 9])
      = ck_ok (Some (length der, Some der)) \<and>
    (\<forall>rest. ber_decode_DHPrivateKey zero_mem (Some (der @ rest)) (length (der @ rest)) =
         ck_ok [mk_attr CKA_PRIME [0xF1], mk_attr CKA_BASE [2], mk_attr CKA_VALUE [9]])"
  using conjunct2 [OF dss_private_key_roundtrip [OF mallocs_zero_mem mallocs_zero_mem,
      of "mk_attr CKA_PRIME [0xF1]" "mk_attr CKA_SUBPRIME []" "mk_attr CKA_BASE [2]" "mk_attr CKA_VALUE [0, 9]"]]
  by (simp add: ber_int_norm_def)

section \<open>The length announced\<close>

definition top_bit :: "byte list \<Rightarrow> bool" where
  "top_bit v \<longleftrightarrow> v \<noteq> [] \<and> and (hd v) 0x80 \<noteq> 0"

lemma length_ber_int_top: "top_bit v \<Longrightarrow> length (ber_int v) = ber_int_bound (length v)"
  by (auto simp: top_bit_def length_ber_tlv ber_int_content_def ber_int_bound_def)

lemma length_ints_der_top:
  "list_all top_bit ps \<Longrightarrow> length (ints_der ps) = sum_list (map (\<lambda>p. ber_int_bound (length p)) ps)"
  by (induction ps) (simp_all add: length_ber_int_top)

lemma ber_field_len_strict: "m < n \<Longrightarrow> ber_field_len m < ber_field_len n"
  by (simp add: ber_field_len_def)

lemma dss_encode_len:
  assumes "list_all attr_wf (priv_key # params)" "dss_small (map behind params) (behind priv_key)" "length ident \<le> 11"
  shows "dss_encode_private ident src True mem params priv_key = ck_ok (Some (ber_field_len (3 +
    (length ident + ber_field_len (sum_list (map (\<lambda>p. ber_int_bound (length p)) (map behind params))))
    + ber_field_len (ber_int_bound (length (behind priv_key)))), None))"
proof -
  let ?off = "sum_list (map (\<lambda>p. ber_int_bound (length p)) (map behind params))"
  note sz = dss_sizes [OF assms(2,3)]
  have len: "map ulValueLen params = map length (map behind params)" using assms(1) by (simp add: list_all_iff attr_wfD)
  have off: "ber_len_INTEGERs (map ulValueLen params) = ck_ok ?off"
    unfolding len using ber_len_INTEGERs_ok [of "map length (map behind params)"] sz(1) by (simp add: o_def)
  have x: "ulValueLen priv_key = length (behind priv_key)" using assms(1) by (simp add: attr_wfD)
  have "?off \<le> sum_list (map length (map behind params)) + 18" "length (behind priv_key) + 128 + sum_list (map length (map behind params)) < 2 ^ 24"
    using sum_int_bound [of "map behind params"] assms(2) by (auto simp: dss_small_def)
  then have b: "ber_int_bound (length (behind priv_key)) < 2 ^ 24"
    "3 + (length ident + ber_field_len ?off) + ber_field_len (ber_int_bound (length (behind priv_key))) < 2 ^ 24"
    using ber_int_bound_le [of "length (behind priv_key)"] ber_field_len_bounds(2) [of ?off] assms(3)
      ber_field_len_bounds(2) [of "ber_int_bound (length (behind priv_key))"] by linarith+
  have ver: "ber_encode_INTEGER True (mem 0) (Some [0]) 1 = ck_ok (3, None)"
    by (simp add: ber_encode_INTEGER_def ber_int_padding_def ber_emit_def ber_field_len_def)
  show ?thesis using sz(2,4) b unfolding dss_encode_private_def off
    by (simp add: ber_encode_SEQUENCE_def ber_emit_def x ber_encode_INTEGER_len ber_encode_PrivateKeyInfo_def ver [simplified]
        ber_encode_OCTET_STRING_def Let_def)
qed

lemma dss_announced_short:
  assumes "list_all attr_wf (priv_key # params)" "dss_small (map behind params) (behind priv_key)" "length ident \<le> 11"
    "list_all top_bit (map behind (priv_key # params))" "mallocs True mem" "reads src"
  shows "\<exists>l der. dss_encode_private ident src True mem params priv_key = ck_ok (Some (l, None)) \<and>
    dss_encode_private ident src False mem params priv_key = ck_ok (Some (length der, Some der)) \<and> l < length der"
proof -
  let ?ps = "map behind params" and ?x = "behind priv_key"
  let ?off = "sum_list (map (\<lambda>p. ber_int_bound (length p)) ?ps)"
  have "length (ints_der ?ps) = ?off" "length (ber_int ?x) = ber_int_bound (length ?x)"
    using assms(4) length_ints_der_top [of ?ps] length_ber_int_top [of ?x] by simp_all
  then have "length (dss_der ident ?ps ?x) = ber_field_len (3 + ber_field_len (length ident + ber_field_len ?off)
      + ber_field_len (ber_int_bound (length ?x)))"
    by (simp add: dss_der_def pki_der_def dss_alg_def length_ber_tlv [of "0x30"] length_ber_tlv [of "0x04"] numeral_3_eq_3)
  moreover have "ber_field_len (3 + (length ident + ber_field_len ?off) + ber_field_len (ber_int_bound (length ?x)))
      < ber_field_len (3 + ber_field_len (length ident + ber_field_len ?off) + ber_field_len (ber_int_bound (length ?x)))"
    using ber_field_len_bounds(1) [of "length ident + ber_field_len ?off"] by (intro ber_field_len_strict) linarith
  ultimately show ?thesis
    using dss_encode_len [OF assms(1-3)] dss_encode_back [OF assms(5,6,1,2,3)] by auto
qed

text \<open>
  The length the DSA and DH encoders announce leaves out the header of the algorithm
  identifier. When the first byte of every component has its top bit set, so that no room
  reserved for padding makes up for it, the announced length is smaller than the encoding.
\<close>

lemma dss_announced_length_short:
  assumes "list_all attr_wf [p, q, g, x]" "list_all top_bit (map behind [p, q, g, x])" "mallocs True mem"
    "ulValueLen p + ulValueLen q + ulValueLen g + ulValueLen x + 128 < 2 ^ 24"
  shows "(\<exists>l der. ber_encode_DSAPrivateKey True mem p q g x = ck_ok (Some (l, None)) \<and>
      ber_encode_DSAPrivateKey False mem p q g x = ck_ok (Some (length der, Some der)) \<and> l < length der)
    \<and> (\<exists>l der. ber_encode_DHPrivateKey True mem p g x = ck_ok (Some (l, None)) \<and>
      ber_encode_DHPrivateKey False mem p g x = ck_ok (Some (length der, Some der)) \<and> l < length der)"
  unfolding ber_encode_DSAPrivateKey_def ber_encode_DHPrivateKey_def
  using assms by (intro conjI dss_announced_short) (auto simp: dss_small_def attr_wfD ber_idDSA_def ber_idDH_def)

section \<open>A failed allocation reported as success\<close>

text \<open>
  When the allocation of the algorithm identifier fails, the DSA and DH encoders return
  \<^verbatim>\<open>CKR_OK\<close> without setting their outputs: the jump to the exit leaves \<^verbatim>\<open>rc\<close> as the previous,
  successful call set it.
\<close>

lemma dss_oom_reports_success:
  assumes "list_all attr_wf [p, q, g, x]" "ulValueLen p + ulValueLen q + ulValueLen g + ulValueLen x + 128 < 2 ^ 24"
    "mallocs True mem"
  shows "ber_encode_DSAPrivateKey False (mem(5 := \<lambda>_. None)) p q g x = ck_ok None
    \<and> ber_encode_DHPrivateKey False (mem(4 := \<lambda>_. None)) p g x = ck_ok None"
proof
  have dsa: "dss_small (map behind [p, q, g]) (behind x)" and dh: "dss_small (map behind [p, g]) (behind x)"
    using assms(1,2) by (auto simp: dss_small_def attr_wfD)
  have ok: "malloc_sized (mem i) \<and> (\<forall>n. mem i n \<noteq> None)" for i using assms(3) by (simp add: mallocs_def)
  show "ber_encode_DSAPrivateKey False (mem(5 := \<lambda>_. None)) p q g x = ck_ok None"
    unfolding ber_encode_DSAPrivateKey_def
    by (subst dss_encode_front [OF _ reads_simps(1) _ dsa _ refl refl])
      (use assms(1) ok in \<open>auto simp: ber_idDSA_def\<close>)
  show "ber_encode_DHPrivateKey False (mem(4 := \<lambda>_. None)) p g x = ck_ok None"
    unfolding ber_encode_DHPrivateKey_def
    by (subst dss_encode_front [OF _ reads_simps(2) _ dh _ refl refl])
      (use assms(1) ok in \<open>auto simp: ber_idDH_def\<close>)
qed

section \<open>Reads of the decoders\<close>

lemma dss_body_safe:
  assumes "mallocs sure mem" "l \<le> length d" "kl \<le> length key"
  shows "ck_safe (ck_bind (ber_decode_SEQUENCE (Some d) l) (\<lambda>(buf, bl, _).
      ck_bind (ber_skip_INTEGERs c buf bl 0) (\<lambda>off.
      if off > bl then ck_fail CKR_FUNCTION_FAILED
      else
        ck_bind (ber_build_INTEGERs mem tys buf bl 0) (\<lambda>as.
        ck_bind (ber_decode_INTEGER (Some key) kl) (\<lambda>(tmp, len, _).
        ck_bind (build_attribute (mem j) CKA_VALUE (Some tmp) len) (\<lambda>x. ck_ok (as @ [x]))))))) (list_all attr_wf)"
proof (rule ck_safe_bind [OF ber_sequence.dec_safe [OF assms(2)]], clarify)
  fix buf bl f assume "ber_inside d l (buf, bl, f)"
  then have bl: "bl \<le> length buf" using assms(2) by (rule drop_inside(1))
  have val: "ck_safe (ck_bind (ber_decode_INTEGER (Some key) kl) (\<lambda>(tmp, len, _).
        ck_bind (build_attribute (mem j) CKA_VALUE (Some tmp) len) (\<lambda>x. ck_ok (as @ [x])))) (list_all attr_wf)"
    if "list_all attr_wf as" for as
    using that assms(3) by (intro ck_safe_bind [OF ber_integer.dec_safe])
      (auto intro!: ck_safe_bind [OF build_attribute_safe [OF assms(1)]] dest: drop_inside(1))
  have bld: "ck_safe (ck_bind (ber_build_INTEGERs mem tys buf bl 0) (\<lambda>as.
        ck_bind (ber_decode_INTEGER (Some key) kl) (\<lambda>(tmp, len, _).
        ck_bind (build_attribute (mem j) CKA_VALUE (Some tmp) len) (\<lambda>x. ck_ok (as @ [x]))))) (list_all attr_wf)"
    by (rule ck_safe_bind [OF ber_build_INTEGERs_safe [OF assms(1) bl]]) (auto intro: val)
  show "ck_safe (ck_bind (ber_skip_INTEGERs c buf bl 0) (\<lambda>off.
      if off > bl then ck_fail CKR_FUNCTION_FAILED
      else
        ck_bind (ber_build_INTEGERs mem tys buf bl 0) (\<lambda>as.
        ck_bind (ber_decode_INTEGER (Some key) kl) (\<lambda>(tmp, len, _).
        ck_bind (build_attribute (mem j) CKA_VALUE (Some tmp) len) (\<lambda>x. ck_ok (as @ [x])))))) (list_all attr_wf)"
    using bld by (intro ck_safe_bind [OF ber_skip_INTEGERs_safe [OF bl]]) auto
qed

lemma dss_decode_defined:
  assumes "mallocs sure mem" "n \<le> length m" "ber_decode_PrivateKeyInfo (Some m) n = ck_ok (alg, al, key, kl)"
    "length ident \<le> length alg" "take (length ident) alg = ident \<Longrightarrow> length ident \<le> al"
  shows "dss_decode_private ident tys mem (Some m) n \<noteq> None"
proof -
  have "pki_inside (alg, al, key, kl)" using ber_decode_PrivateKeyInfo_safe [OF assms(2)] assms(3) by simp
  then have in_alg: "al \<le> length alg" "kl \<le> length key" by (simp_all add: pki_inside_def)
  have cmp: "memcmp_differs alg ident = Some (take (length ident) alg \<noteq> ident)"
    using assms(4) by (simp add: memcmp_differs_def get_bytes_def)
  show ?thesis
  proof (cases "take (length ident) alg = ident")
    case True
    have "al - length ident \<le> length (drop (length ident) alg)" using in_alg(1) by simp
    from ck_safe_defined [OF dss_body_safe [OF assms(1) this in_alg(2), of "length tys" tys "length tys"]]
    show ?thesis using True assms(5) unfolding dss_decode_private_def assms(3) ck_bind_simps prod.case cmp
      by (simp add: ulong_sub_def)
  qed (simp add: dss_decode_private_def assms(3) cmp)
qed

text \<open>
  What the DSA and DH decoders require. Given a \<^verbatim>\<open>PrivateKeyInfo\<close> inside its buffer and as much
  memory as the identifier comparison reads, the DH decoder is defined on every input: no
  prefix of its object identifier continues with the tag of an OCTET STRING, so that the
  comparison fails on an identifier too short. The DSA decoder is defined when the identifier
  has at least the nine bytes of its object identifier.
\<close>

lemma dss_decoders_defined:
  assumes "mallocs sure mem" "n \<le> length m" "ber_decode_PrivateKeyInfo (Some m) n = ck_ok (alg, al, key, kl)"
    "11 \<le> length alg"
  shows "ber_decode_DHPrivateKey mem (Some m) n \<noteq> None \<and> (9 \<le> al \<longrightarrow> ber_decode_DSAPrivateKey mem (Some m) n \<noteq> None)"
proof (intro conjI impI)
  have "pki_inside (alg, al, key, kl)" using ber_decode_PrivateKeyInfo_safe [OF assms(2)] assms(3) by simp
  then have tag: "alg ! al = 0x04" by (simp add: pki_inside_def)
  have "11 \<le> al" if "take 11 alg = ber_idDH"
  proof (rule ccontr)
    assume "\<not> 11 \<le> al"
    then have al: "al < 11" by simp
    then have "ber_idDH ! al = 0x04" using that tag assms(4) by (metis nth_take)
    moreover have "\<forall>b \<in> set ber_idDH. b \<noteq> 0x04" by (simp add: ber_idDH_def)
    moreover have "al < length ber_idDH" using al by (simp add: ber_idDH_def)
    ultimately show False using nth_mem by blast
  qed
  moreover have len: "length ber_idDH = 11" by (simp add: ber_idDH_def)
  ultimately show "ber_decode_DHPrivateKey mem (Some m) n \<noteq> None" unfolding ber_decode_DHPrivateKey_def
    by (intro dss_decode_defined [OF assms(1-3)]) (use assms(4) in \<open>simp_all only: len\<close>)
  show "ber_decode_DSAPrivateKey mem (Some m) n \<noteq> None" if "9 \<le> al" unfolding ber_decode_DSAPrivateKey_def
    by (intro dss_decode_defined [OF assms(1-3)]) (use assms(4) that in \<open>simp_all add: ber_idDSA_def\<close>)
qed

lemmas ber_decode_simps = ber_decode_PrivateKeyInfo_def ber_decode_SEQUENCE_def ber_decode_INTEGER_def
  ber_decode_OCTET_STRING_def ber_open_def ber_decode_len_def ber_len_checked_def

text \<open>
  C21: The DSA decoder leaves its buffer on a short identifier. The last two bytes of the DSA
  object identifier are also the header of a one-byte OCTET STRING, so an identifier of seven
  bytes passes the nine-byte comparison; \<^verbatim>\<open>len - ber_idDSALen\<close> then wraps around and the
  parameters are decoded with a length of almost \<open>2\<^sup>6\<^sup>4\<close>, here past the end of a
  well-formed \<^verbatim>\<open>PrivateKeyInfo\<close> of seventeen bytes.
\<close>

theorem dsa_parameter_length_wraps:
  "\<exists>m alg key. length m = 17 \<and> ber_decode_PrivateKeyInfo (Some m) 17 = ck_ok (alg, 7, key, 1) \<and> length alg = 10
    \<and> memcmp_differs alg ber_idDSA = Some False \<and> ulong_sub 7 (length ber_idDSA) = 2 ^ 64 - 2
    \<and> ber_decode_DSAPrivateKey mem (Some m) 17 = None"
proof -
  let ?alg = "[0x06, 0x07, 0x2a, 0x86, 0x48, 0xce, 0x38, 0x04, 0x01, 0x30 :: byte]"
  let ?m = "[0x30, 0x0F, 0x02, 0x01, 0x00, 0x30, 0x07] @ ?alg"
  have pki: "ber_decode_PrivateKeyInfo (Some ?m) 17 = ck_ok (?alg, 7, [0x30], 1)" by (simp add: ber_decode_simps)
  have cmp: "memcmp_differs ?alg ber_idDSA = Some False"
    by (simp add: memcmp_differs_def get_bytes_def ber_idDSA_def)
  have sub: "ulong_sub 7 (length ber_idDSA) = 2 ^ 64 - 2" by (simp add: ulong_sub_def ber_idDSA_def)
  have "ber_decode_SEQUENCE (Some (drop (length ber_idDSA) ?alg)) (2 ^ 64 - 2) = None"
    by (simp add: ber_decode_simps ber_idDSA_def peek_def)
  then have "ber_decode_DSAPrivateKey mem (Some ?m) 17 = None"
    unfolding ber_decode_DSAPrivateKey_def dss_decode_private_def pki ck_bind_simps prod.case cmp sub by simp
  then show ?thesis using pki cmp sub by (intro exI [of _ ?m] exI [of _ ?alg] exI [of _ "[0x30]"]) simp
qed

section \<open>Public keys\<close>

definition dss_spki :: "byte list \<Rightarrow> byte list list \<Rightarrow> byte list \<Rightarrow> byte list" where
  "dss_spki ident ps x = spki_der (dss_alg ident ps) (ber_int x)"

lemma dss_public_sizes:
  assumes "dss_small ps x" "length ident \<le> 11" "off = sum_list (map (\<lambda>p. ber_int_bound (length p)) ps)"
    "idl = ber_field_len (length ident + ber_field_len off)"
  shows "length (ints_der ps) \<le> off" "off < 2 ^ 24" "length ident + ber_field_len off < 2 ^ 24"
    "length (ber_int x) + 1 < 2 ^ 24" "idl + length (ber_tlv 0x03 (0 # ber_int x)) < 2 ^ 24"
    "length ident + length (ber_tlv 0x30 (ints_der ps)) \<le> idl" "off \<le> idl"
    "length (ber_tlv 0x30 (dss_alg ident ps)) \<le> idl"
proof -
  let ?s = "sum_list (map length ps)" and ?b = "ber_tlv 0x03 (0 # ber_int x)"
  have s: "?s + length x + 128 < 2 ^ 24" "length ps \<le> 3" using assms(1) by (auto simp: dss_small_def)
  show le: "length (ints_der ps) \<le> off" unfolding assms(3) by (rule length_ints_der_le)
  have off: "off \<le> ?s + 18" using sum_int_bound [of ps] s by (simp add: assms(3))
  then show "off < 2 ^ 24" using s by linarith
  show f: "length ident + ber_field_len off < 2 ^ 24" using off s assms(2) ber_field_len_bounds(2) [of off] by linarith
  have x: "length (ber_int x) \<le> length x + 6" using length_ber_int [of x] ber_int_bound_le [of "length x"] by linarith
  then show "length (ber_int x) + 1 < 2 ^ 24" using s by linarith
  have "idl \<le> ?s + 39"
    using off assms(2) ber_field_len_bounds(2) [of off] ber_field_len_bounds(2) [of "length ident + ber_field_len off"] by (simp add: assms(4))
  moreover have "length ?b \<le> length x + 12" using x ber_field_len_bounds(2) [of "length (0 # ber_int x)"] by (simp add: length_ber_tlv [of "0x03"])
  ultimately show "idl + length ?b < 2 ^ 24" using s by linarith
  have p: "length (ber_tlv 0x30 (ints_der ps)) \<le> ber_field_len off" using le by (simp add: length_ber_tlv ber_field_len_mono)
  then show "length ident + length (ber_tlv 0x30 (ints_der ps)) \<le> idl" "off \<le> idl"
    using ber_field_len_bounds(1) [of "length ident + ber_field_len off"] ber_field_len_bounds(1) [of off] by (simp_all add: assms(4))
  show "length (ber_tlv 0x30 (dss_alg ident ps)) \<le> idl"
    using p by (auto simp: assms(4) dss_alg_def length_ber_tlv [of _ "ident @ _"] intro: ber_field_len_mono)
qed

lemma dss_public_finish_wire:
  assumes "mallocs True mem" "attr_wf value" "length (ber_int_content (behind value)) < 2 ^ 24" "key = ber_int (behind value)"
    "b = ber_tlv 0x03 (0 # key)" "put_bitstring key = Some b" "length a + length b < 2 ^ 24"
  shows "dss_public_finish put_bitstring mem value (length a) (Some a) = ck_ok (length (ber_tlv 0x30 (a @ b)), Some (ber_tlv 0x30 (a @ b)))"
proof -
  note sized = mallocs_sized [OF assms(1)]
  have res: "ber_result (mem i) w = ck_ok (length w, Some w)" for i w using delivers_result [OF assms(1), of i w] by simp
  have int: "ber_encode_INTEGER False (mem 0) (pValue value) (ulValueLen value) = ck_ok (length key, Some key)"
    unfolding ber_encode_INTEGER_src [OF reads_simps(2) assms(2)] assms(4)
    using ber_encode_INTEGER_wire [OF sized assms(3) refl, of 0 "[]"] res by simp
  have cont: "copy_plain (Some key) (length key) = Some key" using copy_plain_wire [of "length key" key "[]"] by simp
  have ov: "\<not> length b > 2 ^ 64 - 1 - length a" using assms(7) by simp
  obtain buf where buf: "mem 1 (length a + length b) = Some buf" "length buf = length a + length b"
    using assms(1) malloc_sizedD [OF sized [of 1]] unfolding mallocs_def by blast
  have fill: "memcpy_at buf 0 (Some a) (length a) = Some (a @ drop (length a) buf)"
    "put_bytes (a @ drop (length a) buf) (length a) b = Some (a @ b)"
    using memcpy_at_append [of "[]" 0 a _ buf] put_bytes_append [of a _ b "drop (length a) buf"] buf(2) by simp_all
  have "length (a @ b) < 2 ^ 24" using assms(7) by simp
  from ber_encode_SEQUENCE_wire [OF sized this length_append [symmetric], of 2 "[]"]
  have "ber_encode_SEQUENCE False (mem 2) (Some (a @ b)) (length a + length b) = ck_ok (length (ber_tlv 0x30 (a @ b)), Some (ber_tlv 0x30 (a @ b)))"
    by (simp only: append_Nil2 res)
  then show ?thesis unfolding dss_public_finish_def int ck_bind_simps prod.case cont Option.bind.simps assms(6) option.case
      if_not_P [OF ov] buf(1) fill .
qed

lemma dss_encode_public_wire:
  assumes "mallocs True mem" "list_all attr_wf (value # params)" "dss_small (map behind params) (behind value)" "length ident \<le> 11"
    "\<forall>c. length c + 1 < 2 ^ 24 \<longrightarrow> put_bitstring c = Some (ber_tlv 0x03 (0 # c))"
    "w = dss_spki ident (map behind params) (behind value)"
  shows "dss_encode_public put_bitstring ident False mem params value = ck_ok (length w, Some w)"
proof -
  let ?xs = "map behind params" and ?x = "behind value"
  define off idl where "off = sum_list (map (\<lambda>p. ber_int_bound (length p)) ?xs)" and "idl = ber_field_len (length ident + ber_field_len off)"
  define key where "key = ber_int ?x"
  define b where "b = ber_tlv 0x03 (0 # key)"
  define param where "param = ber_tlv 0x30 (ints_der ?xs)"
  define k where "k = length params"
  note sz = dss_sizes [OF assms(3,4)]
  note pz = dss_public_sizes [OF assms(3,4) off_def idl_def, folded key_def, folded b_def]
  note sized = mallocs_sized [OF assms(1)]
  have res: "ber_result (mem i) w = ck_ok (length w, Some w)" for i w using delivers_result [OF assms(1), of i w] by simp
  have wf: "attr_wf value" "list_all attr_wf params" using assms(2) by simp_all
  have int: "ber_encode_INTEGER False (mem 0) (pValue value) (ulValueLen value) = ck_ok (length key, Some key)"
    unfolding ber_encode_INTEGER_src [OF reads_simps(2) wf(1)] key_def
    using ber_encode_INTEGER_wire [OF sized sz(3) refl, of 0 "[]"] res by simp
  have cont: "copy_plain (Some key) (length key) = Some key" using copy_plain_wire [of "length key" key "[]"] by simp
  have bs: "put_bitstring key = Some b" using assms(5) pz(4) by (simp add: b_def)
  have ulen: "map ulValueLen params = map length ?xs" using wf(2) by (simp add: list_all_iff attr_wfD)
  have o: "ber_len_INTEGERs (map ulValueLen params) = ck_ok off"
    unfolding ulen using ber_len_INTEGERs_ok [of "map length ?xs"] sz(1) by (simp add: o_def off_def)
  have idl: "dss_id_len ident (map ulValueLen params) = ck_ok idl"
    unfolding dss_id_len_def o using pz(2,3) by (simp add: ber_encode_SEQUENCE_def ber_emit_def idl_def)
  have tot: "ber_encode_SEQUENCE True (mem 0) None (idl + length b) = ck_ok (ber_field_len (idl + length b), None)"
    using pz(5) by (simp add: ber_encode_SEQUENCE_def ber_emit_def)
  have ov: "\<not> length b > 2 ^ 64 - 1 - idl" using pz(5) by simp
  obtain buf where buf: "mem 1 (idl + length b) = Some buf" "length buf = idl + length b"
    using assms(1) malloc_sizedD [OF sized [of 1]] unfolding mallocs_def by blast
  define buf' where "buf' = ints_der ?xs @ drop (length (ints_der ?xs)) buf"
  have l': "length buf' = idl + length b" using buf(2) pz(1,7) by (simp add: buf'_def)
  have put: "ber_put_INTEGERs (\<lambda>i. mem (i + 2)) buf 0 (map (\<lambda>a. (pValue a, ulValueLen a)) params) = ck_ok (buf', length (ints_der ?xs))"
    unfolding ber_put_INTEGERs_src [OF reads_simps(2) wf(2)] buf'_def
    using ber_put_INTEGERs_delivers [OF mallocs_shift [OF assms(1), of "\<lambda>i. i + 2"], of "[]" 0 ?xs buf] sz(1) buf(2) pz(1,7) by simp
  have seq: "ber_encode_SEQUENCE False (mem (k + 2)) (Some buf') (length (ints_der ?xs)) = ck_ok (length param, Some param)"
    using ber_encode_SEQUENCE_wire [OF sized sz(5) refl, of "k + 2"] res by (simp add: buf'_def param_def)
  have fill: "memcpy_at buf' 0 (Some ident) (length ident) = Some (ident @ drop (length ident) buf')"
    "memcpy_at (ident @ drop (length ident) buf') (length ident) (Some param) (length param)
      = Some ((ident @ param) @ drop (length ident + length param) buf')"
    using memcpy_at_append [of "[]" 0 ident _ buf'] memcpy_at_append [of ident _ param _ "drop (length ident) buf'"] l' pz(6)
    by (simp_all add: param_def add.commute)
  have alg: "ident @ param = dss_alg ident ?xs" by (simp add: dss_alg_def param_def)
  have small: "length (ident @ param) < 2 ^ 24" using sz(6) by (simp only: alg)
  have ids: "ber_encode_SEQUENCE False (mem (k + 3)) (Some ((ident @ param) @ r)) (length ident + length param)
      = ck_ok (length (ber_tlv 0x30 (ident @ param)), Some (ber_tlv 0x30 (ident @ param)))" for r
    using ber_encode_SEQUENCE_wire [OF sized small length_append [symmetric], of "k + 3" r] by (simp only: res)
  have "length (ber_tlv 0x30 (ident @ param)) + length b < 2 ^ 24" using pz(5,8) unfolding alg by linarith
  note fin = dss_public_finish_wire [where put_bitstring = put_bitstring, OF mallocs_shift [OF assms(1), of "\<lambda>i. i + k + 4"] wf(1) sz(3) key_def b_def bs this]
  show ?thesis unfolding dss_encode_public_def Let_def k_def [symmetric] int option.case sum.case prod.case cont Option.bind.simps bs idl tot ck_bind_simps if_False
      if_not_P [OF ov] buf(1) put seq fill ids fin by (simp add: assms(6) dss_spki_def spki_der_def alg b_def key_def)
qed

lemma ber_read_INTEGERs_wire:
  assumes "length pre = off" "\<forall>x \<in> set xs. length x + 1 < 2 ^ 24" "off + length (ints_der xs) \<le> bl"
  shows "\<exists>ys. ber_read_INTEGERs (length xs) (pre @ ints_der xs @ rest) bl off = ck_ok ys \<and>
    list_all2 (\<lambda>(d, l) x. l \<le> length d \<and> take l d = ber_int_norm x) ys xs"
  using assms
proof (induction xs arbitrary: pre off)
  case (Cons x xs)
  have "length (ber_int_content x) < 2 ^ 24"
    using Cons.prems(2) length_ber_int_content(1) [of x] by simp
  then have dec: "ber_decode_INTEGER (Some (ber_int x @ ints_der xs @ rest)) (bl - off)
      = ck_ok (ber_int_norm x @ ints_der xs @ rest, length (ber_int_norm x), length (ber_int x))"
    using Cons.prems(3) by (intro ber_integer.dec_wire) simp_all
  obtain ys where ys: "ber_read_INTEGERs (length xs) ((pre @ ber_int x) @ ints_der xs @ rest) bl (off + length (ber_int x)) = ck_ok ys"
    "list_all2 (\<lambda>(d, l) x. l \<le> length d \<and> take l d = ber_int_norm x) ys xs"
    using Cons.IH [of "pre @ ber_int x" "off + length (ber_int x)"] Cons.prems by auto
  then show ?case using dec Cons.prems(1)
    by (intro exI [of _ "(ber_int_norm x @ ints_der xs @ rest, length (ber_int_norm x)) # ys"]) simp
qed simp

lemma build_attributes_ok:
  assumes "mallocs True mem" "\<forall>(ty, d, l) \<in> set xs. l \<le> length d"
  shows "build_attributes mem xs = ck_ok (map (\<lambda>(ty, d, l). mk_attr ty (take l d)) xs)"
  using assms
proof (induction xs arbitrary: mem)
  case (Cons a xs)
  obtain ty d l where a: "a = (ty, d, l)" by (cases a)
  have "build_attribute (mem 0) ty (Some d) l = ck_ok (mk_attr ty (take l d))"
    using build_attribute_delivers [OF Cons.prems(1), of l d] Cons.prems(2) a by simp
  moreover have "build_attributes (\<lambda>i. mem (Suc i)) xs = ck_ok (map (\<lambda>(ty, d, l). mk_attr ty (take l d)) xs)"
    using Cons.prems by (intro Cons.IH) (auto intro: mallocs_shift)
  ultimately show ?case by (simp add: a)
qed simp

lemma read_pairs:
  assumes "list_all2 (\<lambda>(d, l) x. l \<le> length d \<and> take l d = ber_int_norm x) ys xs" "length tys = length xs"
  shows "map (\<lambda>(ty, d, l). mk_attr ty (take l d)) (zip tys ys) = map2 (\<lambda>ty x. mk_attr ty (ber_int_norm x)) tys xs"
    and "\<forall>(ty, d, l) \<in> set (zip tys ys). l \<le> length d"
proof -
  have len: "length ys = length xs" using assms(1) by (rule list_all2_lengthD)
  have nth: "snd (ys ! i) \<le> length (fst (ys ! i)) \<and> take (snd (ys ! i)) (fst (ys ! i)) = ber_int_norm (xs ! i)" if "i < length xs" for i
    using list_all2_nthD2 [OF assms(1) that] by (simp add: split_beta)
  show "map (\<lambda>(ty, d, l). mk_attr ty (take l d)) (zip tys ys) = map2 (\<lambda>ty x. mk_attr ty (ber_int_norm x)) tys xs"
    by (rule nth_equalityI) (simp_all add: len assms(2) split_beta nth)
  show "\<forall>(ty, d, l) \<in> set (zip tys ys). l \<le> length d"
    using nth len assms(2) by (auto simp: in_set_zip) (metis fst_conv snd_conv)
qed

lemma dss_decode_public_wire:
  assumes "mallocs True mem" "dss_small ps x" "length ident \<le> 11" "is_oid ident" "length tys = length ps"
    "length (dss_spki ident ps x) \<le> n"
  shows "dss_decode_public ident tys mem (Some (dss_spki ident ps x @ rest)) n =
    ck_ok (map2 (\<lambda>ty p. mk_attr ty (ber_int_norm p)) tys ps @ [mk_attr CKA_VALUE (ber_int_norm x)])"
proof -
  define param key where "param = ber_tlv 0x30 (ints_der ps)" and "key = ber_int x"
  define t where "t = ber_tlv 0x03 (0 # key) @ rest"
  note sz = dss_sizes [OF assms(2,3)]
  have w: "dss_spki ident ps x = spki_der (ident @ param) key" by (simp add: dss_spki_def dss_alg_def param_def key_def)
  have "length ident + length param + length key + 20 < 2 ^ 24"
    using dss_public_sizes(5,6) [OF assms(2,3) refl refl] ber_field_len_bounds(1) [of "length (0 # key)"] assms(2)
      length_ber_int [of x] ber_int_bound_le [of "length x"] sum_int_bound [of ps] length_ints_der_le [of ps]
      ber_field_len_bounds(2) [of "length (ints_der ps)"] assms(3) unfolding param_def key_def length_ber_tlv [of "0x30"] dss_small_def
    by linarith
  from ber_decode_SPKI_wire [OF assms(4) this _ t_def]
  have spki: "ber_decode_SPKI (Some (dss_spki ident ps x @ rest)) n
      = ck_ok (ident @ param @ t, length ident, param @ t, length param, key @ rest, length key)"
    using assms(6) by (simp add: w)
  have seq: "ber_decode_SEQUENCE (Some (param @ t)) (length param) = ck_ok (ints_der ps @ t, length (ints_der ps), length param)"
    using ber_sequence.dec_wire [OF sz(5), of "length param" t] by (simp add: param_def)
  obtain ys where ys: "ber_read_INTEGERs (length tys) (ints_der ps @ t) (length (ints_der ps)) 0 = ck_ok ys"
    "list_all2 (\<lambda>(d, l) x. l \<le> length d \<and> take l d = ber_int_norm x) ys ps"
    using ber_read_INTEGERs_wire [of "[]" 0 ps "length (ints_der ps)" t] sz(1) assms(5) by auto
  have int: "ber_decode_INTEGER (Some (key @ rest)) (length key) = ck_ok (ber_int_norm x @ rest, length (ber_int_norm x), length key)"
    using ber_integer.dec_wire [OF sz(3), of "length key" rest] by (simp add: key_def)
  have bld: "build_attributes mem (zip tys ys @ [(CKA_VALUE, ber_int_norm x @ rest, length (ber_int_norm x))]) =
      ck_ok (map2 (\<lambda>ty p. mk_attr ty (ber_int_norm p)) tys ps @ [mk_attr CKA_VALUE (ber_int_norm x)])"
    using build_attributes_ok [OF assms(1), of "zip tys ys @ [(CKA_VALUE, ber_int_norm x @ rest, length (ber_int_norm x))]"]
      read_pairs [OF ys(2) assms(5)] by auto
  show ?thesis unfolding dss_decode_public_def spki ck_bind_simps prod.case memcmp_same Option.bind.simps if_False seq ys(1) int bld ..
qed

text \<open>
  DSA and DH public keys survive encoding and decoding, given that liblber encodes a BIT
  STRING as DER prescribes. When instead the very first allocation fails, both encoders hand
  the NULL result to liblber before looking at the error: the behaviour is undefined.
\<close>

lemma dss_public_key_roundtrip:
  assumes "mallocs True mem" "mallocs True mem'" "list_all attr_wf [p, q, g, y]"
    "ulValueLen p + ulValueLen q + ulValueLen g + ulValueLen y + 128 < 2 ^ 24"
    "\<forall>c. length c + 1 < 2 ^ 24 \<longrightarrow> put_bitstring c = Some (ber_tlv 0x03 (0 # c))"
  shows "(\<exists>der. ber_encode_DSAPublicKey put_bitstring False mem p q g y = ck_ok (length der, Some der) \<and>
      ber_decode_DSAPublicKey mem' (Some der) (length der) =
        ck_ok [mk_attr CKA_PRIME (ber_int_norm (behind p)), mk_attr CKA_SUBPRIME (ber_int_norm (behind q)),
          mk_attr CKA_BASE (ber_int_norm (behind g)), mk_attr CKA_VALUE (ber_int_norm (behind y))])
    \<and> (\<exists>der. ber_encode_DHPublicKey put_bitstring False mem p g y = ck_ok (length der, Some der) \<and>
      ber_decode_DHPublicKey mem' (Some der) (length der) =
        ck_ok [mk_attr CKA_PRIME (ber_int_norm (behind p)), mk_attr CKA_BASE (ber_int_norm (behind g)),
          mk_attr CKA_VALUE (ber_int_norm (behind y))])
    \<and> ber_encode_DSAPublicKey put_bitstring False (mem(0 := \<lambda>_. None)) p q g y = None
    \<and> ber_encode_DHPublicKey put_bitstring False (mem(0 := \<lambda>_. None)) p g y = None"
proof (intro conjI)
  have ids: "length ber_idDSA \<le> 11" "length ber_idDH \<le> 11" "is_oid ber_idDSA" "is_oid ber_idDH"
    by (simp_all add: ber_idDSA_def ber_idDH_def is_oid_def)
  have dsa: "dss_small (map behind [p, q, g]) (behind y)" and dh: "dss_small (map behind [p, g]) (behind y)"
    using assms(3,4) by (auto simp: dss_small_def attr_wfD)
  have wf: "list_all attr_wf (y # [p, q, g])" "list_all attr_wf (y # [p, g])" using assms(3) by simp_all
  show "\<exists>der. ber_encode_DSAPublicKey put_bitstring False mem p q g y = ck_ok (length der, Some der) \<and>
      ber_decode_DSAPublicKey mem' (Some der) (length der) =
        ck_ok [mk_attr CKA_PRIME (ber_int_norm (behind p)), mk_attr CKA_SUBPRIME (ber_int_norm (behind q)),
          mk_attr CKA_BASE (ber_int_norm (behind g)), mk_attr CKA_VALUE (ber_int_norm (behind y))]"
    unfolding ber_encode_DSAPublicKey_def ber_decode_DSAPublicKey_def dss_encode_public_wire [OF assms(1) wf(1) dsa ids(1) assms(5) refl]
    using dss_decode_public_wire [OF assms(2) dsa ids(1,3), of "[CKA_PRIME, CKA_SUBPRIME, CKA_BASE]" _ "[]"] by auto
  show "\<exists>der. ber_encode_DHPublicKey put_bitstring False mem p g y = ck_ok (length der, Some der) \<and>
      ber_decode_DHPublicKey mem' (Some der) (length der) =
        ck_ok [mk_attr CKA_PRIME (ber_int_norm (behind p)), mk_attr CKA_BASE (ber_int_norm (behind g)),
          mk_attr CKA_VALUE (ber_int_norm (behind y))]"
    unfolding ber_encode_DHPublicKey_def ber_decode_DHPublicKey_def dss_encode_public_wire [OF assms(1) wf(2) dh ids(2) assms(5) refl]
    using dss_decode_public_wire [OF assms(2) dh ids(2,4), of "[CKA_PRIME, CKA_BASE]" _ "[]"] by auto
  have fail: "ber_encode_INTEGER False (\<lambda>_. None) (pValue y) (ulValueLen y) = ck_fail CKR_HOST_MEMORY"
    using ber_encode_INTEGER_src [OF reads_simps(2), of y] assms(3) dss_sizes(3) [OF dsa ids(1)]
      ber_encode_INTEGER_wire [of "\<lambda>_. None" "behind y" _ "[]"] by (simp add: malloc_sized_def ber_result_def)
  have "ulValueLen g + 1 < 2 ^ 24" using assms(4) by simp
  then have stale: "ber_stale_len [a, b, ulValueLen g] \<noteq> 0" "ber_stale_len [a, ulValueLen g] \<noteq> 0" for a b
    using ber_field_len_bounds(1) [of "if ulValueLen g = 0 then 0 else ulValueLen g + 1"]
    by (simp_all add: ber_stale_len_def ber_encode_INTEGER_len ber_int_bound_def)
  show "ber_encode_DSAPublicKey put_bitstring False (mem(0 := \<lambda>_. None)) p q g y = None"
    "ber_encode_DHPublicKey put_bitstring False (mem(0 := \<lambda>_. None)) p g y = None"
    using stale by (simp_all add: ber_encode_DSAPublicKey_def ber_encode_DHPublicKey_def dss_encode_public_def fail)
qed

end
