(* ===== verification/Ber_Ec.thy ===== *)
theory Ber_Ec
  imports Ber_Keys
begin

text \<open>
  The elliptic curve keys of \<^verbatim>\<open>usr/lib/common/asn1.c\<close>. A \<^verbatim>\<open>CKK_EC\<close> key names its curve in the
  parameters of the algorithm identifier and keeps its point as a BER OCTET STRING; for
  Edwards and Montgomery keys the identifier itself is the curve and the point is raw.
\<close>

datatype ckk = CKK_EC | CKK_EC_EDWARDS | CKK_EC_MONTGOMERY | CKK_unsupported

text \<open>The switch that extracts the point of a public key attribute.\<close>

definition ec_point :: "ckk \<Rightarrow> ck_attribute \<Rightarrow> (ptr \<times> nat) ck" where
  "ec_point key_type pubkey =
     (case key_type of
        CKK_EC \<Rightarrow>
          (case ber_decode_OCTET_STRING (pValue pubkey) (ulValueLen pubkey) of
             None \<Rightarrow> None
           | Some (Inl _) \<Rightarrow> ck_fail CKR_ATTRIBUTE_VALUE_INVALID
           | Some (Inr (ecpoint, ecpoint_len, field_len)) \<Rightarrow>
               if ulValueLen pubkey \<noteq> field_len then ck_fail CKR_ATTRIBUTE_VALUE_INVALID
               else ck_ok (Some ecpoint, ecpoint_len))
      | CKK_EC_EDWARDS \<Rightarrow> ck_ok (pValue pubkey, ulValueLen pubkey)
      | CKK_EC_MONTGOMERY \<Rightarrow> ck_ok (pValue pubkey, ulValueLen pubkey)
      | CKK_unsupported \<Rightarrow> ck_fail CKR_KEY_TYPE_INCONSISTENT)"

text \<open>A call whose error the code replaces by its own.\<close>

definition ck_as :: "ck_rv \<Rightarrow> 'a ck \<Rightarrow> 'a ck" where
  "ck_as e m = (case m of Some (Inl _) \<Rightarrow> ck_fail e | _ \<Rightarrow> m)"

text \<open>The algorithm identifier of a private key, with its length byte adjusted.\<close>

definition ec_algid :: "ckk \<Rightarrow> ck_attribute \<Rightarrow> byte list ck" where
  "ec_algid key_type params =
     (case key_type of
        CKK_EC \<Rightarrow> do {
          ps \<leftarrow> copy_plain (pValue params) (ulValueLen params);
          ck_ok (der_AlgIdECBase[1 := der_AlgIdECBase ! 1 + of_nat (ulValueLen params)] @ ps) }
      | CKK_unsupported \<Rightarrow> ck_fail CKR_KEY_TYPE_INCONSISTENT
      | _ \<Rightarrow> do {
          ps \<leftarrow> copy_plain (pValue params) (ulValueLen params);
          ck_ok ((take 2 der_AlgIdECBase)[1 := of_nat (ulValueLen params)] @ ps) })"

section \<open>Private keys\<close>

text \<open>The first part: the length of the inner SEQUENCE's content. It encodes the public key once.\<close>

definition ec_private_len :: "(nat \<Rightarrow> malloc) \<Rightarrow> ck_attribute \<Rightarrow> ck_attribute option \<Rightarrow> ckk \<Rightarrow> nat ck" where
  "ec_private_len mem privkey pubkey key_type =
     ck_bind (ck_as CKR_FUNCTION_FAILED (ber_encode_INTEGER True (mem 0) None 1)) (\<lambda>(ver_len, _).
     ck_bind (ck_as CKR_FUNCTION_FAILED (ber_encode_OCTET_STRING True (mem 0) None (ulValueLen privkey))) (\<lambda>(key_len, _).
     case pubkey of
       None \<Rightarrow> ck_ok (ver_len + key_len)
     | Some pk \<Rightarrow>
         if pValue pk = None then ck_ok (ver_len + key_len)
         else
           ck_bind (ec_point key_type pk) (\<lambda>(ecpoint, ecpoint_len).
           ck_bind (ck_as CKR_ATTRIBUTE_VALUE_INVALID (ber_encode_BIT_STRING False (mem 0) ecpoint ecpoint_len 0)) (\<lambda>(len, buf3).
           ck_bind (ck_as CKR_FUNCTION_FAILED (ber_encode_CHOICE True (mem 0) 1 buf3 len True)) (\<lambda>(len, _).
           ck_ok (ver_len + key_len + len))))))"

text \<open>The second part: the public key appended to the buffer as CHOICE [1].\<close>

definition ec_put_public ::
    "(nat \<Rightarrow> malloc) \<Rightarrow> ck_attribute option \<Rightarrow> ckk \<Rightarrow> byte list \<Rightarrow> nat \<Rightarrow> (byte list \<times> nat) ck" where
  "ec_put_public mem pubkey key_type buf offset =
     (case pubkey of
        None \<Rightarrow> ck_ok (buf, offset)
      | Some pk \<Rightarrow>
          if pValue pk = None then ck_ok (buf, offset)
          else
            ck_bind (ec_point key_type pk) (\<lambda>(ecpoint, ecpoint_len).
            ck_bind (ck_as CKR_ATTRIBUTE_VALUE_INVALID (ber_encode_BIT_STRING False (mem 0) ecpoint ecpoint_len 0)) (\<lambda>(len, buf3).
            ck_bind (ber_encode_CHOICE False (mem 1) 1 buf3 len True) (\<lambda>(len, buf2). do {
              buf \<leftarrow> memcpy_at buf offset buf2 len;
              ck_ok (buf, offset + len) }))))"

definition der_encode_ECPrivateKey ::
    "bool \<Rightarrow> (nat \<Rightarrow> malloc) \<Rightarrow> ck_attribute \<Rightarrow> ck_attribute \<Rightarrow> ck_attribute option \<Rightarrow> ckk \<Rightarrow> (nat \<times> ptr) ck" where
  "der_encode_ECPrivateKey length_only mem params privkey pubkey key_type =
     ck_bind (ec_private_len mem privkey pubkey key_type) (\<lambda>offset.
     if length_only then
       ck_bind (ber_encode_SEQUENCE True (mem 0) None offset) (\<lambda>(len, _).
       case key_type of
         CKK_EC \<Rightarrow> ber_encode_PrivateKeyInfo True mem None (length der_AlgIdECBase + ulValueLen params) None len
       | CKK_unsupported \<Rightarrow> ck_fail CKR_KEY_TYPE_INCONSISTENT
       | _ \<Rightarrow> ber_encode_PrivateKeyInfo True mem None (2 + ulValueLen params) None len)
     else case mem 1 offset of
       None \<Rightarrow> ck_fail CKR_HOST_MEMORY
     | Some buf \<Rightarrow>
         ck_bind (ber_encode_INTEGER False (mem 2) (Some [1]) 1) (\<lambda>(ver_len, buf2). do {
           buf \<leftarrow> memcpy_at buf 0 buf2 ver_len;
           ck_bind (ber_encode_OCTET_STRING False (mem 3) (Some (behind privkey)) (ulValueLen privkey)) (\<lambda>(key_len, buf2). do {
             buf \<leftarrow> memcpy_at buf ver_len buf2 key_len;
             ck_bind (ec_put_public (\<lambda>i. mem (i + 4)) pubkey key_type buf (ver_len + key_len)) (\<lambda>(buf, offset).
             ck_bind (ber_encode_SEQUENCE False (mem 6) (Some buf) offset) (\<lambda>(len, buf2).
             ck_bind (ec_algid key_type params) (\<lambda>alg.
             ber_encode_PrivateKeyInfo False (\<lambda>i. mem (i + 7)) (Some alg) (length alg) buf2 len))) }) }))"

text \<open>
  The optional public key after the private key, looked for when the data up to \<open>data_len\<close>
  is not used up; \<open>buf\<close> and \<open>data\<close> point into the same memory, so that \<^verbatim>\<open>buf - data\<close> is the
  difference of what is left of it. \<^term>\<open>Some (Inr None)\<close> is the jump to the exit, with
  \<^verbatim>\<open>CKR_OK\<close>, on an alternative that is neither 0 nor 1.
\<close>

definition ec_find_public ::
    "byte list \<Rightarrow> nat \<Rightarrow> byte list \<Rightarrow> nat \<Rightarrow> nat \<Rightarrow> (byte list \<times> nat) option option ck" where
  "ec_find_public data data_len buf buf_len offset =
     (if length data - length buf + offset < data_len then
        ck_bind (ber_decode_CHOICE (Some (drop offset buf)) (buf_len - offset) True) (\<lambda>(_, choice_len, field_len, opt).
        let offset = offset + (field_len - choice_len) in
        if opt = 0 then ck_ok (Some None)
        else if opt = 1 then
          ck_bind (ber_decode_BIT_STRING (Some (drop offset buf)) (buf_len - offset)) (\<lambda>(pub_buf, pub_len, _).
          ck_ok (Some (Some (drop 1 pub_buf, pub_len - 1))))
        else ck_ok None)
      else ck_ok (Some None))"

text \<open>
  \<^verbatim>\<open>cleanup\<close> frees \<open>ecpoint\<close>. For Edwards and Montgomery keys that pointer, once set, points into
  the input, and freeing it is undefined.
\<close>

definition ec_cleanup :: "bool \<Rightarrow> 'a ck \<Rightarrow> 'a ck" where
  "ec_cleanup interior m = (case m of Some (Inl e) \<Rightarrow> if interior then None else ck_fail e | _ \<Rightarrow> m)"

text \<open>Building the attributes: parameters, public key if there is one, private key.\<close>

definition ec_build ::
    "(nat \<Rightarrow> malloc) \<Rightarrow> ckk \<Rightarrow> byte list \<Rightarrow> nat \<Rightarrow> (byte list \<times> nat) option \<Rightarrow> byte list \<Rightarrow> nat \<Rightarrow>
     (ck_attribute \<times> ck_attribute option \<times> ck_attribute) ck" where
  "ec_build mem key_type parm_buf parm_len pub priv_buf priv_len =
     ck_bind (build_attribute (mem 0) CKA_EC_PARAMS (Some parm_buf) parm_len) (\<lambda>parm_attr.
     case pub of
       None \<Rightarrow>
         ck_bind (build_attribute (mem 3) CKA_VALUE (Some priv_buf) priv_len) (\<lambda>priv_attr.
         ck_ok (parm_attr, None, priv_attr))
     | Some (pub_buf, pub_len) \<Rightarrow>
         let interior = (key_type \<noteq> CKK_EC) in
         ck_bind (if interior then ck_ok (pub_len, Some pub_buf)
                  else ber_encode_OCTET_STRING False (mem 1) (Some pub_buf) pub_len) (\<lambda>(ecpoint_len, ecpoint).
         ck_bind (ec_cleanup interior (build_attribute (mem 2) CKA_EC_POINT ecpoint ecpoint_len)) (\<lambda>pub_attr.
         ck_bind (ec_cleanup interior (build_attribute (mem 3) CKA_VALUE (Some priv_buf) priv_len)) (\<lambda>priv_attr.
         ck_ok (parm_attr, Some pub_attr, priv_attr)))))"

text \<open>The attributes for the parameters, the public and the private key; \<^term>\<open>Some (Inr None)\<close> is \<^verbatim>\<open>CKR_OK\<close> with the outputs unset.\<close>

definition der_decode_ECPrivateKey ::
    "(nat \<Rightarrow> malloc) \<Rightarrow> ptr \<Rightarrow> nat \<Rightarrow> ckk \<Rightarrow> (ck_attribute \<times> ck_attribute option \<times> ck_attribute) option ck" where
  "der_decode_ECPrivateKey mem data data_len key_type =
     ck_bind (ber_decode_SEQUENCE data data_len) (\<lambda>(_, _, field_len).
     if field_len > data_len then ck_fail CKR_FUNCTION_FAILED
     else let data_len = field_len in
       ck_bind (ber_decode_PrivateKeyInfo data data_len) (\<lambda>(alg, alg_len, eckey, eckey_len). do {
         d \<leftarrow> data;
         differs \<leftarrow> (if key_type = CKK_EC then memcmp_differs alg ber_idEC else Some False);
         if differs then ck_fail CKR_FUNCTION_FAILED
         else if key_type = CKK_unsupported then ck_fail CKR_KEY_TYPE_INCONSISTENT
         else
           ck_bind (ber_decode_SEQUENCE (Some eckey) eckey_len) (\<lambda>(buf, buf_len, _).
           ck_bind (ber_decode_INTEGER (Some buf) buf_len) (\<lambda>(_, _, ver_len).
           ck_bind (ber_decode_OCTET_STRING (Some (drop ver_len buf)) (buf_len - ver_len)) (\<lambda>(priv_buf, priv_len, key_len).
           ck_bind (ec_find_public d data_len buf buf_len (ver_len + key_len)) (\<lambda>found.
           case found of
             None \<Rightarrow> ck_ok None
           | Some pub \<Rightarrow>
               let (parm_buf, parm_len) =
                 (if key_type = CKK_EC then (drop (length ber_idEC) alg, ulong_sub alg_len (length ber_idEC)) else (alg, alg_len)) in
               ck_bind (ec_build mem key_type parm_buf parm_len pub priv_buf priv_len) (\<lambda>r. ck_ok (Some r)))))) }))"

section \<open>Public keys\<close>

text \<open>The algorithm identifier written into the buffer of the public key, and its length.\<close>

definition ec_put_algid :: "(nat \<Rightarrow> malloc) \<Rightarrow> ckk \<Rightarrow> ck_attribute \<Rightarrow> byte list \<Rightarrow> (byte list \<times> nat) ck" where
  "ec_put_algid mem key_type params buf =
     (if key_type = CKK_EC then do {
        buf \<leftarrow> memcpy_at buf 0 (Some der_AlgIdECBase) (length der_AlgIdECBase);
        buf \<leftarrow> memcpy_at buf (length der_AlgIdECBase) (pValue params) (ulValueLen params);
        ck_ok (buf[1 := buf ! 1 + of_nat (ulValueLen params)], length der_AlgIdECBase + ulValueLen params) }
      else
        ck_bind (ber_encode_SEQUENCE False (mem 1) (pValue params) (ulValueLen params)) (\<lambda>(len, buf2). do {
          buf \<leftarrow> memcpy_at buf 0 buf2 len;
          ck_ok (buf, len) }))"

definition ber_encode_ECPublicKey ::
    "bool \<Rightarrow> (nat \<Rightarrow> malloc) \<Rightarrow> ck_attribute \<Rightarrow> ck_attribute \<Rightarrow> ckk \<Rightarrow> (nat \<times> ptr) ck" where
  "ber_encode_ECPublicKey length_only mem params point key_type =
     ck_bind (ec_point key_type point) (\<lambda>(ecpoint, ecpoint_len).
     ck_bind (if key_type = CKK_EC then ck_ok (length der_AlgIdECBase + ulValueLen params, None)
              else ber_encode_SEQUENCE True (mem 0) None (ulValueLen params)) (\<lambda>(algid_len, _).
     ck_bind (ber_encode_SEQUENCE True (mem 0) None algid_len) (\<lambda>(len, _).
     ck_bind (ber_encode_BIT_STRING True (mem 0) None ecpoint_len 0) (\<lambda>(len2, _).
     ck_bind (ber_encode_SEQUENCE True (mem 0) None (len + len2)) (\<lambda>(total_len, _).
     if length_only then ck_ok (total_len, None)
     else case mem 0 total_len of
       None \<Rightarrow> ck_fail CKR_HOST_MEMORY
     | Some buf \<Rightarrow>
         ck_bind (ec_put_algid mem key_type params buf) (\<lambda>(buf, ofs).
         ck_bind (ber_encode_BIT_STRING False (mem 2) ecpoint ecpoint_len 0) (\<lambda>(len2, buf2). do {
           buf \<leftarrow> memcpy_at buf ofs buf2 len2;
           ber_encode_SEQUENCE False (mem 3) (Some buf) (algid_len + len2) })))))))"

definition der_decode_ECPublicKey :: "(nat \<Rightarrow> malloc) \<Rightarrow> ptr \<Rightarrow> nat \<Rightarrow> ckk \<Rightarrow> (ck_attribute \<times> ck_attribute) ck" where
  "der_decode_ECPublicKey mem data data_len key_type =
     ck_bind (ber_decode_SPKI data data_len) (\<lambda>(algid, algid_len, param, param_len, point, point_len).
     ck_bind (case key_type of
        CKK_EC \<Rightarrow>
          ck_bind (ber_decode_SEQUENCE (Some der_AlgIdECBase) (length der_AlgIdECBase)) (\<lambda>(base, len, _). do {
            differs \<leftarrow> memcmp_differs algid (take len base);
            if differs then ck_fail CKR_FUNCTION_FAILED else ck_ok (param, param_len) })
      | CKK_unsupported \<Rightarrow> ck_fail CKR_KEY_TYPE_INCONSISTENT
      | _ \<Rightarrow> ck_ok (algid, algid_len)) (\<lambda>(param, param_len).
     ck_bind (build_attribute (mem 0) CKA_EC_PARAMS (Some param) param_len) (\<lambda>params_attr.
     ck_bind (if key_type = CKK_EC then ber_encode_OCTET_STRING False (mem 1) (Some point) point_len
              else ck_ok (point_len, Some point)) (\<lambda>(ecpoint_len, ecpoint).
     ck_bind (build_attribute (mem 2) CKA_EC_POINT ecpoint ecpoint_len) (\<lambda>point_attr.
     ck_ok (params_attr, point_attr))))))"

end
