(* ===== verification/Ber_Ec_Facts.thy ===== *)
theory Ber_Ec_Facts
  imports Ber_Keys_Facts Ber_Ec
begin

text \<open>
  Facts on elliptic curve keys: round trips for the three key types, and the inputs and
  allocation failures on which the private key decoder misbehaves.
\<close>

section \<open>The formats on the wire\<close>

definition ec_alg :: "ckk \<Rightarrow> byte list \<Rightarrow> byte list" where
  "ec_alg kt ps = ber_tlv 0x30 (if kt = CKK_EC then ber_idEC @ ps else ps)"

definition ec_pub_field :: "byte list option \<Rightarrow> byte list" where
  "ec_pub_field pub = (case pub of None \<Rightarrow> [] | Some pt \<Rightarrow> ber_tlv (choice_tag True 1) (ber_tlv 0x03 (0 # pt)))"

definition ec_body :: "byte list \<Rightarrow> byte list option \<Rightarrow> byte list" where
  "ec_body pv pub = ber_int [1] @ ber_tlv 0x04 pv @ ec_pub_field pub"

definition ec_der :: "ckk \<Rightarrow> byte list \<Rightarrow> byte list \<Rightarrow> byte list option \<Rightarrow> byte list" where
  "ec_der kt ps pv pub = pki_der (ec_alg kt ps) (ber_tlv 0x30 (ec_body pv pub))"

text \<open>The value of the public key attribute of a point.\<close>

definition ec_wrap :: "ckk \<Rightarrow> byte list \<Rightarrow> byte list" where
  "ec_wrap kt pt = (if kt = CKK_EC then ber_tlv 0x04 pt else pt)"

abbreviation ec_pub_attr :: "ckk \<Rightarrow> byte list \<Rightarrow> ck_attribute" where
  "ec_pub_attr kt pt \<equiv> mk_attr CKA_EC_POINT (ec_wrap kt pt)"

definition ec_small :: "byte list \<Rightarrow> byte list \<Rightarrow> byte list option \<Rightarrow> bool" where
  "ec_small ps pv pub \<longleftrightarrow> length ps \<le> 118 \<and> pub \<noteq> Some [] \<and>
     length pv + (case pub of None \<Rightarrow> 0 | Some pt \<Rightarrow> length pt) + 512 < 2 ^ 24"

lemma ber_int_one [simp]: "ber_int_content [1] = [1]" "ber_tlv 0x02 [1] = [0x02, 0x01, 0x01]"
  by (simp_all add: ber_int_content_def ber_tlv_def ber_header_def)

lemma ec_sizes:
  assumes "ec_small ps pv pub"
  shows "length pv < 2 ^ 24" "length (ec_body pv pub) < 2 ^ 24" "length (ec_alg kt ps) + length (ber_tlv 0x30 (ec_body pv pub)) + 8 < 2 ^ 24"
    "length (if kt = CKK_EC then ber_idEC @ ps else ps) + length (ber_tlv 0x30 (ec_body pv pub)) + 13 < 2 ^ 24"
    "pub = Some pt \<Longrightarrow> length pt + 1 < 2 ^ 24" "pub = Some pt \<Longrightarrow> length (ber_tlv 0x03 (0 # pt)) < 2 ^ 24"
    "length (ber_tlv 0x30 (ec_body pv pub)) + 300 < 2 ^ 24"
proof -
  define l where "l = (case pub of None \<Rightarrow> 0 | Some pt \<Rightarrow> length pt)"
  have s: "length ps \<le> 118" "length pv + l + 512 < 2 ^ 24" using assms by (simp_all add: ec_small_def l_def)
  note [simp] = length_ber_tlv
  show "length pv < 2 ^ 24" using s by simp
  show "pub = Some pt \<Longrightarrow> length pt + 1 < 2 ^ 24" using s by (simp add: l_def)
  show "pub = Some pt \<Longrightarrow> length (ber_tlv 0x03 (0 # pt)) < 2 ^ 24"
    using s ber_field_len_bounds(2) [of "length (0 # pt)"] by (simp add: l_def)
  have "length (ec_pub_field pub) \<le> l + 11"
    using ber_field_len_bounds(2) [of "ber_field_len (Suc (length (the pub)))"] ber_field_len_bounds(2) [of "Suc (length (the pub))"]
    by (auto simp: ec_pub_field_def l_def split: option.split)
  then have b: "length (ec_body pv pub) \<le> length pv + l + 19"
    using ber_field_len_bounds(2) [of "length pv"] by (simp add: ec_body_def)
  then show "length (ec_body pv pub) < 2 ^ 24" using s by simp
  have c: "length (ber_tlv 0x30 (ec_body pv pub)) \<le> length pv + l + 24"
    using b ber_field_len_bounds(2) [of "length (ec_body pv pub)"] unfolding length_ber_tlv by linarith
  then show "length (ber_tlv 0x30 (ec_body pv pub)) + 300 < 2 ^ 24" using s(2) by linarith
  have a: "length (if kt = CKK_EC then ber_idEC @ ps else ps) \<le> 127" using s(1) by (simp add: ber_idEC_def)
  then show "length (if kt = CKK_EC then ber_idEC @ ps else ps) + length (ber_tlv 0x30 (ec_body pv pub)) + 13 < 2 ^ 24"
    using c s(2) by linarith
  have "length (ec_alg kt ps) \<le> 132"
    using a ber_field_len_bounds(2) [of "length (if kt = CKK_EC then ber_idEC @ ps else ps)"]
    unfolding ec_alg_def length_ber_tlv by linarith
  then show "length (ec_alg kt ps) + length (ber_tlv 0x30 (ec_body pv pub)) + 8 < 2 ^ 24"
    using c s(2) by linarith
qed

section \<open>Encoding private keys\<close>

lemma ec_point_wrap:
  assumes "kt \<noteq> CKK_unsupported" "pt \<noteq> []" "length pt + 1 < 2 ^ 24"
  shows "ec_point kt (ec_pub_attr kt pt) = ck_ok (Some pt, length pt)" "pValue (ec_pub_attr kt pt) \<noteq> None"
proof -
  have ne: "ec_wrap kt pt \<noteq> []" using assms(2) ber_tlv_Cons [of "0x04" pt] by (auto simp: ec_wrap_def)
  then show "pValue (ec_pub_attr kt pt) \<noteq> None" by (simp add: mk_attr_def)
  show "ec_point kt (ec_pub_attr kt pt) = ck_ok (Some pt, length pt)"
    using assms ne ber_octet.dec_wire [of pt "length (ber_tlv 0x04 pt)" "[]"]
    by (cases kt) (simp_all add: ec_point_def mk_attr_def ec_wrap_def)
qed

lemma ck_as_ok [simp]: "ck_as e (ck_ok x) = ck_ok x"
  by (simp add: ck_as_def)

lemma ec_algid_wire:
  assumes "kt \<noteq> CKK_unsupported" "attr_wf params" "length (behind params) \<le> 118"
  shows "ec_algid kt params = ck_ok (ec_alg kt (behind params))"
proof -
  have "copy_plain (pValue params) (ulValueLen params) = Some (behind params)"
    using attr_wfD [OF assms(2)] by (simp add: copy_plain_def get_bytes_def)
  then show ?thesis using assms attr_wfD(1) [OF assms(2)]
    by (cases kt) (simp_all add: ec_algid_def ec_alg_def der_AlgIdECBase_def ber_idEC_def ber_tlv_def ber_header_def)
qed

lemma ec_put_public_wire:
  assumes "mallocs True mem" "kt \<noteq> CKK_unsupported" "ec_small ps pv pub"
    "length pre = off" "length (ec_pub_field pub) \<le> length buf"
  shows "ec_put_public mem (map_option (ec_pub_attr kt) pub) kt (pre @ buf) off
    = ck_ok (pre @ ec_pub_field pub @ drop (length (ec_pub_field pub)) buf, off + length (ec_pub_field pub))"
proof (cases pub)
  case (Some pt)
  let ?b = "ber_tlv 0x03 (0 # pt)"
  note sz = ec_sizes(5,6) [OF assms(3) Some]
  have "pt \<noteq> []" using assms(3) Some by (simp add: ec_small_def)
  note pt = ec_point_wrap [OF assms(2) this sz(1)]
  have res: "ber_result (mem i) w = ck_ok (length w, Some w)" for i w using delivers_result [OF assms(1), of i w] by simp
  have bits: "ber_encode_BIT_STRING False (mem 0) (Some pt) (length pt) 0 = ck_ok (length ?b, Some ?b)"
    using ber_encode_BIT_STRING_wire [OF mallocs_sized [OF assms(1)] sz(1) refl, of 0 "[]" 0] res by simp
  have choice: "ber_encode_CHOICE False (mem 1) 1 (Some ?b) (length ?b) True
      = ck_ok (length (ec_pub_field pub), Some (ec_pub_field pub))"
    using ber_encode_CHOICE_wire [OF mallocs_sized [OF assms(1)] sz(2) refl, of 1 1 "[]" True] res Some
    by (simp add: ec_pub_field_def)
  show ?thesis using pt bits choice memcpy_at_append [OF assms(4) refl assms(5)] Some
    by (simp add: ec_put_public_def del: not_None_eq)
qed (simp add: ec_put_public_def ec_pub_field_def)

lemma ec_private_len_wire:
  assumes "mallocs True mem" "kt \<noteq> CKK_unsupported" "ec_small ps pv pub" "ulValueLen privkey = length pv"
  shows "ec_private_len mem privkey (map_option (ec_pub_attr kt) pub) kt = ck_ok (length (ec_body pv pub) + 1)"
proof -
  note sz = ec_sizes [OF assms(3)]
  have ver: "ber_encode_INTEGER True (mem 0) None 1 = ck_ok (4, None)"
    by (simp add: ber_encode_INTEGER_len ber_int_bound_def ber_field_len_def)
  have oct: "ber_encode_OCTET_STRING True (mem 0) None (ulValueLen privkey) = ck_ok (ber_field_len (length pv), None)"
    using sz(1) assms(4) by (simp add: ber_encode_OCTET_STRING_def ber_emit_def)
  show ?thesis
  proof (cases pub)
    case None
    then show ?thesis by (simp add: ec_private_len_def ver oct [simplified] ec_body_def ec_pub_field_def length_ber_tlv del: One_nat_def)
  next
    case (Some pt)
    let ?b = "ber_tlv 0x03 (0 # pt)"
    have "pt \<noteq> []" using assms(3) Some by (simp add: ec_small_def)
    note pt = ec_point_wrap [OF assms(2) this sz(5) [OF Some]]
    have bits: "ber_encode_BIT_STRING False (mem 0) (Some pt) (length pt) 0 = ck_ok (length ?b, Some ?b)"
      using ber_encode_BIT_STRING_wire [OF mallocs_sized [OF assms(1)] sz(5) [OF Some] refl, of 0 "[]" 0]
        delivers_result [OF assms(1), of 0 ?b] by simp
    have "ber_encode_CHOICE True (mem 0) 1 (Some ?b) (length ?b) True = ck_ok (length (ec_pub_field pub), None)"
      using sz(6) [OF Some] Some by (simp add: ber_encode_CHOICE_def ber_emit_def ec_pub_field_def length_ber_tlv)
    then show ?thesis using Some pt bits
      by (simp add: ec_private_len_def ver oct [simplified] ec_body_def length_ber_tlv [of "0x04"] del: One_nat_def not_None_eq)
  qed
qed

lemma der_encode_ECPrivateKey_alg:
  assumes "mallocs True mem" "kt \<noteq> CKK_unsupported" "ec_small [] (behind privkey) pub"
    "ec_algid kt params = ck_ok alg" "attr_wf privkey" "length alg \<le> 257"
    "der = pki_der alg (ber_tlv 0x30 (ec_body (behind privkey) pub))"
  shows "der_encode_ECPrivateKey False mem params privkey (map_option (ec_pub_attr kt) pub) kt = ck_ok (length der, Some der)"
proof -
  let ?pv = "behind privkey"
  let ?v = "[0x02, 0x01, 0x01 :: byte]" and ?k = "ber_tlv 0x04 ?pv" and ?f = "ec_pub_field pub" and ?body = "ec_body ?pv pub"
  note sz = ec_sizes [OF assms(3)]
  note sized = mallocs_sized [OF assms(1)]
  have res: "ber_result (mem i) w = ck_ok (length w, Some w)" for i w using delivers_result [OF assms(1), of i w] by simp
  have pv: "ulValueLen privkey = length ?pv" using assms(5) by (rule attr_wfD)
  note len = ec_private_len_wire [OF assms(1-3) pv]
  have body: "?body = ?v @ ?k @ ?f" by (simp add: ec_body_def)
  obtain buf where buf: "mem 1 (length ?body + 1) = Some buf" "length buf = length ?body + 1"
    using assms(1) malloc_sizedD [OF sized [of 1]] unfolding mallocs_def by blast
  have ver: "ber_encode_INTEGER False (mem 2) (Some [1]) 1 = ck_ok (3, Some ?v)"
    using ber_encode_INTEGER_wire [OF sized, of "[1]" 1 2 "[]"] res by (simp add: numeral_3_eq_3)
  have key: "ber_encode_OCTET_STRING False (mem 3) (Some ?pv) (ulValueLen privkey) = ck_ok (length ?k, Some ?k)"
    using ber_encode_OCTET_STRING_wire [OF sized sz(1) refl, of 3 "[]"] res pv by simp
  have fill: "memcpy_at buf 0 (Some ?v) 3 = Some (?v @ drop 3 buf)"
    "memcpy_at (?v @ drop 3 buf) 3 (Some ?k) (length ?k) = Some ((?v @ ?k) @ drop (3 + length ?k) buf)"
    using memcpy_at_append [of "[]" 0 ?v 3 buf] memcpy_at_append [of ?v 3 ?k "length ?k" "drop 3 buf"] buf(2)
    by (simp_all add: body add.commute)
  have pub: "ec_put_public (\<lambda>i. mem (i + 4)) (map_option (ec_pub_attr kt) pub) kt ((?v @ ?k) @ drop (3 + length ?k) buf) (3 + length ?k)
      = ck_ok (?body @ drop (length ?body) buf, length ?body)"
    using ec_put_public_wire [OF mallocs_shift [OF assms(1), of "\<lambda>i. i + 4"] assms(2,3), of "?v @ ?k" "3 + length ?k" "drop (3 + length ?k) buf"] buf(2)
    by (simp add: body add.commute add.left_commute numeral_3_eq_3)
  have seq: "ber_encode_SEQUENCE False (mem 6) (Some (?body @ r)) (length ?body) = ck_ok (length (ber_tlv 0x30 ?body), Some (ber_tlv 0x30 ?body))" for r
    using ber_encode_SEQUENCE_wire [OF sized sz(2) refl, of 6 r] res by simp
  have pki: "ber_encode_PrivateKeyInfo False (\<lambda>i. mem (i + 7)) (Some alg) (length alg) (Some (ber_tlv 0x30 ?body))
      (length (ber_tlv 0x30 ?body)) = ck_ok (length der, Some der)"
    using ber_encode_PrivateKeyInfo_delivers [OF mallocs_shift [OF assms(1), of "\<lambda>i. i + 7"] refl refl, of alg "ber_tlv 0x30 ?body"]
      sz(7) assms(6,7) by simp
  show ?thesis unfolding der_encode_ECPrivateKey_def len ck_bind_simps if_False buf(1) option.case ver prod.case fill(1)
      Option.bind.simps key fill(2) pub seq assms(4) pki ..
qed

lemma der_encode_ECPrivateKey_wire:
  assumes "mallocs True mem" "kt \<noteq> CKK_unsupported" "ec_small (behind params) (behind privkey) pub"
    "attr_wf params" "attr_wf privkey"
  shows "der_encode_ECPrivateKey False mem params privkey (map_option (ec_pub_attr kt) pub) kt
    = ck_ok (length (ec_der kt (behind params) (behind privkey) pub), Some (ec_der kt (behind params) (behind privkey) pub))"
proof (rule der_encode_ECPrivateKey_alg [OF assms(1,2) _ _ assms(5) _ ec_der_def])
  have ps: "length (behind params) \<le> 118" using assms(3) by (simp add: ec_small_def)
  then show "ec_algid kt params = ck_ok (ec_alg kt (behind params))" by (rule ec_algid_wire [OF assms(2,4)])
  show "length (ec_alg kt (behind params)) \<le> 257"
    using ps ber_field_len_bounds(2) [of "length (if kt = CKK_EC then ber_idEC @ behind params else behind params)"]
    by (simp add: ec_alg_def length_ber_tlv ber_idEC_def split: if_splits)
  show "ec_small [] (behind privkey) pub" using assms(3) by (simp add: ec_small_def)
qed

section \<open>Decoding private keys\<close>

text \<open>The decoder up to the optional field \<open>ex\<close> behind the private key, whatever it is.\<close>

lemma der_decode_ECPrivateKey_front:
  assumes "kt \<noteq> CKK_unsupported" "length pv < 2 ^ 24" "body = ber_int [1] @ ber_tlv 0x04 pv @ ex" "length body < 2 ^ 24"
    "length (if kt = CKK_EC then ber_idEC @ ps else ps) + length (ber_tlv 0x30 body) + 13 < 2 ^ 24"
    "der = pki_der (ec_alg kt ps) (ber_tlv 0x30 body)" "length der \<le> n"
  shows "\<exists>tail. der_decode_ECPrivateKey mem (Some (der @ rest)) n kt =
    ck_bind (ec_find_public (der @ rest) (length der) (body @ rest) (length body) (length body - length ex)) (\<lambda>found.
      case found of
        None \<Rightarrow> ck_ok None
      | Some pub \<Rightarrow> ck_bind (ec_build mem kt (ps @ tail) (length ps) pub (pv @ ex @ rest) (length pv)) (\<lambda>r. ck_ok (Some r)))"
proof -
  let ?key = "ber_tlv 0x30 body" and ?k = "ber_tlv 0x04 pv"
  let ?algc = "if kt = CKK_EC then ber_idEC @ ps else ps"
  have b: "length (ec_alg kt ps) \<le> length ?algc + 5" "length (ber_tlv 0x04 ?key) \<le> length ?key + 5"
    using ber_field_len_bounds(2) unfolding ec_alg_def length_ber_tlv by simp_all
  have "length (ber_int [0] @ ec_alg kt ps @ ber_tlv 0x04 ?key) < 2 ^ 24" using b assms(5) by simp
  from ber_sequence.dec_wire [OF this, of n rest]
  have outer: "ber_decode_SEQUENCE (Some (der @ rest)) n =
      ck_ok ((ber_int [0] @ ec_alg kt ps @ ber_tlv 0x04 ?key) @ rest, length (ber_int [0] @ ec_alg kt ps @ ber_tlv 0x04 ?key), length der)"
    using assms(6,7) by (simp only: pki_der_def)
  have pki: "ber_decode_PrivateKeyInfo (Some (der @ rest)) (length der) = ck_ok (?algc @ ber_tlv 0x04 ?key @ rest, length ?algc, ?key @ rest, length ?key)"
    unfolding assms(6) ec_alg_def by (rule ber_decode_PrivateKeyInfo_wire [OF assms(5) order_refl])
  have seq: "ber_decode_SEQUENCE (Some (?key @ rest)) (length ?key) = ck_ok (body @ rest, length body, length ?key)"
    by (rule ber_sequence.dec_exact [OF assms(4)])
  have ver: "ber_decode_INTEGER (Some (body @ rest)) (length body) = ck_ok ([1] @ ?k @ ex @ rest, 1, 3)"
    using ber_integer.dec_wire [of "[1]" "length body" "?k @ ex @ rest"] by (simp add: assms(3) ber_int_norm_def)
  have oct: "ber_decode_OCTET_STRING (Some (drop 3 (body @ rest))) (length body - 3) = ck_ok (pv @ ex @ rest, length pv, length ?k)"
    using ber_octet.dec_wire [OF assms(2), of "length body - 3" "ex @ rest"] by (simp add: assms(3))
  have off: "3 + length ?k = length body - length ex" by (simp add: assms(3))
  have cmp: "(if kt = CKK_EC then memcmp_differs (?algc @ t) ber_idEC else Some False) = Some False" for t
    by (simp add: memcmp_same)
  have parm: "(if kt = CKK_EC then (drop (length ber_idEC) (?algc @ t), ulong_sub (length ?algc) (length ber_idEC)) else (?algc @ t, length ?algc))
      = (ps @ t, length ps)" for t by (simp add: ulong_sub_def)
  show ?thesis
    unfolding der_decode_ECPrivateKey_def outer ck_bind_simps prod.case Let_def pki Option.bind.simps cmp seq ver oct off parm
    using assms(1,7) by auto
qed

lemma ec_find_public_none: "length data - length buf + off = dl \<Longrightarrow> ec_find_public data dl buf bl off = ck_ok (Some None)"
  by (simp add: ec_find_public_def)

lemma ec_find_public_choice:
  assumes "opt < 0x20" "length c < 2 ^ 24" "ex = ber_tlv (choice_tag True opt) c" "body = pre @ ex" "length (body @ rest) \<le> length data"
    "dl = length data - length rest"
  shows "ec_find_public data dl (body @ rest) (length body) (length pre) =
    (if opt = 0 then ck_ok (Some None)
     else if opt = 1 then
       ck_bind (ber_decode_BIT_STRING (Some (c @ rest)) (length c)) (\<lambda>(b, l, _). ck_ok (Some (Some (drop 1 b, l - 1))))
     else ck_ok None)"
proof -
  have ex: "2 \<le> length ex" using ber_field_len_bounds(1) [of "length c"] by (simp add: assms(3) length_ber_tlv)
  have dec: "ber_decode_CHOICE (Some (drop (length pre) (body @ rest))) (length body - length pre) True
      = ck_ok (c @ rest, length c, length ex, unat opt)"
    using ber_decode_CHOICE_tlv [OF assms(1,2), of True "length ex" rest] by (simp add: assms(3,4))
  have pos: "length data - length (body @ rest) + length pre < dl" using ex assms(4,5,6) by simp
  have hdr: "length ex - length c = length (ber_header (choice_tag True opt) (length c))" "length c \<le> length ex"
    by (simp_all add: assms(3) ber_tlv_def)
  then have rest: "drop (length pre + (length ex - length c)) (body @ rest) = c @ rest"
    "length body - (length pre + (length ex - length c)) = length c"
    by (simp_all add: assms(3,4) ber_tlv_def)
  have o: "unat opt = 0 \<longleftrightarrow> opt = 0" "unat opt = 1 \<longleftrightarrow> opt = 1" by (simp_all add: word_unat_eq_iff)
  show ?thesis unfolding ec_find_public_def if_P [OF pos] dec ck_bind_simps prod.case Let_def rest o ..
qed

lemma ec_find_public_field:
  assumes "ec_small ps pv pub" "body = pre @ ec_pub_field pub" "length (body @ rest) \<le> length data" "dl = length data - length rest"
    "length pre = off"
  shows "ec_find_public data dl (body @ rest) (length body) off = ck_ok (Some (map_option (\<lambda>pt. (pt @ rest, length pt)) pub))"
proof (cases pub)
  case None
  then show ?thesis using assms by (simp add: ec_pub_field_def ec_find_public_none)
next
  case (Some pt)
  let ?b = "ber_tlv 0x03 (0 # pt)"
  have bits: "ber_decode_BIT_STRING (Some (?b @ rest)) (length ?b) = ck_ok ((0 # pt) @ rest, length (0 # pt), length ?b)"
    using ber_bits.dec_wire [of "(0, pt)" "length ?b" rest] ec_sizes(5) [OF assms(1) Some] by simp
  have "ec_pub_field pub = ber_tlv (choice_tag True 1) ?b" using Some by (simp add: ec_pub_field_def)
  from ec_find_public_choice [OF _ ec_sizes(6) [OF assms(1) Some] this assms(2-4)]
  show ?thesis using bits assms(5) Some by simp
qed

lemma ec_build_wire:
  assumes "mallocs True mem" "kt \<noteq> CKK_unsupported" "ec_small ps pv pub"
  shows "ec_build mem kt (ps @ t) (length ps) (map_option (\<lambda>pt. (pt @ rest, length pt)) pub) (pv @ u) (length pv)
    = ck_ok (mk_attr CKA_EC_PARAMS ps, map_option (ec_pub_attr kt) pub, mk_attr CKA_VALUE pv)"
proof -
  have bld: "build_attribute (mem i) ty (Some (x @ r)) (length x) = ck_ok (mk_attr ty x)" for i ty x r
    using build_attribute_delivers [OF assms(1), of "length x" "x @ r" i ty] by simp
  have oct: "ber_encode_OCTET_STRING False (mem 1) (Some (pt @ rest)) (length pt) = ck_ok (length (ber_tlv 0x04 pt), Some (ber_tlv 0x04 pt))"
    if "pub = Some pt" for pt
    using ber_encode_OCTET_STRING_wire [OF mallocs_sized [OF assms(1)], of pt "length pt" 1 rest] ec_sizes(5) [OF assms(3) that]
      delivers_result [OF assms(1)] by simp
  show ?thesis using bld [of _ _ _ "[]"]
    by (cases pub) (auto simp: ec_build_def bld ec_cleanup_def oct ec_wrap_def simp del: One_nat_def)
qed

text \<open>
  C10: An elliptic curve private key, with or without its public point, survives encoding and
  decoding for Weierstrass, Edwards and Montgomery curves, provided the curve parameters have
  at most 118 bytes: the decoder gives back the parameters, the point in the form of its key
  type and the private value.
\<close>

theorem ec_private_key_roundtrip:
  assumes "mallocs True mem" "mallocs True mem'" "kt \<noteq> CKK_unsupported" "attr_wf params" "attr_wf privkey"
    "ec_small (behind params) (behind privkey) pub"
  shows "\<exists>der. der_encode_ECPrivateKey False mem params privkey (map_option (ec_pub_attr kt) pub) kt = ck_ok (length der, Some der)
    \<and> (\<forall>rest. der_decode_ECPrivateKey mem' (Some (der @ rest)) (length (der @ rest)) kt =
      ck_ok (Some (mk_attr CKA_EC_PARAMS (behind params), map_option (ec_pub_attr kt) pub, mk_attr CKA_VALUE (behind privkey))))"
proof -
  let ?ps = "behind params" and ?pv = "behind privkey"
  let ?der = "ec_der kt ?ps ?pv pub" and ?body = "ec_body ?pv pub"
  note sz = ec_sizes [OF assms(6)]
  have "der_decode_ECPrivateKey mem' (Some (?der @ rest)) (length (?der @ rest)) kt =
      ck_ok (Some (mk_attr CKA_EC_PARAMS ?ps, map_option (ec_pub_attr kt) pub, mk_attr CKA_VALUE ?pv))" for rest
  proof -
    obtain tail where front: "der_decode_ECPrivateKey mem' (Some (?der @ rest)) (length (?der @ rest)) kt =
      ck_bind (ec_find_public (?der @ rest) (length ?der) (?body @ rest) (length ?body) (length ?body - length (ec_pub_field pub))) (\<lambda>found.
        case found of
          None \<Rightarrow> ck_ok None
        | Some pub' \<Rightarrow> ck_bind (ec_build mem' kt (?ps @ tail) (length ?ps) pub' (?pv @ ec_pub_field pub @ rest) (length ?pv)) (\<lambda>r. ck_ok (Some r)))"
      using der_decode_ECPrivateKey_front [OF assms(3) sz(1) ec_body_def sz(2) sz(4) ec_der_def, of "length (?der @ rest)" mem' rest]
      by auto
    have "length ?body \<le> length ?der" by (simp add: ec_der_def pki_der_def ber_tlv_def)
    then have "ec_find_public (?der @ rest) (length ?der) (?body @ rest) (length ?body) (length ?body - length (ec_pub_field pub))
        = ck_ok (Some (map_option (\<lambda>pt. (pt @ rest, length pt)) pub))"
      by (intro ec_find_public_field [OF assms(6), of _ "ber_int [1] @ ber_tlv 0x04 ?pv"]) (simp_all add: ec_body_def)
    with front show ?thesis using ec_build_wire [OF assms(2,3,6)] by simp
  qed
  then show ?thesis using der_encode_ECPrivateKey_wire [OF assms(1,3,6,4,5)] by auto
qed

theorem ec_private_key_roundtrip_witness:
  "\<exists>der. der_encode_ECPrivateKey False zero_mem (mk_attr CKA_EC_PARAMS [0x06, 0x01, 0x2a]) (mk_attr CKA_VALUE [0, 7])
      (Some (ec_pub_attr CKK_EC [4, 1, 2])) CKK_EC = ck_ok (length der, Some der)
    \<and> (\<forall>rest. der_decode_ECPrivateKey zero_mem (Some (der @ rest)) (length (der @ rest)) CKK_EC =
      ck_ok (Some (mk_attr CKA_EC_PARAMS [0x06, 0x01, 0x2a], Some (ec_pub_attr CKK_EC [4, 1, 2]), mk_attr CKA_VALUE [0, 7])))"
  using ec_private_key_roundtrip [OF mallocs_zero_mem mallocs_zero_mem, of CKK_EC "mk_attr CKA_EC_PARAMS [0x06, 0x01, 0x2a]"
      "mk_attr CKA_VALUE [0, 7]" "Some [4, 1, 2]"] by (simp add: ec_small_def)

section \<open>Defects of the private key functions\<close>

text \<open>
  C36: A private key whose optional field is a CHOICE other than 0 or 1 makes
  \<^verbatim>\<open>der_decode_ECPrivateKey\<close> return \<^verbatim>\<open>CKR_OK\<close> without setting its outputs: the jump to \<^verbatim>\<open>cleanup\<close>
  leaves \<^verbatim>\<open>rc\<close> as the successful decoding of the CHOICE set it.
\<close>

theorem ec_unknown_choice_reports_success:
  assumes "2 \<le> opt" "opt < 0x20" "kt \<noteq> CKK_unsupported" "length ps \<le> 118" "length pv + length c + 256 < 2 ^ 24"
    "body = ber_int [1] @ ber_tlv 0x04 pv @ ber_tlv (choice_tag True opt) c"
    "der = pki_der (ec_alg kt ps) (ber_tlv 0x30 body)"
  shows "der_decode_ECPrivateKey mem (Some der) (length der) kt = ck_ok None"
proof -
  let ?ex = "ber_tlv (choice_tag True opt) c"
  have "length ?ex \<le> length c + 5" "length (ber_tlv 0x04 pv) \<le> length pv + 5" "length (ber_tlv 0x30 body) \<le> length body + 5"
    using ber_field_len_bounds(2) by (simp_all add: length_ber_tlv)
  moreover have "length (if kt = CKK_EC then ber_idEC @ ps else ps) \<le> 127" using assms(4) by (simp add: ber_idEC_def)
  ultimately have "length body < 2 ^ 24" "length (if kt = CKK_EC then ber_idEC @ ps else ps) + length (ber_tlv 0x30 body) + 13 < 2 ^ 24"
    using assms(5,6) by simp_all
  from der_decode_ECPrivateKey_front [OF assms(3) _ assms(6) this assms(7) order_refl, of mem "[]", unfolded append_Nil2] assms(5)
  obtain tail where front: "der_decode_ECPrivateKey mem (Some der) (length der) kt =
    ck_bind (ec_find_public der (length der) body (length body) (length body - length ?ex)) (\<lambda>found.
      case found of
        None \<Rightarrow> ck_ok None
      | Some pub \<Rightarrow> ck_bind (ec_build mem kt (ps @ tail) (length ps) pub (pv @ ?ex) (length pv)) (\<lambda>r. ck_ok (Some r)))"
    by auto
  have "opt \<noteq> 0" "opt \<noteq> 1" using assms(1) by (auto simp: word_le_nat_alt)
  moreover have "length body \<le> length der" by (simp add: assms(7) pki_der_def ber_tlv_def)
  ultimately have "ec_find_public der (length der) body (length body) (length body - length ?ex) = ck_ok None"
    using ec_find_public_choice [OF assms(2) _ refl, of c body "ber_int [1] @ ber_tlv 0x04 pv" "[]" der "length der"] assms(5,6)
    by (simp add: numeral_3_eq_3)
  with front show ?thesis by simp
qed

theorem ec_unknown_choice_reports_success_witness:
  "der_decode_ECPrivateKey zero_mem (Some (pki_der (ec_alg CKK_EC [0x06, 0x01, 0x2a])
      (ber_tlv 0x30 (ber_int [1] @ ber_tlv 0x04 [9] @ ber_tlv (choice_tag True 2) []))))
    (length (pki_der (ec_alg CKK_EC [0x06, 0x01, 0x2a])
      (ber_tlv 0x30 (ber_int [1] @ ber_tlv 0x04 [9] @ ber_tlv (choice_tag True 2) [])))) CKK_EC = ck_ok None"
  by (rule ec_unknown_choice_reports_success [OF _ _ _ _ _ refl refl]) simp_all

text \<open>
  When the allocation of the point or of the value attribute fails for an Edwards or
  Montgomery key with a public key, \<^verbatim>\<open>der_decode_ECPrivateKey\<close> frees the point, which for these
  key types is a pointer into its input: the behaviour is undefined.
\<close>

lemma ec_interior_free:
  assumes "kt = CKK_EC_EDWARDS \<or> kt = CKK_EC_MONTGOMERY" "mallocs True mem" "ec_small ps pv (Some pt)" "j = 2 \<or> j = 3"
  shows "der_decode_ECPrivateKey (mem(j := \<lambda>_. None)) (Some (ec_der kt ps pv (Some pt))) (length (ec_der kt ps pv (Some pt))) kt = None"
proof -
  let ?der = "ec_der kt ps pv (Some pt)" and ?body = "ec_body pv (Some pt)" and ?mem = "mem(j := \<lambda>_. None)"
  have kt: "kt \<noteq> CKK_unsupported" "kt \<noteq> CKK_EC" using assms(1) by auto
  note sz = ec_sizes [OF assms(3)]
  from der_decode_ECPrivateKey_front [OF kt(1) sz(1) ec_body_def sz(2) sz(4) ec_der_def order_refl, of ?mem "[]", unfolded append_Nil2]
  obtain tail where front: "der_decode_ECPrivateKey ?mem (Some ?der) (length ?der) kt =
    ck_bind (ec_find_public ?der (length ?der) ?body (length ?body) (length ?body - length (ec_pub_field (Some pt)))) (\<lambda>found.
      case found of
        None \<Rightarrow> ck_ok None
      | Some pub \<Rightarrow> ck_bind (ec_build ?mem kt (ps @ tail) (length ps) pub (pv @ ec_pub_field (Some pt)) (length pv)) (\<lambda>r. ck_ok (Some r)))"
    by auto
  have "length ?body \<le> length ?der" by (simp add: ec_der_def pki_der_def ber_tlv_def)
  then have find: "ec_find_public ?der (length ?der) ?body (length ?body) (length ?body - length (ec_pub_field (Some pt)))
      = ck_ok (Some (Some (pt, length pt)))"
    using ec_find_public_field [OF assms(3), of ?body "ber_int [1] @ ber_tlv 0x04 pv" "[]" ?der "length ?der"]
    by (simp add: ec_body_def numeral_3_eq_3)
  have bld: "build_attribute (?mem i) ty (Some (x @ r)) (length x) = (if i = j then ck_fail CKR_HOST_MEMORY else ck_ok (mk_attr ty x))" for i ty x r
    using build_attribute_delivers [OF assms(2), of "length x" "x @ r" i ty] by (simp add: build_attribute_def)
  have "ec_build ?mem kt (ps @ t) (length ps) (Some (pt, length pt)) (pv @ u) (length pv) = None" for t u
    using assms(4) kt(2) by (auto simp: ec_build_def bld bld [of _ _ _ "[]", unfolded append_Nil2] ec_cleanup_def
        simp del: fun_upd_apply)
  with front find show ?thesis by simp
qed

text \<open>
  For a \<^verbatim>\<open>CKK_EC\<close> key \<^verbatim>\<open>der_encode_ECPrivateKey\<close> adds the length of the curve parameters to a
  one-byte length field. With explicit parameters of 119 bytes, or of 123 to 246 bytes, the
  byte turns into a long form that does not fit: the call succeeds, and what it wrote is
  rejected by \<^verbatim>\<open>der_decode_ECPrivateKey\<close>.
\<close>

lemma ec_long_params_undecodable:
  assumes "mallocs True mem" "attr_wf params" "attr_wf privkey" "ec_small [] (behind privkey) pub"
    "length (behind params) = 119 \<or> 123 \<le> length (behind params) \<and> length (behind params) \<le> 246"
  shows "\<exists>der. der_encode_ECPrivateKey False mem params privkey (map_option (ec_pub_attr CKK_EC) pub) CKK_EC = ck_ok (length der, Some der)
    \<and> der_decode_ECPrivateKey mem' (Some der) (length der) CKK_EC = ck_fail CKR_FUNCTION_FAILED"
proof -
  let ?pl = "length (behind params)" and ?key = "ber_tlv 0x30 (ec_body (behind privkey) pub)"
  define b where "b = (of_nat (9 + ?pl) :: byte)"
  define alg where "alg = [0x30, b] @ ber_idEC @ behind params"
  define der where "der = pki_der alg ?key"
  have al: "length alg \<le> 257" using assms(5) by (auto simp: alg_def ber_idEC_def)
  have "ec_algid CKK_EC params = ck_ok alg"
    using attr_wfD [OF assms(2)] by (simp add: ec_algid_def copy_plain_def get_bytes_def der_AlgIdECBase_def alg_def b_def ber_idEC_def)
  note enc = der_encode_ECPrivateKey_alg [OF assms(1) _ assms(4) this assms(3) al der_def]
  let ?c = "ber_int [0] @ alg @ ber_tlv 0x04 ?key"
  have "length (ber_tlv 0x04 ?key) \<le> length ?key + 5" using ber_field_len_bounds(2) [of "length ?key"] unfolding length_ber_tlv by simp
  then have c: "length ?c < 2 ^ 24" using ec_sizes(7) [OF assms(4)] al by simp
  have outer: "ber_decode_SEQUENCE (Some der) (length der) = ck_ok (?c, length ?c, length der)"
    using ber_sequence.dec_wire [OF c, of "length der" "[]"] by (simp add: der_def pki_der_def)
  have int: "ber_decode_INTEGER (Some ?c) (length ?c) = ck_ok (alg @ ber_tlv 0x04 ?key, 0, 3)"
    using ber_integer.dec_wire [of "[0]" "length ?c" "alg @ ber_tlv 0x04 ?key"] by (simp add: ber_int_norm_def)
  have b1: "and b 0x80 \<noteq> 0" "unat (and b 0x7F) = ?pl - 119"
    using byte_8bit [of "9 + ?pl"] assms(5) unfolding b_def by auto
  have lo: "unat (and b 0x7F) \<noteq> 1" "unat (and b 0x7F) \<noteq> 2" "unat (and b 0x7F) \<noteq> 3" using assms(5) unfolding b1(2) by auto
  have seq: "ber_decode_SEQUENCE (Some (drop 3 ?c)) (length ?c - 3) = ck_fail CKR_FUNCTION_FAILED"
    using b1(1) lo by (simp add: ber_decode_SEQUENCE_def ber_open_def ber_decode_len_def alg_def Let_def)
  have "der \<noteq> []" using ber_tlv_Cons [of "0x30" ?c] by (auto simp: der_def pki_der_def)
  then have "ber_decode_PrivateKeyInfo (Some der) (length der) = ck_fail CKR_FUNCTION_FAILED"
    unfolding ber_decode_PrivateKeyInfo_def outer ck_bind_simps prod.case int Let_def seq by simp
  then have "der_decode_ECPrivateKey mem' (Some der) (length der) CKK_EC = ck_fail CKR_FUNCTION_FAILED"
    unfolding der_decode_ECPrivateKey_def outer ck_bind_simps prod.case Let_def by simp
  then show ?thesis using enc by blast
qed

section \<open>Public keys\<close>

definition ec_spki :: "ckk \<Rightarrow> byte list \<Rightarrow> byte list \<Rightarrow> byte list" where
  "ec_spki kt ps pt = spki_der (if kt = CKK_EC then ber_idEC @ ps else ps) pt"

lemma ec_put_algid_wire:
  assumes "mallocs True mem" "kt \<noteq> CKK_unsupported" "attr_wf params" "length (behind params) \<le> 118"
    "length (ec_alg kt (behind params)) \<le> length buf"
  shows "ec_put_algid mem kt params buf =
    ck_ok (ec_alg kt (behind params) @ drop (length (ec_alg kt (behind params))) buf, length (ec_alg kt (behind params)))"
proof (cases "kt = CKK_EC")
  case True
  let ?ps = "behind params" and ?h = der_AlgIdECBase
  have h: "length ?h = 11" by (simp add: der_AlgIdECBase_def)
  have wf: "ulValueLen params = length ?ps" "copy_plain (pValue params) (length ?ps) = Some ?ps"
    using attr_wfD [OF assms(3)] by (simp_all add: copy_plain_def get_bytes_def)
  have alg: "(?h @ ?ps)[1 := (?h @ ?ps) ! 1 + of_nat (length ?ps)] = ec_alg kt ?ps"
    using assms(4) True by (simp add: ec_alg_def der_AlgIdECBase_def ber_idEC_def ber_tlv_def ber_header_def)
  have len: "length (ec_alg kt ?ps) = 11 + length ?ps" using arg_cong [OF alg, of length] h by simp
  have "memcpy_at buf 0 (Some ?h) (length ?h) = Some (?h @ drop 11 buf)"
    using memcpy_at_append [of "[]" 0 ?h 11 buf] h len assms(5) by simp
  moreover have "memcpy_at (?h @ drop 11 buf) (length ?h) (pValue params) (length ?ps) = Some (?h @ ?ps @ drop (11 + length ?ps) buf)"
    using put_bytes_append [of ?h "length ?h" ?ps "drop 11 buf"] len assms(5) by (simp add: memcpy_at_def wf(2) add.commute)
  moreover have "(?h @ ?ps @ r)[1 := (?h @ ?ps @ r) ! 1 + of_nat (length ?ps)] = ec_alg kt ?ps @ r" for r
    unfolding alg [symmetric] using h by (simp add: list_update_append nth_append)
  ultimately show ?thesis using True h len by (simp add: ec_put_algid_def wf(1))
next
  case False
  let ?ps = "behind params"
  have "ber_encode_SEQUENCE False (mem 1) (pValue params) (ulValueLen params) = ber_encode_SEQUENCE False (mem 1) (Some ?ps) (length ?ps)"
    using attr_wfD [OF assms(3)] by (simp add: ber_encode_SEQUENCE_def copy_plain_def get_bytes_def)
  also have "\<dots> = ck_ok (length (ec_alg kt ?ps), Some (ec_alg kt ?ps))"
    using ber_encode_SEQUENCE_wire [OF mallocs_sized [OF assms(1)] _ refl, of ?ps 1 "[]"] assms(4) False
      delivers_result [OF assms(1), of 1 "ec_alg kt ?ps"] by (simp add: ec_alg_def)
  finally show ?thesis using False memcpy_at_append [of "[]" 0 "ec_alg kt ?ps" _ buf] assms(5) by (simp add: ec_put_algid_def)
qed

lemma ber_encode_ECPublicKey_wire:
  assumes "mallocs True mem" "kt \<noteq> CKK_unsupported" "attr_wf params" "length (behind params) \<le> 118"
    "pt \<noteq> []" "length pt + 256 < 2 ^ 24"
  shows "ber_encode_ECPublicKey False mem params (ec_pub_attr kt pt) kt
    = ck_ok (length (ec_spki kt (behind params) pt), Some (ec_spki kt (behind params) pt))"
proof -
  let ?ps = "behind params" and ?b = "ber_tlv 0x03 (0 # pt)"
  let ?a = "ec_alg kt ?ps"
  note sized = mallocs_sized [OF assms(1)]
  have res: "ber_result (mem i) w = ck_ok (length w, Some w)" for i w using delivers_result [OF assms(1), of i w] by simp
  have wf: "ulValueLen params = length ?ps" using assms(3) by (rule attr_wfD)
  have pl: "length pt + 1 < 2 ^ 24" using assms(6) by simp
  note point = ec_point_wrap(1) [OF assms(2,5) pl]
  have al: "length ?a \<le> 132" "length ?b \<le> length pt + 6"
    using assms(4) ber_field_len_bounds(2) [of "length (if kt = CKK_EC then ber_idEC @ ?ps else ?ps)"]
      ber_field_len_bounds(2) [of "length (0 # pt)"] by (simp_all add: ec_alg_def length_ber_tlv ber_idEC_def split: if_splits)
  have algid: "(if kt = CKK_EC then ck_ok (length der_AlgIdECBase + ulValueLen params, None)
      else ber_encode_SEQUENCE True (mem 0) None (ulValueLen params)) = ck_ok (length ?a, None)"
    using assms(4) wf by (simp add: der_AlgIdECBase_def ec_alg_def length_ber_tlv ber_field_len_def ber_idEC_def
        ber_encode_SEQUENCE_def ber_emit_def)
  have bl: "ber_encode_BIT_STRING True (mem 0) None (length pt) 0 = ck_ok (length ?b, None)"
    using pl by (simp add: ber_encode_BIT_STRING_def ber_emit_def length_ber_tlv)
  define tot where "tot = ber_field_len (ber_field_len (length ?a) + length ?b)"
  have lens: "ber_encode_SEQUENCE True (mem 0) None (length ?a) = ck_ok (ber_field_len (length ?a), None)"
    "ber_encode_SEQUENCE True (mem 0) None (ber_field_len (length ?a) + length ?b) = ck_ok (tot, None)"
    using al assms(6) ber_field_len_bounds(2) [of "length ?a"] by (simp_all add: ber_encode_SEQUENCE_def ber_emit_def tot_def)
  have tot: "length ?a + length ?b \<le> tot"
    using ber_field_len_bounds(1) [of "length ?a"] ber_field_len_bounds(1) [of "ber_field_len (length ?a) + length ?b"]
    by (simp add: tot_def)
  obtain buf where buf: "mem 0 tot = Some buf" "length buf = tot"
    using assms(1) malloc_sizedD [OF sized [of 0]] unfolding mallocs_def by blast
  have put: "ec_put_algid mem kt params buf = ck_ok (?a @ drop (length ?a) buf, length ?a)"
    using tot buf(2) by (intro ec_put_algid_wire [OF assms(1-4)]) simp
  have bits: "ber_encode_BIT_STRING False (mem 2) (Some pt) (length pt) 0 = ck_ok (length ?b, Some ?b)"
    using ber_encode_BIT_STRING_wire [OF sized pl refl, of 2 "[]" 0] res by simp
  have cp: "memcpy_at (?a @ drop (length ?a) buf) (length ?a) (Some ?b) (length ?b) = Some ((?a @ ?b) @ drop (length ?a + length ?b) buf)"
    using memcpy_at_append [of ?a _ ?b _ "drop (length ?a) buf"] tot buf(2) by (simp add: add.commute)
  have "length (?a @ ?b) < 2 ^ 24" using al assms(6) by simp
  from ber_encode_SEQUENCE_wire [OF sized this length_append [symmetric], of 3]
  have fin: "ber_encode_SEQUENCE False (mem 3) (Some ((?a @ ?b) @ r)) (length ?a + length ?b)
      = ck_ok (length (ec_spki kt ?ps pt), Some (ec_spki kt ?ps pt))" for r
    by (simp only: res ec_spki_def spki_der_def ec_alg_def)
  show ?thesis unfolding ber_encode_ECPublicKey_def point ck_bind_simps prod.case algid lens bl if_False buf(1) option.case put bits cp
      Option.bind.simps fin ..
qed

text \<open>
  An elliptic curve public key survives encoding and decoding for the three kinds of curves,
  with curve parameters of at most 118 bytes; for Edwards and Montgomery curves these must be an
  object identifier, since the decoder takes their length from it.
\<close>

lemma ec_public_key_roundtrip:
  assumes "mallocs True mem" "mallocs True mem'" "kt \<noteq> CKK_unsupported" "attr_wf params" "length (behind params) \<le> 118"
    "pt \<noteq> []" "length pt + 256 < 2 ^ 24" "kt \<noteq> CKK_EC \<longrightarrow> is_oid (behind params)"
  shows "\<exists>der. ber_encode_ECPublicKey False mem params (ec_pub_attr kt pt) kt = ck_ok (length der, Some der)
    \<and> (\<forall>rest. der_decode_ECPublicKey mem' (Some (der @ rest)) (length (der @ rest)) kt
      = ck_ok (mk_attr CKA_EC_PARAMS (behind params), ec_pub_attr kt pt))"
proof -
  let ?ps = "behind params"
  define ident par where "ident = (if kt = CKK_EC then ber_idEC else ?ps)" and "par = (if kt = CKK_EC then ?ps else [])"
  have oid: "is_oid ident" using assms(8) by (simp add: ident_def is_oid_def ber_idEC_def)
  have w: "ec_spki kt ?ps pt = spki_der (ident @ par) pt" by (simp add: ec_spki_def ident_def par_def)
  have sm: "length ident + length par + length pt + 20 < 2 ^ 24" using assms(5,7) by (simp add: ident_def par_def ber_idEC_def)
  have bld: "build_attribute (mem' i) ty (Some (x @ r)) (length x) = ck_ok (mk_attr ty x)" for i ty x r
    using build_attribute_delivers [OF assms(2), of "length x" "x @ r" i ty] by simp
  have oct: "ber_encode_OCTET_STRING False (mem' 1) (Some (pt @ r)) (length pt) = ck_ok (length (ber_tlv 0x04 pt), Some (ber_tlv 0x04 pt))" for r
    using ber_encode_OCTET_STRING_wire [OF mallocs_sized [OF assms(2)] _ refl, of pt 1 r] assms(7) delivers_result [OF assms(2)] by simp
  have base: "ber_decode_SEQUENCE (Some der_AlgIdECBase) (length der_AlgIdECBase) = ck_ok (ber_idEC, 9, 11)" "take 9 ber_idEC = ber_idEC"
    by (simp_all add: ber_decode_SEQUENCE_def ber_open_def ber_decode_len_def ber_len_checked_def der_AlgIdECBase_def ber_idEC_def)
  have "der_decode_ECPublicKey mem' (Some (ec_spki kt ?ps pt @ rest)) (length (ec_spki kt ?ps pt @ rest)) kt
      = ck_ok (mk_attr CKA_EC_PARAMS ?ps, ec_pub_attr kt pt)" for rest
  proof -
    define t where "t = ber_tlv 0x03 (0 # pt) @ rest"
    have spki: "ber_decode_SPKI (Some (ec_spki kt ?ps pt @ rest)) (length (ec_spki kt ?ps pt @ rest))
        = ck_ok (ident @ par @ t, length ident, par @ t, length par, pt @ rest, length pt)"
      unfolding w by (rule ber_decode_SPKI_wire [OF oid sm _ t_def]) simp
    show ?thesis unfolding der_decode_ECPublicKey_def spki ck_bind_simps prod.case using assms(3) bld [of _ _ _ "[]"]
      by (cases kt) (simp_all add: ident_def par_def base memcmp_same bld oct ec_wrap_def del: One_nat_def)
  qed
  then show ?thesis using ber_encode_ECPublicKey_wire [OF assms(1,3-7)] by auto
qed

end
