(* ===== verification/Constant_Time.thy ===== *)
theory Constant_Time
  imports Ock_Prelude
begin

text \<open>
  The branch-free primitives of \<^verbatim>\<open>usr/lib/common/constant_time.h\<close>. The header writes each of
  them once per width; here a definition is generic in the width, and the variants with the suffix
  \<^verbatim>\<open>_8\<close> truncate as the code does. A C \<^verbatim>\<open>int\<close> is its pattern of 32 bits. The lemmas show that
  the masks are all ones or zero according to the comparison they stand for and that selections
  and swaps then are conditional ones.
\<close>

section \<open>Operations\<close>

definition constant_time_msb :: "'a::len word \<Rightarrow> 'a word" where
  "constant_time_msb a = 0 - drop_bit (LENGTH('a) - 1) a"

definition constant_time_lt :: "'a::len word \<Rightarrow> 'a word \<Rightarrow> 'a word" where
  "constant_time_lt a b = constant_time_msb (xor a (or (xor a b) (xor (a - b) b)))"

definition constant_time_lt_8 :: "u32 \<Rightarrow> u32 \<Rightarrow> byte" where
  "constant_time_lt_8 a b = ucast (constant_time_lt a b)"

definition constant_time_ge :: "'a::len word \<Rightarrow> 'a word \<Rightarrow> 'a word" where
  "constant_time_ge a b = not (constant_time_lt a b)"

definition constant_time_ge_8 :: "u32 \<Rightarrow> u32 \<Rightarrow> byte" where
  "constant_time_ge_8 a b = ucast (constant_time_ge a b)"

definition constant_time_is_zero :: "'a::len word \<Rightarrow> 'a word" where
  "constant_time_is_zero a = constant_time_msb (and (not a) (a - 1))"

definition constant_time_is_zero_8 :: "u32 \<Rightarrow> byte" where
  "constant_time_is_zero_8 a = ucast (constant_time_is_zero a)"

definition constant_time_eq :: "'a::len word \<Rightarrow> 'a word \<Rightarrow> 'a word" where
  "constant_time_eq a b = constant_time_is_zero (xor a b)"

definition constant_time_eq_8 :: "u32 \<Rightarrow> u32 \<Rightarrow> byte" where
  "constant_time_eq_8 a b = ucast (constant_time_eq a b)"

definition constant_time_eq_int :: "u32 \<Rightarrow> u32 \<Rightarrow> u32" where
  "constant_time_eq_int a b = constant_time_eq a b"

text \<open>The barrier only keeps the compiler from reasoning about the value.\<close>

definition value_barrier :: "'a::len word \<Rightarrow> 'a word" where
  "value_barrier a = a"

definition constant_time_select :: "'a::len word \<Rightarrow> 'a word \<Rightarrow> 'a word \<Rightarrow> 'a word" where
  "constant_time_select smask a b = or (and (value_barrier smask) a) (and (value_barrier (not smask)) b)"

definition constant_time_select_8 :: "byte \<Rightarrow> byte \<Rightarrow> byte \<Rightarrow> byte" where
  "constant_time_select_8 smask a b = ucast (constant_time_select (ucast smask :: u32) (ucast a) (ucast b))"

definition constant_time_select_int :: "u32 \<Rightarrow> u32 \<Rightarrow> u32 \<Rightarrow> u32" where
  "constant_time_select_int smask a b = constant_time_select smask a b"

definition constant_time_cond_swap :: "'a::len word \<Rightarrow> 'a word \<Rightarrow> 'a word \<Rightarrow> 'a word \<times> 'a word" where
  "constant_time_cond_swap smask a b = (let x = and (xor a b) smask in (xor a x, xor b x))"

fun constant_time_cond_swap_buff :: "byte \<Rightarrow> byte list \<Rightarrow> byte list \<Rightarrow> nat \<Rightarrow> (byte list \<times> byte list) option" where
  "constant_time_cond_swap_buff smask as bs 0 = Some (as, bs)"
| "constant_time_cond_swap_buff smask (a # as) (b # bs) (Suc n) =
     (let tmp = and (xor a b) smask in
      map_option (\<lambda>(as, bs). (xor a tmp # as, xor b tmp # bs)) (constant_time_cond_swap_buff smask as bs n))"
| "constant_time_cond_swap_buff smask _ _ (Suc n) = None"

text \<open>The rows of the table that are left, and the row number counted down with wrap-around.\<close>

fun ct_lookup_rows :: "nat \<Rightarrow> nat \<Rightarrow> u64 \<Rightarrow> byte list \<Rightarrow> byte list \<Rightarrow> byte list option" where
  "ct_lookup_rows rowsize 0 idx tbl out = Some out"
| "ct_lookup_rows rowsize (Suc n) idx tbl out = do {
     row \<leftarrow> get_bytes tbl 0 rowsize;
     let smask = ucast (constant_time_is_zero idx);
     ct_lookup_rows rowsize n (idx - 1) (drop rowsize tbl)
       (map2 (\<lambda>c t. or c (constant_time_select_8 smask t 0)) out row) }"

definition constant_time_lookup :: "byte list \<Rightarrow> nat \<Rightarrow> nat \<Rightarrow> u64 \<Rightarrow> byte list option" where
  "constant_time_lookup table rowsize numrows idx =
     ct_lookup_rows rowsize numrows idx table (replicate rowsize 0)"

section \<open>Masks\<close>

definition ct_mask :: "bool \<Rightarrow> 'a::len word" where
  "ct_mask P = (if P then - 1 else 0)"

lemma ct_mask_simps [simp]: "ct_mask True = - 1" "ct_mask False = 0"
  by (simp_all add: ct_mask_def)

lemma ct_mask_eq_0 [simp]: "ct_mask P = 0 \<longleftrightarrow> \<not> P"
  by (simp add: ct_mask_def)

lemma ct_mask_bool [simp]:
  "not (ct_mask P :: 'a::len word) = ct_mask (\<not> P)"
  "and (ct_mask P) (ct_mask Q :: 'a word) = ct_mask (P \<and> Q)"
  "or (ct_mask P) (ct_mask Q :: 'a word) = ct_mask (P \<or> Q)"
  by (simp_all add: ct_mask_def)

lemma ucast_minus_one [simp]:
  "LENGTH('b::len) \<le> LENGTH('a::len) \<Longrightarrow> ucast (- 1 :: 'a word) = (- 1 :: 'b word)"
  by (intro bit_word_eqI) (auto simp: bit_unsigned_iff)

lemma ucast_ct_mask [simp]:
  "LENGTH('b::len) \<le> LENGTH('a::len) \<Longrightarrow> ucast (ct_mask P :: 'a word) = (ct_mask P :: 'b word)"
  by (simp add: ct_mask_def)

lemma bit_top_iff:
  fixes w :: "'a::len word"
  shows "bit w (LENGTH('a) - Suc 0) \<longleftrightarrow> 2 ^ (LENGTH('a) - Suc 0) \<le> unat w"
proof -
  have *: "unat w < 2 * 2 ^ (LENGTH('a) - Suc 0)"
    using unsigned_less [of w, where ?'a = nat] by (simp add: power_Suc [symmetric] del: power_Suc)
  have "bit w (LENGTH('a) - Suc 0) \<longleftrightarrow> odd (unat w div 2 ^ (LENGTH('a) - Suc 0))"
    by (simp add: bit_iff_odd [symmetric] bit_unsigned_iff)
  also have "\<dots> \<longleftrightarrow> 2 ^ (LENGTH('a) - Suc 0) \<le> unat w"
  proof (cases "2 ^ (LENGTH('a) - Suc 0) \<le> unat w")
    case True
    then have "unat w div 2 ^ (LENGTH('a) - Suc 0) = 1"
      using * by (intro div_nat_eqI) simp_all
    then show ?thesis using True by simp
  next
    case False
    then show ?thesis by simp
  qed
  finally show ?thesis .
qed

lemma constant_time_msb_mask:
  fixes w :: "'a::len word"
  shows "constant_time_msb w = ct_mask (bit w (LENGTH('a) - Suc 0))"
proof -
  have "drop_bit (LENGTH('a) - Suc 0) w = (if bit w (LENGTH('a) - Suc 0) then 1 else 0)"
  proof (rule bit_word_eqI)
    fix n assume "n < LENGTH('a)"
    show "bit (drop_bit (LENGTH('a) - Suc 0) w) n = bit (if bit w (LENGTH('a) - Suc 0) then 1 else 0 :: 'a word) n"
    proof (cases n)
      case (Suc m)
      then have "\<not> bit w (LENGTH('a) - Suc 0 + n)" by (auto dest!: bit_imp_le_length)
      with Suc show ?thesis by (simp add: bit_drop_bit_eq bit_1_iff)
    qed (simp add: bit_drop_bit_eq bit_1_iff)
  qed
  then show ?thesis by (simp add: constant_time_msb_def ct_mask_def)
qed

lemma constant_time_lt_mask: "constant_time_lt a b = ct_mask (a < b)" for a b :: "'a::len word"
proof -
  let ?n = "LENGTH('a) - Suc 0"
  let ?h = "2 ^ ?n :: nat"
  have two: "2 ^ LENGTH('a) = 2 * ?h" by (simp add: power_Suc [symmetric] del: power_Suc)
  have u: "unat a < 2 * ?h" "unat b < 2 * ?h"
    using unsigned_less [of a, where ?'a = nat] unsigned_less [of b, where ?'a = nat] two by simp_all
  have d: "unat (a - b) = (if b \<le> a then unat a - unat b else unat a + 2 * ?h - unat b)"
    using u two by (auto simp: unat_sub_if_size word_le_nat_alt word_size)
  have "bit (xor a (or (xor a b) (xor (a - b) b))) ?n \<longleftrightarrow> a < b"
    using u d unfolding bit_xor_iff bit_or_iff by (auto simp: bit_top_iff word_less_nat_alt word_le_nat_alt not_le split: if_splits)
  then show ?thesis by (simp add: constant_time_lt_def constant_time_msb_mask)
qed

lemma constant_time_is_zero_mask: "constant_time_is_zero a = ct_mask (a = 0)" for a :: "'a::len word"
proof -
  let ?n = "LENGTH('a) - Suc 0"
  have "bit (and (not a) (a - 1)) ?n \<longleftrightarrow> a = 0"
  proof (cases "a = 0")
    case True
    then show ?thesis by (simp add: bit_and_iff bit_not_iff)
  next
    case False
    then have "unat (a - 1) = unat a - 1" by (simp add: unat_minus_one)
    then show ?thesis using False unfolding bit_and_iff bit_not_iff by (auto simp: bit_top_iff)
  qed
  then show ?thesis by (simp add: constant_time_is_zero_def constant_time_msb_mask)
qed

lemma xor_eq_0: "xor a b = 0 \<longleftrightarrow> a = b" for a b :: "'a::len word"
proof
  assume "xor a b = 0"
  then have "xor (xor a b) b = b" by simp
  then show "a = b" by (simp add: xor.assoc)
qed simp

lemma ucast_down_byte: "ucast (ucast a :: u32) = (a :: byte)"
  by (intro bit_word_eqI) (simp add: bit_unsigned_iff)

lemma constant_time_eq_mask: "constant_time_eq a b = ct_mask (a = b)"
  by (simp add: constant_time_eq_def constant_time_is_zero_mask xor_eq_0)

lemma constant_time_select_mask: "constant_time_select (ct_mask P) a b = (if P then a else b)"
  by (simp add: constant_time_select_def value_barrier_def ct_mask_def)

lemma constant_time_select_8_mask: "constant_time_select_8 (ct_mask P) a b = (if P then a else b)"
proof -
  have "and (ucast (- 1 :: byte)) (ucast a) = (ucast a :: u32)" for a :: byte
    by (intro bit_word_eqI) (auto simp: bit_and_iff bit_unsigned_iff dest: bit_imp_le_length)
  moreover have "and (not (ucast (- 1 :: byte))) (ucast b) = (0 :: u32)" for b :: byte
    by (intro bit_word_eqI) (auto simp: bit_and_iff bit_not_iff bit_unsigned_iff dest: bit_imp_le_length)
  ultimately show ?thesis
    by (simp add: constant_time_select_8_def constant_time_select_def value_barrier_def ct_mask_def ucast_down_byte)
qed

lemmas constant_time_select_bits [simp] =
  constant_time_select_mask [of True, unfolded ct_mask_simps if_True] constant_time_select_mask [of False, unfolded ct_mask_simps if_False]
  constant_time_select_8_mask [of True, unfolded ct_mask_simps if_True] constant_time_select_8_mask [of False, unfolded ct_mask_simps if_False]

lemmas ct_masks = constant_time_lt_mask constant_time_is_zero_mask constant_time_eq_mask constant_time_ge_def
  constant_time_lt_8_def constant_time_ge_8_def constant_time_is_zero_8_def constant_time_eq_8_def
  constant_time_eq_int_def constant_time_select_mask constant_time_select_8_mask constant_time_select_int_def

section \<open>Swaps and lookups\<close>

lemma constant_time_cond_swap_mask: "constant_time_cond_swap (ct_mask P) a b = (if P then (b, a) else (a, b))"
proof -
  have "xor a (xor a b) = b" "xor b (xor a b) = a"
    by (simp_all add: xor.assoc [symmetric]) (simp add: xor.assoc xor.commute [of b a])
  then show ?thesis by (simp add: constant_time_cond_swap_def ct_mask_def)
qed

lemma constant_time_cond_swap_buff_mask:
  "length as = n \<Longrightarrow> length bs = n \<Longrightarrow>
     constant_time_cond_swap_buff (ct_mask P) as bs n = Some (if P then (bs, as) else (as, bs))"
proof (induction n arbitrary: as bs)
  case (Suc n)
  then obtain a as' b bs' where *: "as = a # as'" "bs = b # bs'" "length as' = n" "length bs' = n"
    by (auto simp: length_Suc_conv)
  have "(let tmp = and (xor a b) (ct_mask P) in (xor a tmp, xor b tmp)) = (if P then (b, a) else (a, b))"
    using constant_time_cond_swap_mask [of P a b] by (simp add: constant_time_cond_swap_def)
  then show ?case using * Suc.IH [of as' bs'] by (auto simp: Let_def split: if_splits)
qed simp

lemma map2_or_zero: "length xs = n \<Longrightarrow> map2 or xs (replicate n 0) = (xs :: byte list)"
  by (induction xs arbitrary: n) auto

lemma ct_lookup_rows_skip:
  assumes "length out = rowsize" "n * rowsize \<le> length tbl" "n \<le> unat idx"
  shows "ct_lookup_rows rowsize n idx tbl out = Some out"
  using assms
proof (induction n arbitrary: idx tbl)
  case (Suc n)
  then have "idx \<noteq> 0" by auto
  then have "unat (idx - 1) = unat idx - 1" by (simp add: unat_minus_one)
  moreover have "map2 (\<lambda>c t. or c 0) out (take rowsize tbl) = out"
    using Suc.prems by (intro nth_equalityI) auto
  ultimately show ?case
    using Suc \<open>idx \<noteq> 0\<close> by (simp add: get_bytes_def ct_masks algebra_simps)
qed simp

lemma ct_lookup_rows_hit:
  assumes "length out = rowsize" "n * rowsize \<le> length tbl" "unat idx < n" "n < 2 ^ 64"
  shows "ct_lookup_rows rowsize n idx tbl out = Some (map2 or out (take rowsize (drop (unat idx * rowsize) tbl)))"
  using assms
proof (induction n arbitrary: idx tbl)
  case (Suc n)
  show ?case
  proof (cases "idx = 0")
    case True
    have "n \<le> unat (- 1 :: u64)" using Suc.prems by (simp add: unsigned_minus_1_eq_mask mask_eq_exp_minus_1)
    then show ?thesis
      using Suc.prems True by (simp add: get_bytes_def ct_masks ct_lookup_rows_skip)
  next
    case False
    then have u: "unat (idx - 1) = unat idx - 1" "0 < unat idx" by (simp_all add: unat_minus_one unat_gt_0)
    have "map2 (\<lambda>c t. or c 0) out (take rowsize tbl) = out"
      using Suc.prems by (intro nth_equalityI) auto
    moreover have "drop (unat (idx - 1) * rowsize) (drop rowsize tbl) = drop (unat idx * rowsize) tbl"
      using u by (cases "unat idx") (simp_all add: algebra_simps)
    moreover have "unat (idx - 1) < n" using u Suc.prems by linarith
    ultimately show ?thesis
      using Suc False by (simp add: get_bytes_def ct_masks)
  qed
qed simp

lemma constant_time_lookup_row:
  assumes "length table = numrows * rowsize" "numrows < 2 ^ 64"
  shows "constant_time_lookup table rowsize numrows idx =
    Some (if unat idx < numrows then take rowsize (drop (unat idx * rowsize) table) else replicate rowsize 0)"
proof (cases "unat idx < numrows")
  case True
  then have "(unat idx + 1) * rowsize \<le> length table" using assms(1) by (simp add: mult_le_mono1 del: mult_Suc)
  then have "length (take rowsize (drop (unat idx * rowsize) table)) = rowsize" by simp
  then have "map2 or (replicate rowsize 0) (take rowsize (drop (unat idx * rowsize) table)) =
      take rowsize (drop (unat idx * rowsize) table)"
    by (intro nth_equalityI) auto
  with True show ?thesis
    using assms by (simp add: constant_time_lookup_def ct_lookup_rows_hit)
qed (use assms in \<open>simp add: constant_time_lookup_def ct_lookup_rows_skip\<close>)

text \<open>
  The branch-free primitives compute what their comments say, at every width: the comparisons
  yield all ones or zero, selections and swaps under such a mask are conditional ones, and the
  table lookup copies the requested row, zeros when there is none.
\<close>

lemma constant_time_equiv:
  fixes a b :: "'a::len word"
  shows "constant_time_lt a b = (if a < b then - 1 else 0)
    \<and> constant_time_ge a b = (if a \<ge> b then - 1 else 0)
    \<and> constant_time_is_zero a = (if a = 0 then - 1 else 0)
    \<and> constant_time_eq a b = (if a = b then - 1 else 0)
    \<and> constant_time_select (if P then - 1 else 0) a b = (if P then a else b)
    \<and> constant_time_select_8 (if P then - 1 else 0) x y = (if P then x else y)
    \<and> constant_time_cond_swap (if P then - 1 else 0) a b = (if P then (b, a) else (a, b))
    \<and> (length bs = length as \<longrightarrow>
         constant_time_cond_swap_buff (if P then - 1 else 0) as bs (length as) = Some (if P then (bs, as) else (as, bs)))
    \<and> (length table = numrows * rowsize \<and> numrows < 2 ^ 64 \<longrightarrow>
         constant_time_lookup table rowsize numrows idx =
           Some (if unat idx < numrows then take rowsize (drop (unat idx * rowsize) table) else replicate rowsize 0))"
proof -
  have m: "(if Q then - 1 else 0) = (ct_mask Q :: 'b::len word)" for Q by (simp add: ct_mask_def)
  show ?thesis
    unfolding m
    by (simp add: ct_masks not_less constant_time_cond_swap_mask constant_time_cond_swap_buff_mask constant_time_lookup_row)
qed

end
