(* ===== verification/Template.thy ===== *)
theory Template
  imports Ock_Prelude
begin

text \<open>
  Attributes and templates: \<^verbatim>\<open>usr/lib/common/attributes.c\<close>, the attribute classification of
  \<^verbatim>\<open>p11util.c\<close>, the lookup, update, copy and storage operations of \<^verbatim>\<open>template.c\<close>, and the
  stored form of an object in \<^verbatim>\<open>object.c\<close>.

  A \<^verbatim>\<open>CK_ATTRIBUTE\<close> is a type with a value: bytes, an array of attributes, or a NULL pointer with
  a length. An operation that would read the bytes of a plain value as structures, or copy
  structures as plain bytes, is undefined. A \<^verbatim>\<open>TEMPLATE\<close> is the list its \<^verbatim>\<open>attribute_list\<close> stands
  for. The platform has 64-bit \<^verbatim>\<open>CK_ULONG\<close>s, so the branches for \<^verbatim>\<open>long_len == 4\<close> do not occur.
  Blocks freed on the way are not tracked.
\<close>

section \<open>Attributes\<close>

definition CKA_CLASS :: u64 where "CKA_CLASS = 0"
definition CKA_UNIQUE_ID :: u64 where "CKA_UNIQUE_ID = 4"
definition CKA_CERTIFICATE_TYPE :: u64 where "CKA_CERTIFICATE_TYPE = 0x80"
definition CKA_KEY_TYPE :: u64 where "CKA_KEY_TYPE = 0x100"
definition CKA_MODULUS_BITS :: u64 where "CKA_MODULUS_BITS = 0x121"
definition CKA_VALUE_BITS :: u64 where "CKA_VALUE_BITS = 0x160"
definition CKA_VALUE_LEN :: u64 where "CKA_VALUE_LEN = 0x161"
definition CKA_HW_FEATURE_TYPE :: u64 where "CKA_HW_FEATURE_TYPE = 0x300"
definition CKA_WRAP_TEMPLATE :: u64 where "CKA_WRAP_TEMPLATE = 0x40000211"
definition CKA_UNWRAP_TEMPLATE :: u64 where "CKA_UNWRAP_TEMPLATE = 0x40000212"
definition CKA_DERIVE_TEMPLATE :: u64 where "CKA_DERIVE_TEMPLATE = 0x40000213"
definition CKA_ENCAPSULATE_TEMPLATE :: u64 where "CKA_ENCAPSULATE_TEMPLATE = 0x4000062A"
definition CKA_DECAPSULATE_TEMPLATE :: u64 where "CKA_DECAPSULATE_TEMPLATE = 0x4000062B"
definition CKA_VENDOR_DEFINED :: u64 where "CKA_VENDOR_DEFINED = 0x80000000"

lemmas cka_defs = CKA_CLASS_def CKA_UNIQUE_ID_def CKA_CERTIFICATE_TYPE_def CKA_KEY_TYPE_def CKA_MODULUS_BITS_def
  CKA_VALUE_BITS_def CKA_VALUE_LEN_def CKA_HW_FEATURE_TYPE_def CKA_WRAP_TEMPLATE_def CKA_UNWRAP_TEMPLATE_def
  CKA_DERIVE_TEMPLATE_def CKA_ENCAPSULATE_TEMPLATE_def CKA_DECAPSULATE_TEMPLATE_def CKA_VENDOR_DEFINED_def

text \<open>The numbers of the attribute types below \<^verbatim>\<open>CKA_VENDOR_DEFINED\<close> the code knows.\<close>

definition defined_attributes :: "u64 list" where
  "defined_attributes =
     [0x0, 0x1, 0x2, 0x3, 0x10, 0x11, 0x80, 0x81, 0x82, 0x100, 0x101, 0x102, 0x103, 0x104, 0x105, 0x106, 0x107,
      0x108, 0x109, 0x10A, 0x10B, 0x10C, 0x110, 0x111, 0x120, 0x121, 0x122, 0x123, 0x124, 0x125, 0x126, 0x127,
      0x128, 0x130, 0x131, 0x132, 0x160, 0x161, 0x162, 0x163, 0x164, 0x165, 0x202, 0x170, 0x4, 0x601, 0x180, 0x181,
      0x300, 0x302, 0x301, 0x166, 0x133, 0x134, 0x12, 0x83, 0x84, 0x85, 0x86, 0x210, 0x40000211, 0x40000212, 0x87,
      0x88, 0x89, 0x8A, 0x8B, 0x8C, 0x90, 0x129, 0x171, 0x172, 0x40000600, 0x40000213, 0x61D, 0x4000062A,
      0x4000062B, 0x633, 0x634, 0x637]"

definition is_attribute_defined :: "u64 \<Rightarrow> bool" where
  "is_attribute_defined t = (if t \<ge> CKA_VENDOR_DEFINED then True else t \<in> set defined_attributes)"

definition is_attribute_attr_array :: "u64 \<Rightarrow> bool" where
  "is_attribute_attr_array t =
     (if \<not> is_attribute_defined t then False
      else t \<in> {CKA_WRAP_TEMPLATE, CKA_UNWRAP_TEMPLATE, CKA_DERIVE_TEMPLATE, CKA_ENCAPSULATE_TEMPLATE,
                CKA_DECAPSULATE_TEMPLATE})"

datatype attribute =
    ABytes (a_type: u64) "byte list"
  | AArray (a_type: u64) "attribute list"
  | ANull (a_type: u64) nat

definition ATTR_SIZE :: nat where "ATTR_SIZE = 24"

fun value_len :: "attribute \<Rightarrow> nat" where
  "value_len (ABytes t bs) = length bs"
| "value_len (AArray t es) = length es * ATTR_SIZE"
| "value_len (ANull t n) = n"

text \<open>\<^verbatim>\<open>pValue == NULL\<close>: a value of length 0 carries a NULL pointer in a template.\<close>

fun value_null :: "attribute \<Rightarrow> bool" where
  "value_null (ANull t n) = True"
| "value_null a = (value_len a = 0)"

text \<open>An attribute of length 0: its pointer is NULL whatever its type.\<close>

definition empty_attribute :: "u64 \<Rightarrow> attribute" where
  "empty_attribute t = (if is_attribute_attr_array t then AArray t [] else ABytes t [])"

section \<open>Arrays of attributes\<close>

fun dup_attribute :: "allocs \<Rightarrow> attribute \<Rightarrow> (attribute \<times> allocs) ck"
  and dup_attribute_array_no_alloc :: "allocs \<Rightarrow> attribute list \<Rightarrow> (attribute list \<times> allocs) ck" where
  "dup_attribute al (ABytes t bs) =
     (if bs = [] then ck_ok (empty_attribute t, al)
      else if is_attribute_attr_array t then None
      else ck_bind (ck_malloc al) (\<lambda>al. ck_ok (ABytes t bs, al)))"
| "dup_attribute al (AArray t es) =
     (if es = [] then ck_ok (empty_attribute t, al)
      else if is_attribute_attr_array t
      then ck_bind (ck_malloc al) (\<lambda>al.
           ck_bind (dup_attribute_array_no_alloc al es) (\<lambda>(es, al). ck_ok (AArray t es, al)))
      else None)"
| "dup_attribute al (ANull t n) =
     (if n = 0 \<or> is_attribute_attr_array t then ck_ok (empty_attribute t, al)
      else ck_bind (ck_malloc al) (\<lambda>_. None))"
| "dup_attribute_array_no_alloc al [] = ck_ok ([], al)"
| "dup_attribute_array_no_alloc al (a # as) =
     ck_bind (dup_attribute al a) (\<lambda>(a, al).
     ck_bind (dup_attribute_array_no_alloc al as) (\<lambda>(as, al). ck_ok (a # as, al)))"

definition dup_attribute_array :: "allocs \<Rightarrow> attribute list \<Rightarrow> (attribute list \<times> allocs) ck" where
  "dup_attribute_array al orig =
     (if orig = [] then ck_ok ([], al)
      else ck_bind (ck_malloc al) (\<lambda>al. dup_attribute_array_no_alloc al orig))"

definition get_attribute_by_type :: "attribute list \<Rightarrow> u64 \<Rightarrow> attribute option" where
  "get_attribute_by_type attrs t = find (\<lambda>a. a_type a = t) attrs"

text \<open>Reading a value as a \<^verbatim>\<open>CK_ULONG\<close> or as the first byte, after the size was checked.\<close>

fun value_ulong :: "bool \<Rightarrow> attribute \<Rightarrow> u64 option" where
  "value_ulong be (ABytes t bs) = (if 8 \<le> length bs then Some (get_host64 be (take 8 bs)) else None)"
| "value_ulong be _ = None"

fun value_byte :: "attribute \<Rightarrow> byte option" where
  "value_byte (ABytes t bs) = peek bs 0"
| "value_byte _ = None"

definition get_ulong_attribute_by_type :: "bool \<Rightarrow> attribute list \<Rightarrow> u64 \<Rightarrow> u64 ck" where
  "get_ulong_attribute_by_type be attrs t =
     (case get_attribute_by_type attrs t of
        None \<Rightarrow> ck_fail CKR_TEMPLATE_INCOMPLETE
      | Some a \<Rightarrow>
          if value_len a \<noteq> 8 \<or> value_null a then ck_fail CKR_ATTRIBUTE_VALUE_INVALID
          else map_option Inr (value_ulong be a))"

definition get_bool_attribute_by_type :: "attribute list \<Rightarrow> u64 \<Rightarrow> byte ck" where
  "get_bool_attribute_by_type attrs t =
     (case get_attribute_by_type attrs t of
        None \<Rightarrow> ck_fail CKR_TEMPLATE_INCOMPLETE
      | Some a \<Rightarrow>
          if value_len a \<noteq> 1 \<or> value_null a then ck_fail CKR_ATTRIBUTE_VALUE_INVALID
          else map_option Inr (value_byte a))"

text \<open>The value is duplicated, then the array reallocated.\<close>

definition add_to_attribute_array :: "allocs \<Rightarrow> attribute list \<Rightarrow> attribute \<Rightarrow> (attribute list \<times> allocs) ck" where
  "add_to_attribute_array al attrs a =
     ck_bind (dup_attribute al a) (\<lambda>(a, al).
     ck_bind (ck_malloc al) (\<lambda>al. ck_ok (attrs @ [a], al)))"

fun compare_attribute :: "attribute \<Rightarrow> attribute \<Rightarrow> bool option"
  and compare_elements :: "attribute list \<Rightarrow> attribute list \<Rightarrow> bool option" where
  "compare_attribute (ABytes t bs) a2 =
     (if t \<noteq> a_type a2 then Some False
      else if length bs \<noteq> value_len a2 then Some False
      else if length bs = 0 then Some True
      else (case a2 of
          ANull _ _ \<Rightarrow> Some False
        | ABytes _ bs2 \<Rightarrow> if is_attribute_attr_array t then None else Some (bs = bs2)
        | AArray _ _ \<Rightarrow> None))"
| "compare_attribute (AArray t es) a2 =
     (if t \<noteq> a_type a2 then Some False
      else if length es * ATTR_SIZE \<noteq> value_len a2 then Some False
      else if length es * ATTR_SIZE = 0 then Some True
      else (case a2 of
          ANull _ _ \<Rightarrow> Some False
        | ABytes _ _ \<Rightarrow> None
        | AArray _ es2 \<Rightarrow> if is_attribute_attr_array t then compare_elements es es2 else None))"
| "compare_attribute (ANull t n) a2 =
     (if t \<noteq> a_type a2 then Some False
      else if n \<noteq> value_len a2 then Some False
      else Some (n = 0))"
| "compare_elements [] a2 = Some True"
| "compare_elements (a # as) a2 =
     (case get_attribute_by_type a2 (a_type a) of
        None \<Rightarrow> Some False
      | Some b \<Rightarrow> do { eq \<leftarrow> compare_attribute a b; if \<not> eq then Some False else compare_elements as a2 })"

definition compare_attribute_array :: "attribute list \<Rightarrow> attribute list \<Rightarrow> bool option" where
  "compare_attribute_array a1 a2 = (if length a1 \<noteq> length a2 then Some False else compare_elements a1 a2)"

text \<open>A plain value under an array type is an array whose length need not fit its elements.\<close>

fun validate_attribute :: "attribute \<Rightarrow> unit ck" and validate_attribute_array :: "attribute list \<Rightarrow> unit ck" where
  "validate_attribute (ABytes t bs) =
     (if \<not> is_attribute_defined t then ck_fail CKR_ATTRIBUTE_TYPE_INVALID
      else if is_attribute_attr_array t
      then (if length bs mod ATTR_SIZE \<noteq> 0 then ck_fail CKR_ATTRIBUTE_VALUE_INVALID
            else if bs = [] then ck_ok () else None)
      else ck_ok ())"
| "validate_attribute (AArray t es) =
     (if \<not> is_attribute_defined t then ck_fail CKR_ATTRIBUTE_TYPE_INVALID
      else if is_attribute_attr_array t then validate_attribute_array es
      else ck_ok ())"
| "validate_attribute (ANull t n) =
     (if \<not> is_attribute_defined t then ck_fail CKR_ATTRIBUTE_TYPE_INVALID
      else if n > 0 then ck_fail CKR_ATTRIBUTE_VALUE_INVALID
      else ck_ok ())"
| "validate_attribute_array [] = ck_ok ()"
| "validate_attribute_array (a # as) = ck_bind (validate_attribute a) (\<lambda>_. validate_attribute_array as)"

section \<open>Templates\<close>

type_synonym template = "attribute list"

definition template_attribute_find :: "template option \<Rightarrow> u64 \<Rightarrow> attribute option" where
  "template_attribute_find tmpl t = Option.bind tmpl (find (\<lambda>a. t = a_type a))"

definition template_attribute_get_ulong :: "bool \<Rightarrow> template option \<Rightarrow> u64 \<Rightarrow> u64 ck" where
  "template_attribute_get_ulong be tmpl t =
     (case template_attribute_find tmpl t of
        None \<Rightarrow> ck_fail CKR_TEMPLATE_INCOMPLETE
      | Some a \<Rightarrow>
          if value_len a \<noteq> 8 \<or> value_null a then ck_fail CKR_ATTRIBUTE_VALUE_INVALID
          else map_option Inr (value_ulong be a))"

definition template_attribute_get_bool :: "template option \<Rightarrow> u64 \<Rightarrow> byte ck" where
  "template_attribute_get_bool tmpl t =
     (case template_attribute_find tmpl t of
        None \<Rightarrow> ck_fail CKR_TEMPLATE_INCOMPLETE
      | Some a \<Rightarrow>
          if value_len a \<noteq> 1 \<or> value_null a then ck_fail CKR_ATTRIBUTE_VALUE_INVALID
          else map_option Inr (value_byte a))"

definition template_attribute_get_non_empty :: "template option \<Rightarrow> u64 \<Rightarrow> attribute ck" where
  "template_attribute_get_non_empty tmpl t =
     (case template_attribute_find tmpl t of
        None \<Rightarrow> ck_fail CKR_TEMPLATE_INCOMPLETE
      | Some a \<Rightarrow>
          if value_len a = 0 \<or> value_null a then ck_fail CKR_ATTRIBUTE_VALUE_INVALID else ck_ok a)"

fun template_compare :: "attribute list \<Rightarrow> template \<Rightarrow> bool option" where
  "template_compare [] t2 = Some True"
| "template_compare (a # t1) t2 =
     (case template_attribute_find (Some t2) (a_type a) of
        None \<Rightarrow> Some False
      | Some b \<Rightarrow> do { eq \<leftarrow> compare_attribute a b; if \<not> eq then Some False else template_compare t1 t2 })"

fun template_remove_attribute :: "template \<Rightarrow> u64 \<Rightarrow> ck_rv \<times> template" where
  "template_remove_attribute [] t = (CKR_ATTRIBUTE_TYPE_INVALID, [])"
| "template_remove_attribute (a # tmpl) t =
     (if t = a_type a then (CKR_OK, tmpl)
      else case template_remove_attribute tmpl t of (rc, tmpl) \<Rightarrow> (rc, a # tmpl))"

text \<open>The old attribute is removed before the list node of the new one is allocated.\<close>

definition template_update_attribute :: "allocs \<Rightarrow> template \<Rightarrow> attribute \<Rightarrow> ck_rv \<times> template \<times> allocs" where
  "template_update_attribute al tmpl a =
     (case template_remove_attribute tmpl (a_type a) of
        (rc, tmpl) \<Rightarrow>
          if rc \<noteq> CKR_OK \<and> rc \<noteq> CKR_ATTRIBUTE_TYPE_INVALID then (rc, tmpl, al)
          else (case ck_malloc al of
              Some (Inr al) \<Rightarrow> (CKR_OK, a # tmpl, al)
            | _ \<Rightarrow> (CKR_HOST_MEMORY, tmpl, tl al)))"

text \<open>One attribute of the caller's array: check, allocate with the value behind it, duplicate an array.\<close>

definition template_copy_attribute :: "allocs \<Rightarrow> attribute \<Rightarrow> (attribute \<times> allocs) ck" where
  "template_copy_attribute al a =
     ck_bind (ck_malloc al) (\<lambda>al.
       case a of
         ABytes t bs \<Rightarrow>
           if bs = [] then ck_ok (empty_attribute t, al)
           else if is_attribute_attr_array t then None else ck_ok (ABytes t bs, al)
       | AArray t es \<Rightarrow>
           if es = [] then ck_ok (empty_attribute t, al)
           else if is_attribute_attr_array t
           then ck_bind (dup_attribute_array_no_alloc al es) (\<lambda>(es, al). ck_ok (AArray t es, al))
           else None
       | ANull t n \<Rightarrow> if n = 0 then ck_ok (empty_attribute t, al) else None)"

fun template_add_attributes :: "allocs \<Rightarrow> template \<Rightarrow> attribute list \<Rightarrow> (ck_rv \<times> template \<times> allocs) option" where
  "template_add_attributes al tmpl [] = Some (CKR_OK, tmpl, al)"
| "template_add_attributes al tmpl (a # as) =
     (if \<not> is_attribute_defined (a_type a) then Some (CKR_ATTRIBUTE_TYPE_INVALID, tmpl, al)
      else if value_len a > 0 \<and> value_null a then Some (CKR_ATTRIBUTE_VALUE_INVALID, tmpl, al)
      else (case template_copy_attribute al a of
          None \<Rightarrow> None
        | Some (Inl e) \<Rightarrow> Some (e, tmpl, al)
        | Some (Inr (a, al)) \<Rightarrow>
            (case template_update_attribute al tmpl a of
               (rc, tmpl, al) \<Rightarrow> if rc \<noteq> CKR_OK then Some (rc, tmpl, al) else template_add_attributes al tmpl as)))"

text \<open>
  \<open>uid\<close> is the string of \<^verbatim>\<open>get_unique_id_str\<close>, whose random bytes come from OpenSSL, \<^term>\<open>None\<close> when that
  fails. The copies are put in front one by one, so the order is reversed.
\<close>

definition UNIQUE_ID_LEN :: nat where "UNIQUE_ID_LEN = 32"

definition template_copy_unique_id :: "byte list option \<Rightarrow> attribute \<Rightarrow> attribute ck" where
  "template_copy_unique_id uid a =
     (if a_type a \<noteq> CKA_UNIQUE_ID then ck_ok a
      else if value_len a < 2 * UNIQUE_ID_LEN then ck_fail CKR_ATTRIBUTE_VALUE_INVALID
      else case uid of None \<Rightarrow> ck_fail CKR_FUNCTION_FAILED | Some str \<Rightarrow> ck_ok (ABytes CKA_UNIQUE_ID (take (2 * UNIQUE_ID_LEN) str)))"

fun template_copy :: "byte list option \<Rightarrow> allocs \<Rightarrow> template \<Rightarrow> template \<Rightarrow> (template \<times> allocs) ck" where
  "template_copy uid al dst [] = ck_ok (dst, al)"
| "template_copy uid al dst (a # src) =
     ck_bind (template_copy_attribute al a) (\<lambda>(a, al).
     ck_bind (template_copy_unique_id uid a) (\<lambda>a.
     ck_bind (ck_malloc al) (\<lambda>al. template_copy uid al (a # dst) src)))"

text \<open>The nodes moved so far lose their data in the source, whatever the outcome.\<close>

fun template_merge :: "allocs \<Rightarrow> template \<Rightarrow> template \<Rightarrow> ck_rv \<times> template \<times> allocs" where
  "template_merge al dst [] = (CKR_OK, dst, al)"
| "template_merge al dst (a # src) =
     (case template_update_attribute al dst a of
        (rc, dst, al) \<Rightarrow> if rc \<noteq> CKR_OK then (rc, dst, al) else template_merge al dst src)"

text \<open>
  \<^verbatim>\<open>template_get_class\<close> goes through all attributes; the results start with what the caller's
  variables hold.
\<close>

definition class_of :: "bool \<Rightarrow> u64 \<Rightarrow> u64 \<Rightarrow> attribute \<Rightarrow> u64 option" where
  "class_of be t old a =
     (if a_type a = t \<and> value_len a = 8 \<and> \<not> value_null a then value_ulong be a else Some old)"

fun template_get_class :: "bool \<Rightarrow> template \<Rightarrow> bool \<times> u64 \<times> u64 \<Rightarrow> (bool \<times> u64 \<times> u64) option" where
  "template_get_class be [] r = Some r"
| "template_get_class be (a # tmpl) (found, cls, subclass) = do {
     c \<leftarrow> class_of be CKA_CLASS cls a;
     s \<leftarrow> class_of be CKA_CERTIFICATE_TYPE subclass a;
     s \<leftarrow> class_of be CKA_KEY_TYPE s a;
     s \<leftarrow> class_of be CKA_HW_FEATURE_TYPE s a;
     template_get_class be tmpl (found \<or> (a_type a = CKA_CLASS \<and> value_len a = 8 \<and> \<not> value_null a), c, s) }"

definition template_get_count :: "template option \<Rightarrow> nat" where
  "template_get_count tmpl = (case tmpl of None \<Rightarrow> 0 | Some as \<Rightarrow> length as)"

text \<open>Arrays inside arrays are not counted.\<close>

definition attribute_get_size :: "attribute \<Rightarrow> nat option" where
  "attribute_get_size a =
     (if is_attribute_attr_array (a_type a)
      then (case a of
          AArray _ es \<Rightarrow> Some (ATTR_SIZE + value_len a + sum_list (map (\<lambda>e. ATTR_SIZE + value_len e) es))
        | _ \<Rightarrow> if value_len a = 0 then Some ATTR_SIZE else None)
      else Some (ATTR_SIZE + value_len a))"

fun template_get_size :: "template \<Rightarrow> nat option" where
  "template_get_size [] = Some 0"
| "template_get_size (a # tmpl) = do { n \<leftarrow> attribute_get_size a; m \<leftarrow> template_get_size tmpl; Some (n + m) }"

end
