(* ===== verification/Template_Store.thy ===== *)
theory Template_Store
  imports Template
begin

text \<open>
  The stored form of templates and objects: \<^verbatim>\<open>template_flatten\<close>, \<^verbatim>\<open>template_unflatten_withSize\<close> and
  their helpers of \<^verbatim>\<open>usr/lib/common/template.c\<close>, \<^verbatim>\<open>object_flatten\<close> and \<^verbatim>\<open>object_restore_withSize\<close> of
  \<^verbatim>\<open>object.c\<close>. An attribute is stored as a \<^verbatim>\<open>CK_ATTRIBUTE_32\<close> (type, an unused pointer, length, each
  32 bits wide in the byte order of the host) followed by its value; arrays nest. A buffer is a
  byte list and \<^verbatim>\<open>ptr\<close> an offset into it.
\<close>

section \<open>Flattening\<close>

definition flatten_ulong_attribute_as_ulong32 :: "u64 \<Rightarrow> bool" where
  "flatten_ulong_attribute_as_ulong32 t =
     (t \<in> {CKA_CLASS, CKA_KEY_TYPE, CKA_MODULUS_BITS, CKA_VALUE_BITS, CKA_CERTIFICATE_TYPE, CKA_VALUE_LEN})"

definition ATTR32_SIZE :: nat where "ATTR32_SIZE = 12"

fun attribute_get_compressed_size :: "attribute \<Rightarrow> nat option" and attributes_compressed_size :: "attribute list \<Rightarrow> nat option" where
  "attribute_get_compressed_size (ABytes t bs) =
     (if flatten_ulong_attribute_as_ulong32 t \<and> bs \<noteq> [] then Some (ATTR32_SIZE + 4)
      else if is_attribute_attr_array t then (if length bs < ATTR_SIZE then Some ATTR32_SIZE else None)
      else Some (ATTR32_SIZE + length bs))"
| "attribute_get_compressed_size (AArray t es) =
     (if flatten_ulong_attribute_as_ulong32 t \<and> es \<noteq> [] then Some (ATTR32_SIZE + 4)
      else if is_attribute_attr_array t then map_option ((+) ATTR32_SIZE) (attributes_compressed_size es)
      else Some (ATTR32_SIZE + length es * ATTR_SIZE))"
| "attribute_get_compressed_size (ANull t n) =
     (if flatten_ulong_attribute_as_ulong32 t \<and> n \<noteq> 0 then Some (ATTR32_SIZE + 4)
      else if is_attribute_attr_array t then (if n < ATTR_SIZE then Some ATTR32_SIZE else None)
      else Some (ATTR32_SIZE + n))"
| "attributes_compressed_size [] = Some 0"
| "attributes_compressed_size (a # as) = do {
     n \<leftarrow> attribute_get_compressed_size a;
     m \<leftarrow> attributes_compressed_size as;
     Some (n + m) }"

definition template_get_compressed_size :: "template option \<Rightarrow> nat option" where
  "template_get_compressed_size tmpl = (case tmpl of None \<Rightarrow> Some 0 | Some as \<Rightarrow> attributes_compressed_size as)"

definition put_attr32 :: "bool \<Rightarrow> byte list \<Rightarrow> nat \<Rightarrow> u64 \<Rightarrow> u32 \<Rightarrow> byte list option" where
  "put_attr32 be dest p t len = put_bytes dest p (host32 be (ucast t) @ host32 be 0 @ host32 be len)"

text \<open>The branch for attributes that are not arrays; a \<^verbatim>\<open>CK_ULONG\<close> is read whatever the length says.\<close>

definition flatten_value :: "bool \<Rightarrow> byte list \<Rightarrow> nat \<Rightarrow> attribute \<Rightarrow> (byte list \<times> nat) ck" where
  "flatten_value be dest p a =
     (if flatten_ulong_attribute_as_ulong32 (a_type a) \<and> value_len a \<noteq> 0 then do {
        dest \<leftarrow> put_attr32 be dest p (a_type a) 4;
        v \<leftarrow> value_ulong be a;
        dest \<leftarrow> put_bytes dest (p + ATTR32_SIZE) (host32 be (ucast v));
        ck_ok (dest, p + ATTR32_SIZE + 4) }
      else do {
        dest \<leftarrow> put_attr32 be dest p (a_type a) (of_nat (value_len a));
        bs \<leftarrow> (case a of ABytes _ bs \<Rightarrow> Some bs | _ \<Rightarrow> if value_len a = 0 then Some [] else None);
        dest \<leftarrow> put_bytes dest (p + ATTR32_SIZE) bs;
        ck_ok (dest, p + ATTR32_SIZE + length bs) })"

fun attribute_array_flatten :: "bool \<Rightarrow> byte list \<Rightarrow> nat \<Rightarrow> attribute \<Rightarrow> (byte list \<times> nat) ck"
  and flatten_attributes :: "bool \<Rightarrow> byte list \<Rightarrow> nat \<Rightarrow> attribute list \<Rightarrow> (byte list \<times> nat) ck" where
  "attribute_array_flatten be dest p (AArray t es) =
     (if \<not> is_attribute_attr_array t then ck_fail CKR_ATTRIBUTE_TYPE_INVALID
      else do {
        n \<leftarrow> attributes_compressed_size es;
        dest \<leftarrow> put_attr32 be dest p t (of_nat n);
        flatten_attributes be dest (p + ATTR32_SIZE) es })"
| "attribute_array_flatten be dest p a =
     (if \<not> is_attribute_attr_array (a_type a) then ck_fail CKR_ATTRIBUTE_TYPE_INVALID
      else if value_len a < ATTR_SIZE then do {
        dest \<leftarrow> put_attr32 be dest p (a_type a) 0;
        ck_ok (dest, p + ATTR32_SIZE) }
      else None)"
| "flatten_attributes be dest p [] = ck_ok (dest, p)"
| "flatten_attributes be dest p (a # as) =
     ck_bind (if is_attribute_attr_array (a_type a) then attribute_array_flatten be dest p a
              else flatten_value be dest p a) (\<lambda>(dest, p). flatten_attributes be dest p as)"

definition template_flatten :: "bool \<Rightarrow> template option \<Rightarrow> byte list \<Rightarrow> byte list ck" where
  "template_flatten be tmpl dest =
     (case tmpl of
        None \<Rightarrow> ck_fail CKR_FUNCTION_FAILED
      | Some as \<Rightarrow> ck_bind (flatten_attributes be dest 0 as) (\<lambda>(dest, _). ck_ok dest))"

section \<open>Unflattening\<close>

definition get_attr32 :: "bool \<Rightarrow> byte list \<Rightarrow> nat \<Rightarrow> (u64 \<times> nat) option" where
  "get_attr32 be buf p = do {
     bs \<leftarrow> get_bytes buf p ATTR32_SIZE;
     Some (ucast (get_host32 be (take 4 bs)), unat (get_host32 be (drop 8 bs))) }"

text \<open>
  \<^verbatim>\<open>attribute_array_unflatten\<close> and its loop. \<open>n\<close> is \<^verbatim>\<open>buf_len\<close>; the result is the array, the pointer
  behind it and the allocations left.
\<close>

function attribute_array_unflatten :: "bool \<Rightarrow> byte list \<Rightarrow> nat \<Rightarrow> nat \<Rightarrow> allocs \<Rightarrow> (attribute list \<times> nat \<times> allocs) ck"
  and unflatten_elements ::
    "bool \<Rightarrow> byte list \<Rightarrow> nat \<Rightarrow> nat \<Rightarrow> nat \<Rightarrow> nat \<Rightarrow> attribute list \<Rightarrow> allocs \<Rightarrow> (attribute list \<times> nat \<times> allocs) ck" where
  "attribute_array_unflatten be buf p n al =
     (if n < ATTR32_SIZE then ck_fail CKR_FUNCTION_FAILED
      else case get_attr32 be buf p of
        None \<Rightarrow> None
      | Some (t, len) \<Rightarrow>
          if \<not> is_attribute_attr_array t then ck_fail CKR_ATTRIBUTE_TYPE_INVALID
          else if n - ATTR32_SIZE < len then ck_fail CKR_FUNCTION_FAILED
          else unflatten_elements be buf (p + ATTR32_SIZE) (n - ATTR32_SIZE) 0 len [] al)"
| "unflatten_elements be buf p n ofs len1 attrs al =
     (if \<not> ofs < len1 then ck_ok (attrs, p, al)
      else if n < ATTR32_SIZE then ck_fail CKR_FUNCTION_FAILED
      else case get_attr32 be buf p of
        None \<Rightarrow> None
      | Some (t, len) \<Rightarrow>
          if n < ATTR32_SIZE + len then ck_fail CKR_FUNCTION_FAILED
          else if is_attribute_attr_array t then
            ck_bind (attribute_array_unflatten be buf p (ATTR32_SIZE + len) al) (\<lambda>(elements, p, al).
            ck_bind (add_to_attribute_array al attrs (AArray t elements)) (\<lambda>(attrs, al).
            unflatten_elements be buf p (n - (ATTR32_SIZE + len)) (ofs + ATTR32_SIZE + len) len1 attrs al))
          else
            ck_bind (if flatten_ulong_attribute_as_ulong32 t \<and> len > 0
                     then (if n < ATTR32_SIZE + 4 then ck_fail CKR_FUNCTION_FAILED
                           else do {
                             v \<leftarrow> get_bytes buf (p + ATTR32_SIZE) 4;
                             add_to_attribute_array al attrs (ABytes t (host64 be (ucast (get_host32 be v)))) })
                     else do {
                       bs \<leftarrow> get_bytes buf (p + ATTR32_SIZE) len;
                       add_to_attribute_array al attrs (ABytes t bs) }) (\<lambda>(attrs, al).
            unflatten_elements be buf (p + ATTR32_SIZE + len) (n - (ATTR32_SIZE + len)) (ofs + ATTR32_SIZE + len) len1 attrs al))"
  by pat_completeness auto
termination
  by (relation "measure (case_sum (\<lambda>(be, buf, p, n, al). 2 * n) (\<lambda>(be, buf, p, n, ofs, len1, attrs, al). 2 * n + 1))")
     (auto simp: ATTR32_SIZE_def)

declare attribute_array_unflatten.simps [simp del] unflatten_elements.simps [simp del]

text \<open>One attribute of the stored template: the attribute, the pointer behind it and the allocations left.\<close>

definition unflatten_attribute :: "bool \<Rightarrow> byte list \<Rightarrow> nat \<Rightarrow> nat \<Rightarrow> allocs \<Rightarrow> (attribute \<times> nat \<times> allocs) ck" where
  "unflatten_attribute be buf buf_size p al =
     (if p + ATTR32_SIZE > buf_size then ck_fail CKR_FUNCTION_FAILED
      else case get_attr32 be buf p of
        None \<Rightarrow> None
      | Some (t, len) \<Rightarrow>
          if is_attribute_attr_array t then
            (if p + ATTR32_SIZE + len > buf_size then ck_fail CKR_FUNCTION_FAILED
             else ck_bind (attribute_array_unflatten be buf p (ATTR32_SIZE + len) al) (\<lambda>(attrs, p, al).
                  ck_bind (ck_malloc al) (\<lambda>al. ck_ok (AArray t attrs, p, al))))
          else if flatten_ulong_attribute_as_ulong32 t \<and> len \<noteq> 0 then
            (if p + ATTR32_SIZE + 4 > buf_size then ck_fail CKR_FUNCTION_FAILED
             else ck_bind (ck_malloc al) (\<lambda>al. do {
                  v \<leftarrow> get_bytes buf (p + ATTR32_SIZE) 4;
                  ck_ok (ABytes t (host64 be (ucast (get_host32 be v))), p + ATTR32_SIZE + len, al) }))
          else
            (if p + ATTR32_SIZE + len > buf_size then ck_fail CKR_FUNCTION_FAILED
             else ck_bind (ck_malloc al) (\<lambda>al. do {
                  bs \<leftarrow> get_bytes buf (p + ATTR32_SIZE) len;
                  ck_ok (ABytes t bs, p + ATTR32_SIZE + len, al) })))"

fun unflatten_attributes :: "bool \<Rightarrow> byte list \<Rightarrow> nat \<Rightarrow> nat \<Rightarrow> nat \<Rightarrow> template \<Rightarrow> allocs \<Rightarrow> (template \<times> allocs) ck" where
  "unflatten_attributes be buf buf_size 0 p tmpl al = ck_ok (tmpl, al)"
| "unflatten_attributes be buf buf_size (Suc count) p tmpl al =
     ck_bind (unflatten_attribute be buf buf_size p al) (\<lambda>(a, p, al).
       case template_update_attribute al tmpl a of
         (rc, tmpl, al) \<Rightarrow> if rc \<noteq> CKR_OK then ck_fail rc else unflatten_attributes be buf buf_size count p tmpl al)"

definition template_unflatten_withSize :: "bool \<Rightarrow> byte list \<Rightarrow> nat \<Rightarrow> nat \<Rightarrow> allocs \<Rightarrow> (template \<times> allocs) ck" where
  "template_unflatten_withSize be buf count buf_size al =
     ck_bind (ck_malloc al) (\<lambda>al. unflatten_attributes be buf buf_size count 0 [] al)"

section \<open>Objects\<close>

record object =
  obj_class :: u64
  obj_name :: "byte list"
  obj_template :: "template option"

definition object_flatten :: "bool \<Rightarrow> allocs \<Rightarrow> object \<Rightarrow> (byte list \<times> nat \<times> allocs) ck" where
  "object_flatten be al obj = do {
     let count = (of_nat (template_get_count (obj_template obj)) :: u32);
     tmpl_len \<leftarrow> template_get_compressed_size (obj_template obj);
     let total_len = tmpl_len + 4 + 4 + 8;
     ck_bind (ck_malloc al) (\<lambda>al. do {
       let buf = replicate total_len 0;
       buf \<leftarrow> put_bytes buf 0 (host32 be (ucast (obj_class obj)));
       buf \<leftarrow> put_bytes buf 4 (host32 be count);
       buf \<leftarrow> put_bytes buf 8 (take 8 (obj_name obj));
       ck_bind (template_flatten be (obj_template obj) (drop 16 buf)) (\<lambda>rest.
       ck_ok (take 16 buf @ rest, total_len, al)) }) }"

text \<open>
  \<^verbatim>\<open>object_restore_withSize\<close> for a new object (\<^verbatim>\<open>replace == FALSE\<close>) with no policy; \<open>fname\<close> is the
  path of the file, \<open>locks_ok\<close> says that the locks of the object can be initialised.
\<close>

definition file_base_name :: "byte list \<Rightarrow> byte list option" where
  "file_base_name fname =
     (if 0x2F \<in> set fname then Some (rev (takeWhile (\<lambda>c. c \<noteq> 0x2F) (rev fname))) else None)"

definition object_restore_withSize ::
    "bool \<Rightarrow> allocs \<Rightarrow> bool \<Rightarrow> byte list option \<Rightarrow> nat \<Rightarrow> byte list option \<Rightarrow> (object \<times> allocs) ck" where
  "object_restore_withSize be al locks_ok data data_size fname =
     (case data of
        None \<Rightarrow> ck_fail CKR_FUNCTION_FAILED
      | Some buf \<Rightarrow>
          if data_size < 4 + 4 + 8 then ck_fail CKR_FUNCTION_FAILED
          else ck_bind (ck_malloc al) (\<lambda>al. do {
            class32 \<leftarrow> get_bytes buf 0 4;
            count \<leftarrow> get_bytes buf 4 4;
            name \<leftarrow> get_bytes buf 8 8;
            if (case fname of
                  None \<Rightarrow> False
                | Some f \<Rightarrow> (case file_base_name f of
                      None \<Rightarrow> True
                    | Some base \<Rightarrow> length base \<noteq> 8 \<or> name \<noteq> base))
            then ck_fail CKR_FUNCTION_FAILED
            else ck_bind (template_unflatten_withSize be (drop 16 buf) (unat (get_host32 be count)) (data_size - 16) al)
              (\<lambda>(tmpl, al).
                if \<not> locks_ok then ck_fail CKR_CANT_LOCK
                else ck_ok (\<lparr>obj_class = ucast (get_host32 be class32), obj_name = name, obj_template = Some tmpl\<rparr>, al)) }))"

end
