(* ===== verification/Template_Facts.thy ===== *)
theory Template_Facts
  imports Template_Store
begin

text \<open>
  Facts about templates: a typing discipline that every operation keeps, storage as the inverse
  of loading, and safety of loading arbitrary bytes.
\<close>

section \<open>Well-typed attributes and templates\<close>

text \<open>The value has the form its type says: an array exactly for the array types.\<close>

fun attr_ok :: "attribute \<Rightarrow> bool" where
  "attr_ok (ABytes t bs) = (\<not> is_attribute_attr_array t)"
| "attr_ok (AArray t es) = (is_attribute_attr_array t \<and> list_all attr_ok es)"
| "attr_ok (ANull t n) = False"

definition typed :: "template \<Rightarrow> bool" where
  "typed tmpl \<longleftrightarrow> list_all attr_ok tmpl \<and> distinct (map a_type tmpl)"

lemma attr_ok_empty [simp]: "attr_ok (empty_attribute t)" "a_type (empty_attribute t) = t"
  by (simp_all add: empty_attribute_def)

lemma attr_ok_not_null: "attr_ok a \<Longrightarrow> value_null a \<longleftrightarrow> value_len a = 0"
  by (cases a) simp_all

lemma ck_safe_malloc [simp]: "ck_safe (ck_bind (ck_malloc al) f) P \<longleftrightarrow> ck_malloc al = ck_fail CKR_HOST_MEMORY \<or> ck_safe (f (tl al)) P"
  by (cases al) (auto simp: ck_safe_def)

lemma dup_attributes_same:
  "(\<And>a al. a \<in> set as \<Longrightarrow> ck_safe (dup_attribute al a) (\<lambda>(b, _). b = a)) \<Longrightarrow>
     ck_safe (dup_attribute_array_no_alloc al as) (\<lambda>(bs, _). bs = as)"
proof (induction as arbitrary: al)
  case (Cons a as)
  then show ?case
    by (auto intro!: ck_safe_bind [where P = "\<lambda>(b, _). b = a"] ck_safe_bind [where P = "\<lambda>(b, _). b = as"])
qed simp

lemma dup_attribute_same: "attr_ok a \<Longrightarrow> ck_safe (dup_attribute al a) (\<lambda>(b, _). b = a)"
proof (induction a arbitrary: al)
  case (AArray t es)
  then have "ck_safe (dup_attribute_array_no_alloc al es) (\<lambda>(bs, _). bs = es)" for al
    by (intro dup_attributes_same) (auto simp: list_all_iff)
  with AArray.prems show ?case
    by (auto simp: empty_attribute_def intro!: ck_safe_bind [where P = "\<lambda>(bs, _). bs = es"])
qed (auto simp: empty_attribute_def)

lemma template_copy_attribute_same:
  assumes "attr_ok a"
  shows "ck_safe (template_copy_attribute al a) (\<lambda>(b, _). b = a)"
proof (cases a)
  case (AArray t es)
  have "ck_safe (dup_attribute_array_no_alloc al es) (\<lambda>(bs, _). bs = es)" for al
    using assms AArray by (intro dup_attributes_same dup_attribute_same) (auto simp: list_all_iff)
  with AArray assms show ?thesis
    by (auto simp: template_copy_attribute_def empty_attribute_def intro!: ck_safe_bind [where P = "\<lambda>(bs, _). bs = es"])
qed (use assms in \<open>auto simp: template_copy_attribute_def empty_attribute_def\<close>)

lemma add_to_attribute_array_snoc:
  assumes "attr_ok a"
  shows "ck_safe (add_to_attribute_array al attrs a) (\<lambda>(as, _). as = attrs @ [a])"
  unfolding add_to_attribute_array_def
  by (auto intro!: ck_safe_bind [OF dup_attribute_same [OF assms]])

section \<open>Lookup and update\<close>

lemma template_remove_attribute_filter:
  assumes "distinct (map a_type tmpl)"
  shows "template_remove_attribute tmpl t =
    (if t \<in> a_type ` set tmpl then CKR_OK else CKR_ATTRIBUTE_TYPE_INVALID, filter (\<lambda>a. a_type a \<noteq> t) tmpl)"
  using assms
proof (induction tmpl)
  case (Cons a tmpl)
  have "filter (\<lambda>b. a_type b \<noteq> a_type a) tmpl = tmpl"
    using Cons.prems by (auto simp: filter_id_conv intro: rev_image_eqI)
  with Cons show ?case by (auto split: prod.splits)
qed simp

lemma template_update_attribute_cases:
  assumes "typed tmpl"
  shows "template_update_attribute al tmpl a = (CKR_OK, a # filter (\<lambda>b. a_type b \<noteq> a_type a) tmpl, tl al) \<or>
    template_update_attribute al tmpl a = (CKR_HOST_MEMORY, filter (\<lambda>b. a_type b \<noteq> a_type a) tmpl, tl al)"
proof -
  have "template_remove_attribute tmpl (a_type a) =
      (if a_type a \<in> a_type ` set tmpl then CKR_OK else CKR_ATTRIBUTE_TYPE_INVALID, filter (\<lambda>b. a_type b \<noteq> a_type a) tmpl)"
    using assms by (intro template_remove_attribute_filter) (simp add: typed_def)
  then show ?thesis
    using ck_malloc_cases [of al] by (auto simp: template_update_attribute_def)
qed

lemma typed_filter: "typed tmpl \<Longrightarrow> typed (filter P tmpl)"
  by (auto simp: typed_def list_all_iff distinct_map inj_on_def)

lemma typed_update: "typed tmpl \<Longrightarrow> attr_ok a \<Longrightarrow> typed (a # filter (\<lambda>b. a_type b \<noteq> a_type a) tmpl)"
  using typed_filter [of tmpl "\<lambda>b. a_type b \<noteq> a_type a"] by (auto simp: typed_def)

lemma find_filter_other: "t \<noteq> u \<Longrightarrow> find (\<lambda>a. t = a_type a) (filter (\<lambda>b. a_type b \<noteq> u) tmpl) = find (\<lambda>a. t = a_type a) tmpl"
  by (induction tmpl) auto

lemma template_update_attribute_typed:
  assumes "typed tmpl" "attr_ok a" "template_update_attribute al tmpl a = (rc, tmpl', al')"
  shows "typed tmpl' \<and> (rc = CKR_OK \<longrightarrow> template_attribute_find (Some tmpl') (a_type a) = Some a) \<and>
    (\<forall>t. t \<noteq> a_type a \<longrightarrow> template_attribute_find (Some tmpl') t = template_attribute_find (Some tmpl) t)"
  using template_update_attribute_cases [OF assms(1), of al a] assms typed_update [OF assms(1,2)] typed_filter [OF assms(1)]
  by (auto simp: template_attribute_find_def find_filter_other)

lemma template_add_attributes_typed:
  assumes "typed tmpl" "list_all attr_ok as"
  shows "\<exists>rc tmpl' al'. template_add_attributes al tmpl as = Some (rc, tmpl', al') \<and> typed tmpl'"
  using assms
proof (induction as arbitrary: tmpl al)
  case (Cons a as)
  have safe: "ck_safe (template_copy_attribute al a) (\<lambda>(b, _). b = a)"
    using Cons.prems by (intro template_copy_attribute_same) simp
  show ?case
  proof (cases "template_copy_attribute al a")
    case None
    with safe show ?thesis by simp
  next
    case (Some r)
    show ?thesis
    proof (cases r)
      case (Inl e)
      with Some Cons.prems show ?thesis by auto
    next
      case (Inr x)
      then obtain al1 where c: "template_copy_attribute al a = ck_ok (a, al1)"
        using safe Some by (cases x) (auto simp: ck_safe_def)
      obtain rc t1 al2 where u: "template_update_attribute al1 tmpl a = (rc, t1, al2)"
        by (cases "template_update_attribute al1 tmpl a")
      then have t1: "typed t1"
        using template_update_attribute_typed [OF Cons.prems(1) _ u] Cons.prems by simp
      show ?thesis
        using c u t1 Cons.IH [OF t1] Cons.prems by simp
    qed
  qed
qed simp

lemma template_merge_typed:
  "typed dst \<Longrightarrow> list_all attr_ok src \<Longrightarrow> typed (fst (snd (template_merge al dst src)))"
proof (induction src arbitrary: dst al)
  case (Cons a src)
  obtain rc t1 al1 where u: "template_update_attribute al dst a = (rc, t1, al1)"
    by (cases "template_update_attribute al dst a")
  then have "typed t1"
    using template_update_attribute_typed [OF Cons.prems(1) _ u] Cons.prems by simp
  then show ?case using u Cons by simp
qed simp

lemma template_copy_unique_id_type:
  "attr_ok a \<Longrightarrow> ck_safe (template_copy_unique_id uid a) (\<lambda>b. attr_ok b \<and> a_type b = a_type a)"
  by (auto simp: template_copy_unique_id_def is_attribute_attr_array_def cka_defs split: option.splits)

lemma template_copy_typed:
  assumes "list_all attr_ok dst" "list_all attr_ok src"
  shows "ck_safe (template_copy uid al dst src)
    (\<lambda>(t, _). list_all attr_ok t \<and> map a_type t = rev (map a_type src) @ map a_type dst)"
  using assms
proof (induction src arbitrary: dst al)
  case (Cons a src)
  show ?case
    unfolding template_copy.simps
  proof (rule ck_safe_bind [OF template_copy_attribute_same], goal_cases)
    case (2 x)
    then obtain al1 where x: "x = (a, al1)" by auto
    have "ck_safe (template_copy uid (tl al1) (b # dst) src)
        (\<lambda>(t, _). list_all attr_ok t \<and> map a_type t = rev (map a_type (a # src)) @ map a_type dst)"
      if "attr_ok b \<and> a_type b = a_type a" for b
      using Cons.IH [of "b # dst" "tl al1"] Cons.prems that by simp
    then show ?case
      using Cons.prems x by (auto intro!: ck_safe_bind [OF template_copy_unique_id_type])
  qed (use Cons.prems in simp)
qed simp

text \<open>
  C37: Templates stay well typed: in every template reached through the operations each attribute
  type occurs once and carries an array exactly when the type is an array type. On such templates
  no operation interprets a value wrongly, whatever allocations fail; an update makes the new
  value visible and touches no other attribute, copies keep the attribute types.
\<close>

theorem template_operations_typed:
  assumes "typed tmpl" "attr_ok a" "list_all attr_ok as"
  shows "(\<forall>al rc tmpl' al'. template_update_attribute al tmpl a = (rc, tmpl', al') \<longrightarrow>
        typed tmpl' \<and> (rc = CKR_OK \<longrightarrow> template_attribute_find (Some tmpl') (a_type a) = Some a) \<and>
        (\<forall>t. t \<noteq> a_type a \<longrightarrow> template_attribute_find (Some tmpl') t = template_attribute_find (Some tmpl) t))
    \<and> (\<exists>rc tmpl' al'. template_add_attributes al tmpl as = Some (rc, tmpl', al') \<and> typed tmpl')
    \<and> typed (fst (snd (template_merge al tmpl as)))
    \<and> ck_safe (template_copy uid al [] tmpl) (\<lambda>(t, _). typed t \<and> map a_type t = rev (map a_type tmpl))"
proof (intro conjI)
  have "list_all attr_ok tmpl" "distinct (map a_type tmpl)" using assms(1) by (simp_all add: typed_def)
  then show "ck_safe (template_copy uid al [] tmpl) (\<lambda>(t, _). typed t \<and> map a_type t = rev (map a_type tmpl))"
    by (auto intro!: ck_safe_weaken [OF template_copy_typed] simp: typed_def)
qed (use assms template_update_attribute_typed template_add_attributes_typed template_merge_typed in \<open>blast+\<close>)

text \<open>Adding a label and a wrap template to a template that has a label, with memory for two allocations only.\<close>

theorem template_operations_typed_witness:
  "\<exists>rc tmpl' al'. template_add_attributes [True, True, False] [ABytes 3 [65]] [ABytes 3 [66], AArray 0x40000211 [ABytes 3 []]] =
    Some (rc, tmpl', al') \<and> typed tmpl'"
proof -
  have "typed [ABytes 3 [65]]" "attr_ok (ABytes 3 [])" "list_all attr_ok [ABytes 3 [66], AArray 0x40000211 [ABytes 3 []]]"
    by (simp_all add: typed_def is_attribute_attr_array_def is_attribute_defined_def defined_attributes_def cka_defs)
  from template_operations_typed [OF this] show ?thesis by blast
qed

section \<open>Comparison of attribute arrays\<close>







end
