(* ===== verification/Template_Store_Facts.thy ===== *)
theory Template_Store_Facts
  imports Template_Facts
begin

text \<open>
  Storage of templates and objects: the bytes written, loading as the inverse of storing, and
  safety of loading arbitrary bytes.
\<close>

section \<open>The stored form\<close>

definition attr32 :: "bool \<Rightarrow> u64 \<Rightarrow> nat \<Rightarrow> byte list" where
  "attr32 be t len = host32 be (ucast t) @ host32 be 0 @ host32 be (of_nat len)"

fun attr_wire :: "bool \<Rightarrow> attribute \<Rightarrow> byte list" where
  "attr_wire be (ABytes t bs) =
     (if flatten_ulong_attribute_as_ulong32 t \<and> bs \<noteq> []
      then attr32 be t 4 @ host32 be (ucast (get_host64 be bs))
      else attr32 be t (length bs) @ bs)"
| "attr_wire be (AArray t es) =
     attr32 be t (sum_list (map length (map (attr_wire be) es))) @ concat (map (attr_wire be) es)"
| "attr_wire be (ANull t n) = []"

abbreviation attrs_wire :: "bool \<Rightarrow> attribute list \<Rightarrow> byte list" where
  "attrs_wire be as \<equiv> concat (map (attr_wire be) as)"

abbreviation attrs_size :: "bool \<Rightarrow> attribute list \<Rightarrow> nat" where
  "attrs_size be as \<equiv> sum_list (map length (map (attr_wire be) as))"

text \<open>
  What survives storage: types and lengths that fit 32 bits, and \<^verbatim>\<open>CK_ULONG\<close>s that do so where the
  stored form is 32 bits wide.
\<close>

fun storable :: "bool \<Rightarrow> attribute \<Rightarrow> bool" where
  "storable be (ABytes t bs) =
     (\<not> is_attribute_attr_array t \<and> unat t < 2 ^ 32 \<and> length bs < 2 ^ 32 \<and>
      (flatten_ulong_attribute_as_ulong32 t \<longrightarrow> bs = [] \<or> bs = host64 be (ucast (ucast (get_host64 be bs) :: u32))))"
| "storable be (AArray t es) =
     (is_attribute_attr_array t \<and> attrs_size be es < 2 ^ 32 \<and> list_all (storable be) es)"
| "storable be (ANull t n) = False"

lemma length_attr32 [simp]: "length (attr32 be t n) = 12"
  by (simp add: attr32_def)

lemma attr_array_type_small: "is_attribute_attr_array t \<Longrightarrow> unat t < 2 ^ 32"
  by (auto simp: is_attribute_attr_array_def cka_defs split: if_splits)

lemma attr_array_not_ulong32: "is_attribute_attr_array t \<Longrightarrow> \<not> flatten_ulong_attribute_as_ulong32 t"
  by (auto simp: is_attribute_attr_array_def flatten_ulong_attribute_as_ulong32_def cka_defs split: if_splits)

lemma storable_ok: "storable be a \<Longrightarrow> attr_ok a"
  by (induction a) (auto simp: list_all_iff)

lemma storable_ulong:
  assumes "storable be (ABytes t bs)" "flatten_ulong_attribute_as_ulong32 t" "bs \<noteq> []"
  shows "length bs = 8" "host64 be (ucast (ucast (get_host64 be bs) :: u32)) = bs"
  using assms by (metis length_host(3) storable.simps(1))+

lemma length_attr_wire:
  "storable be a \<Longrightarrow> attribute_get_compressed_size a = Some (length (attr_wire be a))"
  "list_all (storable be) as \<Longrightarrow> attributes_compressed_size as = Some (length (attrs_wire be as))"
proof (induction a and as rule: attribute_get_compressed_size_attributes_compressed_size.induct)
  case (2 t es)
  then show ?case by (simp add: attr_array_not_ulong32 length_concat ATTR32_SIZE_def)
qed (auto simp: ATTR32_SIZE_def)

lemma put_bytes_at:
  "length xs = p \<Longrightarrow> length bs \<le> length ys \<Longrightarrow> put_bytes (xs @ ys) p bs = Some ((xs @ bs) @ drop (length bs) ys)"
  by (simp add: put_bytes_append)

lemma flatten_value_wire:
  assumes "storable be (ABytes t bs)" "length (attr_wire be (ABytes t bs)) \<le> length ys"
  shows "flatten_value be (xs @ ys) (length xs) (ABytes t bs) =
    ck_ok ((xs @ attr_wire be (ABytes t bs)) @ drop (length (attr_wire be (ABytes t bs))) ys,
           length (xs @ attr_wire be (ABytes t bs)))"
proof (cases "flatten_ulong_attribute_as_ulong32 t \<and> bs \<noteq> []")
  case True
  then have "length bs = 8" using storable_ulong [OF assms(1)] by simp
  then show ?thesis
    using True assms(2) put_bytes_at [of xs "length xs" "attr32 be t 4" ys]
      put_bytes_at [of "xs @ attr32 be t 4" "length xs + 12" "host32 be (ucast (get_host64 be bs))" "drop 12 ys"]
    by (simp add: flatten_value_def put_attr32_def attr32_def ATTR32_SIZE_def)
next
  case False
  then show ?thesis
    using assms(2) put_bytes_at [of xs "length xs" "attr32 be t (length bs)" ys]
      put_bytes_at [of "xs @ attr32 be t (length bs)" "length xs + 12" bs "drop 12 ys"]
    by (auto simp: flatten_value_def put_attr32_def attr32_def ATTR32_SIZE_def add.commute)
qed

lemma flatten_wire:
  "storable be a \<Longrightarrow> is_attribute_attr_array (a_type a) \<Longrightarrow> length (attr_wire be a) \<le> length ys \<Longrightarrow>
     attribute_array_flatten be (xs @ ys) (length xs) a =
       ck_ok ((xs @ attr_wire be a) @ drop (length (attr_wire be a)) ys, length (xs @ attr_wire be a))"
  "list_all (storable be) as \<Longrightarrow> length (attrs_wire be as) \<le> length ys \<Longrightarrow>
     flatten_attributes be (xs @ ys) (length xs) as =
       ck_ok ((xs @ attrs_wire be as) @ drop (length (attrs_wire be as)) ys, length (xs @ attrs_wire be as))"
proof (induction a and as arbitrary: xs ys and xs ys rule: attribute_get_compressed_size_attributes_compressed_size.induct)
  case (2 t es)
  let ?h = "attr32 be t (length (attrs_wire be es))"
  have sz: "attributes_compressed_size es = Some (length (attrs_wire be es))"
    using 2 by (intro length_attr_wire) simp
  have "put_attr32 be (xs @ ys) (length xs) t (of_nat (length (attrs_wire be es))) = Some ((xs @ ?h) @ drop 12 ys)"
    using 2 put_bytes_at [of xs "length xs" ?h ys] by (simp add: put_attr32_def attr32_def length_concat)
  moreover have "flatten_attributes be ((xs @ ?h) @ drop 12 ys) (length (xs @ ?h)) es =
      ck_ok (((xs @ ?h) @ attrs_wire be es) @ drop (length (attrs_wire be es)) (drop 12 ys), length ((xs @ ?h) @ attrs_wire be es))"
    using 2(2-) by (intro 2(1)) (auto simp: length_concat attr_array_not_ulong32)
  ultimately show ?case
    using 2(2-) sz by (simp add: length_concat ATTR32_SIZE_def add.commute)
next
  case (5 a as)
  have a: "(if is_attribute_attr_array (a_type a) then attribute_array_flatten be (xs @ ys) (length xs) a
        else flatten_value be (xs @ ys) (length xs) a) =
      ck_ok ((xs @ attr_wire be a) @ drop (length (attr_wire be a)) ys, length (xs @ attr_wire be a))"
  proof (cases a)
    case (ABytes t bs)
    then show ?thesis using 5(3-) flatten_value_wire [of be t bs ys xs] by simp
  next
    case (AArray t es)
    then show ?thesis using 5(1) [of ys xs] 5(3-) by simp
  qed (use 5 in simp)
  have "flatten_attributes be ((xs @ attr_wire be a) @ drop (length (attr_wire be a)) ys) (length (xs @ attr_wire be a)) as =
      ck_ok (((xs @ attr_wire be a) @ attrs_wire be as) @ drop (length (attrs_wire be as)) (drop (length (attr_wire be a)) ys),
        length ((xs @ attr_wire be a) @ attrs_wire be as))"
    using 5(3-) length_attr_wire(1) [of be a] by (intro 5(2)) auto
  with a show ?case by (simp add: add.commute)
qed auto

section \<open>Loading what was stored\<close>

lemma ucast_small: "unat t < 2 ^ 32 \<Longrightarrow> ucast (ucast t :: u32) = (t :: u64)"
proof -
  assume "unat t < 2 ^ 32"
  then have "unat (ucast (ucast t :: u32) :: u64) = unat t"
    by (simp add: unsigned_ucast_eq unsigned_take_bit_eq take_bit_nat_eq_self)
  then show ?thesis by (rule word_eq_iff_unsigned [THEN iffD2])
qed

lemma get_attr32_at:
  assumes "unat t < 2 ^ 32" "n < 2 ^ 32"
  shows "get_attr32 be (xs @ attr32 be t n @ ys) (length xs) = Some (t, n)"
  using assms get_bytes_append [of xs "length xs" "attr32 be t n" 12 ys]
  by (simp add: get_attr32_def ATTR32_SIZE_def attr32_def ucast_small unsigned_of_nat take_bit_nat_eq_self)

lemma get_bytes_behind:
  "length xs = p \<Longrightarrow> length hs = k \<Longrightarrow> length bs = n \<Longrightarrow> get_bytes (xs @ hs @ bs @ ys) (p + k) n = Some bs"
  using get_bytes_append [of "xs @ hs" "p + k" bs n ys] by simp

lemma dup_attributes_nil:
  assumes "\<And>a. a \<in> set as \<Longrightarrow> dup_attribute [] a = ck_ok (a, [])"
  shows "dup_attribute_array_no_alloc [] as = ck_ok (as, [])"
  using assms
proof (induction as)
  case (Cons a as)
  have "dup_attribute [] a = ck_ok (a, [])" by (rule Cons.prems) simp
  moreover have "dup_attribute_array_no_alloc [] as = ck_ok (as, [])"
    by (rule Cons.IH, rule Cons.prems) simp
  ultimately show ?case by simp
qed simp

lemma dup_attribute_nil: "attr_ok a \<Longrightarrow> dup_attribute [] a = ck_ok (a, [])"
proof (induction a)
  case (AArray t es)
  have "attr_ok a" if "a \<in> set es" for a using AArray.prems that by (simp add: list_all_iff)
  then have "dup_attribute_array_no_alloc [] es = ck_ok (es, [])"
    by (intro dup_attributes_nil AArray.IH)
  with AArray.prems show ?case by (simp add: empty_attribute_def)
qed (simp_all add: empty_attribute_def)

lemma add_snoc: "attr_ok a \<Longrightarrow> add_to_attribute_array [] attrs a = ck_ok (attrs @ [a], [])"
  by (simp add: add_to_attribute_array_def dup_attribute_nil)

fun wire_body :: "bool \<Rightarrow> attribute \<Rightarrow> byte list" where
  "wire_body be (ABytes t bs) =
     (if flatten_ulong_attribute_as_ulong32 t \<and> bs \<noteq> [] then host32 be (ucast (get_host64 be bs)) else bs)"
| "wire_body be (AArray t es) = attrs_wire be es"
| "wire_body be (ANull t n) = []"

lemma attr_wire_split:
  assumes "storable be a"
  shows "attr_wire be a = attr32 be (a_type a) (length (wire_body be a)) @ wire_body be a"
    "length (wire_body be a) < 2 ^ 32" "unat (a_type a) < 2 ^ 32"
proof -
  show "attr_wire be a = attr32 be (a_type a) (length (wire_body be a)) @ wire_body be a"
    using assms by (cases a) (simp_all add: length_concat)
  show "length (wire_body be a) < 2 ^ 32"
    using assms by (cases a) (simp_all add: length_concat)
  show "unat (a_type a) < 2 ^ 32"
    using assms attr_array_type_small by (cases a) simp_all
qed

lemma wire_body_value:
  assumes "storable be (ABytes t bs)"
  shows "flatten_ulong_attribute_as_ulong32 t \<and> 0 < length (wire_body be (ABytes t bs)) \<Longrightarrow>
      length (wire_body be (ABytes t bs)) = 4 \<and> host64 be (ucast (get_host32 be (wire_body be (ABytes t bs)))) = bs"
    and "\<not> (flatten_ulong_attribute_as_ulong32 t \<and> 0 < length (wire_body be (ABytes t bs))) \<Longrightarrow> wire_body be (ABytes t bs) = bs"
proof -
  show "flatten_ulong_attribute_as_ulong32 t \<and> 0 < length (wire_body be (ABytes t bs)) \<Longrightarrow>
      length (wire_body be (ABytes t bs)) = 4 \<and> host64 be (ucast (get_host32 be (wire_body be (ABytes t bs)))) = bs"
    using storable_ulong(2) [OF assms] by (cases "bs = []") simp_all
  show "\<not> (flatten_ulong_attribute_as_ulong32 t \<and> 0 < length (wire_body be (ABytes t bs))) \<Longrightarrow> wire_body be (ABytes t bs) = bs"
    by (cases "bs = []") auto
qed

lemma unflatten_elements_done: "\<not> ofs < len1 \<Longrightarrow> unflatten_elements be buf p n ofs len1 acc al = ck_ok (acc, p, al)"
  by (simp add: unflatten_elements.simps)

lemma unflatten_elements_value:
  assumes "ofs < len1" "get_attr32 be buf p = Some (t, len)" "12 + len \<le> n" "\<not> is_attribute_attr_array t"
    and "get_bytes buf (p + 12) len = Some body"
    and "flatten_ulong_attribute_as_ulong32 t \<and> 0 < len \<Longrightarrow> len = 4 \<and> host64 be (ucast (get_host32 be body)) = bs"
    and "\<not> (flatten_ulong_attribute_as_ulong32 t \<and> 0 < len) \<Longrightarrow> body = bs"
  shows "unflatten_elements be buf p n ofs len1 acc [] =
    unflatten_elements be buf (p + (12 + len)) (n - (12 + len)) (ofs + (12 + len)) len1 (acc @ [ABytes t bs]) []"
  using assms add_snoc [of "ABytes t bs" acc]
  by (subst unflatten_elements.simps) (auto simp: ATTR32_SIZE_def add.assoc)

lemma unflatten_elements_array:
  assumes "ofs < len1" "get_attr32 be buf p = Some (t, len)" "12 + len \<le> n" "is_attribute_attr_array t"
    and "attribute_array_unflatten be buf p (12 + len) [] = ck_ok (es, p + (12 + len), [])" "attr_ok (AArray t es)"
  shows "unflatten_elements be buf p n ofs len1 acc [] =
    unflatten_elements be buf (p + (12 + len)) (n - (12 + len)) (ofs + (12 + len)) len1 (acc @ [AArray t es]) []"
  using assms add_snoc [of "AArray t es" acc]
  by (subst unflatten_elements.simps) (auto simp: ATTR32_SIZE_def add.assoc)

lemma unflatten_elements_wire:
  assumes "list_all (storable be) es"
    and IH: "\<And>e xs ys. e \<in> set es \<Longrightarrow> is_attribute_attr_array (a_type e) \<Longrightarrow>
      \<exists>es. e = AArray (a_type e) es \<and>
        attribute_array_unflatten be (xs @ attr_wire be e @ ys) (length xs) (length (attr_wire be e)) [] =
          ck_ok (es, length xs + length (attr_wire be e), [])"
  shows "unflatten_elements be (xs @ attrs_wire be es @ ys) (length xs) (length (attrs_wire be es)) ofs
      (ofs + length (attrs_wire be es)) acc [] =
    ck_ok (acc @ es, length xs + length (attrs_wire be es), [])"
  using assms
proof (induction es arbitrary: xs ofs acc)
  case Nil
  then show ?case by (simp add: unflatten_elements.simps)
next
  case (Cons e es)
  have e: "storable be e" "attr_ok e" using Cons.prems(1) storable_ok by auto
  define body where "body = wire_body be e"
  define len where "len = length body"
  have w: "attr_wire be e = attr32 be (a_type e) len @ body" "length body = len" "len < 2 ^ 32" "unat (a_type e) < 2 ^ 32"
    using attr_wire_split [OF e(1)] by (simp_all add: body_def len_def)
  let ?buf = "xs @ attrs_wire be (e # es) @ ys"
  have hd: "get_attr32 be ?buf (length xs) = Some (a_type e, len)"
    using get_attr32_at [OF w(4,3), of be xs "body @ attrs_wire be es @ ys"] w(1) by simp
  let ?n = "length (attrs_wire be (e # es))"
  have n: "?n - (12 + len) = length (attrs_wire be es)" "12 + len \<le> ?n" "ofs < ofs + ?n" using w(1,2) by simp_all
  have rest: "unflatten_elements be ?buf (length xs + (12 + len)) (?n - (12 + len)) (ofs + (12 + len)) (ofs + ?n) (acc @ [e]) [] =
      ck_ok (acc @ e # es, length xs + ?n, [])"
    using Cons.IH [of "xs @ attr_wire be e" "ofs + (12 + len)" "acc @ [e]"] Cons.prems w(1,2) n(1) by (simp add: add.assoc)
  show ?case
  proof (cases "is_attribute_attr_array (a_type e)")
    case True
    then obtain fs where fs: "e = AArray (a_type e) fs"
      "attribute_array_unflatten be ?buf (length xs) (12 + len) [] = ck_ok (fs, length xs + (12 + len), [])"
      using Cons.prems(2) [of e xs "attrs_wire be es @ ys"] w(1,2) by auto
    show ?thesis
      using unflatten_elements_array [OF n(3) hd n(2) True fs(2), of acc] fs(1) [symmetric] e(2) rest by simp
  next
    case False
    then obtain t bs where tb: "e = ABytes t bs" using e(2) by (cases e) auto
    have body: "get_bytes ?buf (length xs + 12) len = Some body"
      using get_bytes_behind [of xs "length xs" "attr32 be (a_type e) len" 12 body len "attrs_wire be es @ ys"] w(1,2) by simp
    have "unflatten_elements be ?buf (length xs) ?n ofs (ofs + ?n) acc [] =
      unflatten_elements be ?buf (length xs + (12 + len)) (?n - (12 + len)) (ofs + (12 + len)) (ofs + ?n) (acc @ [ABytes (a_type e) bs]) []"
      by (rule unflatten_elements_value [OF n(3) hd n(2) False body])
         (use wire_body_value [OF e(1) [unfolded tb], folded tb, folded body_def, folded len_def] tb in auto)
    with rest tb show ?thesis by simp
  qed
qed

lemma attribute_array_unflatten_wire:
  assumes "storable be a" "is_attribute_attr_array (a_type a)"
  shows "\<exists>es. a = AArray (a_type a) es \<and>
    attribute_array_unflatten be (xs @ attr_wire be a @ ys) (length xs) (length (attr_wire be a)) [] =
      ck_ok (es, length xs + length (attr_wire be a), [])"
  using assms
proof (induction a arbitrary: xs ys)
  case (AArray t es)
  have st: "list_all (storable be) es" using AArray.prems by simp
  have el: "unflatten_elements be ((xs @ attr32 be t (attrs_size be es)) @ attrs_wire be es @ ys)
      (length (xs @ attr32 be t (attrs_size be es))) (length (attrs_wire be es)) 0 (0 + length (attrs_wire be es)) [] [] =
    ck_ok ([] @ es, length (xs @ attr32 be t (attrs_size be es)) + length (attrs_wire be es), [])"
    by (rule unflatten_elements_wire [OF st]) (use AArray st in \<open>auto simp: list_all_iff\<close>)
  have hd: "get_attr32 be (xs @ attr_wire be (AArray t es) @ ys) (length xs) = Some (t, attrs_size be es)"
    using get_attr32_at [of t "attrs_size be es" be xs "attrs_wire be es @ ys"] AArray.prems attr_array_type_small by simp
  define w where "w = attrs_wire be es"
  have w: "attr_wire be (AArray t es) = attr32 be t (length w) @ w" "attrs_size be es = length w"
    by (simp_all add: w_def length_concat)
  show ?case
    using hd el AArray.prems unfolding w w_def [symmetric]
    by (subst attribute_array_unflatten.simps) (simp add: ATTR32_SIZE_def add.assoc)
qed simp_all

lemma unflatten_attribute_wire:
  assumes "storable be a" "length xs + length (attr_wire be a) \<le> buf_size"
  shows "unflatten_attribute be (xs @ attr_wire be a @ ys) buf_size (length xs) [] = ck_ok (a, length xs + length (attr_wire be a), [])"
proof -
  define body where "body = wire_body be a"
  define buf where "buf = xs @ attr_wire be a @ ys"
  have w: "attr_wire be a = attr32 be (a_type a) (length body) @ body" "length body < 2 ^ 32" "unat (a_type a) < 2 ^ 32"
    using attr_wire_split [OF assms(1)] by (simp_all add: body_def)
  have hd: "get_attr32 be buf (length xs) = Some (a_type a, length body)"
    using get_attr32_at [OF w(3,2), of be xs "body @ ys"] w(1) by (simp add: buf_def)
  have bd: "get_bytes buf (length xs + 12) (length body) = Some body"
    using get_bytes_behind [of xs "length xs" "attr32 be (a_type a) (length body)" 12 body "length body" ys] w(1) by (simp add: buf_def)
  have n: "length (attr_wire be a) = 12 + length body" using w(1) by simp
  show ?thesis
  proof (cases "is_attribute_attr_array (a_type a)")
    case True
    then obtain es where "a = AArray (a_type a) es" "attribute_array_unflatten be buf (length xs) (12 + length body) [] =
        ck_ok (es, length xs + (12 + length body), [])"
      using attribute_array_unflatten_wire [OF assms(1), of xs ys] n by (auto simp: buf_def)
    with True hd assms(2) n show ?thesis
      unfolding buf_def [symmetric] by (simp add: unflatten_attribute_def ATTR32_SIZE_def add.assoc)
  next
    case False
    then obtain t bs where a: "a = ABytes t bs" using storable_ok [OF assms(1)] by (cases a) auto
    note v = wire_body_value [OF assms(1) [unfolded a], folded a, folded body_def]
    show ?thesis
    proof (cases "flatten_ulong_attribute_as_ulong32 t \<and> 0 < length body")
      case True
      then show ?thesis
        using False hd assms(2) n bd v a unfolding buf_def [symmetric]
        by (auto simp: unflatten_attribute_def ATTR32_SIZE_def add.assoc)
    next
      case nu: False
      then show ?thesis
        using False hd assms(2) n bd v a unfolding buf_def [symmetric]
        by (auto simp: unflatten_attribute_def ATTR32_SIZE_def add.assoc)
    qed
  qed
qed

lemma template_update_fresh:
  "a_type a \<notin> a_type ` set tmpl \<Longrightarrow> template_update_attribute [] tmpl a = (CKR_OK, a # tmpl, [])"
proof -
  have "t \<notin> a_type ` set tmpl \<Longrightarrow> template_remove_attribute tmpl t = (CKR_ATTRIBUTE_TYPE_INVALID, tmpl)" for t
    by (induction tmpl) auto
  then show "a_type a \<notin> a_type ` set tmpl \<Longrightarrow> template_update_attribute [] tmpl a = (CKR_OK, a # tmpl, [])"
    by (simp add: template_update_attribute_def)
qed

lemma unflatten_attributes_wire:
  assumes "list_all (storable be) as" "distinct (map a_type as @ map a_type tmpl)"
    "length xs + length (attrs_wire be as) \<le> buf_size"
  shows "unflatten_attributes be (xs @ attrs_wire be as @ ys) buf_size (length as) (length xs) tmpl [] = ck_ok (rev as @ tmpl, [])"
  using assms
proof (induction as arbitrary: xs tmpl)
  case (Cons a as)
  have "unflatten_attribute be (xs @ attr_wire be a @ attrs_wire be as @ ys) buf_size (length xs) [] =
      ck_ok (a, length xs + length (attr_wire be a), [])"
    by (rule unflatten_attribute_wire) (use Cons.prems in auto)
  moreover have "template_update_attribute [] tmpl a = (CKR_OK, a # tmpl, [])"
    using Cons.prems by (intro template_update_fresh) auto
  moreover have "unflatten_attributes be ((xs @ attr_wire be a) @ attrs_wire be as @ ys) buf_size (length as)
      (length (xs @ attr_wire be a)) (a # tmpl) [] = ck_ok (rev as @ a # tmpl, [])"
    by (rule Cons.IH) (use Cons.prems in auto)
  ultimately show ?case by simp
qed simp

section \<open>Objects\<close>

definition obj_storable :: "bool \<Rightarrow> object \<Rightarrow> template \<Rightarrow> bool" where
  "obj_storable be obj as \<longleftrightarrow> obj_template obj = Some as \<and> list_all (storable be) as \<and> distinct (map a_type as) \<and>
     length as < 2 ^ 32 \<and> unat (obj_class obj) < 2 ^ 32 \<and> length (obj_name obj) = 8"

lemma object_flatten_wire:
  assumes "obj_storable be obj as"
  shows "object_flatten be [] obj =
    ck_ok (host32 be (ucast (obj_class obj)) @ host32 be (of_nat (length as)) @ obj_name obj @ attrs_wire be as,
           16 + length (attrs_wire be as), [])"
proof -
  define c k nm ws where "c = host32 be (ucast (obj_class obj))" and "k = host32 be (of_nat (length as))"
    and "nm = obj_name obj" and "ws = attrs_wire be as"
  have as: "obj_template obj = Some as" "list_all (storable be) as" "length nm = 8" and l: "length c = 4" "length k = 4"
    using assms by (simp_all add: obj_storable_def nm_def c_def k_def)
  have sz: "template_get_compressed_size (obj_template obj) = Some (length ws)"
    using as length_attr_wire(2) by (simp add: template_get_compressed_size_def ws_def)
  have z: "replicate (length ws + 16) 0 = replicate 4 0 @ replicate 4 0 @ replicate 8 0 @ replicate (length ws) (0 :: byte)"
    by (simp add: replicate_add [symmetric])
  have "put_bytes (replicate 4 0 @ replicate 4 0 @ replicate 8 0 @ zs) 0 c = Some (c @ replicate 4 0 @ replicate 8 0 @ zs)"
    "put_bytes (c @ replicate 4 0 @ replicate 8 0 @ zs) 4 k = Some (c @ k @ replicate 8 0 @ zs)"
    "put_bytes (c @ k @ replicate 8 0 @ zs) 8 nm = Some (c @ k @ nm @ zs)" for zs
    using put_bytes_0 [of c "replicate 4 0 @ replicate 4 0 @ replicate 8 0 @ zs"] put_bytes_append [of c 4 k "replicate 4 0 @ replicate 8 0 @ zs"]
      put_bytes_append [of "c @ k" 8 nm "replicate 8 0 @ zs"] l as(3) by simp_all
  moreover have "template_flatten be (Some as) (replicate (length ws) 0) = ck_ok ws"
    using flatten_wire(2) [OF as(2), of "replicate (length ws) 0" "[]"] by (simp add: template_flatten_def ws_def)
  ultimately show ?thesis
    using sz as l z unfolding object_flatten_def Let_def c_def [symmetric] nm_def [symmetric] ws_def [symmetric]
    by (simp add: template_get_count_def k_def [symmetric] add.commute)
qed

lemma object_restore_flatten:
  assumes "obj_storable be obj as"
  shows "\<exists>data. object_flatten be [] obj = ck_ok (data, length data, []) \<and>
    object_restore_withSize be [] True (Some data) (length data) None = ck_ok (obj\<lparr>obj_template := Some (rev as)\<rparr>, [])"
proof -
  define c k nm ws where "c = host32 be (ucast (obj_class obj))" and "k = host32 be (of_nat (length as))"
    and "nm = obj_name obj" and "ws = attrs_wire be as"
  have as: "list_all (storable be) as" "distinct (map a_type as)" "length as < 2 ^ 32" "unat (obj_class obj) < 2 ^ 32" "length nm = 8"
    and l: "length c = 4" "length k = 4"
    using assms by (simp_all add: obj_storable_def nm_def c_def k_def)
  have g: "get_bytes (c @ k @ nm @ ws) 0 4 = Some c" "get_bytes (c @ k @ nm @ ws) 4 4 = Some k" "get_bytes (c @ k @ nm @ ws) 8 8 = Some nm"
    using l as(5) by (simp_all add: get_bytes_def)
  have "unflatten_attributes be ws (length ws) (length as) 0 [] [] = ck_ok (rev as, [])"
    using unflatten_attributes_wire [OF as(1), of "[]" "[]" "length ws" "[]"] as(2) by (simp add: ws_def)
  moreover have "unat (get_host32 be k) = length as" "ucast (get_host32 be c) = obj_class obj"
    using as by (simp_all add: k_def c_def ucast_small unsigned_of_nat take_bit_nat_eq_self)
  ultimately have "object_restore_withSize be [] True (Some (c @ k @ nm @ ws)) (length (c @ k @ nm @ ws)) None =
      ck_ok (obj\<lparr>obj_template := Some (rev as)\<rparr>, [])"
    using g l as(5) by (simp add: object_restore_withSize_def template_unflatten_withSize_def nm_def)
  moreover have "object_flatten be [] obj = ck_ok (c @ k @ nm @ ws, length (c @ k @ nm @ ws), [])"
    using object_flatten_wire [OF assms] l as(5) by (simp add: c_def k_def nm_def ws_def)
  ultimately show ?thesis by blast
qed

text \<open>
  C4: An object stored by \<^verbatim>\<open>object_flatten\<close> is loaded again by \<^verbatim>\<open>object_restore_withSize\<close>, in either byte
  order: class, name and all attributes, nested attribute arrays included; the attributes come
  back in reverse order. The buffer has exactly the announced size.
\<close>

theorem object_store_roundtrip:
  assumes "obj_storable be obj as"
  shows "\<exists>data. object_flatten be [] obj = ck_ok (data, length data, []) \<and>
    object_restore_withSize be [] True (Some data) (length data) None = ck_ok (obj\<lparr>obj_template := Some (rev as)\<rparr>, [])"
  by (rule object_restore_flatten [OF assms])

text \<open>The sample object has a class, a label and a wrap template with a nested unwrap template.\<close>

definition sample_object :: object where
  "sample_object = \<lparr>obj_class = 3, obj_name = [79, 66, 48, 48, 48, 48, 48, 48], obj_template =
     Some [ABytes CKA_CLASS (host64 False 3), ABytes 3 [65, 66],
       AArray CKA_WRAP_TEMPLATE [ABytes 0x104 [1], AArray CKA_UNWRAP_TEMPLATE [ABytes CKA_VALUE_LEN (host64 False 32)]]]\<rparr>"

lemma sample_object_storable: "obj_storable False sample_object (the (obj_template sample_object))"
  by (simp add: obj_storable_def sample_object_def is_attribute_attr_array_def is_attribute_defined_def defined_attributes_def
      flatten_ulong_attribute_as_ulong32_def cka_defs)

theorem object_store_roundtrip_witness:
  "\<exists>data. object_flatten False [] sample_object = ck_ok (data, length data, []) \<and>
    object_restore_withSize False [] True (Some data) (length data) None =
      ck_ok (sample_object\<lparr>obj_template := Some (rev (the (obj_template sample_object)))\<rparr>, [])"
  by (rule object_store_roundtrip [OF sample_object_storable])

section \<open>Loading arbitrary bytes\<close>

lemma get_attr32_inside: "p + 12 \<le> length buf \<Longrightarrow> \<exists>t len. get_attr32 be buf p = Some (t, len)"
  by (simp add: get_attr32_def get_bytes_def ATTR32_SIZE_def)

definition unflattened :: "nat \<Rightarrow> attribute list \<times> nat \<times> allocs \<Rightarrow> bool" where
  "unflattened q = (\<lambda>(as, p, _). list_all attr_ok as \<and> p \<le> q)"

definition elements_safe :: "bool \<Rightarrow> byte list \<Rightarrow> nat \<Rightarrow> bool" where
  "elements_safe be buf n \<longleftrightarrow> (\<forall>p ofs len1 acc al. p + n \<le> length buf \<longrightarrow> list_all attr_ok acc \<longrightarrow>
     ck_safe (unflatten_elements be buf p n ofs len1 acc al) (unflattened (p + n)))"

definition array_safe :: "bool \<Rightarrow> byte list \<Rightarrow> nat \<Rightarrow> bool" where
  "array_safe be buf n \<longleftrightarrow> (\<forall>p al. p + n \<le> length buf \<longrightarrow>
     ck_safe (attribute_array_unflatten be buf p n al) (unflattened (p + n)))"

lemma elements_safeD:
  "elements_safe be buf n \<Longrightarrow> p + n \<le> length buf \<Longrightarrow> list_all attr_ok acc \<Longrightarrow> p + n \<le> q \<Longrightarrow>
     ck_safe (unflatten_elements be buf p n ofs len1 acc al) (unflattened q)"
  unfolding elements_safe_def unflattened_def by (fastforce elim!: ck_safe_weaken)

lemma array_safe_step:
  assumes "12 \<le> n \<Longrightarrow> elements_safe be buf (n - 12)"
  shows "array_safe be buf n"
  unfolding array_safe_def
proof (intro allI impI)
  fix p al assume p: "p + n \<le> length buf"
  show "ck_safe (attribute_array_unflatten be buf p n al) (unflattened (p + n))"
  proof (cases "n < 12")
    case False
    then obtain t len where "get_attr32 be buf p = Some (t, len)"
      using get_attr32_inside [of p buf be] p by auto
    moreover have "ck_safe (unflatten_elements be buf (p + 12) (n - 12) 0 len [] al) (unflattened (p + n))"
      using False p assms by (intro elements_safeD) auto
    ultimately show ?thesis
      using False by (subst attribute_array_unflatten.simps) (auto simp: ATTR32_SIZE_def)
  qed (simp add: ATTR32_SIZE_def attribute_array_unflatten.simps)
qed

text \<open>One round of the loop on a nested array and on a plain value.\<close>

lemma elements_array_step:
  assumes "p + n \<le> length buf" "list_all attr_ok acc" "12 + len \<le> n" "is_attribute_attr_array t"
    and "array_safe be buf (12 + len)" "elements_safe be buf (n - (12 + len))"
  shows "ck_safe (ck_bind (attribute_array_unflatten be buf p (12 + len) al) (\<lambda>(elements, p, al).
      ck_bind (add_to_attribute_array al acc (AArray t elements)) (\<lambda>(attrs, al).
      unflatten_elements be buf p (n - (12 + len)) (ofs + 12 + len) len1 attrs al))) (unflattened (p + n))"
proof (rule ck_safe_bind)
  show "ck_safe (attribute_array_unflatten be buf p (12 + len) al) (unflattened (p + (12 + len)))"
    using assms by (simp add: array_safe_def)
next
  fix x assume "unflattened (p + (12 + len)) x"
  then obtain es p1 al1 where x: "x = (es, p1, al1)" "list_all attr_ok es" "p1 \<le> p + (12 + len)"
    by (auto simp: unflattened_def)
  have "ck_safe (ck_bind (add_to_attribute_array al1 acc (AArray t es)) (\<lambda>(attrs, al).
      unflatten_elements be buf p1 (n - (12 + len)) (ofs + 12 + len) len1 attrs al)) (unflattened (p + n))"
    using assms x by (intro ck_safe_bind [OF add_to_attribute_array_snoc]) (auto intro!: elements_safeD)
  then show "ck_safe (case x of (elements, p, al) \<Rightarrow> ck_bind (add_to_attribute_array al acc (AArray t elements)) (\<lambda>(attrs, al).
      unflatten_elements be buf p (n - (12 + len)) (ofs + 12 + len) len1 attrs al)) (unflattened (p + n))"
    using x(1) by simp
qed

lemma elements_value_step:
  assumes "p + n \<le> length buf" "list_all attr_ok acc" "12 + len \<le> n" "\<not> is_attribute_attr_array t"
    and "elements_safe be buf (n - (12 + len))"
  shows "ck_safe (ck_bind (if flatten_ulong_attribute_as_ulong32 t \<and> len > 0
        then (if n < 12 + 4 then ck_fail CKR_FUNCTION_FAILED
              else do { v \<leftarrow> get_bytes buf (p + 12) 4;
                   add_to_attribute_array al acc (ABytes t (host64 be (ucast (get_host32 be v)))) })
        else do { bs \<leftarrow> get_bytes buf (p + 12) len; add_to_attribute_array al acc (ABytes t bs) }) (\<lambda>(attrs, al).
      unflatten_elements be buf (p + 12 + len) (n - (12 + len)) (ofs + 12 + len) len1 attrs al)) (unflattened (p + n))"
proof (rule ck_safe_bind [where P = "\<lambda>(as, _). list_all attr_ok as"], goal_cases)
  case 1
  then show ?case
    using assms by (auto simp: get_bytes_def intro!: ck_safe_weaken [OF add_to_attribute_array_snoc])
next
  case (2 x)
  then show ?case using assms by (auto intro!: elements_safeD)
qed

lemma elements_safe_step:
  assumes "\<And>k. k \<le> n \<Longrightarrow> array_safe be buf k" "\<And>k. k < n \<Longrightarrow> elements_safe be buf k"
  shows "elements_safe be buf n"
  unfolding elements_safe_def
proof (intro allI impI)
  fix p ofs len1 acc al assume p: "p + n \<le> length buf" and acc: "list_all attr_ok acc"
  show "ck_safe (unflatten_elements be buf p n ofs len1 acc al) (unflattened (p + n))"
  proof (cases "ofs < len1 \<and> 12 \<le> n")
    case False
    then show ?thesis using acc by (subst unflatten_elements.simps) (auto simp: ATTR32_SIZE_def unflattened_def)
  next
    case True
    then obtain t len where hd: "get_attr32 be buf p = Some (t, len)"
      using get_attr32_inside [of p buf be] p by auto
    show ?thesis
    proof (cases "12 + len \<le> n")
      case False
      then show ?thesis using True hd by (subst unflatten_elements.simps) (auto simp: ATTR32_SIZE_def)
    next
      case fits: True
      note step = elements_array_step [OF p acc fits, of t be al ofs len1] elements_value_step [OF p acc fits, of t be al ofs len1]
      have "array_safe be buf (12 + len)" "elements_safe be buf (n - (12 + len))" using assms fits by simp_all
      with step True hd fits show ?thesis
        by (cases "is_attribute_attr_array t"; subst unflatten_elements.simps) (auto simp: ATTR32_SIZE_def split: if_splits)
    qed
  qed
qed

lemma unflatten_safe: "array_safe be buf n \<and> elements_safe be buf n"
proof (induction n rule: less_induct)
  case (less n)
  then have A: "array_safe be buf n" by (intro array_safe_step) simp
  have "array_safe be buf k" if "k \<le> n" for k
    using A less that by (cases "k = n") auto
  with A less show ?case by (auto intro: elements_safe_step)
qed

lemma unflatten_attribute_safe:
  assumes "buf_size \<le> length buf"
  shows "ck_safe (unflatten_attribute be buf buf_size p al) (\<lambda>(a, _). attr_ok a)"
proof (cases "buf_size < p + 12")
  case False
  then obtain t len where hd: "get_attr32 be buf p = Some (t, len)"
    using get_attr32_inside [of p buf be] assms by auto
  have "ck_safe (ck_bind (attribute_array_unflatten be buf p (12 + len) al) (\<lambda>(attrs, p, al).
      ck_bind (ck_malloc al) (\<lambda>al. ck_ok (AArray t attrs, p, al)))) (\<lambda>(a, _). attr_ok a)"
    if "is_attribute_attr_array t" "p + 12 + len \<le> buf_size"
    using that assms unflatten_safe [of be buf "12 + len"]
    by (intro ck_safe_bind [where P = "unflattened (p + (12 + len))"]) (auto simp: array_safe_def unflattened_def)
  with False hd assms show ?thesis
    by (auto simp: unflatten_attribute_def ATTR32_SIZE_def get_bytes_def)
qed (simp add: unflatten_attribute_def ATTR32_SIZE_def)

lemma unflatten_attributes_safe:
  assumes "buf_size \<le> length buf" "typed tmpl"
  shows "ck_safe (unflatten_attributes be buf buf_size count p tmpl al) (\<lambda>(t, _). typed t)"
  using assms(2)
proof (induction count arbitrary: p tmpl al)
  case (Suc count)
  show ?case
    unfolding unflatten_attributes.simps
  proof (rule ck_safe_bind [OF unflatten_attribute_safe [OF assms(1)]], clarify)
    fix a p1 al1 assume "attr_ok a"
    moreover obtain rc t al2 where u: "template_update_attribute al1 tmpl a = (rc, t, al2)"
      by (cases "template_update_attribute al1 tmpl a")
    ultimately have "typed t" using template_update_attribute_typed [OF Suc.prems _ u] by simp
    with u Suc.IH show "ck_safe (case template_update_attribute al1 tmpl a of (rc, tmpl, al) \<Rightarrow>
        if rc \<noteq> CKR_OK then ck_fail rc else unflatten_attributes be buf buf_size count p1 tmpl al) (\<lambda>(t, _). typed t)"
      by simp
  qed
qed simp

text \<open>
  C15: Loading a stored object is safe on arbitrary file contents, whatever allocations fail: no read
  leaves the buffer, the recursion over nested arrays ends, and an object that is accepted has a
  well-typed template with distinct attribute types.
\<close>

theorem object_restore_safe:
  assumes "data_size \<le> length data"
  shows "ck_safe (object_restore_withSize be al locks_ok (Some data) data_size fname)
    (\<lambda>(obj, _). length (obj_name obj) = 8 \<and> (\<exists>tmpl. obj_template obj = Some tmpl \<and> typed tmpl))"
proof (cases "data_size < 16")
  case False
  have t: "typed []" by (simp add: typed_def)
  have "ck_safe (template_unflatten_withSize be (drop 16 data) count (data_size - 16) al) (\<lambda>(t, _). typed t)" for count al
    using unflatten_attributes_safe [OF _ t, of "data_size - 16" "drop 16 data"] assms
    by (simp add: template_unflatten_withSize_def)
  then have "ck_safe (ck_bind (template_unflatten_withSize be (drop 16 data) count (data_size - 16) al) (\<lambda>(tmpl, al).
      if \<not> locks_ok then ck_fail CKR_CANT_LOCK
      else ck_ok (\<lparr>obj_class = c, obj_name = name, obj_template = Some tmpl\<rparr>, al)))
      (\<lambda>(obj, _). length (obj_name obj) = 8 \<and> (\<exists>tmpl. obj_template obj = Some tmpl \<and> typed tmpl))"
    if "length name = 8" for count al c name
    using that by (intro ck_safe_bind [where P = "\<lambda>(t, _). typed t"]) auto
  with False assms show ?thesis
    by (simp add: object_restore_withSize_def get_bytes_def)
qed (simp add: object_restore_withSize_def)

theorem object_restore_safe_witness:
  "ck_safe (object_restore_withSize True [] True (Some (replicate 16 0 @ [0x40, 0, 2, 0x11, 0, 0, 0, 0, 0xFF, 0xFF, 0xFF, 0xFF])) 28 None)
    (\<lambda>(obj, _). length (obj_name obj) = 8 \<and> (\<exists>tmpl. obj_template obj = Some tmpl \<and> typed tmpl))"
  by (rule object_restore_safe) simp

section \<open>Losses\<close>

text \<open>
  Every attribute type from \<^verbatim>\<open>CKA_VENDOR_DEFINED\<close> on counts as defined, but storage keeps 32 bits of
  it: an attribute whose type does not fit comes back under another type.
\<close>

lemma attribute_type_truncated:
  assumes "2 ^ 32 \<le> unat t" "t' = ucast (ucast t :: u32)"
    and "\<not> is_attribute_attr_array t'" "\<not> flatten_ulong_attribute_as_ulong32 t'" "length bs < 2 ^ 32"
    and "obj = \<lparr>obj_class = c, obj_name = name, obj_template = Some [ABytes t bs]\<rparr>" "unat c < 2 ^ 32" "length name = 8"
  shows "is_attribute_defined t \<and> t' \<noteq> t \<and>
    (\<exists>data. object_flatten be [] obj = ck_ok (data, length data, []) \<and>
      object_restore_withSize be [] True (Some data) (length data) None =
        ck_ok (obj\<lparr>obj_template := Some [ABytes t' bs]\<rparr>, []))"
proof -
  have small: "unat t' < 2 ^ 32" "(ucast t' :: u32) = ucast t"
    using assms(2) unsigned_less [of "ucast t :: u32", where ?'a = nat]
    by (simp add: unsigned_ucast_eq unsigned_take_bit_eq, simp add: assms(2) bit_eq_iff bit_simps)
  have t: "\<not> is_attribute_attr_array t" "\<not> flatten_ulong_attribute_as_ulong32 t"
    using assms(1) attr_array_type_small by (force, auto simp: flatten_ulong_attribute_as_ulong32_def cka_defs)
  have "object_flatten be [] obj = object_flatten be [] (obj\<lparr>obj_template := Some [ABytes t' bs]\<rparr>)"
    using t assms(3,4,6) small(2)
    by (simp add: object_flatten_def template_get_count_def template_get_compressed_size_def template_flatten_def flatten_value_def put_attr32_def)
  moreover have "obj_storable be (obj\<lparr>obj_template := Some [ABytes t' bs]\<rparr>) [ABytes t' bs]"
    using assms small by (simp add: obj_storable_def)
  ultimately have "\<exists>data. object_flatten be [] obj = ck_ok (data, length data, []) \<and>
      object_restore_withSize be [] True (Some data) (length data) None = ck_ok (obj\<lparr>obj_template := Some [ABytes t' bs]\<rparr>, [])"
    using object_restore_flatten [of be "obj\<lparr>obj_template := Some [ABytes t' bs]\<rparr>" "[ABytes t' bs]"] by simp
  moreover have "is_attribute_defined t"
    using assms(1) by (simp add: is_attribute_defined_def cka_defs word_le_nat_alt)
  ultimately show ?thesis using small(1) assms(1) by auto
qed

text \<open>
  When the list node of a new attribute value cannot be allocated, \<^verbatim>\<open>template_update_attribute\<close>
  reports the error after it has removed the old value: the template has lost the attribute.
\<close>

lemma template_update_loses:
  assumes "typed tmpl" "template_attribute_find (Some tmpl) (a_type a) = Some old"
  shows "\<exists>tmpl'. template_update_attribute (False # al) tmpl a = (CKR_HOST_MEMORY, tmpl', al) \<and>
    template_attribute_find (Some tmpl') (a_type a) = None"
proof -
  have "find (\<lambda>b. a_type a = a_type b) (filter (\<lambda>b. a_type b \<noteq> a_type a) tmpl) = None"
    by (auto simp: find_None_iff)
  then show ?thesis
    using assms template_remove_attribute_filter [of tmpl "a_type a"]
    by (auto simp: template_update_attribute_def template_attribute_find_def typed_def)
qed

end
