(* ===== verification/Attr_Types.thy ===== *)
theory Attr_Types
  imports Template
begin

text \<open>
  The PKCS\#11 numbers the attribute rules mention, from \<^verbatim>\<open>usr/include/pkcs11types.h\<close>: attribute
  types (\<^verbatim>\<open>CKA_\<close>), object classes (\<^verbatim>\<open>CKO_\<close>), certificate, hardware and key types (\<^verbatim>\<open>CKC_\<close>, \<^verbatim>\<open>CKH_\<close>,
  \<^verbatim>\<open>CKK_\<close>) and mechanisms (\<^verbatim>\<open>CKM_\<close>). Aliases of one number appear under one name.
\<close>

named_theorems ck_consts

declare cka_defs [ck_consts]

definition CKA_TOKEN :: u64 where [ck_consts]: "CKA_TOKEN = 0x1"
definition CKA_PRIVATE :: u64 where [ck_consts]: "CKA_PRIVATE = 0x2"
definition CKA_LABEL :: u64 where [ck_consts]: "CKA_LABEL = 0x3"
definition CKA_APPLICATION :: u64 where [ck_consts]: "CKA_APPLICATION = 0x10"
definition CKA_VALUE :: u64 where [ck_consts]: "CKA_VALUE = 0x11"
definition CKA_OBJECT_ID :: u64 where [ck_consts]: "CKA_OBJECT_ID = 0x12"
definition CKA_ISSUER :: u64 where [ck_consts]: "CKA_ISSUER = 0x81"
definition CKA_SERIAL_NUMBER :: u64 where [ck_consts]: "CKA_SERIAL_NUMBER = 0x82"
definition CKA_TRUSTED :: u64 where [ck_consts]: "CKA_TRUSTED = 0x86"
definition CKA_CERTIFICATE_CATEGORY :: u64 where [ck_consts]: "CKA_CERTIFICATE_CATEGORY = 0x87"
definition CKA_JAVA_MIDP_SECURITY_DOMAIN :: u64 where [ck_consts]: "CKA_JAVA_MIDP_SECURITY_DOMAIN = 0x88"
definition CKA_URL :: u64 where [ck_consts]: "CKA_URL = 0x89"
definition CKA_HASH_OF_SUBJECT_PUBLIC_KEY :: u64 where [ck_consts]: "CKA_HASH_OF_SUBJECT_PUBLIC_KEY = 0x8A"
definition CKA_HASH_OF_ISSUER_PUBLIC_KEY :: u64 where [ck_consts]: "CKA_HASH_OF_ISSUER_PUBLIC_KEY = 0x8B"
definition CKA_NAME_HASH_ALGORITHM :: u64 where [ck_consts]: "CKA_NAME_HASH_ALGORITHM = 0x8C"
definition CKA_CHECK_VALUE :: u64 where [ck_consts]: "CKA_CHECK_VALUE = 0x90"
definition CKA_SUBJECT :: u64 where [ck_consts]: "CKA_SUBJECT = 0x101"
definition CKA_ID :: u64 where [ck_consts]: "CKA_ID = 0x102"
definition CKA_SENSITIVE :: u64 where [ck_consts]: "CKA_SENSITIVE = 0x103"
definition CKA_ENCRYPT :: u64 where [ck_consts]: "CKA_ENCRYPT = 0x104"
definition CKA_DECRYPT :: u64 where [ck_consts]: "CKA_DECRYPT = 0x105"
definition CKA_WRAP :: u64 where [ck_consts]: "CKA_WRAP = 0x106"
definition CKA_UNWRAP :: u64 where [ck_consts]: "CKA_UNWRAP = 0x107"
definition CKA_SIGN :: u64 where [ck_consts]: "CKA_SIGN = 0x108"
definition CKA_SIGN_RECOVER :: u64 where [ck_consts]: "CKA_SIGN_RECOVER = 0x109"
definition CKA_VERIFY :: u64 where [ck_consts]: "CKA_VERIFY = 0x10A"
definition CKA_VERIFY_RECOVER :: u64 where [ck_consts]: "CKA_VERIFY_RECOVER = 0x10B"
definition CKA_DERIVE :: u64 where [ck_consts]: "CKA_DERIVE = 0x10C"
definition CKA_START_DATE :: u64 where [ck_consts]: "CKA_START_DATE = 0x110"
definition CKA_END_DATE :: u64 where [ck_consts]: "CKA_END_DATE = 0x111"
definition CKA_MODULUS :: u64 where [ck_consts]: "CKA_MODULUS = 0x120"
definition CKA_PUBLIC_EXPONENT :: u64 where [ck_consts]: "CKA_PUBLIC_EXPONENT = 0x122"
definition CKA_PRIVATE_EXPONENT :: u64 where [ck_consts]: "CKA_PRIVATE_EXPONENT = 0x123"
definition CKA_PRIME_1 :: u64 where [ck_consts]: "CKA_PRIME_1 = 0x124"
definition CKA_PRIME_2 :: u64 where [ck_consts]: "CKA_PRIME_2 = 0x125"
definition CKA_EXPONENT_1 :: u64 where [ck_consts]: "CKA_EXPONENT_1 = 0x126"
definition CKA_EXPONENT_2 :: u64 where [ck_consts]: "CKA_EXPONENT_2 = 0x127"
definition CKA_COEFFICIENT :: u64 where [ck_consts]: "CKA_COEFFICIENT = 0x128"
definition CKA_PUBLIC_KEY_INFO :: u64 where [ck_consts]: "CKA_PUBLIC_KEY_INFO = 0x129"
definition CKA_PRIME :: u64 where [ck_consts]: "CKA_PRIME = 0x130"
definition CKA_SUBPRIME :: u64 where [ck_consts]: "CKA_SUBPRIME = 0x131"
definition CKA_BASE :: u64 where [ck_consts]: "CKA_BASE = 0x132"
definition CKA_PRIME_BITS :: u64 where [ck_consts]: "CKA_PRIME_BITS = 0x133"
definition CKA_SUBPRIME_BITS :: u64 where [ck_consts]: "CKA_SUBPRIME_BITS = 0x134"
definition CKA_EXTRACTABLE :: u64 where [ck_consts]: "CKA_EXTRACTABLE = 0x162"
definition CKA_LOCAL :: u64 where [ck_consts]: "CKA_LOCAL = 0x163"
definition CKA_NEVER_EXTRACTABLE :: u64 where [ck_consts]: "CKA_NEVER_EXTRACTABLE = 0x164"
definition CKA_ALWAYS_SENSITIVE :: u64 where [ck_consts]: "CKA_ALWAYS_SENSITIVE = 0x165"
definition CKA_KEY_GEN_MECHANISM :: u64 where [ck_consts]: "CKA_KEY_GEN_MECHANISM = 0x166"
definition CKA_MODIFIABLE :: u64 where [ck_consts]: "CKA_MODIFIABLE = 0x170"
definition CKA_COPYABLE :: u64 where [ck_consts]: "CKA_COPYABLE = 0x171"
definition CKA_DESTROYABLE :: u64 where [ck_consts]: "CKA_DESTROYABLE = 0x172"
definition CKA_EC_PARAMS :: u64 where [ck_consts]: "CKA_EC_PARAMS = 0x180"
definition CKA_EC_POINT :: u64 where [ck_consts]: "CKA_EC_POINT = 0x181"
definition CKA_ALWAYS_AUTHENTICATE :: u64 where [ck_consts]: "CKA_ALWAYS_AUTHENTICATE = 0x202"
definition CKA_WRAP_WITH_TRUSTED :: u64 where [ck_consts]: "CKA_WRAP_WITH_TRUSTED = 0x210"
definition CKA_RESET_ON_INIT :: u64 where [ck_consts]: "CKA_RESET_ON_INIT = 0x301"
definition CKA_HAS_RESET :: u64 where [ck_consts]: "CKA_HAS_RESET = 0x302"
definition CKA_ALLOWED_MECHANISMS :: u64 where [ck_consts]: "CKA_ALLOWED_MECHANISMS = 0x40000600"
definition CKA_PROFILE_ID :: u64 where [ck_consts]: "CKA_PROFILE_ID = 0x601"
definition CKA_PARAMETER_SET :: u64 where [ck_consts]: "CKA_PARAMETER_SET = 0x61D"
definition CKA_ENCAPSULATE :: u64 where [ck_consts]: "CKA_ENCAPSULATE = 0x633"
definition CKA_DECAPSULATE :: u64 where [ck_consts]: "CKA_DECAPSULATE = 0x634"
definition CKA_SEED :: u64 where [ck_consts]: "CKA_SEED = 0x637"
definition CKA_HIDDEN :: u64 where [ck_consts]: "CKA_HIDDEN = 0x81000000"
definition CKA_IBM_OPAQUE :: u64 where [ck_consts]: "CKA_IBM_OPAQUE = 0x80000001"
definition CKA_IBM_OPAQUE_REENC :: u64 where [ck_consts]: "CKA_IBM_OPAQUE_REENC = 0x80000003"
definition CKA_IBM_OPAQUE_OLD :: u64 where [ck_consts]: "CKA_IBM_OPAQUE_OLD = 0x80000004"
definition CKA_IBM_OPAQUE_PKEY :: u64 where [ck_consts]: "CKA_IBM_OPAQUE_PKEY = 0x800D0100"
definition CKA_IBM_ATTRBOUND :: u64 where [ck_consts]: "CKA_IBM_ATTRBOUND = 0x80010004"
definition CKA_IBM_USE_AS_DATA :: u64 where [ck_consts]: "CKA_IBM_USE_AS_DATA = 0x80010008"
definition CKA_IBM_PARAMETER_SET :: u64 where [ck_consts]: "CKA_IBM_PARAMETER_SET = 0x80010010"
definition CKA_IBM_PROTKEY_EXTRACTABLE :: u64 where [ck_consts]: "CKA_IBM_PROTKEY_EXTRACTABLE = 0x8001000C"
definition CKA_IBM_PROTKEY_NEVER_EXTRACTABLE :: u64 where [ck_consts]: "CKA_IBM_PROTKEY_NEVER_EXTRACTABLE = 0x8001000D"
definition CKA_IBM_CCA_AES_KEY_MODE :: u64 where [ck_consts]: "CKA_IBM_CCA_AES_KEY_MODE = 0x800D0101"
definition CKA_IBM_CCA_ML_DSA_KEY_MODE :: u64 where [ck_consts]: "CKA_IBM_CCA_ML_DSA_KEY_MODE = 0x800D0102"
definition CKA_IBM_DILITHIUM_MODE :: u64 where [ck_consts]: "CKA_IBM_DILITHIUM_MODE = 0x80000010"
definition CKA_IBM_DILITHIUM_KEYFORM :: u64 where [ck_consts]: "CKA_IBM_DILITHIUM_KEYFORM = 0x800D0001"
definition CKA_IBM_KYBER_MODE :: u64 where [ck_consts]: "CKA_IBM_KYBER_MODE = 0x8000000E"
definition CKA_IBM_KYBER_KEYFORM :: u64 where [ck_consts]: "CKA_IBM_KYBER_KEYFORM = 0x800D0009"
definition CKA_IBM_ML_DSA_RHO :: u64 where [ck_consts]: "CKA_IBM_ML_DSA_RHO = 0x800D0002"
definition CKA_IBM_ML_DSA_SEED :: u64 where [ck_consts]: "CKA_IBM_ML_DSA_SEED = 0x800D0003"
definition CKA_IBM_ML_DSA_TR :: u64 where [ck_consts]: "CKA_IBM_ML_DSA_TR = 0x800D0004"
definition CKA_IBM_ML_DSA_S1 :: u64 where [ck_consts]: "CKA_IBM_ML_DSA_S1 = 0x800D0005"
definition CKA_IBM_ML_DSA_S2 :: u64 where [ck_consts]: "CKA_IBM_ML_DSA_S2 = 0x800D0006"
definition CKA_IBM_ML_DSA_T0 :: u64 where [ck_consts]: "CKA_IBM_ML_DSA_T0 = 0x800D0007"
definition CKA_IBM_ML_DSA_T1 :: u64 where [ck_consts]: "CKA_IBM_ML_DSA_T1 = 0x800D0008"
definition CKA_IBM_ML_DSA_PRIVATE_SEED :: u64 where [ck_consts]: "CKA_IBM_ML_DSA_PRIVATE_SEED = 0x800D000D"
definition CKA_IBM_ML_KEM_PK :: u64 where [ck_consts]: "CKA_IBM_ML_KEM_PK = 0x800D000A"
definition CKA_IBM_ML_KEM_SK :: u64 where [ck_consts]: "CKA_IBM_ML_KEM_SK = 0x800D000B"
definition CKA_IBM_ML_KEM_PRIVATE_SEED :: u64 where [ck_consts]: "CKA_IBM_ML_KEM_PRIVATE_SEED = 0x800D000C"
definition CKO_DATA :: u64 where [ck_consts]: "CKO_DATA = 0x0"
definition CKO_CERTIFICATE :: u64 where [ck_consts]: "CKO_CERTIFICATE = 0x1"
definition CKO_PUBLIC_KEY :: u64 where [ck_consts]: "CKO_PUBLIC_KEY = 0x2"
definition CKO_PRIVATE_KEY :: u64 where [ck_consts]: "CKO_PRIVATE_KEY = 0x3"
definition CKO_SECRET_KEY :: u64 where [ck_consts]: "CKO_SECRET_KEY = 0x4"
definition CKO_HW_FEATURE :: u64 where [ck_consts]: "CKO_HW_FEATURE = 0x5"
definition CKO_DOMAIN_PARAMETERS :: u64 where [ck_consts]: "CKO_DOMAIN_PARAMETERS = 0x6"
definition CKO_PROFILE :: u64 where [ck_consts]: "CKO_PROFILE = 0x9"
definition CKO_VENDOR_DEFINED :: u64 where [ck_consts]: "CKO_VENDOR_DEFINED = 0x80000000"
definition CKC_X_509 :: u64 where [ck_consts]: "CKC_X_509 = 0x0"
definition CKC_VENDOR_DEFINED :: u64 where [ck_consts]: "CKC_VENDOR_DEFINED = 0x80000000"
definition CKH_CLOCK :: u64 where [ck_consts]: "CKH_CLOCK = 0x2"
definition CKH_MONOTONIC_COUNTER :: u64 where [ck_consts]: "CKH_MONOTONIC_COUNTER = 0x1"
definition CKH_VENDOR_DEFINED :: u64 where [ck_consts]: "CKH_VENDOR_DEFINED = 0x80000000"
definition CKK_RSA :: u64 where [ck_consts]: "CKK_RSA = 0x0"
definition CKK_DSA :: u64 where [ck_consts]: "CKK_DSA = 0x1"
definition CKK_DH :: u64 where [ck_consts]: "CKK_DH = 0x2"
definition CKK_EC :: u64 where [ck_consts]: "CKK_EC = 0x3"
definition CKK_X9_42_DH :: u64 where [ck_consts]: "CKK_X9_42_DH = 0x4"
definition CKK_GENERIC_SECRET :: u64 where [ck_consts]: "CKK_GENERIC_SECRET = 0x10"
definition CKK_DES :: u64 where [ck_consts]: "CKK_DES = 0x13"
definition CKK_DES2 :: u64 where [ck_consts]: "CKK_DES2 = 0x14"
definition CKK_DES3 :: u64 where [ck_consts]: "CKK_DES3 = 0x15"
definition CKK_AES :: u64 where [ck_consts]: "CKK_AES = 0x1F"
definition CKK_AES_XTS :: u64 where [ck_consts]: "CKK_AES_XTS = 0x35"
definition CKK_SHA_1_HMAC :: u64 where [ck_consts]: "CKK_SHA_1_HMAC = 0x28"
definition CKK_SHA224_HMAC :: u64 where [ck_consts]: "CKK_SHA224_HMAC = 0x2E"
definition CKK_SHA256_HMAC :: u64 where [ck_consts]: "CKK_SHA256_HMAC = 0x2B"
definition CKK_SHA384_HMAC :: u64 where [ck_consts]: "CKK_SHA384_HMAC = 0x2C"
definition CKK_SHA512_HMAC :: u64 where [ck_consts]: "CKK_SHA512_HMAC = 0x2D"
definition CKK_SHA3_224_HMAC :: u64 where [ck_consts]: "CKK_SHA3_224_HMAC = 0x36"
definition CKK_SHA3_256_HMAC :: u64 where [ck_consts]: "CKK_SHA3_256_HMAC = 0x37"
definition CKK_SHA3_384_HMAC :: u64 where [ck_consts]: "CKK_SHA3_384_HMAC = 0x38"
definition CKK_SHA3_512_HMAC :: u64 where [ck_consts]: "CKK_SHA3_512_HMAC = 0x39"
definition CKK_SHA512_224_HMAC :: u64 where [ck_consts]: "CKK_SHA512_224_HMAC = 0x43"
definition CKK_SHA512_256_HMAC :: u64 where [ck_consts]: "CKK_SHA512_256_HMAC = 0x44"
definition CKK_EC_EDWARDS :: u64 where [ck_consts]: "CKK_EC_EDWARDS = 0x40"
definition CKK_EC_MONTGOMERY :: u64 where [ck_consts]: "CKK_EC_MONTGOMERY = 0x41"
definition CKK_ML_KEM :: u64 where [ck_consts]: "CKK_ML_KEM = 0x49"
definition CKK_ML_DSA :: u64 where [ck_consts]: "CKK_ML_DSA = 0x4A"
definition CKK_IBM_DILITHIUM :: u64 where [ck_consts]: "CKK_IBM_DILITHIUM = 0x80010023"
definition CKK_IBM_KYBER :: u64 where [ck_consts]: "CKK_IBM_KYBER = 0x80010024"
definition CKK_IBM_ML_DSA :: u64 where [ck_consts]: "CKK_IBM_ML_DSA = 0x80010025"
definition CKK_IBM_ML_KEM :: u64 where [ck_consts]: "CKK_IBM_ML_KEM = 0x80010026"
definition CKM_ML_KEM :: u64 where [ck_consts]: "CKM_ML_KEM = 0x17"
definition CKM_ML_DSA :: u64 where [ck_consts]: "CKM_ML_DSA = 0x1D"
definition CKM_IBM_DILITHIUM :: u64 where [ck_consts]: "CKM_IBM_DILITHIUM = 0x80010023"
definition CKM_IBM_KYBER :: u64 where [ck_consts]: "CKM_IBM_KYBER = 0x80010024"
definition CKM_IBM_ML_DSA :: u64 where [ck_consts]: "CKM_IBM_ML_DSA = 0x80010036"
definition CKM_IBM_ML_KEM :: u64 where [ck_consts]: "CKM_IBM_ML_KEM = 0x80010038"
definition CKM_ML_KEM_KEY_PAIR_GEN :: u64 where [ck_consts]: "CKM_ML_KEM_KEY_PAIR_GEN = 0xF"
definition CKM_ML_DSA_KEY_PAIR_GEN :: u64 where [ck_consts]: "CKM_ML_DSA_KEY_PAIR_GEN = 0x1C"
definition CKM_HASH_ML_DSA :: u64 where [ck_consts]: "CKM_HASH_ML_DSA = 0x1F"
definition CKM_IBM_ML_DSA_KEY_PAIR_GEN :: u64 where [ck_consts]: "CKM_IBM_ML_DSA_KEY_PAIR_GEN = 0x80010035"
definition CKM_IBM_ML_KEM_KEY_PAIR_GEN :: u64 where [ck_consts]: "CKM_IBM_ML_KEM_KEY_PAIR_GEN = 0x80010037"
definition CKM_IBM_ML_KEM_WITH_ECDH :: u64 where [ck_consts]: "CKM_IBM_ML_KEM_WITH_ECDH = 0x8001FF01"

end
