(* ===== verification/Attr_Rules.thy ===== *)
theory Attr_Rules
  imports Attr_Types
begin

text \<open>
  Which attributes an application may set: \<^verbatim>\<open>template_validate_attributes\<close> of \<^verbatim>\<open>template.c\<close> and the
  functions per object class it calls, in \<^verbatim>\<open>key.c\<close>, \<^verbatim>\<open>cert.c\<close>, \<^verbatim>\<open>data_obj.c\<close>, \<^verbatim>\<open>dp_obj.c\<close>, \<^verbatim>\<open>hwf_obj.c\<close> and
  \<^verbatim>\<open>profile_obj.c\<close>.

  The loop walks along the attribute list of a template while the functions it calls may change
  that list, so they work on a cursor: the attributes before the current one, the current one,
  and those behind it. What the functions read of the token (its tweaks, whether a security
  officer session exists, whether it is the CCA token, the byte order and OpenSSL's limit on the
  modulus) is a record.
\<close>

datatype mode =
    MODE_COPY | MODE_CREATE | MODE_KEYGEN | MODE_MODIFY | MODE_DERIVE
  | MODE_UNWRAP | MODE_UNWRAPPED | MODE_ENCAPS | MODE_DECAPS | MODE_EXTRACT

record tokdata =
  allow_key_mods :: bool
  netscape_mods :: bool
  check_des_parity :: bool
  so_session_exists :: bool
  is_cca :: bool
  secure_key_token :: bool
  big_endian :: bool
  max_modulus_bits :: u64

type_synonym cursor = "attribute list \<times> attribute \<times> attribute list"
type_synonym verdict = "(ck_rv \<times> cursor \<times> allocs) option"

text \<open>The modes of the calls that make a new object.\<close>

definition creating :: "mode set" where
  "creating = {MODE_CREATE, MODE_DERIVE, MODE_KEYGEN, MODE_UNWRAP, MODE_ENCAPS, MODE_DECAPS, MODE_EXTRACT}"

definition bad_size :: "nat \<Rightarrow> attribute \<Rightarrow> bool" where
  "bad_size n a \<longleftrightarrow> value_len a \<noteq> n \<or> value_null a"

text \<open>Read-only unless the mode is one of those given.\<close>

definition only_in :: "mode set \<Rightarrow> mode \<Rightarrow> ck_rv" where
  "only_in ms mode = (if mode \<in> ms then CKR_OK else CKR_ATTRIBUTE_READ_ONLY)"

definition sized :: "nat \<Rightarrow> attribute \<Rightarrow> ck_rv \<Rightarrow> ck_rv" where
  "sized n a rc = (if bad_size n a then CKR_ATTRIBUTE_VALUE_INVALID else rc)"

fun ret :: "ck_rv \<Rightarrow> cursor \<Rightarrow> allocs \<Rightarrow> verdict" where
  "ret rc z al = Some (rc, z, al)"

definition ret_opt :: "ck_rv option \<Rightarrow> cursor \<Rightarrow> allocs \<Rightarrow> verdict" where
  "ret_opt rc z al = Option.bind rc (\<lambda>rc. ret rc z al)"

section \<open>Changes during the walk\<close>

text \<open>
  \<^verbatim>\<open>template_update_attribute\<close> on the template the cursor walks: to remove the current node is
  undefined, as the loop still needs it.
\<close>

fun cursor_update :: "cursor \<Rightarrow> allocs \<Rightarrow> attribute \<Rightarrow> verdict" where
  "cursor_update (b, c, n) al a =
     (let insert = (\<lambda>b n. case ck_malloc al of
          Some (Inr al) \<Rightarrow> ret CKR_OK (a # b, c, n) al
        | _ \<Rightarrow> ret CKR_HOST_MEMORY (b, c, n) (tl al))
      in if a_type a \<in> a_type ` set b then insert (snd (template_remove_attribute b (a_type a))) n
         else if a_type a = a_type c then None
         else insert b (snd (template_remove_attribute n (a_type a))))"

definition template_build_update_attribute :: "cursor \<Rightarrow> allocs \<Rightarrow> u64 \<Rightarrow> byte list \<Rightarrow> verdict" where
  "template_build_update_attribute z al t bs =
     (case ck_malloc al of
        Some (Inr al) \<Rightarrow> cursor_update z al (ABytes t bs)
      | _ \<Rightarrow> ret CKR_HOST_MEMORY z (tl al))"

definition p11_bigint_trim :: "byte list \<Rightarrow> byte list" where
  "p11_bigint_trim bs = dropWhile (\<lambda>b. b = 0) bs"

fun p11_attribute_trim :: "attribute \<Rightarrow> attribute option" where
  "p11_attribute_trim (ABytes t bs) = Some (ABytes t (p11_bigint_trim bs))"
| "p11_attribute_trim (AArray t es) = (if es = [] then Some (AArray t es) else None)"
| "p11_attribute_trim (ANull t n) = Some (ANull t n)"

text \<open>In the given modes the value is trimmed and accepted.\<close>

fun trim_in :: "mode set \<Rightarrow> mode \<Rightarrow> cursor \<Rightarrow> allocs \<Rightarrow> verdict" where
  "trim_in ms mode (b, c, n) al =
     (if mode \<in> ms
      then Option.bind (p11_attribute_trim c) (\<lambda>c. ret CKR_OK (b, c, n) al)
      else ret CKR_ATTRIBUTE_READ_ONLY (b, c, n) al)"

fun current :: "cursor \<Rightarrow> attribute" where "current (b, c, n) = c"

fun contents :: "cursor \<Rightarrow> template" where "contents (b, c, n) = b @ c # n"

section \<open>Attributes of every object\<close>

definition template_validate_base_attribute :: "attribute \<Rightarrow> mode \<Rightarrow> ck_rv option" where
  "template_validate_base_attribute a mode = (let t = a_type a in
     if t = CKA_CLASS then Some (sized 8 a (only_in creating mode))
     else if t \<in> {CKA_TOKEN, CKA_PRIVATE} then Some (sized 1 a (only_in (creating \<union> {MODE_COPY}) mode))
     else if t = CKA_LABEL then Some CKR_OK
     else if t \<in> {CKA_IBM_OPAQUE, CKA_IBM_OPAQUE_REENC, CKA_IBM_OPAQUE_OLD}
     then Some (only_in {MODE_CREATE, MODE_COPY, MODE_MODIFY, MODE_EXTRACT} mode)
     else if t = CKA_MODIFIABLE then Some (sized 1 a (only_in (creating \<union> {MODE_COPY}) mode))
     else if t = CKA_DESTROYABLE then Some (sized 1 a CKR_OK)
     else if t = CKA_COPYABLE
     then (if bad_size 1 a then Some CKR_ATTRIBUTE_VALUE_INVALID
           else if mode \<in> creating then Some CKR_OK
           else map_option (\<lambda>v. if v = 0 then CKR_OK else CKR_ATTRIBUTE_READ_ONLY) (value_byte a))
     else if t = CKA_UNIQUE_ID then Some CKR_ATTRIBUTE_READ_ONLY
     else if t = CKA_HIDDEN then Some (only_in creating mode)
     else Some CKR_ATTRIBUTE_TYPE_INVALID)"

section \<open>Data, certificates, hardware features, domain parameters, profiles\<close>

definition data_object_validate_attribute :: "attribute \<Rightarrow> mode \<Rightarrow> ck_rv option" where
  "data_object_validate_attribute a mode =
     (if a_type a \<in> {CKA_APPLICATION, CKA_VALUE, CKA_OBJECT_ID} then Some (only_in {MODE_CREATE} mode)
      else template_validate_base_attribute a mode)"

text \<open>\<^verbatim>\<open>CKA_TRUSTED\<close>, for certificates, public keys and secret keys.\<close>

definition validate_trusted :: "tokdata \<Rightarrow> attribute \<Rightarrow> ck_rv option" where
  "validate_trusted tok a =
     (if bad_size 1 a then Some CKR_ATTRIBUTE_VALUE_INVALID
      else map_option (\<lambda>v. if v = 1 \<and> \<not> so_session_exists tok then CKR_USER_NOT_LOGGED_IN else CKR_OK) (value_byte a))"

definition cert_validate_attribute :: "tokdata \<Rightarrow> attribute \<Rightarrow> mode \<Rightarrow> ck_rv option" where
  "cert_validate_attribute tok a mode = (let t = a_type a in
     if t = CKA_CERTIFICATE_TYPE
     then (if mode \<noteq> MODE_CREATE then Some CKR_ATTRIBUTE_READ_ONLY
           else if bad_size 8 a then Some CKR_ATTRIBUTE_VALUE_INVALID
           else map_option (\<lambda>v. if v = CKC_X_509 \<or> v \<ge> CKC_VENDOR_DEFINED then CKR_OK else CKR_ATTRIBUTE_VALUE_INVALID)
                  (value_ulong (big_endian tok) a))
     else if t = CKA_TRUSTED then validate_trusted tok a
     else if t = CKA_CERTIFICATE_CATEGORY
     then (if bad_size 8 a then Some CKR_ATTRIBUTE_VALUE_INVALID
           else map_option (\<lambda>v. if v \<in> {0, 1, 2, 3} then CKR_OK else CKR_ATTRIBUTE_VALUE_INVALID) (value_ulong (big_endian tok) a))
     else if t \<in> {CKA_CHECK_VALUE, CKA_START_DATE, CKA_END_DATE, CKA_PUBLIC_KEY_INFO} then Some CKR_OK
     else template_validate_base_attribute a mode)"

definition cert_x509_validate_attribute :: "tokdata \<Rightarrow> attribute \<Rightarrow> mode \<Rightarrow> ck_rv option" where
  "cert_x509_validate_attribute tok a mode = (let t = a_type a in
     if t = CKA_SUBJECT then Some (only_in {MODE_CREATE} mode)
     else if t \<in> {CKA_ID, CKA_ISSUER, CKA_SERIAL_NUMBER} then Some CKR_OK
     else if t \<in> {CKA_VALUE, CKA_URL, CKA_HASH_OF_SUBJECT_PUBLIC_KEY, CKA_HASH_OF_ISSUER_PUBLIC_KEY}
     then Some (only_in {MODE_CREATE} mode)
     else if t = CKA_JAVA_MIDP_SECURITY_DOMAIN
     then (if mode \<noteq> MODE_CREATE then Some CKR_ATTRIBUTE_READ_ONLY
           else if bad_size 8 a then Some CKR_ATTRIBUTE_VALUE_INVALID
           else map_option (\<lambda>v. if v \<in> {0, 1, 2, 3} then CKR_OK else CKR_ATTRIBUTE_VALUE_INVALID) (value_ulong (big_endian tok) a))
     else if t = CKA_NAME_HASH_ALGORITHM
     then Some (if mode \<noteq> MODE_CREATE then CKR_ATTRIBUTE_READ_ONLY else sized 8 a CKR_OK)
     else cert_validate_attribute tok a mode)"

definition cert_vendor_validate_attribute :: "tokdata \<Rightarrow> attribute \<Rightarrow> mode \<Rightarrow> ck_rv option" where
  "cert_vendor_validate_attribute tok a mode = cert_validate_attribute tok a mode"

definition hwf_validate_attribute :: "attribute \<Rightarrow> mode \<Rightarrow> ck_rv option" where
  "hwf_validate_attribute a mode =
     (if a_type a = CKA_HW_FEATURE_TYPE then Some (sized 8 a (only_in {MODE_CREATE} mode))
      else template_validate_base_attribute a mode)"

definition clock_validate_attribute :: "attribute \<Rightarrow> mode \<Rightarrow> ck_rv option" where
  "clock_validate_attribute a mode = (if a_type a = CKA_VALUE then Some CKR_OK else hwf_validate_attribute a mode)"

definition counter_validate_attribute :: "attribute \<Rightarrow> mode \<Rightarrow> ck_rv option" where
  "counter_validate_attribute a mode =
     (if a_type a \<in> {CKA_VALUE, CKA_HAS_RESET, CKA_RESET_ON_INIT} then Some CKR_ATTRIBUTE_READ_ONLY
      else hwf_validate_attribute a mode)"

definition dp_object_validate_attribute :: "attribute \<Rightarrow> mode \<Rightarrow> ck_rv option" where
  "dp_object_validate_attribute a mode =
     (if a_type a = CKA_KEY_TYPE then Some (sized 8 a (only_in {MODE_CREATE} mode))
      else if a_type a = CKA_LOCAL
      then Some (sized 1 a (if mode \<in> {MODE_CREATE, MODE_KEYGEN} then CKR_ATTRIBUTE_TYPE_INVALID else CKR_OK))
      else template_validate_base_attribute a mode)"

definition params_not_in :: "mode \<Rightarrow> mode \<Rightarrow> ck_rv" where
  "params_not_in m mode = (if mode = m then CKR_DOMAIN_PARAMS_INVALID else CKR_OK)"

definition dp_dsa_validate_attribute :: "attribute \<Rightarrow> mode \<Rightarrow> ck_rv option" where
  "dp_dsa_validate_attribute a mode =
     (if a_type a \<in> {CKA_PRIME, CKA_BASE, CKA_SUBPRIME} then Some (params_not_in MODE_KEYGEN mode)
      else if a_type a = CKA_PRIME_BITS then Some (sized 8 a (params_not_in MODE_CREATE mode))
      else dp_object_validate_attribute a mode)"

definition dp_dh_validate_attribute :: "attribute \<Rightarrow> mode \<Rightarrow> ck_rv option" where
  "dp_dh_validate_attribute a mode =
     (if a_type a \<in> {CKA_PRIME, CKA_BASE} then Some (params_not_in MODE_KEYGEN mode)
      else if a_type a = CKA_PRIME_BITS then Some (sized 8 a (params_not_in MODE_CREATE mode))
      else dp_object_validate_attribute a mode)"

definition dp_x9dh_validate_attribute :: "attribute \<Rightarrow> mode \<Rightarrow> ck_rv option" where
  "dp_x9dh_validate_attribute a mode =
     (if a_type a \<in> {CKA_PRIME, CKA_BASE, CKA_SUBPRIME} then Some (params_not_in MODE_KEYGEN mode)
      else if a_type a \<in> {CKA_PRIME_BITS, CKA_SUBPRIME_BITS} then Some (sized 8 a (params_not_in MODE_CREATE mode))
      else dp_object_validate_attribute a mode)"

definition profile_object_validate_attribute :: "attribute \<Rightarrow> mode \<Rightarrow> ck_rv option" where
  "profile_object_validate_attribute a mode =
     (if a_type a = CKA_PROFILE_ID then Some CKR_OK else template_validate_base_attribute a mode)"

end
