(* ===== verification/Key_Rules.thy ===== *)
theory Key_Rules
  imports Attr_Rules
begin

text \<open>
  The rules for the attributes of keys (\<^verbatim>\<open>usr/lib/common/key.c\<close>), the dispatch on the object class
  and the walk along a template (\<^verbatim>\<open>template_validate_attributes\<close>), and what may be read in the clear
  (\<^verbatim>\<open>template_check_exportability\<close>).
\<close>

section \<open>Rules shared by all keys\<close>

definition key_object_validate_attribute :: "cursor \<Rightarrow> allocs \<Rightarrow> mode \<Rightarrow> verdict" where
  "key_object_validate_attribute z al mode = (let a = current z; t = a_type a in
     if t = CKA_KEY_TYPE then ret (sized 8 a (only_in creating mode)) z al
     else if t \<in> {CKA_ID, CKA_START_DATE, CKA_END_DATE} then ret CKR_OK z al
     else if t = CKA_ALLOWED_MECHANISMS
     then ret (if value_len a > 0 \<and> value_null a \<or> value_len a mod 8 \<noteq> 0 then CKR_ATTRIBUTE_VALUE_INVALID
               else only_in creating mode) z al
     else if t = CKA_DERIVE then ret (sized 1 a CKR_OK) z al
     else if t \<in> {CKA_KEY_GEN_MECHANISM, CKA_LOCAL} then ret (only_in {MODE_EXTRACT} mode) z al
     else if t = CKA_IBM_PROTKEY_EXTRACTABLE
     then (if bad_size 1 a then ret CKR_ATTRIBUTE_VALUE_INVALID z al
           else Option.bind (value_byte a) (\<lambda>v.
             if mode \<notin> creating \<and> v \<noteq> 0 then ret CKR_ATTRIBUTE_READ_ONLY z al
             else if v = 1 then template_build_update_attribute z al CKA_IBM_PROTKEY_NEVER_EXTRACTABLE [1]
             else ret CKR_OK z al))
     else if t = CKA_IBM_PROTKEY_NEVER_EXTRACTABLE then ret CKR_ATTRIBUTE_READ_ONLY z al
     else if t \<in> {CKA_IBM_ATTRBOUND, CKA_IBM_USE_AS_DATA} then ret (sized 1 a (only_in creating mode)) z al
     else ret_opt (template_validate_base_attribute a mode) z al)"

text \<open>A usage flag: after creation only tokens with the tweak \<^verbatim>\<open>allow_key_mods\<close> let it be changed.\<close>

definition modify_tweak :: "tokdata \<Rightarrow> ck_rv" where
  "modify_tweak tok = (if allow_key_mods tok then CKR_OK else CKR_ATTRIBUTE_READ_ONLY)"

definition usage_flag :: "tokdata \<Rightarrow> attribute \<Rightarrow> mode \<Rightarrow> ck_rv" where
  "usage_flag tok a mode = sized 1 a (if mode = MODE_MODIFY then modify_tweak tok else CKR_OK)"

text \<open>An attribute that holds a template.\<close>

definition template_attr :: "attribute \<Rightarrow> mode set \<Rightarrow> mode \<Rightarrow> ck_rv option" where
  "template_attr a ms mode =
     (if value_len a > 0 \<and> value_null a \<or> value_len a mod ATTR_SIZE \<noteq> 0 then Some CKR_ATTRIBUTE_VALUE_INVALID
      else case validate_attribute_array (case a of AArray _ es \<Rightarrow> es | _ \<Rightarrow> []) of
          None \<Rightarrow> None
        | Some (Inl rc) \<Rightarrow> Some rc
        | Some (Inr _) \<Rightarrow> (case a of ABytes _ (_ # _) \<Rightarrow> None | _ \<Rightarrow> Some (only_in ms mode)))"

text \<open>\<^verbatim>\<open>CKA_SENSITIVE\<close>, \<^verbatim>\<open>CKA_WRAP_WITH_TRUSTED\<close>: outside the modes given only TRUE can be set.\<close>

definition only_true :: "attribute \<Rightarrow> mode set \<Rightarrow> mode \<Rightarrow> ck_rv option" where
  "only_true a ms mode =
     (if bad_size 1 a then Some CKR_ATTRIBUTE_VALUE_INVALID
      else if mode \<in> ms then Some CKR_OK
      else map_option (\<lambda>v. if v \<noteq> 1 then CKR_ATTRIBUTE_READ_ONLY else CKR_OK) (value_byte a))"

text \<open>\<^verbatim>\<open>CKA_EXTRACTABLE\<close>: outside the modes given only FALSE; TRUE clears \<^verbatim>\<open>CKA_NEVER_EXTRACTABLE\<close>.\<close>

definition validate_extractable :: "cursor \<Rightarrow> allocs \<Rightarrow> mode set \<Rightarrow> mode \<Rightarrow> verdict" where
  "validate_extractable z al ms mode =
     (if bad_size 1 (current z) then ret CKR_ATTRIBUTE_VALUE_INVALID z al
      else Option.bind (value_byte (current z)) (\<lambda>v.
        if mode \<notin> ms \<and> v \<noteq> 0 then ret CKR_ATTRIBUTE_READ_ONLY z al
        else if v = 1 then template_build_update_attribute z al CKA_NEVER_EXTRACTABLE [0]
        else ret CKR_OK z al))"

section \<open>Public keys\<close>

definition publ_key_validate_attribute :: "tokdata \<Rightarrow> cursor \<Rightarrow> allocs \<Rightarrow> mode \<Rightarrow> verdict" where
  "publ_key_validate_attribute tok z al mode = (let a = current z; t = a_type a in
     if t = CKA_SUBJECT then ret CKR_OK z al
     else if t \<in> {CKA_ENCRYPT, CKA_VERIFY, CKA_VERIFY_RECOVER, CKA_WRAP, CKA_ENCAPSULATE}
     then ret (if mode = MODE_MODIFY then modify_tweak tok else sized 1 a CKR_OK) z al
     else if t = CKA_TRUSTED then ret_opt (validate_trusted tok a) z al
     else if t = CKA_PUBLIC_KEY_INFO
     then ret (only_in {MODE_CREATE, MODE_UNWRAP, MODE_ENCAPS, MODE_DECAPS, MODE_EXTRACT} mode) z al
     else if t \<in> {CKA_WRAP_TEMPLATE, CKA_ENCAPSULATE_TEMPLATE} then ret_opt (template_attr a creating mode) z al
     else key_object_validate_attribute z al mode)"

definition rsa_publ_validate_attribute :: "tokdata \<Rightarrow> cursor \<Rightarrow> allocs \<Rightarrow> mode \<Rightarrow> verdict" where
  "rsa_publ_validate_attribute tok z al mode = (let a = current z; t = a_type a in
     if t = CKA_MODULUS_BITS
     then (if mode \<in> {MODE_KEYGEN, MODE_ENCAPS, MODE_EXTRACT}
           then if bad_size 8 a then ret CKR_ATTRIBUTE_VALUE_INVALID z al
                else Option.bind (value_ulong (big_endian tok) a) (\<lambda>v.
                  ret (if v < 512 \<or> v > max_modulus_bits tok \<or> v mod 8 \<noteq> 0 then CKR_ATTRIBUTE_VALUE_INVALID else CKR_OK) z al)
           else ret CKR_ATTRIBUTE_READ_ONLY z al)
     else if t = CKA_MODULUS then trim_in {MODE_CREATE, MODE_EXTRACT} mode z al
     else if t = CKA_PUBLIC_EXPONENT then trim_in {MODE_CREATE, MODE_KEYGEN, MODE_ENCAPS, MODE_EXTRACT} mode z al
     else publ_key_validate_attribute tok z al mode)"

definition dsa_publ_validate_attribute :: "tokdata \<Rightarrow> cursor \<Rightarrow> allocs \<Rightarrow> mode \<Rightarrow> verdict" where
  "dsa_publ_validate_attribute tok z al mode = (let a = current z; t = a_type a; ms = {MODE_CREATE, MODE_KEYGEN, MODE_ENCAPS, MODE_EXTRACT} in
     if t = CKA_PRIME
     then (if mode \<in> ms \<and> (value_len a < 64 \<or> value_len a mod 8 \<noteq> 0) then ret CKR_ATTRIBUTE_VALUE_INVALID z al
           else trim_in ms mode z al)
     else if t = CKA_SUBPRIME
     then (if mode \<in> ms \<and> value_len a < 20 then ret CKR_ATTRIBUTE_VALUE_INVALID z al else trim_in ms mode z al)
     else if t = CKA_BASE then trim_in ms mode z al
     else if t = CKA_VALUE then trim_in {MODE_CREATE, MODE_EXTRACT} mode z al
     else publ_key_validate_attribute tok z al mode)"

definition ec_publ_validate_attribute :: "tokdata \<Rightarrow> cursor \<Rightarrow> allocs \<Rightarrow> mode \<Rightarrow> verdict" where
  "ec_publ_validate_attribute tok z al mode = (let t = a_type (current z) in
     if t = CKA_EC_PARAMS
     then ret (only_in {MODE_CREATE, MODE_KEYGEN, MODE_DERIVE, MODE_ENCAPS, MODE_EXTRACT} mode) z al
     else if t = CKA_EC_POINT then ret (only_in {MODE_CREATE, MODE_EXTRACT} mode) z al
     else publ_key_validate_attribute tok z al mode)"

definition dh_publ_validate_attribute :: "tokdata \<Rightarrow> cursor \<Rightarrow> allocs \<Rightarrow> mode \<Rightarrow> verdict" where
  "dh_publ_validate_attribute tok z al mode = (let t = a_type (current z) in
     if t \<in> {CKA_PRIME, CKA_BASE} then trim_in {MODE_CREATE, MODE_KEYGEN, MODE_ENCAPS, MODE_EXTRACT} mode z al
     else if t = CKA_VALUE then trim_in {MODE_CREATE, MODE_EXTRACT} mode z al
     else publ_key_validate_attribute tok z al mode)"

section \<open>Parameters of post-quantum keys\<close>

record pqc_oid =
  oid :: "byte list"
  keyform :: u64

definition dilithium_oids :: "pqc_oid list" where
  "dilithium_oids =
     [\<lparr>oid = [0x06, 0x0B, 0x2B, 0x06, 0x01, 0x04, 0x01, 0x02, 0x82, 0x0B, 0x01, 0x06, 0x05], keyform = 1\<rparr>,
      \<lparr>oid = [0x06, 0x0B, 0x2B, 0x06, 0x01, 0x04, 0x01, 0x02, 0x82, 0x0B, 0x01, 0x08, 0x07], keyform = 2\<rparr>,
      \<lparr>oid = [0x06, 0x0B, 0x2B, 0x06, 0x01, 0x04, 0x01, 0x02, 0x82, 0x0B, 0x07, 0x04, 0x04], keyform = 3\<rparr>,
      \<lparr>oid = [0x06, 0x0B, 0x2B, 0x06, 0x01, 0x04, 0x01, 0x02, 0x82, 0x0B, 0x07, 0x06, 0x05], keyform = 4\<rparr>,
      \<lparr>oid = [0x06, 0x0B, 0x2B, 0x06, 0x01, 0x04, 0x01, 0x02, 0x82, 0x0B, 0x07, 0x08, 0x07], keyform = 5\<rparr>]"

definition kyber_oids :: "pqc_oid list" where
  "kyber_oids =
     [\<lparr>oid = [0x06, 0x0B, 0x2B, 0x06, 0x01, 0x04, 0x01, 0x02, 0x82, 0x0B, 0x05, 0x03, 0x03], keyform = 1\<rparr>,
      \<lparr>oid = [0x06, 0x0B, 0x2B, 0x06, 0x01, 0x04, 0x01, 0x02, 0x82, 0x0B, 0x05, 0x04, 0x04], keyform = 2\<rparr>]"

definition ml_dsa_oids :: "pqc_oid list" where
  "ml_dsa_oids =
     [\<lparr>oid = [0x06, 0x09, 0x60, 0x86, 0x48, 0x01, 0x65, 0x03, 0x04, 0x03, 0x11], keyform = 1\<rparr>,
      \<lparr>oid = [0x06, 0x09, 0x60, 0x86, 0x48, 0x01, 0x65, 0x03, 0x04, 0x03, 0x12], keyform = 2\<rparr>,
      \<lparr>oid = [0x06, 0x09, 0x60, 0x86, 0x48, 0x01, 0x65, 0x03, 0x04, 0x03, 0x13], keyform = 3\<rparr>]"

definition ml_kem_oids :: "pqc_oid list" where
  "ml_kem_oids =
     [\<lparr>oid = [0x06, 0x09, 0x60, 0x86, 0x48, 0x01, 0x65, 0x03, 0x04, 0x04, 0x01], keyform = 1\<rparr>,
      \<lparr>oid = [0x06, 0x09, 0x60, 0x86, 0x48, 0x01, 0x65, 0x03, 0x04, 0x04, 0x02], keyform = 2\<rparr>,
      \<lparr>oid = [0x06, 0x09, 0x60, 0x86, 0x48, 0x01, 0x65, 0x03, 0x04, 0x04, 0x03], keyform = 3\<rparr>]"

definition find_pqc_by_keyform :: "pqc_oid list \<Rightarrow> u64 \<Rightarrow> pqc_oid option" where
  "find_pqc_by_keyform pqcs k = find (\<lambda>p. keyform p = k) pqcs"

definition find_pqc_by_oid :: "pqc_oid list \<Rightarrow> byte list \<Rightarrow> pqc_oid option" where
  "find_pqc_by_oid pqcs bs = find (\<lambda>p. oid p = bs) pqcs"

text \<open>The attributes of the key form and of the mode (\<^verbatim>\<open>-1\<close>: none), and the table.\<close>

definition pqc_keyform_mode_attrs_by_mech :: "u64 \<Rightarrow> (u64 \<times> u64 \<times> pqc_oid list) option" where
  "pqc_keyform_mode_attrs_by_mech mech =
     (if mech = CKM_IBM_DILITHIUM then Some (CKA_IBM_DILITHIUM_KEYFORM, CKA_IBM_DILITHIUM_MODE, dilithium_oids)
      else if mech = CKM_IBM_KYBER then Some (CKA_IBM_KYBER_KEYFORM, CKA_IBM_KYBER_MODE, kyber_oids)
      else if mech \<in> {CKM_IBM_ML_DSA, CKM_IBM_ML_DSA_KEY_PAIR_GEN} then Some (CKA_IBM_PARAMETER_SET, - 1, ml_dsa_oids)
      else if mech \<in> {CKM_IBM_ML_KEM, CKM_IBM_ML_KEM_KEY_PAIR_GEN, CKM_IBM_ML_KEM_WITH_ECDH}
      then Some (CKA_IBM_PARAMETER_SET, - 1, ml_kem_oids)
      else if mech \<in> {CKM_ML_DSA, CKM_ML_DSA_KEY_PAIR_GEN, CKM_HASH_ML_DSA} then Some (CKA_PARAMETER_SET, - 1, ml_dsa_oids)
      else if mech \<in> {CKM_ML_KEM, CKM_ML_KEM_KEY_PAIR_GEN} then Some (CKA_PARAMETER_SET, - 1, ml_kem_oids)
      else None)"

definition pqc_validate_keyform_mode :: "tokdata \<Rightarrow> attribute \<Rightarrow> mode \<Rightarrow> u64 \<Rightarrow> ck_rv option" where
  "pqc_validate_keyform_mode tok a mode mech =
     (case pqc_keyform_mode_attrs_by_mech mech of
        None \<Rightarrow> Some CKR_MECHANISM_INVALID
      | Some (keyform_attr, mode_attr, oids) \<Rightarrow>
          let ms = {MODE_CREATE, MODE_KEYGEN, MODE_ENCAPS, MODE_EXTRACT};
              known = (\<lambda>p. if p = None then CKR_ATTRIBUTE_VALUE_INVALID else CKR_OK) in
          if a_type a = keyform_attr
          then (if mode \<notin> ms then Some CKR_ATTRIBUTE_READ_ONLY
                else if bad_size 8 a then Some CKR_ATTRIBUTE_VALUE_INVALID
                else map_option (\<lambda>v. known (find_pqc_by_keyform oids v)) (value_ulong (big_endian tok) a))
          else if a_type a = mode_attr
          then (if mode \<notin> ms then Some CKR_ATTRIBUTE_READ_ONLY
                else if value_len a = 0 \<or> value_null a then Some CKR_ATTRIBUTE_VALUE_INVALID
                else (case a of ABytes _ bs \<Rightarrow> Some (known (find_pqc_by_oid oids bs)) | _ \<Rightarrow> None))
          else Some CKR_ATTRIBUTE_TYPE_INVALID)"

definition ibm_ml_dsa_publ_validate_attribute :: "tokdata \<Rightarrow> cursor \<Rightarrow> allocs \<Rightarrow> mode \<Rightarrow> u64 \<Rightarrow> verdict" where
  "ibm_ml_dsa_publ_validate_attribute tok z al mode mech = (let a = current z; t = a_type a in
     if t \<in> {CKA_IBM_DILITHIUM_KEYFORM, CKA_IBM_DILITHIUM_MODE, CKA_IBM_PARAMETER_SET}
     then ret_opt (pqc_validate_keyform_mode tok a mode mech) z al
     else if t \<in> {CKA_IBM_ML_DSA_RHO, CKA_IBM_ML_DSA_T1, CKA_VALUE} then ret (only_in {MODE_CREATE, MODE_EXTRACT} mode) z al
     else publ_key_validate_attribute tok z al mode)"

definition ibm_ml_kem_publ_validate_attribute :: "tokdata \<Rightarrow> cursor \<Rightarrow> allocs \<Rightarrow> mode \<Rightarrow> u64 \<Rightarrow> verdict" where
  "ibm_ml_kem_publ_validate_attribute tok z al mode mech = (let a = current z; t = a_type a in
     if t \<in> {CKA_IBM_KYBER_KEYFORM, CKA_IBM_KYBER_MODE, CKA_IBM_PARAMETER_SET}
     then ret_opt (pqc_validate_keyform_mode tok a mode mech) z al
     else if t \<in> {CKA_IBM_ML_KEM_PK, CKA_VALUE} then ret (only_in {MODE_CREATE, MODE_EXTRACT} mode) z al
     else publ_key_validate_attribute tok z al mode)"

text \<open>The key mode of ML-DSA keys exists on the CCA token only.\<close>

definition cca_ml_dsa_key_mode :: "tokdata \<Rightarrow> attribute \<Rightarrow> mode set \<Rightarrow> mode \<Rightarrow> ck_rv option" where
  "cca_ml_dsa_key_mode tok a ms mode =
     (if \<not> is_cca tok then Some CKR_ATTRIBUTE_TYPE_INVALID
      else if mode \<notin> ms then Some CKR_ATTRIBUTE_READ_ONLY
      else if bad_size 8 a then Some CKR_ATTRIBUTE_VALUE_INVALID
      else map_option (\<lambda>v. if v \<in> {0, 1} then CKR_OK else CKR_ATTRIBUTE_VALUE_INVALID) (value_ulong (big_endian tok) a))"

definition ml_dsa_publ_validate_attribute :: "tokdata \<Rightarrow> cursor \<Rightarrow> allocs \<Rightarrow> mode \<Rightarrow> verdict" where
  "ml_dsa_publ_validate_attribute tok z al mode = (let a = current z; t = a_type a in
     if t = CKA_PARAMETER_SET then ret_opt (pqc_validate_keyform_mode tok a mode CKM_ML_DSA) z al
     else if t = CKA_VALUE then ret (only_in {MODE_CREATE, MODE_EXTRACT} mode) z al
     else if t = CKA_IBM_CCA_ML_DSA_KEY_MODE
     then ret_opt (cca_ml_dsa_key_mode tok a {MODE_CREATE, MODE_DERIVE, MODE_UNWRAP, MODE_ENCAPS, MODE_DECAPS, MODE_EXTRACT} mode) z al
     else publ_key_validate_attribute tok z al mode)"

definition ml_kem_publ_validate_attribute :: "tokdata \<Rightarrow> cursor \<Rightarrow> allocs \<Rightarrow> mode \<Rightarrow> verdict" where
  "ml_kem_publ_validate_attribute tok z al mode = (let a = current z; t = a_type a in
     if t = CKA_PARAMETER_SET then ret_opt (pqc_validate_keyform_mode tok a mode CKM_ML_KEM) z al
     else if t = CKA_VALUE then ret (only_in {MODE_CREATE, MODE_EXTRACT} mode) z al
     else publ_key_validate_attribute tok z al mode)"

end
