(* ===== verification/Key_Private.thy ===== *)
theory Key_Private
  imports Key_Rules
begin

text \<open>
  The attribute rules of private and secret keys (\<^verbatim>\<open>usr/lib/common/key.c\<close>), the dispatch on class
  and key type, the walk along a template, and \<^verbatim>\<open>template_check_exportability\<close> (\<^verbatim>\<open>template.c\<close>), which
  decides what \<^verbatim>\<open>C_GetAttributeValue\<close> may show.
\<close>

section \<open>Private keys\<close>

definition priv_key_validate_attribute :: "tokdata \<Rightarrow> cursor \<Rightarrow> allocs \<Rightarrow> mode \<Rightarrow> verdict" where
  "priv_key_validate_attribute tok z al mode = (let a = current z; t = a_type a in
     if t = CKA_SUBJECT then ret CKR_OK z al
     else if t \<in> {CKA_DECRYPT, CKA_SIGN, CKA_SIGN_RECOVER, CKA_UNWRAP, CKA_DECAPSULATE} then ret (usage_flag tok a mode) z al
     else if t \<in> {CKA_SENSITIVE, CKA_WRAP_WITH_TRUSTED}
     then ret_opt (only_true a {MODE_CREATE, MODE_KEYGEN, MODE_UNWRAP, MODE_ENCAPS, MODE_DECAPS} mode) z al
     else if t = CKA_EXTRACTABLE then validate_extractable z al {MODE_CREATE, MODE_KEYGEN, MODE_UNWRAP, MODE_ENCAPS} mode
     else if t \<in> {CKA_ALWAYS_SENSITIVE, CKA_NEVER_EXTRACTABLE} then ret CKR_ATTRIBUTE_READ_ONLY z al
     else if t = CKA_PUBLIC_KEY_INFO then ret CKR_ATTRIBUTE_TYPE_INVALID z al
     else if t \<in> {CKA_UNWRAP_TEMPLATE, CKA_DERIVE_TEMPLATE, CKA_DECAPSULATE_TEMPLATE}
     then ret_opt (template_attr a (creating - {MODE_EXTRACT}) mode) z al
     else if t = CKA_ALWAYS_AUTHENTICATE
     then (if bad_size 1 a then ret CKR_ATTRIBUTE_VALUE_INVALID z al
           else if mode \<in> {MODE_MODIFY, MODE_COPY} then ret CKR_ATTRIBUTE_READ_ONLY z al
           else Option.bind (value_byte a) (\<lambda>v.
             if v = 0 then ret CKR_OK z al
             else (case template_attribute_get_bool (Some (contents z)) CKA_PRIVATE of
                 None \<Rightarrow> None
               | Some (Inl _) \<Rightarrow> ret CKR_ATTRIBUTE_VALUE_INVALID z al
               | Some (Inr p) \<Rightarrow> ret (if p = 0 then CKR_ATTRIBUTE_VALUE_INVALID else CKR_OK) z al)))
     else key_object_validate_attribute z al mode)"

definition rsa_priv_validate_attribute :: "tokdata \<Rightarrow> cursor \<Rightarrow> allocs \<Rightarrow> mode \<Rightarrow> verdict" where
  "rsa_priv_validate_attribute tok z al mode =
     (if a_type (current z) \<in> {CKA_MODULUS, CKA_PRIVATE_EXPONENT, CKA_PUBLIC_EXPONENT, CKA_PRIME_1, CKA_PRIME_2,
         CKA_EXPONENT_1, CKA_EXPONENT_2, CKA_COEFFICIENT}
      then trim_in {MODE_CREATE} mode z al
      else priv_key_validate_attribute tok z al mode)"

definition dsa_priv_validate_attribute :: "tokdata \<Rightarrow> cursor \<Rightarrow> allocs \<Rightarrow> mode \<Rightarrow> verdict" where
  "dsa_priv_validate_attribute tok z al mode = (let a = current z; t = a_type a in
     if t = CKA_PRIME
     then (if mode = MODE_CREATE \<and> (value_len a < 64 \<or> value_len a > 128 \<or> value_len a mod 8 \<noteq> 0)
           then ret CKR_ATTRIBUTE_VALUE_INVALID z al else trim_in {MODE_CREATE} mode z al)
     else if t = CKA_SUBPRIME
     then (if mode = MODE_CREATE \<and> value_len a \<noteq> 20 then ret CKR_ATTRIBUTE_VALUE_INVALID z al
           else trim_in {MODE_CREATE} mode z al)
     else if t \<in> {CKA_BASE, CKA_VALUE} then trim_in {MODE_CREATE} mode z al
     else priv_key_validate_attribute tok z al mode)"

definition ec_priv_validate_attribute :: "tokdata \<Rightarrow> cursor \<Rightarrow> allocs \<Rightarrow> mode \<Rightarrow> u64 \<Rightarrow> verdict" where
  "ec_priv_validate_attribute tok z al mode key_type = (let t = a_type (current z) in
     if t = CKA_EC_PARAMS then ret (only_in {MODE_CREATE, MODE_DERIVE} mode) z al
     else if t = CKA_VALUE
     then (if key_type = CKK_EC then trim_in {MODE_CREATE} mode z al else ret (only_in {MODE_CREATE} mode) z al)
     else if t = CKA_EC_POINT then ret (only_in {MODE_CREATE} mode) z al
     else priv_key_validate_attribute tok z al mode)"

definition dh_priv_validate_attribute :: "tokdata \<Rightarrow> cursor \<Rightarrow> allocs \<Rightarrow> mode \<Rightarrow> verdict" where
  "dh_priv_validate_attribute tok z al mode = (let a = current z; t = a_type a in
     if t \<in> {CKA_PRIME, CKA_BASE, CKA_VALUE} then trim_in {MODE_CREATE, MODE_KEYGEN, MODE_ENCAPS} mode z al
     else if t = CKA_VALUE_BITS then ret (sized 8 a CKR_OK) z al
     else priv_key_validate_attribute tok z al mode)"

definition ibm_ml_dsa_priv_validate_attribute :: "tokdata \<Rightarrow> cursor \<Rightarrow> allocs \<Rightarrow> mode \<Rightarrow> u64 \<Rightarrow> verdict" where
  "ibm_ml_dsa_priv_validate_attribute tok z al mode mech = (let a = current z; t = a_type a in
     if t \<in> {CKA_IBM_DILITHIUM_KEYFORM, CKA_IBM_DILITHIUM_MODE, CKA_IBM_PARAMETER_SET}
     then ret_opt (pqc_validate_keyform_mode tok a mode mech) z al
     else if t = CKA_IBM_ML_DSA_PRIVATE_SEED \<and> mech \<noteq> CKM_IBM_ML_DSA then ret CKR_ATTRIBUTE_TYPE_INVALID z al
     else if t \<in> {CKA_IBM_ML_DSA_PRIVATE_SEED, CKA_IBM_ML_DSA_RHO, CKA_IBM_ML_DSA_SEED, CKA_IBM_ML_DSA_TR, CKA_IBM_ML_DSA_S1,
         CKA_IBM_ML_DSA_S2, CKA_IBM_ML_DSA_T0, CKA_IBM_ML_DSA_T1, CKA_VALUE}
     then ret (only_in {MODE_CREATE} mode) z al
     else priv_key_validate_attribute tok z al mode)"

definition ibm_ml_kem_priv_validate_attribute :: "tokdata \<Rightarrow> cursor \<Rightarrow> allocs \<Rightarrow> mode \<Rightarrow> u64 \<Rightarrow> verdict" where
  "ibm_ml_kem_priv_validate_attribute tok z al mode mech = (let a = current z; t = a_type a in
     if t \<in> {CKA_IBM_KYBER_KEYFORM, CKA_IBM_KYBER_MODE, CKA_IBM_PARAMETER_SET}
     then ret_opt (pqc_validate_keyform_mode tok a mode mech) z al
     else if t = CKA_IBM_ML_KEM_PRIVATE_SEED \<and> mech \<noteq> CKM_IBM_ML_KEM then ret CKR_ATTRIBUTE_TYPE_INVALID z al
     else if t \<in> {CKA_IBM_ML_KEM_PRIVATE_SEED, CKA_IBM_ML_KEM_SK, CKA_IBM_ML_KEM_PK, CKA_VALUE}
     then ret (only_in {MODE_CREATE} mode) z al
     else priv_key_validate_attribute tok z al mode)"

definition ml_dsa_priv_validate_attribute :: "tokdata \<Rightarrow> cursor \<Rightarrow> allocs \<Rightarrow> mode \<Rightarrow> verdict" where
  "ml_dsa_priv_validate_attribute tok z al mode = (let a = current z; t = a_type a in
     if t = CKA_PARAMETER_SET then ret_opt (pqc_validate_keyform_mode tok a mode CKM_ML_DSA) z al
     else if t \<in> {CKA_VALUE, CKA_SEED} then ret (only_in {MODE_CREATE} mode) z al
     else if t = CKA_IBM_CCA_ML_DSA_KEY_MODE then ret_opt (cca_ml_dsa_key_mode tok a (creating - {MODE_EXTRACT}) mode) z al
     else priv_key_validate_attribute tok z al mode)"

definition ml_kem_priv_validate_attribute :: "tokdata \<Rightarrow> cursor \<Rightarrow> allocs \<Rightarrow> mode \<Rightarrow> verdict" where
  "ml_kem_priv_validate_attribute tok z al mode = (let a = current z; t = a_type a in
     if t = CKA_PARAMETER_SET then ret_opt (pqc_validate_keyform_mode tok a mode CKM_ML_KEM) z al
     else if t \<in> {CKA_VALUE, CKA_SEED} then ret (only_in {MODE_CREATE} mode) z al
     else priv_key_validate_attribute tok z al mode)"

section \<open>Secret keys\<close>

definition secret_key_validate_attribute :: "tokdata \<Rightarrow> cursor \<Rightarrow> allocs \<Rightarrow> mode \<Rightarrow> verdict" where
  "secret_key_validate_attribute tok z al mode = (let a = current z; t = a_type a; ms = creating - {MODE_EXTRACT} in
     if t \<in> {CKA_ENCRYPT, CKA_DECRYPT, CKA_SIGN, CKA_VERIFY, CKA_WRAP, CKA_UNWRAP} then ret (usage_flag tok a mode) z al
     else if t = CKA_TRUSTED then ret_opt (validate_trusted tok a) z al
     else if t \<in> {CKA_SENSITIVE, CKA_WRAP_WITH_TRUSTED} then ret_opt (only_true a ms mode) z al
     else if t = CKA_EXTRACTABLE then validate_extractable z al ms mode
     else if t \<in> {CKA_ALWAYS_SENSITIVE, CKA_NEVER_EXTRACTABLE} then ret CKR_ATTRIBUTE_READ_ONLY z al
     else if t = CKA_CHECK_VALUE then ret (only_in {MODE_CREATE} mode) z al
     else if t \<in> {CKA_WRAP_TEMPLATE, CKA_UNWRAP_TEMPLATE, CKA_DERIVE_TEMPLATE} then ret_opt (template_attr a ms mode) z al
     else key_object_validate_attribute z al mode)"

definition generic_secret_validate_attribute :: "tokdata \<Rightarrow> cursor \<Rightarrow> allocs \<Rightarrow> mode \<Rightarrow> verdict" where
  "generic_secret_validate_attribute tok z al mode = (let a = current z; t = a_type a in
     if t = CKA_VALUE then ret (only_in {MODE_CREATE} mode) z al
     else if t = CKA_VALUE_LEN
     then ret (sized 8 a
            (if mode \<in> {MODE_KEYGEN, MODE_DERIVE} then CKR_OK
             else if mode \<in> {MODE_UNWRAP, MODE_ENCAPS, MODE_DECAPS} \<and> netscape_mods tok then CKR_OK
             else CKR_ATTRIBUTE_READ_ONLY)) z al
     else secret_key_validate_attribute tok z al mode)"

definition DES_KEY_SIZE :: nat where "DES_KEY_SIZE = 8"

definition parity_is_odd :: "byte \<Rightarrow> bool" where
  "parity_is_odd b =
     (let b = and (xor (drop_bit 4 b) b) 0x0F;
          b = and (xor (drop_bit 2 b) b) 0x03;
          b = and (xor (drop_bit 1 b) b) 0x01
      in b = 1)"

text \<open>The value of a DES key of \<open>k\<close> blocks; the parity is checked when the token is configured so.\<close>

definition des_value :: "nat \<Rightarrow> tokdata \<Rightarrow> attribute \<Rightarrow> mode \<Rightarrow> ck_rv option" where
  "des_value k tok a mode =
     (if mode \<noteq> MODE_CREATE then Some CKR_ATTRIBUTE_READ_ONLY
      else if value_len a \<noteq> k * DES_KEY_SIZE then Some CKR_ATTRIBUTE_VALUE_INVALID
      else if \<not> check_des_parity tok then Some CKR_OK
      else if value_null a then Some CKR_ATTRIBUTE_VALUE_INVALID
      else (case a of
          ABytes _ bs \<Rightarrow> Some (if list_all parity_is_odd bs then CKR_OK else CKR_ATTRIBUTE_VALUE_INVALID)
        | _ \<Rightarrow> None))"

text \<open>\<^verbatim>\<open>CKA_VALUE_LEN\<close> is not allowed for DES keys, but for an application that relies on it.\<close>

definition des_value_len :: "(u64 \<Rightarrow> bool) \<Rightarrow> tokdata \<Rightarrow> attribute \<Rightarrow> mode \<Rightarrow> ck_rv option" where
  "des_value_len good tok a mode =
     (if bad_size 8 a then Some CKR_ATTRIBUTE_VALUE_INVALID
      else if \<not> netscape_mods tok then Some CKR_ATTRIBUTE_TYPE_INVALID
      else if mode \<notin> creating - {MODE_EXTRACT} then Some CKR_ATTRIBUTE_READ_ONLY
      else map_option (\<lambda>v. if good v then CKR_OK else CKR_ATTRIBUTE_VALUE_INVALID) (value_ulong (big_endian tok) a))"

definition des_validate_attribute :: "tokdata \<Rightarrow> cursor \<Rightarrow> allocs \<Rightarrow> mode \<Rightarrow> verdict" where
  "des_validate_attribute tok z al mode = (let a = current z; t = a_type a in
     if t = CKA_VALUE then ret_opt (des_value 1 tok a mode) z al
     else if t = CKA_VALUE_LEN then ret_opt (des_value_len (\<lambda>v. v = of_nat DES_KEY_SIZE) tok a mode) z al
     else secret_key_validate_attribute tok z al mode)"

definition des2_validate_attribute :: "tokdata \<Rightarrow> cursor \<Rightarrow> allocs \<Rightarrow> mode \<Rightarrow> verdict" where
  "des2_validate_attribute tok z al mode = (let a = current z; t = a_type a in
     if t = CKA_VALUE then ret_opt (des_value 2 tok a mode) z al
     else if t = CKA_VALUE_LEN then ret_opt (des_value_len (\<lambda>v. v = of_nat (2 * DES_KEY_SIZE)) tok a mode) z al
     else secret_key_validate_attribute tok z al mode)"

text \<open>For triple DES the length given is not looked at.\<close>

definition des3_validate_attribute :: "tokdata \<Rightarrow> cursor \<Rightarrow> allocs \<Rightarrow> mode \<Rightarrow> verdict" where
  "des3_validate_attribute tok z al mode = (let a = current z; t = a_type a in
     if t = CKA_VALUE then ret_opt (des_value 3 tok a mode) z al
     else if t = CKA_VALUE_LEN then ret_opt (des_value_len (\<lambda>_. True) tok a mode) z al
     else secret_key_validate_attribute tok z al mode)"

text \<open>16, 24 or 32 bytes; a key for XTS is two keys of 16 or 32 bytes.\<close>

definition aes_size :: "bool \<Rightarrow> nat \<Rightarrow> bool" where
  "aes_size xts n \<longleftrightarrow> (if xts then n = 32 \<or> n = 64 else n = 16 \<or> n = 24 \<or> n = 32)"

definition aes_validate_attribute :: "tokdata \<Rightarrow> cursor \<Rightarrow> allocs \<Rightarrow> mode \<Rightarrow> bool \<Rightarrow> verdict" where
  "aes_validate_attribute tok z al mode xts = (let a = current z; t = a_type a in
     if t = CKA_VALUE
     then ret (if mode \<noteq> MODE_CREATE then CKR_ATTRIBUTE_READ_ONLY
               else if aes_size xts (value_len a) then CKR_OK else CKR_ATTRIBUTE_VALUE_INVALID) z al
     else if t = CKA_VALUE_LEN
     then (if bad_size 8 a then ret CKR_ATTRIBUTE_VALUE_INVALID z al
           else if mode \<notin> creating - {MODE_EXTRACT} then ret CKR_ATTRIBUTE_READ_ONLY z al
           else Option.bind (value_ulong (big_endian tok) a) (\<lambda>v.
             ret (if aes_size xts (unat v) then CKR_OK else CKR_ATTRIBUTE_VALUE_INVALID) z al))
     else if t = CKA_IBM_CCA_AES_KEY_MODE
     then (if \<not> is_cca tok then ret CKR_ATTRIBUTE_TYPE_INVALID z al
           else if mode \<notin> (creating - {MODE_EXTRACT}) \<union> {MODE_COPY, MODE_MODIFY} then ret CKR_ATTRIBUTE_READ_ONLY z al
           else if bad_size 8 a then ret CKR_ATTRIBUTE_VALUE_INVALID z al
           else Option.bind (value_ulong (big_endian tok) a) (\<lambda>v.
             ret (if v = 0 then (if mode \<in> {MODE_COPY, MODE_MODIFY} then CKR_ATTRIBUTE_VALUE_INVALID else CKR_OK)
                  else if v = 1 then CKR_OK else CKR_ATTRIBUTE_VALUE_INVALID) z al))
     else secret_key_validate_attribute tok z al mode)"

section \<open>Dispatch\<close>

definition publ_key_dispatch :: "tokdata \<Rightarrow> cursor \<Rightarrow> allocs \<Rightarrow> u64 \<Rightarrow> mode \<Rightarrow> verdict" where
  "publ_key_dispatch tok z al subclass mode =
     (if subclass = CKK_RSA then rsa_publ_validate_attribute tok z al mode
      else if subclass = CKK_DSA then dsa_publ_validate_attribute tok z al mode
      else if subclass \<in> {CKK_EC, CKK_EC_EDWARDS, CKK_EC_MONTGOMERY} then ec_publ_validate_attribute tok z al mode
      else if subclass = CKK_DH then dh_publ_validate_attribute tok z al mode
      else if subclass = CKK_IBM_DILITHIUM then ibm_ml_dsa_publ_validate_attribute tok z al mode CKM_IBM_DILITHIUM
      else if subclass = CKK_IBM_KYBER then ibm_ml_kem_publ_validate_attribute tok z al mode CKM_IBM_KYBER
      else if subclass = CKK_IBM_ML_DSA then ibm_ml_dsa_publ_validate_attribute tok z al mode CKM_IBM_ML_DSA
      else if subclass = CKK_IBM_ML_KEM then ibm_ml_kem_publ_validate_attribute tok z al mode CKM_IBM_ML_KEM
      else if subclass = CKK_ML_DSA then ml_dsa_publ_validate_attribute tok z al mode
      else if subclass = CKK_ML_KEM then ml_kem_publ_validate_attribute tok z al mode
      else ret CKR_ATTRIBUTE_VALUE_INVALID z al)"

definition priv_key_dispatch :: "tokdata \<Rightarrow> cursor \<Rightarrow> allocs \<Rightarrow> u64 \<Rightarrow> mode \<Rightarrow> verdict" where
  "priv_key_dispatch tok z al subclass mode =
     (if subclass = CKK_RSA then rsa_priv_validate_attribute tok z al mode
      else if subclass = CKK_DSA then dsa_priv_validate_attribute tok z al mode
      else if subclass \<in> {CKK_EC, CKK_EC_EDWARDS, CKK_EC_MONTGOMERY} then ec_priv_validate_attribute tok z al mode subclass
      else if subclass = CKK_DH then dh_priv_validate_attribute tok z al mode
      else if subclass = CKK_IBM_DILITHIUM then ibm_ml_dsa_priv_validate_attribute tok z al mode CKM_IBM_DILITHIUM
      else if subclass = CKK_IBM_KYBER then ibm_ml_kem_priv_validate_attribute tok z al mode CKM_IBM_KYBER
      else if subclass = CKK_IBM_ML_DSA then ibm_ml_dsa_priv_validate_attribute tok z al mode CKM_IBM_ML_DSA
      else if subclass = CKK_IBM_ML_KEM then ibm_ml_kem_priv_validate_attribute tok z al mode CKM_IBM_ML_KEM
      else if subclass = CKK_ML_DSA then ml_dsa_priv_validate_attribute tok z al mode
      else if subclass = CKK_ML_KEM then ml_kem_priv_validate_attribute tok z al mode
      else ret CKR_ATTRIBUTE_VALUE_INVALID z al)"

definition secret_key_dispatch :: "tokdata \<Rightarrow> cursor \<Rightarrow> allocs \<Rightarrow> u64 \<Rightarrow> mode \<Rightarrow> verdict" where
  "secret_key_dispatch tok z al subclass mode =
     (if subclass \<in> {CKK_GENERIC_SECRET, CKK_SHA_1_HMAC, CKK_SHA224_HMAC, CKK_SHA256_HMAC, CKK_SHA384_HMAC, CKK_SHA512_HMAC,
         CKK_SHA3_224_HMAC, CKK_SHA3_256_HMAC, CKK_SHA3_384_HMAC, CKK_SHA3_512_HMAC, CKK_SHA512_224_HMAC, CKK_SHA512_256_HMAC}
      then generic_secret_validate_attribute tok z al mode
      else if subclass = CKK_DES then des_validate_attribute tok z al mode
      else if subclass = CKK_DES2 then des2_validate_attribute tok z al mode
      else if subclass = CKK_DES3 then des3_validate_attribute tok z al mode
      else if subclass = CKK_AES then aes_validate_attribute tok z al mode False
      else if subclass = CKK_AES_XTS then aes_validate_attribute tok z al mode True
      else ret CKR_ATTRIBUTE_VALUE_INVALID z al)"

definition template_validate_attribute :: "tokdata \<Rightarrow> cursor \<Rightarrow> allocs \<Rightarrow> u64 \<Rightarrow> u64 \<Rightarrow> mode \<Rightarrow> verdict" where
  "template_validate_attribute tok z al cls subclass mode = (let a = current z in
     if value_len a > 0 \<and> value_null a then ret CKR_ATTRIBUTE_VALUE_INVALID z al
     else if cls = CKO_DATA then ret_opt (data_object_validate_attribute a mode) z al
     else if cls = CKO_CERTIFICATE
     then ret_opt (if subclass = CKC_X_509 then cert_x509_validate_attribute tok a mode
                   else cert_vendor_validate_attribute tok a mode) z al
     else if cls = CKO_PUBLIC_KEY then publ_key_dispatch tok z al subclass mode
     else if cls = CKO_PRIVATE_KEY then priv_key_dispatch tok z al subclass mode
     else if cls = CKO_SECRET_KEY then secret_key_dispatch tok z al subclass mode
     else if cls = CKO_HW_FEATURE
     then ret_opt (if subclass \<ge> CKH_VENDOR_DEFINED then Some CKR_OK
                   else if subclass = CKH_CLOCK then clock_validate_attribute a mode
                   else if subclass = CKH_MONOTONIC_COUNTER then counter_validate_attribute a mode
                   else Some CKR_ATTRIBUTE_VALUE_INVALID) z al
     else if cls = CKO_DOMAIN_PARAMETERS
     then ret_opt (if subclass = CKK_DSA then dp_dsa_validate_attribute a mode
                   else if subclass = CKK_DH then dp_dh_validate_attribute a mode
                   else if subclass = CKK_X9_42_DH then dp_x9dh_validate_attribute a mode
                   else Some CKR_ATTRIBUTE_VALUE_INVALID) z al
     else if cls = CKO_PROFILE then ret_opt (profile_object_validate_attribute a mode) z al
     else ret CKR_ATTRIBUTE_VALUE_INVALID z al)"

end
