(* ===== verification/Attr_Required.thy ===== *)
theory Attr_Required
  imports Key_Private
begin

text \<open>
  Which attributes an object must have: \<^verbatim>\<open>template_check_required_attributes\<close> of \<^verbatim>\<open>template.c\<close> and the
  functions per object class it calls.
\<close>

text \<open>\<^verbatim>\<open>rc = ...; if (rc != CKR_OK) { if (mode == ...) return rc; }\<close>\<close>

definition required :: "mode set \<Rightarrow> mode \<Rightarrow> 'a ck \<Rightarrow> ck_rv option \<Rightarrow> ck_rv option" where
  "required ms mode r k =
     (case r of
        None \<Rightarrow> None
      | Some (Inl rc) \<Rightarrow> if mode \<in> ms then Some rc else k
      | Some (Inr _) \<Rightarrow> k)"

definition nonempty :: "template \<Rightarrow> u64 \<Rightarrow> attribute ck" where
  "nonempty tmpl t = template_attribute_get_non_empty (Some tmpl) t"

definition has :: "template \<Rightarrow> u64 \<Rightarrow> bool" where
  "has tmpl t \<longleftrightarrow> (case nonempty tmpl t of Some (Inr _) \<Rightarrow> True | _ \<Rightarrow> False)"

section \<open>Bases\<close>

definition template_check_required_base_attributes :: "tokdata \<Rightarrow> template \<Rightarrow> mode \<Rightarrow> ck_rv option" where
  "template_check_required_base_attributes tok tmpl mode =
     (case template_attribute_get_ulong (big_endian tok) (Some tmpl) CKA_CLASS of
        None \<Rightarrow> None
      | Some (Inl _) \<Rightarrow> Some (if mode \<in> {MODE_CREATE, MODE_EXTRACT} then CKR_TEMPLATE_INCOMPLETE else CKR_OK)
      | Some (Inr _) \<Rightarrow> Some CKR_OK)"

definition key_object_check_required_attributes :: "tokdata \<Rightarrow> template \<Rightarrow> mode \<Rightarrow> ck_rv option" where
  "key_object_check_required_attributes tok tmpl mode =
     required {MODE_CREATE, MODE_EXTRACT} mode (template_attribute_get_ulong (big_endian tok) (Some tmpl) CKA_KEY_TYPE)
       (template_check_required_base_attributes tok tmpl mode)"

definition publ_key_check_required_attributes :: "tokdata \<Rightarrow> template \<Rightarrow> mode \<Rightarrow> ck_rv option" where
  "publ_key_check_required_attributes = key_object_check_required_attributes"

definition priv_key_check_required_attributes :: "tokdata \<Rightarrow> template \<Rightarrow> mode \<Rightarrow> ck_rv option" where
  "priv_key_check_required_attributes = key_object_check_required_attributes"

definition secret_key_check_required_attributes :: "tokdata \<Rightarrow> template \<Rightarrow> mode \<Rightarrow> ck_rv option" where
  "secret_key_check_required_attributes = key_object_check_required_attributes"

text \<open>Import of an existing secure key: only the base checks are done.\<close>

definition secure_import :: "tokdata \<Rightarrow> template \<Rightarrow> mode \<Rightarrow> bool" where
  "secure_import tok tmpl mode \<longleftrightarrow> mode = MODE_CREATE \<and> secure_key_token tok \<and> has tmpl CKA_IBM_OPAQUE"

text \<open>A list of attributes, each required to be nonempty in the modes given with it.\<close>

fun all_required :: "template \<Rightarrow> mode \<Rightarrow> (u64 \<times> mode set) list \<Rightarrow> ck_rv option \<Rightarrow> ck_rv option" where
  "all_required tmpl mode [] k = k"
| "all_required tmpl mode ((t, ms) # ts) k = required ms mode (nonempty tmpl t) (all_required tmpl mode ts k)"

section \<open>Data, certificates, hardware features, domain parameters, profiles\<close>

definition data_object_check_required_attributes :: "tokdata \<Rightarrow> template \<Rightarrow> mode \<Rightarrow> ck_rv option" where
  "data_object_check_required_attributes = template_check_required_base_attributes"

definition profile_object_check_required_attributes :: "tokdata \<Rightarrow> template \<Rightarrow> mode \<Rightarrow> ck_rv option" where
  "profile_object_check_required_attributes = template_check_required_base_attributes"

definition cert_check_required_attributes :: "tokdata \<Rightarrow> template \<Rightarrow> mode \<Rightarrow> ck_rv option" where
  "cert_check_required_attributes tok tmpl mode =
     required {MODE_CREATE} mode
       (if mode = MODE_CREATE then template_attribute_get_ulong (big_endian tok) (Some tmpl) CKA_CERTIFICATE_TYPE else ck_ok 0)
       (template_check_required_base_attributes tok tmpl mode)"

definition cert_x509_check_required_attributes :: "tokdata \<Rightarrow> template \<Rightarrow> mode \<Rightarrow> ck_rv option" where
  "cert_x509_check_required_attributes tok tmpl mode =
     required UNIV mode (nonempty tmpl CKA_SUBJECT)
       (all_required tmpl mode
          (if has tmpl CKA_URL then [(CKA_HASH_OF_SUBJECT_PUBLIC_KEY, UNIV), (CKA_HASH_OF_ISSUER_PUBLIC_KEY, UNIV)]
           else [(CKA_VALUE, UNIV)])
          (cert_check_required_attributes tok tmpl mode))"

definition cert_vendor_check_required_attributes :: "tokdata \<Rightarrow> template \<Rightarrow> mode \<Rightarrow> ck_rv option" where
  "cert_vendor_check_required_attributes = cert_check_required_attributes"

definition hwf_object_check_required_attributes :: "tokdata \<Rightarrow> template \<Rightarrow> mode \<Rightarrow> ck_rv option" where
  "hwf_object_check_required_attributes tok tmpl mode =
     required {MODE_CREATE} mode (template_attribute_get_ulong (big_endian tok) (Some tmpl) CKA_HW_FEATURE_TYPE)
       (template_check_required_base_attributes tok tmpl mode)"

definition clock_check_required_attributes :: "tokdata \<Rightarrow> template \<Rightarrow> mode \<Rightarrow> ck_rv option" where
  "clock_check_required_attributes tok tmpl mode =
     required {MODE_CREATE} mode (nonempty tmpl CKA_VALUE) (hwf_object_check_required_attributes tok tmpl mode)"

definition counter_check_required_attributes :: "tokdata \<Rightarrow> template \<Rightarrow> mode \<Rightarrow> ck_rv option" where
  "counter_check_required_attributes tok tmpl mode =
     (if mode = MODE_CREATE
      then required UNIV mode (nonempty tmpl CKA_VALUE)
        (required UNIV mode (template_attribute_get_bool (Some tmpl) CKA_HAS_RESET)
          (required UNIV mode (template_attribute_get_bool (Some tmpl) CKA_RESET_ON_INIT)
            (hwf_object_check_required_attributes tok tmpl mode)))
      else hwf_object_check_required_attributes tok tmpl mode)"

definition dp_object_check_required_attributes :: "tokdata \<Rightarrow> template \<Rightarrow> mode \<Rightarrow> ck_rv option" where
  "dp_object_check_required_attributes tok tmpl mode =
     required {MODE_CREATE} mode (template_attribute_get_ulong (big_endian tok) (Some tmpl) CKA_KEY_TYPE)
       (template_check_required_base_attributes tok tmpl mode)"

text \<open>Parameters are given when they are created, their lengths when they are generated.\<close>

definition dp_required :: "tokdata \<Rightarrow> template \<Rightarrow> mode \<Rightarrow> u64 list \<Rightarrow> u64 list \<Rightarrow> ck_rv option" where
  "dp_required tok tmpl mode ps bits =
     (if mode = MODE_CREATE then all_required tmpl mode (map (\<lambda>t. (t, UNIV)) ps) (dp_object_check_required_attributes tok tmpl mode)
      else if mode = MODE_KEYGEN
      then foldr (\<lambda>t. required UNIV mode (template_attribute_get_ulong (big_endian tok) (Some tmpl) t)) bits
             (dp_object_check_required_attributes tok tmpl mode)
      else dp_object_check_required_attributes tok tmpl mode)"

definition dp_dsa_check_required_attributes :: "tokdata \<Rightarrow> template \<Rightarrow> mode \<Rightarrow> ck_rv option" where
  "dp_dsa_check_required_attributes tok tmpl mode = dp_required tok tmpl mode [CKA_PRIME, CKA_SUBPRIME, CKA_BASE] [CKA_PRIME_BITS]"

definition dp_dh_check_required_attributes :: "tokdata \<Rightarrow> template \<Rightarrow> mode \<Rightarrow> ck_rv option" where
  "dp_dh_check_required_attributes tok tmpl mode = dp_required tok tmpl mode [CKA_PRIME, CKA_BASE] [CKA_PRIME_BITS]"

definition dp_x9dh_check_required_attributes :: "tokdata \<Rightarrow> template \<Rightarrow> mode \<Rightarrow> ck_rv option" where
  "dp_x9dh_check_required_attributes tok tmpl mode =
     dp_required tok tmpl mode [CKA_PRIME, CKA_SUBPRIME, CKA_BASE] [CKA_PRIME_BITS, CKA_SUBPRIME_BITS]"

section \<open>Public keys\<close>

abbreviation given :: "mode set" where "given \<equiv> {MODE_CREATE, MODE_EXTRACT}"
abbreviation given_or_generated :: "mode set" where "given_or_generated \<equiv> {MODE_CREATE, MODE_KEYGEN, MODE_ENCAPS, MODE_EXTRACT}"

definition rsa_publ_check_required_attributes :: "tokdata \<Rightarrow> template \<Rightarrow> mode \<Rightarrow> ck_rv option" where
  "rsa_publ_check_required_attributes tok tmpl mode =
     (if secure_import tok tmpl mode then publ_key_check_required_attributes tok tmpl mode
      else required given mode (nonempty tmpl CKA_MODULUS)
        (required {MODE_KEYGEN, MODE_ENCAPS} mode (template_attribute_get_ulong (big_endian tok) (Some tmpl) CKA_MODULUS_BITS)
          (required given mode (nonempty tmpl CKA_PUBLIC_EXPONENT) (publ_key_check_required_attributes tok tmpl mode))))"

definition dsa_publ_check_required_attributes :: "tokdata \<Rightarrow> template \<Rightarrow> mode \<Rightarrow> ck_rv option" where
  "dsa_publ_check_required_attributes tok tmpl mode =
     all_required tmpl mode
       (if secure_import tok tmpl mode then []
        else [(CKA_PRIME, given), (CKA_SUBPRIME, given), (CKA_BASE, given), (CKA_VALUE, given)])
       (publ_key_check_required_attributes tok tmpl mode)"

definition ec_publ_check_required_attributes :: "tokdata \<Rightarrow> template \<Rightarrow> mode \<Rightarrow> ck_rv option" where
  "ec_publ_check_required_attributes tok tmpl mode =
     all_required tmpl mode
       (if secure_import tok tmpl mode then [] else [(CKA_EC_PARAMS, given_or_generated), (CKA_EC_POINT, given)])
       (publ_key_check_required_attributes tok tmpl mode)"

definition dh_publ_check_required_attributes :: "tokdata \<Rightarrow> template \<Rightarrow> mode \<Rightarrow> ck_rv option" where
  "dh_publ_check_required_attributes tok tmpl mode =
     all_required tmpl mode
       (if secure_import tok tmpl mode then []
        else [(CKA_PRIME, given_or_generated), (CKA_BASE, given_or_generated), (CKA_VALUE, given)])
       (publ_key_check_required_attributes tok tmpl mode)"

section \<open>Private keys\<close>

text \<open>The CRT components of an RSA key are given together or not at all.\<close>

definition rsa_priv_check_required_attributes :: "tokdata \<Rightarrow> template \<Rightarrow> mode \<Rightarrow> ck_rv option" where
  "rsa_priv_check_required_attributes tok tmpl mode =
     (if secure_import tok tmpl mode then priv_key_check_required_attributes tok tmpl mode
      else all_required tmpl mode
        [(CKA_MODULUS, {MODE_CREATE}), (CKA_PUBLIC_EXPONENT, {MODE_CREATE}), (CKA_PRIVATE_EXPONENT, {MODE_CREATE})]
        (let crt = map (has tmpl) [CKA_PRIME_1, CKA_PRIME_2, CKA_EXPONENT_1, CKA_EXPONENT_2, CKA_COEFFICIENT] in
         if mode = MODE_CREATE \<and> \<not> (list_all Not crt \<or> list_all (\<lambda>b. b) crt) then Some CKR_TEMPLATE_INCONSISTENT
         else priv_key_check_required_attributes tok tmpl mode))"

definition dsa_priv_check_required_attributes :: "tokdata \<Rightarrow> template \<Rightarrow> mode \<Rightarrow> ck_rv option" where
  "dsa_priv_check_required_attributes tok tmpl mode =
     all_required tmpl mode
       (if secure_import tok tmpl mode then []
        else [(CKA_PRIME, {MODE_CREATE}), (CKA_SUBPRIME, {MODE_CREATE}), (CKA_BASE, {MODE_CREATE}), (CKA_VALUE, {MODE_CREATE})])
       (priv_key_check_required_attributes tok tmpl mode)"

definition ec_priv_check_required_attributes :: "tokdata \<Rightarrow> template \<Rightarrow> mode \<Rightarrow> ck_rv option" where
  "ec_priv_check_required_attributes tok tmpl mode =
     all_required tmpl mode
       (if secure_import tok tmpl mode then [] else [(CKA_EC_PARAMS, {MODE_CREATE}), (CKA_VALUE, {MODE_CREATE})])
       (priv_key_check_required_attributes tok tmpl mode)"

text \<open>The length of a DH value is set by the token: it must not be in the template.\<close>

definition dh_priv_check_required_attributes :: "tokdata \<Rightarrow> template \<Rightarrow> mode \<Rightarrow> ck_rv option" where
  "dh_priv_check_required_attributes tok tmpl mode =
     (if secure_import tok tmpl mode then priv_key_check_required_attributes tok tmpl mode
      else all_required tmpl mode [(CKA_PRIME, {MODE_CREATE}), (CKA_BASE, {MODE_CREATE}), (CKA_VALUE, {MODE_CREATE})]
        (case template_attribute_get_ulong (big_endian tok) (Some tmpl) CKA_VALUE_BITS of
           None \<Rightarrow> None
         | Some r \<Rightarrow>
             if r \<noteq> Inl CKR_TEMPLATE_INCOMPLETE \<and> mode \<in> {MODE_CREATE, MODE_UNWRAP, MODE_ENCAPS, MODE_DECAPS}
             then Some CKR_ATTRIBUTE_READ_ONLY
             else priv_key_check_required_attributes tok tmpl mode))"

section \<open>Post-quantum keys\<close>

definition pqc_private_seed_attr_by_mech :: "u64 \<Rightarrow> u64 option" where
  "pqc_private_seed_attr_by_mech mech =
     (if mech \<in> {CKM_IBM_DILITHIUM, CKM_IBM_KYBER} then Some (- 1)
      else if mech \<in> {CKM_IBM_ML_DSA, CKM_IBM_ML_DSA_KEY_PAIR_GEN} then Some CKA_IBM_ML_DSA_PRIVATE_SEED
      else if mech \<in> {CKM_IBM_ML_KEM, CKM_IBM_ML_KEM_KEY_PAIR_GEN} then Some CKA_IBM_ML_KEM_PRIVATE_SEED
      else None)"

text \<open>
  Whether the template names its parameters by key form, and by object identifier: absent, known,
  or an error.
\<close>

definition keyform_present :: "tokdata \<Rightarrow> template \<Rightarrow> u64 \<Rightarrow> pqc_oid list \<Rightarrow> bool ck" where
  "keyform_present tok tmpl t oids =
     (case template_attribute_find (Some tmpl) t of
        None \<Rightarrow> ck_ok False
      | Some a \<Rightarrow>
          if value_len a \<noteq> 8 \<or> value_null a then ck_ok False
          else Option.bind (value_ulong (big_endian tok) a) (\<lambda>v.
            if find_pqc_by_keyform oids v = None then ck_fail CKR_ATTRIBUTE_VALUE_INVALID else ck_ok True))"

definition mode_present :: "template \<Rightarrow> u64 \<Rightarrow> pqc_oid list \<Rightarrow> bool ck" where
  "mode_present tmpl t oids =
     (case if t = - 1 then None else template_attribute_find (Some tmpl) t of
        None \<Rightarrow> ck_ok False
      | Some a \<Rightarrow>
          if value_len a = 0 \<or> value_null a then ck_ok False
          else (case a of
              ABytes _ bs \<Rightarrow> if find_pqc_by_oid oids bs = None then ck_fail CKR_ATTRIBUTE_VALUE_INVALID else ck_ok True
            | _ \<Rightarrow> None))"

definition one_of :: "bool \<Rightarrow> bool \<Rightarrow> ck_rv option" where
  "one_of k m = Some (if k \<and> m then CKR_TEMPLATE_INCONSISTENT else CKR_OK)"

definition pqc_check_create :: "tokdata \<Rightarrow> template \<Rightarrow> mode \<Rightarrow> u64 list \<Rightarrow> u64 \<Rightarrow> bool \<Rightarrow> bool \<Rightarrow> ck_rv option" where
  "pqc_check_create tok tmpl mode req seed k m =
     (if secure_key_token tok \<and> has tmpl CKA_IBM_OPAQUE \<or> has tmpl CKA_VALUE \<or> seed \<noteq> - 1 \<and> has tmpl seed then Some CKR_OK
      else all_required tmpl mode (map (\<lambda>t. (t, UNIV)) req)
        (if req = [] then Some CKR_TEMPLATE_INCONSISTENT else one_of k m))"

definition pqc_check_copy :: "template \<Rightarrow> u64 list \<Rightarrow> u64 \<Rightarrow> u64 \<Rightarrow> bool \<Rightarrow> bool \<Rightarrow> ck_rv option" where
  "pqc_check_copy tmpl req seed mode_attr k m =
     Some (if \<not> k \<or> mode_attr \<noteq> - 1 \<and> \<not> m then CKR_TEMPLATE_INCOMPLETE
           else if \<exists>t \<in> set req. template_attribute_find (Some tmpl) t = None then CKR_TEMPLATE_INCOMPLETE
           else if seed \<noteq> - 1 \<and> template_attribute_find (Some tmpl) seed = None then CKR_TEMPLATE_INCOMPLETE
           else CKR_OK)"

definition pqc_check_attributes :: "tokdata \<Rightarrow> template \<Rightarrow> mode \<Rightarrow> u64 \<Rightarrow> u64 list \<Rightarrow> u64 \<Rightarrow> ck_rv option" where
  "pqc_check_attributes tok tmpl mode mech req seed =
     (case pqc_keyform_mode_attrs_by_mech mech of
        None \<Rightarrow> Some CKR_MECHANISM_INVALID
      | Some (keyform_attr, mode_attr, oids) \<Rightarrow>
          (case keyform_present tok tmpl keyform_attr oids of
             None \<Rightarrow> None
           | Some (Inl rc) \<Rightarrow> Some rc
           | Some (Inr k) \<Rightarrow>
               (case mode_present tmpl mode_attr oids of
                  None \<Rightarrow> None
                | Some (Inl rc) \<Rightarrow> Some rc
                | Some (Inr m) \<Rightarrow>
                    if mode \<in> {MODE_CREATE, MODE_EXTRACT} then pqc_check_create tok tmpl mode req seed k m
                    else if mode \<in> {MODE_KEYGEN, MODE_ENCAPS} then one_of k m
                    else if mode \<in> {MODE_UNWRAP, MODE_DECAPS} then Some (if k \<or> m then CKR_TEMPLATE_INCONSISTENT else CKR_OK)
                    else if mode = MODE_COPY then pqc_check_copy tmpl req seed mode_attr k m
                    else Some CKR_OK)))"

text \<open>\<^verbatim>\<open>rc = pqc_check_attributes(...); if (rc != CKR_OK) return rc;\<close>\<close>

definition pqc_then :: "ck_rv option \<Rightarrow> ck_rv option \<Rightarrow> ck_rv option" where
  "pqc_then r k = Option.bind r (\<lambda>rc. if rc \<noteq> CKR_OK then Some rc else k)"

definition ibm_ml_dsa_publ_check_required_attributes :: "tokdata \<Rightarrow> template \<Rightarrow> mode \<Rightarrow> u64 \<Rightarrow> ck_rv option" where
  "ibm_ml_dsa_publ_check_required_attributes tok tmpl mode mech =
     pqc_then (pqc_check_attributes tok tmpl mode mech [CKA_IBM_ML_DSA_RHO, CKA_IBM_ML_DSA_T1] (- 1))
       (publ_key_check_required_attributes tok tmpl mode)"

definition ibm_ml_dsa_priv_check_required_attributes :: "tokdata \<Rightarrow> template \<Rightarrow> mode \<Rightarrow> u64 \<Rightarrow> ck_rv option" where
  "ibm_ml_dsa_priv_check_required_attributes tok tmpl mode mech =
     (case pqc_private_seed_attr_by_mech mech of
        None \<Rightarrow> Some CKR_MECHANISM_INVALID
      | Some seed \<Rightarrow> pqc_then (pqc_check_attributes tok tmpl mode mech
            [CKA_IBM_ML_DSA_RHO, CKA_IBM_ML_DSA_SEED, CKA_IBM_ML_DSA_TR, CKA_IBM_ML_DSA_S1, CKA_IBM_ML_DSA_S2,
             CKA_IBM_ML_DSA_T0, CKA_IBM_ML_DSA_T1] seed)
          (priv_key_check_required_attributes tok tmpl mode))"

definition ibm_ml_kem_publ_check_required_attributes :: "tokdata \<Rightarrow> template \<Rightarrow> mode \<Rightarrow> u64 \<Rightarrow> ck_rv option" where
  "ibm_ml_kem_publ_check_required_attributes tok tmpl mode mech =
     pqc_then (pqc_check_attributes tok tmpl mode mech [CKA_IBM_ML_KEM_PK] (- 1)) (publ_key_check_required_attributes tok tmpl mode)"

definition ibm_ml_kem_priv_check_required_attributes :: "tokdata \<Rightarrow> template \<Rightarrow> mode \<Rightarrow> u64 \<Rightarrow> ck_rv option" where
  "ibm_ml_kem_priv_check_required_attributes tok tmpl mode mech =
     (case pqc_private_seed_attr_by_mech mech of
        None \<Rightarrow> Some CKR_MECHANISM_INVALID
      | Some seed \<Rightarrow> pqc_then (pqc_check_attributes tok tmpl mode mech [CKA_IBM_ML_KEM_SK, CKA_IBM_ML_KEM_PK] seed)
          (priv_key_check_required_attributes tok tmpl mode))"

definition ml_dsa_publ_check_required_attributes :: "tokdata \<Rightarrow> template \<Rightarrow> mode \<Rightarrow> ck_rv option" where
  "ml_dsa_publ_check_required_attributes tok tmpl mode =
     pqc_then (pqc_check_attributes tok tmpl mode CKM_ML_DSA [] (- 1)) (publ_key_check_required_attributes tok tmpl mode)"

definition ml_dsa_priv_check_required_attributes :: "tokdata \<Rightarrow> template \<Rightarrow> mode \<Rightarrow> ck_rv option" where
  "ml_dsa_priv_check_required_attributes tok tmpl mode =
     pqc_then (pqc_check_attributes tok tmpl mode CKM_ML_DSA [] CKA_SEED) (priv_key_check_required_attributes tok tmpl mode)"

definition ml_kem_publ_check_required_attributes :: "tokdata \<Rightarrow> template \<Rightarrow> mode \<Rightarrow> ck_rv option" where
  "ml_kem_publ_check_required_attributes tok tmpl mode =
     pqc_then (pqc_check_attributes tok tmpl mode CKM_ML_KEM [] (- 1)) (publ_key_check_required_attributes tok tmpl mode)"

definition ml_kem_priv_check_required_attributes :: "tokdata \<Rightarrow> template \<Rightarrow> mode \<Rightarrow> ck_rv option" where
  "ml_kem_priv_check_required_attributes tok tmpl mode =
     pqc_then (pqc_check_attributes tok tmpl mode CKM_ML_KEM [] CKA_SEED) (priv_key_check_required_attributes tok tmpl mode)"

section \<open>Secret keys\<close>

definition generic_secret_check_required_attributes :: "tokdata \<Rightarrow> template \<Rightarrow> mode \<Rightarrow> ck_rv option" where
  "generic_secret_check_required_attributes tok tmpl mode =
     (if secure_import tok tmpl mode then secret_key_check_required_attributes tok tmpl mode
      else required {MODE_CREATE} mode (nonempty tmpl CKA_VALUE)
        (case template_attribute_get_ulong (big_endian tok) (Some tmpl) CKA_VALUE_LEN of
           None \<Rightarrow> None
         | Some (Inl _) \<Rightarrow> Some CKR_OK
         | Some (Inr _) \<Rightarrow>
             if mode = MODE_CREATE then Some CKR_ATTRIBUTE_READ_ONLY
             else secret_key_check_required_attributes tok tmpl mode))"

definition des_check_required_attributes :: "tokdata \<Rightarrow> template \<Rightarrow> mode \<Rightarrow> ck_rv option" where
  "des_check_required_attributes tok tmpl mode =
     all_required tmpl mode (if secure_import tok tmpl mode then [] else [(CKA_VALUE, {MODE_CREATE})])
       (secret_key_check_required_attributes tok tmpl mode)"

definition des2_check_required_attributes :: "tokdata \<Rightarrow> template \<Rightarrow> mode \<Rightarrow> ck_rv option" where
  "des2_check_required_attributes tok tmpl mode =
     all_required tmpl mode (if secure_import tok tmpl mode then [] else [(CKA_VALUE, {MODE_CREATE})])
       (secret_key_check_required_attributes tok tmpl mode)"

definition des3_check_required_attributes :: "tokdata \<Rightarrow> template \<Rightarrow> mode \<Rightarrow> ck_rv option" where
  "des3_check_required_attributes tok tmpl mode =
     all_required tmpl mode (if secure_import tok tmpl mode then [] else [(CKA_VALUE, {MODE_CREATE})])
       (secret_key_check_required_attributes tok tmpl mode)"

definition aes_check_required_attributes :: "tokdata \<Rightarrow> template \<Rightarrow> mode \<Rightarrow> ck_rv option" where
  "aes_check_required_attributes tok tmpl mode =
     all_required tmpl mode (if secure_import tok tmpl mode then [] else [(CKA_VALUE, {MODE_CREATE})])
       (secret_key_check_required_attributes tok tmpl mode)"

section \<open>Dispatch\<close>

definition publ_key_required :: "tokdata \<Rightarrow> template \<Rightarrow> u64 \<Rightarrow> mode \<Rightarrow> ck_rv option" where
  "publ_key_required tok tmpl subclass mode =
     (if subclass = CKK_RSA then rsa_publ_check_required_attributes tok tmpl mode
      else if subclass = CKK_DSA then dsa_publ_check_required_attributes tok tmpl mode
      else if subclass \<in> {CKK_EC, CKK_EC_EDWARDS, CKK_EC_MONTGOMERY} then ec_publ_check_required_attributes tok tmpl mode
      else if subclass = CKK_DH then dh_publ_check_required_attributes tok tmpl mode
      else if subclass = CKK_IBM_DILITHIUM then ibm_ml_dsa_publ_check_required_attributes tok tmpl mode CKM_IBM_DILITHIUM
      else if subclass = CKK_IBM_KYBER then ibm_ml_kem_publ_check_required_attributes tok tmpl mode CKM_IBM_KYBER
      else if subclass = CKK_IBM_ML_DSA then ibm_ml_dsa_publ_check_required_attributes tok tmpl mode CKM_IBM_ML_DSA
      else if subclass = CKK_IBM_ML_KEM then ibm_ml_kem_publ_check_required_attributes tok tmpl mode CKM_IBM_ML_KEM
      else if subclass = CKK_ML_DSA then ml_dsa_publ_check_required_attributes tok tmpl mode
      else if subclass = CKK_ML_KEM then ml_kem_publ_check_required_attributes tok tmpl mode
      else Some CKR_ATTRIBUTE_VALUE_INVALID)"

definition priv_key_required :: "tokdata \<Rightarrow> template \<Rightarrow> u64 \<Rightarrow> mode \<Rightarrow> ck_rv option" where
  "priv_key_required tok tmpl subclass mode =
     (if subclass = CKK_RSA then rsa_priv_check_required_attributes tok tmpl mode
      else if subclass = CKK_DSA then dsa_priv_check_required_attributes tok tmpl mode
      else if subclass \<in> {CKK_EC, CKK_EC_EDWARDS, CKK_EC_MONTGOMERY} then ec_priv_check_required_attributes tok tmpl mode
      else if subclass = CKK_DH then dh_priv_check_required_attributes tok tmpl mode
      else if subclass = CKK_IBM_DILITHIUM then ibm_ml_dsa_priv_check_required_attributes tok tmpl mode CKM_IBM_DILITHIUM
      else if subclass = CKK_IBM_KYBER then ibm_ml_kem_priv_check_required_attributes tok tmpl mode CKM_IBM_KYBER
      else if subclass = CKK_IBM_ML_DSA then ibm_ml_dsa_priv_check_required_attributes tok tmpl mode CKM_IBM_ML_DSA
      else if subclass = CKK_IBM_ML_KEM then ibm_ml_kem_priv_check_required_attributes tok tmpl mode CKM_IBM_ML_KEM
      else if subclass = CKK_ML_DSA then ml_dsa_priv_check_required_attributes tok tmpl mode
      else if subclass = CKK_ML_KEM then ml_kem_priv_check_required_attributes tok tmpl mode
      else Some CKR_ATTRIBUTE_VALUE_INVALID)"

definition secret_key_required :: "tokdata \<Rightarrow> template \<Rightarrow> u64 \<Rightarrow> mode \<Rightarrow> ck_rv option" where
  "secret_key_required tok tmpl subclass mode =
     (if subclass \<in> {CKK_GENERIC_SECRET, CKK_SHA_1_HMAC, CKK_SHA224_HMAC, CKK_SHA256_HMAC, CKK_SHA384_HMAC, CKK_SHA512_HMAC,
         CKK_SHA3_224_HMAC, CKK_SHA3_256_HMAC, CKK_SHA3_384_HMAC, CKK_SHA3_512_HMAC, CKK_SHA512_224_HMAC, CKK_SHA512_256_HMAC}
      then generic_secret_check_required_attributes tok tmpl mode
      else if subclass = CKK_DES then des_check_required_attributes tok tmpl mode
      else if subclass = CKK_DES2 then des2_check_required_attributes tok tmpl mode
      else if subclass = CKK_DES3 then des3_check_required_attributes tok tmpl mode
      else if subclass \<in> {CKK_AES, CKK_AES_XTS} then aes_check_required_attributes tok tmpl mode
      else Some CKR_ATTRIBUTE_VALUE_INVALID)"

definition template_check_required_attributes :: "tokdata \<Rightarrow> template \<Rightarrow> u64 \<Rightarrow> u64 \<Rightarrow> mode \<Rightarrow> ck_rv option" where
  "template_check_required_attributes tok tmpl cls subclass mode =
     (if cls = CKO_DATA then data_object_check_required_attributes tok tmpl mode
      else if cls = CKO_CERTIFICATE
      then (if subclass = CKC_X_509 then cert_x509_check_required_attributes tok tmpl mode
            else cert_vendor_check_required_attributes tok tmpl mode)
      else if cls = CKO_PUBLIC_KEY then publ_key_required tok tmpl subclass mode
      else if cls = CKO_PRIVATE_KEY then priv_key_required tok tmpl subclass mode
      else if cls = CKO_SECRET_KEY then secret_key_required tok tmpl subclass mode
      else if cls = CKO_HW_FEATURE
      then (if subclass \<ge> CKH_VENDOR_DEFINED then Some CKR_OK
            else if subclass = CKH_CLOCK then clock_check_required_attributes tok tmpl mode
            else if subclass = CKH_MONOTONIC_COUNTER then counter_check_required_attributes tok tmpl mode
            else Some CKR_ATTRIBUTE_VALUE_INVALID)
      else if cls = CKO_DOMAIN_PARAMETERS
      then (if subclass = CKK_DSA then dp_dsa_check_required_attributes tok tmpl mode
            else if subclass = CKK_DH then dp_dh_check_required_attributes tok tmpl mode
            else if subclass = CKK_X9_42_DH then dp_x9dh_check_required_attributes tok tmpl mode
            else Some CKR_ATTRIBUTE_VALUE_INVALID)
      else if cls = CKO_PROFILE then profile_object_check_required_attributes tok tmpl mode
      else Some CKR_ATTRIBUTE_VALUE_INVALID)"

lemmas publ_required_defs = rsa_publ_check_required_attributes_def dsa_publ_check_required_attributes_def
  ec_publ_check_required_attributes_def dh_publ_check_required_attributes_def ibm_ml_dsa_publ_check_required_attributes_def
  ibm_ml_kem_publ_check_required_attributes_def ml_dsa_publ_check_required_attributes_def ml_kem_publ_check_required_attributes_def

lemmas priv_required_defs = rsa_priv_check_required_attributes_def dsa_priv_check_required_attributes_def
  ec_priv_check_required_attributes_def dh_priv_check_required_attributes_def ibm_ml_dsa_priv_check_required_attributes_def
  ibm_ml_kem_priv_check_required_attributes_def ml_dsa_priv_check_required_attributes_def ml_kem_priv_check_required_attributes_def

end
