(* ===== verification/Key_Objects.thy ===== *)
theory Key_Objects
  imports Attr_Required
begin

text \<open>
  Reading, changing and copying objects: \<^verbatim>\<open>template_validate_attributes\<close> and
  \<^verbatim>\<open>template_check_exportability\<close> of \<^verbatim>\<open>template.c\<close>, and \<^verbatim>\<open>object_get_attribute_values\<close>,
  \<^verbatim>\<open>object_set_attribute_values\<close> and \<^verbatim>\<open>object_copy\<close> of \<^verbatim>\<open>object.c\<close>, which C\_GetAttributeValue,
  C\_SetAttributeValue and C\_CopyObject call with the object locked. The hook
  \<^verbatim>\<open>t_set_attribute_values\<close> of the token and the initialisation of the locks are arguments.
\<close>

section \<open>The walk along a template\<close>

text \<open>A step of the walk leaves at most as many attributes ahead as there were.\<close>

definition keeps :: "cursor \<Rightarrow> verdict \<Rightarrow> bool" where
  "keeps z v \<longleftrightarrow> (\<forall>rc z' al. v = Some (rc, z', al) \<longrightarrow> length (snd (snd z')) \<le> length (snd (snd z)))"

lemma template_remove_length: "length (snd (template_remove_attribute tmpl t)) \<le> length tmpl"
  by (induction tmpl) (auto split: prod.splits)

lemma keeps_ret [simp]: "keeps z (ret rc z al)"
  by (simp add: keeps_def)

lemma keeps_None [simp]: "keeps z None"
  by (simp add: keeps_def)

lemma keeps_bind [simp]: "(\<And>v. x = Some v \<Longrightarrow> keeps z (f v)) \<Longrightarrow> keeps z (Option.bind x f)"
  by (cases x) simp_all

lemma keeps_ret_opt [simp]: "keeps z (ret_opt rc z al)"
  unfolding ret_opt_def by (rule keeps_bind) (rule keeps_ret)

lemma keeps_trim_in [simp]: "keeps z (trim_in ms mode z al)"
  by (cases z) (auto simp: keeps_def bind_eq_Some_conv)

lemma keeps_update [simp]: "keeps z (cursor_update z al a)"
proof (cases z)
  case (fields b c n)
  then show ?thesis
    using template_remove_length [of n "a_type a"]
    by (auto simp: keeps_def Let_def split: option.splits sum.splits if_splits)
qed

lemma keeps_build [simp]: "keeps z (template_build_update_attribute z al t bs)"
  unfolding template_build_update_attribute_def by (auto simp del: ret.simps split: option.splits sum.splits)

lemma keeps_if: "keeps z v \<Longrightarrow> keeps z w \<Longrightarrow> keeps z (if c then v else w)"
  by simp

lemmas keeps_intros = keeps_if keeps_bind keeps_ret keeps_None keeps_ret_opt keeps_trim_in keeps_build

lemma keeps_key_object: "keeps z (key_object_validate_attribute z al mode)"
  unfolding key_object_validate_attribute_def Let_def by (intro keeps_intros)

lemma keeps_extractable: "keeps z (validate_extractable z al ms mode)"
  unfolding validate_extractable_def by (intro keeps_intros)

lemma keeps_publ_key: "keeps z (publ_key_validate_attribute tok z al mode)"
  unfolding publ_key_validate_attribute_def Let_def by (intro keeps_intros keeps_key_object)

lemma keeps_priv_key: "keeps z (priv_key_validate_attribute tok z al mode)"
  unfolding priv_key_validate_attribute_def Let_def
  by (intro keeps_intros keeps_key_object keeps_extractable) (auto simp del: ret.simps split: option.splits sum.splits)

lemma keeps_secret_key: "keeps z (secret_key_validate_attribute tok z al mode)"
  unfolding secret_key_validate_attribute_def Let_def by (intro keeps_intros keeps_key_object keeps_extractable)

lemmas publ_defs = rsa_publ_validate_attribute_def dsa_publ_validate_attribute_def ec_publ_validate_attribute_def
  dh_publ_validate_attribute_def ibm_ml_dsa_publ_validate_attribute_def ibm_ml_kem_publ_validate_attribute_def
  ml_dsa_publ_validate_attribute_def ml_kem_publ_validate_attribute_def

lemmas priv_defs = rsa_priv_validate_attribute_def dsa_priv_validate_attribute_def ec_priv_validate_attribute_def
  dh_priv_validate_attribute_def ibm_ml_dsa_priv_validate_attribute_def ibm_ml_kem_priv_validate_attribute_def
  ml_dsa_priv_validate_attribute_def ml_kem_priv_validate_attribute_def

lemmas secret_defs = generic_secret_validate_attribute_def des_validate_attribute_def des2_validate_attribute_def
  des3_validate_attribute_def aes_validate_attribute_def

lemma keeps_publ_dispatch: "keeps z (publ_key_dispatch tok z al subclass mode)"
  unfolding publ_key_dispatch_def publ_defs Let_def by (intro keeps_intros keeps_publ_key)

lemma keeps_priv_dispatch: "keeps z (priv_key_dispatch tok z al subclass mode)"
  unfolding priv_key_dispatch_def priv_defs Let_def by (intro keeps_intros keeps_priv_key)

lemma keeps_secret_dispatch: "keeps z (secret_key_dispatch tok z al subclass mode)"
  unfolding secret_key_dispatch_def secret_defs Let_def by (intro keeps_intros keeps_secret_key)

lemma keeps_validate: "keeps z (template_validate_attribute tok z al cls subclass mode)"
  unfolding template_validate_attribute_def Let_def
  by (intro keeps_intros keeps_publ_dispatch keeps_priv_dispatch keeps_secret_dispatch)

text \<open>\<open>b\<close> are the attributes passed, in the order of the list.\<close>

function validate_walk ::
  "tokdata \<Rightarrow> attribute list \<Rightarrow> attribute list \<Rightarrow> allocs \<Rightarrow> u64 \<Rightarrow> u64 \<Rightarrow> mode \<Rightarrow> (ck_rv \<times> template \<times> allocs) option" where
  "validate_walk tok b [] al cls subclass mode = Some (CKR_OK, b, al)"
| "validate_walk tok b (a # n) al cls subclass mode =
     (case template_validate_attribute tok (b, a, n) al cls subclass mode of
        None \<Rightarrow> None
      | Some (rc, (b', a', n'), al') \<Rightarrow>
          if rc \<noteq> CKR_OK then Some (rc, b' @ a' # n', al')
          else validate_walk tok (b' @ [a']) n' al' cls subclass mode)"
  by pat_completeness auto
termination
proof (relation "measure (\<lambda>(tok, b, n, _). length n)", goal_cases)
  case (2 tok b a n al cls sub mode)
  then show ?case
    using keeps_validate [of "(b, a, n)" tok al cls sub mode] by (auto simp: keeps_def)
qed simp

definition template_validate_attributes :: "tokdata \<Rightarrow> template \<Rightarrow> allocs \<Rightarrow> u64 \<Rightarrow> u64 \<Rightarrow> mode \<Rightarrow> (ck_rv \<times> template \<times> allocs) option" where
  "template_validate_attributes tok tmpl al cls subclass mode = validate_walk tok [] tmpl al cls subclass mode"

section \<open>What may be shown\<close>

definition rsa_priv_check_exportability :: "u64 \<Rightarrow> bool" where
  "rsa_priv_check_exportability t \<longleftrightarrow>
     t \<notin> {CKA_PRIVATE_EXPONENT, CKA_PRIME_1, CKA_PRIME_2, CKA_EXPONENT_1, CKA_EXPONENT_2, CKA_COEFFICIENT}"

definition dsa_priv_check_exportability :: "u64 \<Rightarrow> bool" where
  "dsa_priv_check_exportability t \<longleftrightarrow> t \<noteq> CKA_VALUE"

definition ec_priv_check_exportability :: "u64 \<Rightarrow> bool" where
  "ec_priv_check_exportability t \<longleftrightarrow> t \<noteq> CKA_VALUE"

definition dh_priv_check_exportability :: "u64 \<Rightarrow> bool" where
  "dh_priv_check_exportability t \<longleftrightarrow> t \<noteq> CKA_VALUE"

definition ibm_ml_dsa_priv_check_exportability :: "u64 \<Rightarrow> bool" where
  "ibm_ml_dsa_priv_check_exportability t \<longleftrightarrow>
     t \<notin> {CKA_VALUE, CKA_IBM_ML_DSA_SEED, CKA_IBM_ML_DSA_TR, CKA_IBM_ML_DSA_S1, CKA_IBM_ML_DSA_S2, CKA_IBM_ML_DSA_T0,
          CKA_IBM_ML_DSA_PRIVATE_SEED}"

definition ibm_ml_kem_priv_check_exportability :: "u64 \<Rightarrow> bool" where
  "ibm_ml_kem_priv_check_exportability t \<longleftrightarrow> t \<notin> {CKA_VALUE, CKA_IBM_ML_KEM_SK, CKA_IBM_ML_KEM_PRIVATE_SEED}"

definition ml_dsa_priv_check_exportability :: "u64 \<Rightarrow> bool" where
  "ml_dsa_priv_check_exportability t \<longleftrightarrow> t \<notin> {CKA_VALUE, CKA_SEED}"

definition ml_kem_priv_check_exportability :: "u64 \<Rightarrow> bool" where
  "ml_kem_priv_check_exportability t \<longleftrightarrow> t \<notin> {CKA_VALUE, CKA_SEED}"

definition secret_key_check_exportability :: "u64 \<Rightarrow> bool" where
  "secret_key_check_exportability t \<longleftrightarrow> t \<noteq> CKA_VALUE"

definition priv_check_exportability :: "u64 \<Rightarrow> u64 \<Rightarrow> bool" where
  "priv_check_exportability subclass t =
     (if subclass = CKK_RSA then rsa_priv_check_exportability t
      else if subclass = CKK_DSA then dsa_priv_check_exportability t
      else if subclass \<in> {CKK_EC, CKK_EC_EDWARDS, CKK_EC_MONTGOMERY} then ec_priv_check_exportability t
      else if subclass \<in> {CKK_X9_42_DH, CKK_DH} then dh_priv_check_exportability t
      else if subclass \<in> {CKK_IBM_DILITHIUM, CKK_IBM_ML_DSA} then ibm_ml_dsa_priv_check_exportability t
      else if subclass \<in> {CKK_IBM_KYBER, CKK_IBM_ML_KEM} then ibm_ml_kem_priv_check_exportability t
      else if subclass = CKK_ML_DSA then ml_dsa_priv_check_exportability t
      else if subclass = CKK_ML_KEM then ml_kem_priv_check_exportability t
      else True)"

definition template_check_exportability :: "bool \<Rightarrow> template option \<Rightarrow> u64 \<Rightarrow> bool option" where
  "template_check_exportability be tmpl t =
     (case tmpl of
        None \<Rightarrow> Some False
      | Some as \<Rightarrow>
          if t = CKA_IBM_OPAQUE_PKEY then Some False
          else Option.bind (template_get_class be as (False, 0, 0)) (\<lambda>(_, cls, subclass).
            if cls \<noteq> CKO_PRIVATE_KEY \<and> cls \<noteq> CKO_SECRET_KEY then Some True
            else (case template_attribute_get_bool tmpl CKA_SENSITIVE of
                None \<Rightarrow> None
              | Some (Inl _) \<Rightarrow> Some False
              | Some (Inr s) \<Rightarrow>
                  (case template_attribute_get_bool tmpl CKA_EXTRACTABLE of
                     None \<Rightarrow> None
                   | Some (Inl _) \<Rightarrow> Some False
                   | Some (Inr e) \<Rightarrow>
                       if s = 0 \<and> e = 1 then Some True
                       else Some (if cls = CKO_PRIVATE_KEY then priv_check_exportability subclass t
                                  else secret_key_check_exportability t)))))"

section \<open>Reading\<close>

text \<open>
  A structure of the caller: type, buffer and length. The buffer is NULL, bytes, or an array of
  such structures; to copy more than it holds, or bytes over structures, is undefined.
\<close>

datatype request = Request (r_type: u64) (r_buf: rbuf) (r_len: u64)
and rbuf = RNull | RBytes "byte list" | RArray "request list"

definition CK_UNAVAILABLE_INFORMATION :: u64 where "CK_UNAVAILABLE_INFORMATION = - 1"

fun set_len :: "request \<Rightarrow> u64 \<Rightarrow> request" where "set_len (Request t b n) m = Request t b m"
fun set_type :: "request \<Rightarrow> u64 \<Rightarrow> request" where "set_type (Request t b n) u = Request u b n"

definition copy_value :: "attribute \<Rightarrow> request \<Rightarrow> request option" where
  "copy_value a r =
     (case (a, r_buf r) of
        (ABytes _ bs, RBytes mem) \<Rightarrow> map_option (\<lambda>mem. Request (r_type r) (RBytes mem) (r_len r)) (put_bytes mem 0 bs)
      | _ \<Rightarrow> if value_len a = 0 then Some r else None)"

fun object_get_attribute_array :: "attribute \<Rightarrow> request \<Rightarrow> (ck_rv \<times> request) option"
  and get_elements :: "attribute list \<Rightarrow> request list \<Rightarrow> ck_rv \<Rightarrow> (ck_rv \<times> request list) option" where
  "object_get_attribute_array (ABytes t bs) r =
     (if \<not> is_attribute_attr_array t then Some (CKR_ATTRIBUTE_TYPE_INVALID, r)
      else if r_buf r = RNull then Some (CKR_OK, set_len r (of_nat (length bs)))
      else if unat (r_len r) < length bs then Some (CKR_BUFFER_TOO_SMALL, set_len r CK_UNAVAILABLE_INFORMATION)
      else if bs = [] then Some (CKR_OK, r) else None)"
| "object_get_attribute_array (AArray t es) r =
     (if \<not> is_attribute_attr_array t then Some (CKR_ATTRIBUTE_TYPE_INVALID, r)
      else if r_buf r = RNull then Some (CKR_OK, set_len r (of_nat (length es * ATTR_SIZE)))
      else if unat (r_len r) < length es * ATTR_SIZE then Some (CKR_BUFFER_TOO_SMALL, set_len r CK_UNAVAILABLE_INFORMATION)
      else (case r_buf r of
          RArray rs \<Rightarrow> map_option (\<lambda>(rc, rs). (rc, Request (r_type r) (RArray rs) (r_len r))) (get_elements es rs CKR_OK)
        | _ \<Rightarrow> if es = [] then Some (CKR_OK, r) else None))"
| "object_get_attribute_array (ANull t n) r =
     (if \<not> is_attribute_attr_array t then Some (CKR_ATTRIBUTE_TYPE_INVALID, r)
      else if r_buf r = RNull then Some (CKR_OK, set_len r (of_nat n))
      else if unat (r_len r) < n then Some (CKR_BUFFER_TOO_SMALL, set_len r CK_UNAVAILABLE_INFORMATION)
      else if n < ATTR_SIZE then Some (CKR_OK, r) else None)"
| "get_elements [] rs rc = Some (rc, rs)"
| "get_elements (e # es) [] rc = None"
| "get_elements (e # es) (r # rs) rc =
     (let r = set_type r (a_type e);
          next = (\<lambda>rc r. map_option (\<lambda>(rc, rs). (rc, r # rs)) (get_elements es rs rc)) in
      if r_buf r = RNull then next rc (set_len r (of_nat (value_len e)))
      else if unat (r_len r) \<ge> value_len e
      then if value_null e then next rc (set_len r (of_nat (value_len e)))
           else if is_attribute_attr_array (a_type e)
           then (case object_get_attribute_array e r of
               None \<Rightarrow> None
             | Some (rc2, r) \<Rightarrow>
                 if rc2 = CKR_BUFFER_TOO_SMALL then next rc2 (set_len r (of_nat (value_len e)))
                 else if rc2 \<noteq> CKR_OK then Some (rc2, r # rs)
                 else next rc (set_len r (of_nat (value_len e))))
           else Option.bind (copy_value e r) (\<lambda>r. next rc (set_len r (of_nat (value_len e))))
      else next CKR_BUFFER_TOO_SMALL (set_len r CK_UNAVAILABLE_INFORMATION))"

text \<open>One element of the caller's template; the flag tells whether the loop goes on.\<close>

definition get_attribute_value :: "bool \<Rightarrow> template option \<Rightarrow> request \<Rightarrow> ck_rv \<Rightarrow> (bool \<times> ck_rv \<times> request) option" where
  "get_attribute_value be tmpl r rc =
     Option.bind (template_check_exportability be tmpl (r_type r)) (\<lambda>flag.
     if \<not> flag then Some (True, CKR_ATTRIBUTE_SENSITIVE, set_len r CK_UNAVAILABLE_INFORMATION)
     else (case template_attribute_find tmpl (r_type r) of
         None \<Rightarrow> Some (True, CKR_ATTRIBUTE_TYPE_INVALID, set_len r CK_UNAVAILABLE_INFORMATION)
       | Some a \<Rightarrow>
           if r_buf r = RNull then Some (True, rc, set_len r (of_nat (value_len a)))
           else if unat (r_len r) \<ge> value_len a
           then if value_null a then Some (True, rc, set_len r (of_nat (value_len a)))
                else if is_attribute_attr_array (a_type a)
                then Option.bind (object_get_attribute_array a r) (\<lambda>(rc2, r).
                    if rc2 = CKR_BUFFER_TOO_SMALL then Some (True, rc2, set_len r (of_nat (value_len a)))
                    else if rc2 \<noteq> CKR_OK then Some (False, rc2, r)
                    else Some (True, rc, set_len r (of_nat (value_len a))))
                else map_option (\<lambda>r. (True, rc, set_len r (of_nat (value_len a)))) (copy_value a r)
           else Some (True, CKR_BUFFER_TOO_SMALL, set_len r CK_UNAVAILABLE_INFORMATION)))"

fun get_attribute_values :: "bool \<Rightarrow> template option \<Rightarrow> request list \<Rightarrow> ck_rv \<Rightarrow> (ck_rv \<times> request list) option" where
  "get_attribute_values be tmpl [] rc = Some (rc, [])"
| "get_attribute_values be tmpl (r # rs) rc =
     Option.bind (get_attribute_value be tmpl r rc) (\<lambda>(go, rc, r).
       if go then map_option (\<lambda>(rc, rs). (rc, r # rs)) (get_attribute_values be tmpl rs rc)
       else Some (rc, r # rs))"

definition object_get_attribute_values :: "bool \<Rightarrow> template option \<Rightarrow> request list \<Rightarrow> (ck_rv \<times> request list) option" where
  "object_get_attribute_values be tmpl rs = get_attribute_values be tmpl rs CKR_OK"

section \<open>Changing and copying\<close>

text \<open>
  The token's hook may refuse the change and may change both the object and the new attributes;
  \<^term>\<open>None\<close> stands for a token without one. \<open>junk\<close> is what the uninitialised variables for class and
  subclass hold. The template after a failed call is part of the result.
\<close>

type_synonym set_hook = "(template \<Rightarrow> template \<Rightarrow> ck_rv \<times> template \<times> template) option"

definition call_hook :: "set_hook \<Rightarrow> template \<Rightarrow> template \<Rightarrow> ck_rv \<times> template \<times> template" where
  "call_hook hook tmpl new = (case hook of None \<Rightarrow> (CKR_OK, tmpl, new) | Some h \<Rightarrow> h tmpl new)"

definition object_set_attribute_values ::
  "tokdata \<Rightarrow> set_hook \<Rightarrow> u64 \<times> u64 \<Rightarrow> allocs \<Rightarrow> template \<Rightarrow> attribute list \<Rightarrow> (ck_rv \<times> template \<times> allocs) option" where
  "object_set_attribute_values tok hook junk al tmpl attrs =
     Option.bind (template_get_class (big_endian tok) tmpl (False, junk)) (\<lambda>(found, cls, subclass).
     if \<not> found then Some (CKR_FUNCTION_FAILED, tmpl, al)
     else (case ck_malloc al of
         Some (Inr al) \<Rightarrow>
           Option.bind (template_add_attributes al [] attrs) (\<lambda>(rc, new, al).
           if rc \<noteq> CKR_OK then Some (rc, tmpl, al)
           else Option.bind (template_validate_attributes tok new al cls subclass MODE_MODIFY) (\<lambda>(rc, new, al).
             if rc \<noteq> CKR_OK then Some (rc, tmpl, al)
             else (case call_hook hook tmpl new of
                 (rc, tmpl, new) \<Rightarrow>
                   if rc \<noteq> CKR_OK then Some (rc, tmpl, al)
                   else Some (template_merge al tmpl new))))
       | _ \<Rightarrow> Some (CKR_HOST_MEMORY, tmpl, tl al)))"

text \<open>The second half of \<^verbatim>\<open>object_copy\<close>: the caller's attributes are checked and merged into the copy.\<close>

definition object_copy_change ::
  "tokdata \<Rightarrow> set_hook \<Rightarrow> u64 \<times> u64 \<Rightarrow> allocs \<Rightarrow> template \<Rightarrow> attribute list \<Rightarrow> (ck_rv + template) option" where
  "object_copy_change tok hook junk al copy attrs =
     Option.bind (template_add_attributes al [] attrs) (\<lambda>(rc, new, al).
     if rc \<noteq> CKR_OK then ck_fail rc
     else Option.bind (template_get_class (big_endian tok) copy (False, junk)) (\<lambda>(found, cls, subclass).
       if \<not> found then ck_fail CKR_TEMPLATE_INCONSISTENT
       else Option.bind (template_validate_attributes tok new al cls subclass MODE_COPY) (\<lambda>(rc, new, al).
         if rc \<noteq> CKR_OK then ck_fail rc
         else (case call_hook hook copy new of
             (rc, copy, new) \<Rightarrow>
               if rc \<noteq> CKR_OK then ck_fail rc
               else (case template_merge al copy new of
                   (rc, copy, al) \<Rightarrow>
                     if rc \<noteq> CKR_OK then ck_fail rc
                     else Option.bind (template_check_required_attributes tok copy cls subclass MODE_COPY) (\<lambda>rc.
                       if rc \<noteq> CKR_OK then ck_fail rc else ck_ok copy))))))"

text \<open>The three structures are allocated before any of them is looked at; \<open>locks\<close> are the results of initialising the locks.\<close>

definition object_copy ::
  "tokdata \<Rightarrow> set_hook \<Rightarrow> u64 \<times> u64 \<Rightarrow> ck_rv \<times> ck_rv \<Rightarrow> byte list option \<Rightarrow> allocs \<Rightarrow> template \<Rightarrow> attribute list \<Rightarrow>
     (ck_rv + template) option" where
  "object_copy tok hook junk locks uid al tmpl attrs =
     (if False \<in> set (take 3 al) then ck_fail CKR_HOST_MEMORY
      else if fst locks \<noteq> CKR_OK then ck_fail (fst locks)
      else if snd locks \<noteq> CKR_OK then ck_fail (snd locks)
      else ck_bind (template_copy uid (drop 3 al) [] tmpl) (\<lambda>(copy, al). object_copy_change tok hook junk al copy attrs))"

end
