(* ===== verification/Key_Secrecy.thy ===== *)
theory Key_Secrecy
  imports Key_Objects Template_Facts
begin

text \<open>
  Two keys that are sensitive or not extractable and differ in their key material only: reading,
  changing and copying them gives the same codes and values, and keys of that kind again.
\<close>

section \<open>Templates that differ in some attributes\<close>

definition same_but :: "u64 set \<Rightarrow> template \<Rightarrow> template \<Rightarrow> bool" where
  "same_but S = list_all2 (\<lambda>a b. a = b \<or> a_type a = a_type b \<and> a_type a \<in> S \<and> attr_ok a \<and> attr_ok b)"

lemma same_but_simps [simp]:
  "same_but S [] t \<longleftrightarrow> t = []"
  "same_but S (a # s) (b # t) \<longleftrightarrow> (a = b \<or> a_type a = a_type b \<and> a_type a \<in> S \<and> attr_ok a \<and> attr_ok b) \<and> same_but S s t"
  by (simp_all add: same_but_def)

lemma same_but_refl [simp]: "same_but S t t"
  by (simp add: same_but_def list_all2_refl)

lemma same_but_ConsE:
  assumes "same_but S (a # s) t"
  obtains b u where "t = b # u" "a = b \<or> a_type a = a_type b \<and> a_type a \<in> S \<and> attr_ok a \<and> attr_ok b" "same_but S s u"
  using assms by (auto simp: same_but_def list_all2_Cons1)

lemma same_but_induct [consumes 1, case_names Nil Cons]:
  assumes "same_but S s t" "P [] []"
    and "\<And>a s b t. a_type a = a_type b \<Longrightarrow> a = b \<or> a_type a \<in> S \<and> attr_ok a \<and> attr_ok b \<Longrightarrow> same_but S s t \<Longrightarrow> P s t \<Longrightarrow> P (a # s) (b # t)"
  shows "P s t"
  using assms(1) unfolding same_but_def
  by (induction rule: list_all2_induct) (use assms(2,3) in \<open>auto simp: same_but_def\<close>)

lemma same_but_find:
  assumes "same_but S s t" "u \<notin> S"
  shows "template_attribute_find (Some s) u = template_attribute_find (Some t) u"
  using assms by (induction rule: same_but_induct) (auto simp: template_attribute_find_def)

lemma same_but_present:
  assumes "same_but S s t"
  shows "template_attribute_find (Some s) u = None \<longleftrightarrow> template_attribute_find (Some t) u = None"
  using assms by (induction rule: same_but_induct) (auto simp: template_attribute_find_def)

definition class_types :: "u64 set" where
  "class_types = {CKA_CLASS, CKA_CERTIFICATE_TYPE, CKA_KEY_TYPE, CKA_HW_FEATURE_TYPE}"

lemma find_type: "find (\<lambda>a. t = a_type a) tmpl = Some a \<Longrightarrow> a_type a = t"
  by (auto simp: find_Some_iff)

lemma class_of_other: "a_type a \<noteq> t \<Longrightarrow> class_of be t old a = Some old"
  by (simp add: class_of_def)

lemma get_class_skip: "a_type a \<notin> class_types \<Longrightarrow> template_get_class be (a # tmpl) r = template_get_class be tmpl r"
  by (cases r) (simp add: class_of_other class_types_def)

lemma same_but_class:
  assumes "same_but S s t" "S \<inter> class_types = {}"
  shows "template_get_class be s r = template_get_class be t r"
  using assms
proof (induction arbitrary: r rule: same_but_induct)
  case (Cons a s b t)
  then show ?case
  proof (cases "a = b")
    case True
    with Cons show ?thesis by (cases r) simp
  next
    case False
    with Cons have "a_type a \<notin> class_types" "a_type b \<notin> class_types" by auto
    with Cons show ?thesis by (simp only: get_class_skip)
  qed
qed simp

lemma same_but_remove:
  assumes "same_but S s t"
  shows "fst (template_remove_attribute s u) = fst (template_remove_attribute t u) \<and>
    same_but S (snd (template_remove_attribute s u)) (snd (template_remove_attribute t u))"
  using assms by (induction rule: same_but_induct) (auto split: prod.splits)

lemma same_but_update:
  assumes "same_but S s t" "template_update_attribute al s a = (rc, s', al')"
  shows "\<exists>t'. template_update_attribute al t a = (rc, t', al') \<and> same_but S s' t'"
  using assms same_but_remove [OF assms(1), of "a_type a"]
  by (auto simp: template_update_attribute_def split: prod.splits option.splits sum.splits if_splits)

lemma same_but_merge:
  assumes "same_but S s t" "template_merge al s new = (rc, s', al')"
  shows "\<exists>t'. template_merge al t new = (rc, t', al') \<and> same_but S s' t'"
  using assms
proof (induction new arbitrary: al s t)
  case (Cons a new)
  obtain rc1 s1 al1 where s1: "template_update_attribute al s a = (rc1, s1, al1)" by (cases "template_update_attribute al s a") auto
  from same_but_update [OF Cons.prems(1) s1] obtain t1 where
    t1: "template_update_attribute al t a = (rc1, t1, al1)" "same_but S s1 t1" by blast
  show ?case
    using Cons.IH [OF t1(2)] Cons.prems(2) s1 t1 by (auto split: if_splits)
qed auto

section \<open>Key material\<close>

text \<open>The attributes PKCS\#11 calls sensitive, per class and key type.\<close>

definition key_material :: "u64 \<Rightarrow> u64 \<Rightarrow> u64 set" where
  "key_material cls kt =
     (if cls = CKO_SECRET_KEY then {CKA_VALUE}
      else if cls \<noteq> CKO_PRIVATE_KEY then {}
      else if kt = CKK_RSA
      then {CKA_PRIVATE_EXPONENT, CKA_PRIME_1, CKA_PRIME_2, CKA_EXPONENT_1, CKA_EXPONENT_2, CKA_COEFFICIENT}
      else if kt \<in> {CKK_DSA, CKK_DH, CKK_X9_42_DH, CKK_EC, CKK_EC_EDWARDS, CKK_EC_MONTGOMERY} then {CKA_VALUE}
      else if kt \<in> {CKK_IBM_DILITHIUM, CKK_IBM_ML_DSA}
      then {CKA_VALUE, CKA_IBM_ML_DSA_SEED, CKA_IBM_ML_DSA_TR, CKA_IBM_ML_DSA_S1, CKA_IBM_ML_DSA_S2, CKA_IBM_ML_DSA_T0,
            CKA_IBM_ML_DSA_PRIVATE_SEED}
      else if kt \<in> {CKK_IBM_KYBER, CKK_IBM_ML_KEM} then {CKA_VALUE, CKA_IBM_ML_KEM_SK, CKA_IBM_ML_KEM_PRIVATE_SEED}
      else if kt \<in> {CKK_ML_DSA, CKK_ML_KEM} then {CKA_VALUE, CKA_SEED}
      else {})"

definition public_types :: "u64 set" where
  "public_types = class_types \<union> {CKA_SENSITIVE, CKA_EXTRACTABLE, CKA_UNIQUE_ID, CKA_VALUE_LEN, CKA_VALUE_BITS,
     CKA_IBM_DILITHIUM_KEYFORM, CKA_IBM_DILITHIUM_MODE, CKA_IBM_KYBER_KEYFORM, CKA_IBM_KYBER_MODE, CKA_IBM_PARAMETER_SET, CKA_PARAMETER_SET}"

lemma key_material_public: "key_material cls kt \<inter> public_types = {}"
  by (simp add: key_material_def public_types_def class_types_def ck_consts)

lemma key_material_exportability:
  "cls = CKO_PRIVATE_KEY \<Longrightarrow> priv_check_exportability kt t \<longleftrightarrow> t \<notin> key_material cls kt"
  "cls = CKO_SECRET_KEY \<Longrightarrow> secret_key_check_exportability t \<longleftrightarrow> t \<notin> key_material cls kt"
  by (auto simp: key_material_def priv_check_exportability_def rsa_priv_check_exportability_def dsa_priv_check_exportability_def
      ec_priv_check_exportability_def dh_priv_check_exportability_def ibm_ml_dsa_priv_check_exportability_def
      ibm_ml_kem_priv_check_exportability_def ml_dsa_priv_check_exportability_def ml_kem_priv_check_exportability_def
      secret_key_check_exportability_def CKO_PRIVATE_KEY_def CKO_SECRET_KEY_def)

text \<open>Not both insensitive and extractable; a missing or malformed flag counts as set.\<close>

definition locked :: "template \<Rightarrow> bool" where
  "locked tmpl \<longleftrightarrow> \<not> (template_attribute_get_bool (Some tmpl) CKA_SENSITIVE = ck_ok 0 \<and>
     template_attribute_get_bool (Some tmpl) CKA_EXTRACTABLE = ck_ok 1)"

text \<open>A locked key, with its class and type.\<close>

definition locked_key :: "bool \<Rightarrow> u64 \<Rightarrow> u64 \<Rightarrow> template \<Rightarrow> bool" where
  "locked_key be cls kt tmpl \<longleftrightarrow> typed tmpl \<and> locked tmpl \<and> cls \<in> {CKO_PRIVATE_KEY, CKO_SECRET_KEY} \<and>
     template_attribute_get_ulong be (Some tmpl) CKA_CLASS = ck_ok cls \<and>
     template_attribute_get_ulong be (Some tmpl) CKA_KEY_TYPE = ck_ok kt \<and>
     template_attribute_find (Some tmpl) CKA_CERTIFICATE_TYPE = None \<and>
     template_attribute_find (Some tmpl) CKA_HW_FEATURE_TYPE = None"

lemma class_types_distinct:
  "CKA_CLASS \<noteq> CKA_KEY_TYPE" "CKA_CLASS \<noteq> CKA_CERTIFICATE_TYPE" "CKA_CLASS \<noteq> CKA_HW_FEATURE_TYPE"
  "CKA_KEY_TYPE \<noteq> CKA_CERTIFICATE_TYPE" "CKA_KEY_TYPE \<noteq> CKA_HW_FEATURE_TYPE"
  by (simp_all add: ck_consts)

lemma get_class_find:
  assumes "distinct (map a_type tmpl)" "find (\<lambda>a. CKA_CERTIFICATE_TYPE = a_type a) tmpl = None"
    "find (\<lambda>a. CKA_HW_FEATURE_TYPE = a_type a) tmpl = None"
  shows "template_get_class be tmpl (f, c0, s0) = do {
    c \<leftarrow> (case find (\<lambda>a. CKA_CLASS = a_type a) tmpl of None \<Rightarrow> Some c0 | Some a \<Rightarrow> class_of be CKA_CLASS c0 a);
    s \<leftarrow> (case find (\<lambda>a. CKA_KEY_TYPE = a_type a) tmpl of None \<Rightarrow> Some s0 | Some a \<Rightarrow> class_of be CKA_KEY_TYPE s0 a);
    Some (f \<or> (case find (\<lambda>a. CKA_CLASS = a_type a) tmpl of None \<Rightarrow> False | Some a \<Rightarrow> value_len a = 8 \<and> \<not> value_null a), c, s) }"
  using assms
proof (induction tmpl arbitrary: f c0 s0)
  case (Cons a tmpl)
  have no: "find (\<lambda>b. a_type a = a_type b) tmpl = None" using Cons.prems by (auto simp: find_None_iff)
  show ?case
  proof (cases "a_type a = CKA_CLASS \<or> a_type a = CKA_KEY_TYPE")
    case True
    then show ?thesis
    proof
      assume t: "a_type a = CKA_CLASS"
      then show ?thesis
        using Cons no class_types_distinct by (cases "class_of be CKA_CLASS c0 a") (auto simp: class_of_other)
    next
      assume t: "a_type a = CKA_KEY_TYPE"
      then show ?thesis
        using Cons no class_types_distinct by (cases "class_of be CKA_KEY_TYPE s0 a") (auto simp: class_of_other split: option.splits)
    qed
  next
    case False
    then show ?thesis using Cons by (auto simp: class_of_other split: if_splits)
  qed
qed simp

lemma locked_key_class: "locked_key be cls kt s \<Longrightarrow> template_get_class be s r = Some (True, cls, kt)"
  using get_class_find [of s be]
  by (cases r)
    (auto simp: locked_key_def typed_def template_attribute_find_def template_attribute_get_ulong_def class_of_def
      dest!: find_type split: option.splits if_splits)

lemma locked_not_exportable:
  assumes "locked_key be cls kt tmpl" "t \<in> key_material cls kt"
  shows "template_check_exportability be (Some tmpl) t \<noteq> Some True"
proof -
  have "cls = CKO_PRIVATE_KEY \<and> \<not> priv_check_exportability kt t \<or> cls = CKO_SECRET_KEY \<and> \<not> secret_key_check_exportability t"
    using assms key_material_exportability(1) [of cls kt t] key_material_exportability(2) [of cls t kt]
    by (auto simp: locked_key_def)
  moreover have "CKO_SECRET_KEY \<noteq> CKO_PRIVATE_KEY" by (simp add: ck_consts)
  ultimately show ?thesis
    using assms(1) locked_key_class [OF assms(1)]
    by (auto simp: locked_key_def locked_def template_check_exportability_def split: option.splits sum.splits)
qed

lemma same_but_get_bool:
  "same_but S s t \<Longrightarrow> u \<notin> S \<Longrightarrow> template_attribute_get_bool (Some s) u = template_attribute_get_bool (Some t) u"
  by (simp add: template_attribute_get_bool_def same_but_find)

lemma same_but_get_ulong:
  "same_but S s t \<Longrightarrow> u \<notin> S \<Longrightarrow> template_attribute_get_ulong be (Some s) u = template_attribute_get_ulong be (Some t) u"
  by (simp add: template_attribute_get_ulong_def same_but_find)

lemma key_material_not:
  "u \<in> public_types \<Longrightarrow> u \<notin> key_material cls kt"
  using key_material_public [of cls kt] by auto

lemma public_types_simps [simp]:
  "CKA_SENSITIVE \<in> public_types" "CKA_EXTRACTABLE \<in> public_types" "CKA_UNIQUE_ID \<in> public_types" "CKA_VALUE_LEN \<in> public_types"
  "CKA_VALUE_BITS \<in> public_types" "CKA_CLASS \<in> public_types" "CKA_KEY_TYPE \<in> public_types"
  "CKA_IBM_DILITHIUM_KEYFORM \<in> public_types" "CKA_IBM_DILITHIUM_MODE \<in> public_types" "CKA_IBM_KYBER_KEYFORM \<in> public_types"
  "CKA_IBM_KYBER_MODE \<in> public_types" "CKA_IBM_PARAMETER_SET \<in> public_types" "CKA_PARAMETER_SET \<in> public_types"
  by (simp_all add: public_types_def class_types_def)

lemma key_material_class: "key_material cls kt \<inter> class_types = {}"
  using key_material_public [of cls kt] by (auto simp: public_types_def)

lemma same_but_exportability:
  assumes "same_but (key_material cls kt) s t"
  shows "template_check_exportability be (Some s) u = template_check_exportability be (Some t) u"
  using same_but_class [OF assms key_material_class] same_but_get_bool [OF assms] key_material_not
  by (simp add: template_check_exportability_def cong: if_cong option.case_cong sum.case_cong)

section \<open>Reading\<close>

lemma get_value_same:
  assumes "same_but (key_material cls kt) s t" "locked_key be cls kt s"
  shows "get_attribute_value be (Some s) r rc = get_attribute_value be (Some t) r rc"
proof (cases "template_check_exportability be (Some s) (r_type r)")
  case (Some flag)
  show ?thesis
  proof (cases flag)
    case True
    with Some have "r_type r \<notin> key_material cls kt" using locked_not_exportable [OF assms(2)] by auto
    from same_but_find [OF assms(1) this] show ?thesis
      by (simp add: get_attribute_value_def same_but_exportability [OF assms(1)] cong: if_cong)
  next
    case False
    with Some show ?thesis by (simp add: get_attribute_value_def same_but_exportability [OF assms(1)])
  qed
qed (simp add: get_attribute_value_def same_but_exportability [OF assms(1)])

lemma get_values_same:
  assumes "same_but (key_material cls kt) s t" "locked_key be cls kt s"
  shows "object_get_attribute_values be (Some s) rs = object_get_attribute_values be (Some t) rs"
proof -
  have "get_attribute_values be (Some s) rs rc = get_attribute_values be (Some t) rs rc" for rc
    by (induction rs arbitrary: rc) (simp_all add: get_value_same [OF assms] cong: if_cong)
  then show ?thesis by (simp add: object_get_attribute_values_def)
qed

section \<open>What the rules let an application change\<close>

definition harmless :: "attribute \<Rightarrow> bool" where
  "harmless a \<longleftrightarrow> a_type a \<notin> class_types \<and> (a_type a = CKA_SENSITIVE \<longrightarrow> value_byte a = Some 1) \<and>
     (a_type a = CKA_EXTRACTABLE \<longrightarrow> value_byte a = Some 0)"

text \<open>A verdict that accepts only harmless attributes, and changes nothing then.\<close>

definition guarded :: "cursor \<Rightarrow> allocs \<Rightarrow> verdict \<Rightarrow> bool" where
  "guarded z al v \<longleftrightarrow> (\<forall>z' al'. v = Some (CKR_OK, z', al') \<longrightarrow> z' = z \<and> al' = al \<and> harmless (current z))"

lemma guarded_ret: "(rc = CKR_OK \<Longrightarrow> harmless (current z)) \<Longrightarrow> guarded z al (ret rc z al)"
  by (cases z) (simp add: guarded_def)

lemma guarded_ret_opt: "(rc = Some CKR_OK \<Longrightarrow> harmless (current z)) \<Longrightarrow> guarded z al (ret_opt rc z al)"
  by (auto simp: guarded_def ret_opt_def bind_eq_Some_conv)

lemma guarded_if: "(c \<Longrightarrow> guarded z al v) \<Longrightarrow> (\<not> c \<Longrightarrow> guarded z al w) \<Longrightarrow> guarded z al (if c then v else w)"
  by simp

lemma guarded_trim: "mode \<notin> ms \<Longrightarrow> guarded z al (trim_in ms mode z al)"
  by (cases z) (simp add: guarded_def)

lemma guarded_bind: "(\<And>v. x = Some v \<Longrightarrow> guarded z al (f v)) \<Longrightarrow> guarded z al (Option.bind x f)"
  by (cases x) (auto simp: guarded_def)

definition late :: "mode \<Rightarrow> bool" where
  "late mode \<longleftrightarrow> mode = MODE_COPY \<or> mode = MODE_MODIFY"

lemma late_simps [simp]:
  "late mode \<Longrightarrow> mode \<notin> creating" "late mode \<Longrightarrow> mode \<noteq> MODE_CREATE" "late mode \<Longrightarrow> mode \<noteq> MODE_KEYGEN"
  "late mode \<Longrightarrow> mode \<noteq> MODE_DERIVE" "late mode \<Longrightarrow> mode \<noteq> MODE_UNWRAP" "late mode \<Longrightarrow> mode \<noteq> MODE_ENCAPS"
  "late mode \<Longrightarrow> mode \<noteq> MODE_DECAPS" "late mode \<Longrightarrow> mode \<noteq> MODE_EXTRACT"
  by (auto simp: late_def creating_def)

lemma late_modes [simp]: "late MODE_COPY" "late MODE_MODIFY"
  by (simp_all add: late_def)

text \<open>An attribute whose type is none of the six is harmless whatever its value.\<close>

lemma harmless_other: "a_type a \<notin> class_types \<union> {CKA_SENSITIVE, CKA_EXTRACTABLE} \<Longrightarrow> harmless a"
  by (simp add: harmless_def)

lemma base_guarded:
  "late mode \<Longrightarrow> template_validate_base_attribute a mode = Some CKR_OK \<Longrightarrow> harmless a"
  by (rule harmless_other)
    (auto simp: template_validate_base_attribute_def Let_def only_in_def sized_def class_types_def ck_consts split: if_splits)

lemmas guarded_intros = guarded_if guarded_bind guarded_ret guarded_ret_opt guarded_trim

text \<open>The six types told apart from the others.\<close>

lemmas attr_types = class_types_def ck_consts

lemma key_object_guarded: "late mode \<Longrightarrow> guarded z al (key_object_validate_attribute z al mode)"
  unfolding key_object_validate_attribute_def Let_def
  by (intro guarded_intros) (auto simp: only_in_def sized_def attr_types intro: base_guarded harmless_other split: if_splits)

lemma only_true_guarded:
  "late mode \<Longrightarrow> mode \<notin> ms \<Longrightarrow> a_type a \<in> {CKA_SENSITIVE, CKA_WRAP_WITH_TRUSTED} \<Longrightarrow> only_true a ms mode = Some CKR_OK \<Longrightarrow> harmless a"
  by (auto simp: only_true_def harmless_def attr_types split: if_splits)

lemma extractable_guarded:
  "late mode \<Longrightarrow> mode \<notin> ms \<Longrightarrow> a_type (current z) = CKA_EXTRACTABLE \<Longrightarrow> guarded z al (validate_extractable z al ms mode)"
  unfolding validate_extractable_def
  by (intro guarded_intros) (auto simp: harmless_def attr_types split: if_splits)

lemma guarded_only_true:
  "late mode \<Longrightarrow> mode \<notin> ms \<Longrightarrow> a_type (current z) \<in> {CKA_SENSITIVE, CKA_WRAP_WITH_TRUSTED} \<Longrightarrow>
     guarded z al (ret_opt (only_true (current z) ms mode) z al)"
  by (intro guarded_ret_opt only_true_guarded)

lemma guarded_other_type:
  "a_type (current z) \<notin> class_types \<union> {CKA_SENSITIVE, CKA_EXTRACTABLE} \<Longrightarrow> guarded z al (ret_opt rc z al)"
  by (intro guarded_ret_opt harmless_other)

lemma priv_key_guarded: "late mode \<Longrightarrow> guarded z al (priv_key_validate_attribute tok z al mode)"
  unfolding priv_key_validate_attribute_def Let_def
  by (intro guarded_if guarded_bind guarded_ret key_object_guarded extractable_guarded guarded_only_true)
    (auto simp: attr_types late_def intro: harmless_other guarded_other_type)

lemma secret_key_guarded: "late mode \<Longrightarrow> guarded z al (secret_key_validate_attribute tok z al mode)"
  unfolding secret_key_validate_attribute_def Let_def
  by (intro guarded_if guarded_bind guarded_ret key_object_guarded extractable_guarded guarded_only_true)
    (auto simp: attr_types intro: harmless_other guarded_other_type)

lemma guarded_only_in: "mode \<notin> ms \<Longrightarrow> guarded z al (ret (only_in ms mode) z al)"
  by (simp add: guarded_def only_in_def)

lemmas dispatch_guarded = guarded_if guarded_bind guarded_trim guarded_only_in

lemma priv_dispatch_guarded: "late mode \<Longrightarrow> guarded z al (priv_key_dispatch tok z al kt mode)"
  unfolding priv_key_dispatch_def priv_defs Let_def
  by (intro dispatch_guarded priv_key_guarded guarded_other_type guarded_ret harmless_other; assumption?)
    (auto simp: attr_types)

lemma secret_dispatch_guarded: "late mode \<Longrightarrow> guarded z al (secret_key_dispatch tok z al kt mode)"
  unfolding secret_key_dispatch_def secret_defs Let_def
  by (intro dispatch_guarded secret_key_guarded guarded_other_type guarded_ret harmless_other; assumption?)
    (auto simp: attr_types)

lemma validate_guarded:
  assumes "late mode" "cls \<in> {CKO_PRIVATE_KEY, CKO_SECRET_KEY}"
  shows "guarded z al (template_validate_attribute tok z al cls kt mode)"
proof -
  have "template_validate_attribute tok z al cls kt mode =
      (if value_len (current z) > 0 \<and> value_null (current z) then ret CKR_ATTRIBUTE_VALUE_INVALID z al
       else if cls = CKO_PRIVATE_KEY then priv_key_dispatch tok z al kt mode else secret_key_dispatch tok z al kt mode)"
    using assms(2) by (auto simp: template_validate_attribute_def ck_consts)
  moreover have "guarded z al (ret CKR_ATTRIBUTE_VALUE_INVALID z al)" by (simp add: guarded_def)
  ultimately show ?thesis
    using priv_dispatch_guarded [OF assms(1)] secret_dispatch_guarded [OF assms(1)] by simp
qed

lemma validate_walk_guarded:
  assumes "late mode" "cls \<in> {CKO_PRIVATE_KEY, CKO_SECRET_KEY}"
  shows "validate_walk tok b n al cls kt mode = Some (CKR_OK, tmpl, al') \<Longrightarrow> tmpl = b @ n \<and> al' = al \<and> list_all harmless n"
proof (induction n arbitrary: b)
  case (Cons a n)
  show ?case
  proof (cases "template_validate_attribute tok (b, a, n) al cls kt mode")
    case (Some r)
    obtain rc z al1 where r: "r = (rc, z, al1)" by (cases r) auto
    obtain b' a' n' where z: "z = (b', a', n')" by (cases z) auto
    have rc: "rc = CKR_OK" using Cons.prems Some r z by (simp split: if_splits)
    then have "z = (b, a, n)" "al1 = al" "harmless a"
      using validate_guarded [OF assms, of "(b, a, n)" al tok kt] Some r by (auto simp: guarded_def)
    then show ?thesis using Cons.IH [of "b @ [a]"] Cons.prems Some r z rc by simp
  qed (use Cons.prems in simp)
qed simp

lemma validate_attributes_guarded:
  assumes "late mode" "cls \<in> {CKO_PRIVATE_KEY, CKO_SECRET_KEY}"
    "template_validate_attributes tok new al cls kt mode = Some (CKR_OK, new', al')"
  shows "new' = new \<and> al' = al \<and> list_all harmless new"
  using validate_walk_guarded [OF assms(1,2), of tok "[]" new al kt] assms(3) by (simp add: template_validate_attributes_def)

section \<open>Locked keys stay locked\<close>

lemma update_find:
  assumes "typed tmpl" "attr_ok a" "template_update_attribute al tmpl a = (rc, tmpl', al')"
  shows "template_attribute_find (Some tmpl') t =
    (if t \<noteq> a_type a then template_attribute_find (Some tmpl) t else if rc = CKR_OK then Some a else None)"
proof -
  have "find (\<lambda>b. a_type a = a_type b) (filter (\<lambda>b. a_type b \<noteq> a_type a) tmpl) = None" by (auto simp: find_None_iff)
  then show ?thesis
    using template_update_attribute_typed [OF assms] template_update_attribute_cases [OF assms(1), of al a] assms(3)
    by (auto simp: template_attribute_find_def)
qed

lemma update_locked:
  assumes "locked_key be cls kt tmpl" "attr_ok a" "harmless a" "template_update_attribute al tmpl a = (rc, tmpl', al')"
  shows "locked_key be cls kt tmpl'"
proof -
  have "typed tmpl" using assms(1) by (simp add: locked_key_def)
  note facts = template_update_attribute_typed [OF this assms(2,4)] update_find [OF this assms(2,4)]
  have "template_attribute_get_bool (Some tmpl') CKA_SENSITIVE = ck_ok 0 \<Longrightarrow> template_attribute_get_bool (Some tmpl) CKA_SENSITIVE = ck_ok 0"
    "template_attribute_get_bool (Some tmpl') CKA_EXTRACTABLE = ck_ok 1 \<Longrightarrow> template_attribute_get_bool (Some tmpl) CKA_EXTRACTABLE = ck_ok 1"
    using facts(2) assms(3) by (auto simp: template_attribute_get_bool_def harmless_def split: if_splits)
  then have "locked tmpl'" using assms(1) by (auto simp: locked_key_def locked_def)
  moreover have "template_attribute_find (Some tmpl') t = template_attribute_find (Some tmpl) t" if "t \<in> class_types" for t
    using that assms(3) facts(2) by (auto simp: harmless_def)
  ultimately show ?thesis using assms(1) facts(1) by (simp add: locked_key_def template_attribute_get_ulong_def class_types_def)
qed

lemma merge_locked:
  assumes "locked_key be cls kt tmpl" "list_all attr_ok new" "list_all harmless new" "template_merge al tmpl new = (rc, tmpl', al')"
  shows "locked_key be cls kt tmpl'"
  using assms
proof (induction new arbitrary: al tmpl)
  case (Cons a new)
  obtain rc1 t1 al1 where t1: "template_update_attribute al tmpl a = (rc1, t1, al1)" by (cases "template_update_attribute al tmpl a") auto
  have "locked_key be cls kt t1" using update_locked [OF Cons.prems(1) _ _ t1] Cons.prems by simp
  then show ?case using Cons.IH [of t1 al1] Cons.prems t1 by (auto split: if_splits)
qed simp

text \<open>Attributes that were copied are well typed, whatever the caller passed.\<close>

lemma dup_list_ok:
  "(\<And>a al b al'. a \<in> set as \<Longrightarrow> dup_attribute al a = ck_ok (b, al') \<Longrightarrow> attr_ok b) \<Longrightarrow>
     dup_attribute_array_no_alloc al as = ck_ok (bs, al') \<Longrightarrow> list_all attr_ok bs"
proof (induction as arbitrary: al bs)
  case (Cons a as)
  from Cons.prems(2) obtain b al1 cs where d: "dup_attribute al a = ck_ok (b, al1)"
    "dup_attribute_array_no_alloc al1 as = ck_ok (cs, al')" "bs = b # cs"
    by (auto simp: ck_bind_ok_iff)
  have "list_all attr_ok cs" using Cons.IH [OF _ d(2)] Cons.prems(1) by auto
  moreover have "attr_ok b" using Cons.prems(1) [OF _ d(1)] by simp
  ultimately show ?case using d(3) by simp
qed simp

lemma dup_ok: "dup_attribute al a = ck_ok (b, al') \<Longrightarrow> attr_ok b"
proof (induction a arbitrary: al b al')
  case (AArray t es)
  from AArray.IH have IH: "dup_attribute_array_no_alloc al es = ck_ok (bs, al') \<Longrightarrow> list_all attr_ok bs" for al bs al'
    by (rule dup_list_ok)
  from AArray.prems show ?case by (auto simp: ck_bind_ok_iff split: if_splits dest: IH)
qed (auto simp: ck_bind_ok_iff split: if_splits)

lemma dup_array_ok: "dup_attribute_array_no_alloc al as = ck_ok (bs, al') \<Longrightarrow> list_all attr_ok bs"
  by (rule dup_list_ok [OF dup_ok])

lemma copy_attribute_ok: "template_copy_attribute al a = ck_ok (b, al') \<Longrightarrow> attr_ok b"
  by (cases a) (auto simp: template_copy_attribute_def ck_bind_ok_iff split: if_splits dest: dup_array_ok)

lemma add_attributes_ok:
  "typed tmpl \<Longrightarrow> template_add_attributes al tmpl attrs = Some (rc, tmpl', al') \<Longrightarrow> typed tmpl'"
proof (induction attrs arbitrary: al tmpl)
  case (Cons a attrs)
  show ?case
  proof (cases "template_copy_attribute al a")
    case (Some r)
    then show ?thesis
    proof (cases r)
      case (Inr x)
      obtain b al1 where x: "x = (b, al1)" by (cases x)
      obtain rc1 t1 al2 where u: "template_update_attribute al1 tmpl b = (rc1, t1, al2)" by (cases "template_update_attribute al1 tmpl b") auto
      have "typed t1"
        using template_update_attribute_typed [OF Cons.prems(1) _ u] copy_attribute_ok Some Inr x by simp
      then show ?thesis
        using Cons.IH [of t1 al2] Cons.prems Some Inr x u by (auto split: if_splits)
    qed (use Cons.prems in \<open>auto split: if_splits\<close>)
  qed (use Cons.prems in \<open>auto split: if_splits\<close>)
qed simp

section \<open>Changing\<close>

lemma template_class_same:
  "same_but (key_material cls kt) s t \<Longrightarrow> template_get_class be s r = template_get_class be t r"
  by (rule same_but_class [OF _ key_material_class])

lemma same_but_types: "same_but S s t \<Longrightarrow> map a_type s = map a_type t"
  by (induction rule: same_but_induct) auto

text \<open>Two locked keys of one class and type that differ in their key material only.\<close>

definition twins :: "bool \<Rightarrow> template \<Rightarrow> template \<Rightarrow> bool" where
  "twins be s t \<longleftrightarrow> (\<exists>cls kt. locked_key be cls kt s \<and> same_but (key_material cls kt) s t)"

text \<open>The outcomes of an operation on twins: undefined both, or the same code and twins again.\<close>

definition like :: "bool \<Rightarrow> (ck_rv \<times> template \<times> allocs) option \<Rightarrow> (ck_rv \<times> template \<times> allocs) option \<Rightarrow> bool" where
  "like be = rel_option (\<lambda>(rc, s, al) (rc', t, al'). rc = rc' \<and> al = al' \<and> twins be s t)"

lemma merge_twins:
  assumes k: "locked_key be cls kt s" and st: "same_but (key_material cls kt) s t"
    and new: "typed new" "late mode" "template_validate_attributes tok new al1 cls kt mode = Some (CKR_OK, new', al2)"
  obtains rc s' t' al3 where "new' = new" "template_merge al2 s new = (rc, s', al3)" "template_merge al2 t new = (rc, t', al3)"
    "locked_key be cls kt s'" "same_but (key_material cls kt) s' t'"
proof -
  have cls: "cls \<in> {CKO_PRIVATE_KEY, CKO_SECRET_KEY}" using k by (simp add: locked_key_def)
  have v: "new' = new" "list_all harmless new" using validate_attributes_guarded [OF new(2) cls new(3)] by simp_all
  obtain rc s' al3 where m: "template_merge al2 s new = (rc, s', al3)" by (cases "template_merge al2 s new") auto
  have "locked_key be cls kt s'" using merge_locked [OF k _ v(2) m] new(1) by (simp add: typed_def)
  moreover obtain t' where "template_merge al2 t new = (rc, t', al3)" "same_but (key_material cls kt) s' t'"
    using same_but_merge [OF st m] by blast
  ultimately show ?thesis using that v(1) m by blast
qed

lemma set_same:
  assumes "twins be s t" "be = big_endian tok"
  shows "like be (object_set_attribute_values tok None junk al s attrs) (object_set_attribute_values tok None junk al t attrs)"
proof -
  obtain cls kt where k: "locked_key be cls kt s" and st: "same_but (key_material cls kt) s t"
    using assms(1) by (auto simp: twins_def)
  note cs = locked_key_class [OF k] locked_key_class [OF k, unfolded template_class_same [OF st]]
  have start: "like be (Some (rc, s, al)) (Some (rc, t, al))" for rc al using assms(1) by (simp add: like_def)
  note unf = object_set_attribute_values_def cs assms(2) [symmetric] call_hook_def
  show ?thesis
  proof (cases "ck_malloc al = ck_ok (tl al)")
    case True
    show ?thesis
    proof (cases "template_add_attributes (tl al) [] attrs")
      case (Some r)
      obtain rc new al1 where r: "r = (rc, new, al1)" by (cases r) auto
      have new: "typed new" using add_attributes_ok [of "[]" "tl al" attrs rc new al1] Some r by (simp add: typed_def)
      show ?thesis
      proof (cases "rc = CKR_OK \<and> template_validate_attributes tok new al1 cls kt MODE_MODIFY \<noteq> None")
        case True
        then obtain rc2 new2 al2 where v: "template_validate_attributes tok new al1 cls kt MODE_MODIFY = Some (rc2, new2, al2)"
          by (cases "template_validate_attributes tok new al1 cls kt MODE_MODIFY") auto
        show ?thesis
        proof (cases "rc2 = CKR_OK")
          case ok: True
          obtain rc3 s' t' al3 where m: "new2 = new" "template_merge al2 s new = (rc3, s', al3)"
            "template_merge al2 t new = (rc3, t', al3)" "locked_key be cls kt s'" "same_but (key_material cls kt) s' t'"
            by (rule merge_twins [OF k st new late_modes(2) v [unfolded ok]]) (rule that)
          then have "twins be s' t'" by (auto simp: twins_def)
          then show ?thesis using True v Some r ok m \<open>ck_malloc al = ck_ok (tl al)\<close> by (simp add: unf like_def)
        qed (use True v Some r start \<open>ck_malloc al = ck_ok (tl al)\<close> in \<open>simp add: unf\<close>)
      qed (use Some r start True in \<open>auto simp: unf like_def simp del: not_None_eq\<close>)
    qed (use True in \<open>simp add: unf like_def\<close>)
  next
    case False
    then have "ck_malloc al = ck_fail CKR_HOST_MEMORY" using ck_malloc_cases [of al] by auto
    then show ?thesis using start by (simp add: unf)
  qed
qed

section \<open>Copying\<close>

text \<open>The copies of attributes that differ: both calls allocate once and give attributes of the type.\<close>

lemma copy_attribute_same_type:
  assumes "attr_ok a" "attr_ok b" "a_type a = a_type b" "\<not> is_attribute_attr_array (a_type a)"
  shows "ck_malloc al = ck_fail CKR_HOST_MEMORY \<and>
      template_copy_attribute al a = ck_fail CKR_HOST_MEMORY \<and> template_copy_attribute al b = ck_fail CKR_HOST_MEMORY \<or>
    template_copy_attribute al a = ck_ok (a, tl al) \<and> template_copy_attribute al b = ck_ok (b, tl al)"
  using assms ck_malloc_cases [of al]
  by (cases a; cases b) (auto simp: template_copy_attribute_def empty_attribute_def split: if_splits)

lemma key_material_plain: "u \<in> key_material cls kt \<Longrightarrow> \<not> is_attribute_attr_array u \<and> u \<noteq> CKA_UNIQUE_ID"
  by (auto simp: key_material_def is_attribute_attr_array_def ck_consts split: if_splits)

lemma copy_same:
  assumes "same_but (key_material cls kt) s t" "same_but (key_material cls kt) d e"
  shows "rel_option (rel_sum (=) (\<lambda>(x, al) (y, al'). al = al' \<and> same_but (key_material cls kt) x y))
    (template_copy uid al d s) (template_copy uid al e t)"
  using assms
proof (induction arbitrary: al d e rule: same_but_induct)
  case (Cons a s b t)
  show ?case
  proof (cases "a = b")
    case True
    show ?thesis
    proof (cases "template_copy_attribute al a")
      case (Some r)
      then show ?thesis
      proof (cases r)
        case (Inr x)
        obtain c al1 where x: "x = (c, al1)" by (cases x)
        show ?thesis
          using Cons.IH Cons.prems True Some Inr x ck_malloc_cases [of al1]
          by (auto simp: template_copy_unique_id_def split: option.splits)
      qed (use True in simp)
    qed (use True in simp)
  next
    case False
    with Cons have "a_type a \<in> key_material cls kt" "attr_ok a" "attr_ok b" by auto
    with copy_attribute_same_type [of a b al] key_material_plain [of "a_type a" cls kt] Cons show ?thesis
      using ck_malloc_cases [of "tl al"] by (auto simp: template_copy_unique_id_def)
  qed
qed simp

lemma nonempty_defined [simp]: "nonempty tmpl u \<noteq> None"
  by (simp add: nonempty_def template_attribute_get_non_empty_def split: option.splits)

lemma required_copy [simp]: "MODE_COPY \<notin> ms \<Longrightarrow> r \<noteq> None \<Longrightarrow> required ms MODE_COPY r k = k"
  by (auto simp: required_def split: option.splits sum.splits)

lemma all_required_copy: "list_all (\<lambda>(u, ms). MODE_COPY \<notin> ms) ts \<Longrightarrow> all_required tmpl MODE_COPY ts k = k"
  by (induction ts) (auto simp del: not_None_eq)

lemma secure_import_copy [simp]: "\<not> secure_import tok tmpl MODE_COPY"
  by (simp add: secure_import_def)

lemma key_object_required_same:
  assumes "same_but (key_material cls kt) s t"
  shows "key_object_check_required_attributes tok s mode = key_object_check_required_attributes tok t mode"
  by (simp add: key_object_check_required_attributes_def template_check_required_base_attributes_def
      same_but_get_ulong [OF assms] key_material_not)

lemma pqc_check_same:
  assumes "same_but (key_material cls kt) s t"
  shows "pqc_check_attributes tok s MODE_COPY mech req seed = pqc_check_attributes tok t MODE_COPY mech req seed"
proof (cases "pqc_keyform_mode_attrs_by_mech mech")
  case (Some r)
  obtain k m oids where r: "r = (k, m, oids)" by (cases r) auto
  have "k \<in> public_types" "m \<in> public_types \<or> m = - 1"
    using Some r by (auto simp: pqc_keyform_mode_attrs_by_mech_def split: if_splits)
  then have "keyform_present tok s k oids = keyform_present tok t k oids" "mode_present s m oids = mode_present t m oids"
    using same_but_find [OF assms] key_material_not by (auto simp: keyform_present_def mode_present_def)
  moreover have "pqc_check_copy s req seed m = pqc_check_copy t req seed m"
    unfolding pqc_check_copy_def same_but_present [OF assms] by (rule refl)
  ultimately show ?thesis
    using Some r by (simp add: pqc_check_attributes_def cong: option.case_cong sum.case_cong)
qed (simp add: pqc_check_attributes_def)

lemma priv_required_same:
  assumes "same_but (key_material cls kt) s t"
  shows "priv_key_required tok s k MODE_COPY = priv_key_required tok t k MODE_COPY"
proof -
  have "priv_key_check_required_attributes tok s MODE_COPY = priv_key_check_required_attributes tok t MODE_COPY"
    by (simp add: priv_key_check_required_attributes_def key_object_required_same [OF assms])
  then show ?thesis
    unfolding priv_key_required_def priv_required_defs pqc_check_same [OF assms]
    by (simp add: all_required_copy same_but_get_ulong [OF assms] key_material_not cong: if_cong option.case_cong)
qed

lemma secret_required_same:
  assumes "same_but (key_material cls kt) s t"
  shows "secret_key_required tok s k MODE_COPY = secret_key_required tok t k MODE_COPY"
proof -
  have "secret_key_check_required_attributes tok s MODE_COPY = secret_key_check_required_attributes tok t MODE_COPY"
    by (simp add: secret_key_check_required_attributes_def key_object_required_same [OF assms])
  then show ?thesis
    by (simp add: secret_key_required_def generic_secret_check_required_attributes_def des_check_required_attributes_def
        des2_check_required_attributes_def des3_check_required_attributes_def aes_check_required_attributes_def
        all_required_copy same_but_get_ulong [OF assms] key_material_not cong: if_cong option.case_cong sum.case_cong del: not_None_eq)
qed

lemma required_same:
  assumes "same_but (key_material cls kt) s t" "cls \<in> {CKO_PRIVATE_KEY, CKO_SECRET_KEY}"
  shows "template_check_required_attributes tok s cls k MODE_COPY = template_check_required_attributes tok t cls k MODE_COPY"
  using assms(2) priv_required_same [OF assms(1), of tok k] secret_required_same [OF assms(1), of tok k]
  by (auto simp: template_check_required_attributes_def ck_consts)

lemma copy_find:
  assumes "template_copy uid al dst src = ck_ok (x, al')" "list_all attr_ok src" "distinct (map a_type src)" "u \<noteq> CKA_UNIQUE_ID"
  shows "template_attribute_find (Some x) u =
    (case template_attribute_find (Some src) u of None \<Rightarrow> template_attribute_find (Some dst) u | Some a \<Rightarrow> Some a)"
  using assms
proof (induction src arbitrary: al dst)
  case (Cons a src)
  from Cons.prems(1) obtain a1 al1 b al2 where c: "template_copy_attribute al a = ck_ok (a1, al1)"
    "template_copy_unique_id uid a1 = ck_ok b" "template_copy uid al2 (b # dst) src = ck_ok (x, al')"
    by (auto simp: ck_bind_ok_iff)
  have a1: "a1 = a" using template_copy_attribute_same [of a al] Cons.prems(2) c(1) by (simp add: ck_safe_def)
  have ab: "a_type b = a_type a" "a_type a \<noteq> CKA_UNIQUE_ID \<Longrightarrow> b = a"
    using c(2) a1 by (auto simp: template_copy_unique_id_def split: if_splits option.splits)
  have IH: "template_attribute_find (Some x) u =
    (case template_attribute_find (Some src) u of None \<Rightarrow> template_attribute_find (Some (b # dst)) u | Some a \<Rightarrow> Some a)"
    using Cons.IH [OF c(3)] Cons.prems by simp
  show ?case
  proof (cases "u = a_type a")
    case True
    then have "template_attribute_find (Some src) u = None"
      using Cons.prems(3) by (auto simp: template_attribute_find_def find_None_iff)
    then show ?thesis using IH True ab Cons.prems(4) by (simp add: template_attribute_find_def)
  next
    case False
    then show ?thesis using IH ab by (simp add: template_attribute_find_def split: option.splits)
  qed
qed (simp add: template_attribute_find_def)

lemma copy_locked:
  assumes "locked_key be cls kt s" "template_copy uid al [] s = ck_ok (x, al')"
  shows "locked_key be cls kt x"
proof -
  have s: "list_all attr_ok s" "distinct (map a_type s)" using assms(1) by (simp_all add: locked_key_def typed_def)
  have same: "template_attribute_find (Some x) u = template_attribute_find (Some s) u" if "u \<noteq> CKA_UNIQUE_ID" for u
    using copy_find [OF assms(2) s that] by (simp add: template_attribute_find_def split: option.splits)
  have "typed x"
    using template_copy_typed [of "[]" s uid al] s assms(2) by (simp add: ck_safe_def typed_def)
  then show ?thesis
    using assms(1) same unfolding locked_key_def locked_def template_attribute_get_bool_def template_attribute_get_ulong_def
    by (simp add: ck_consts)
qed

lemma copy_change_same:
  assumes k: "locked_key be cls kt x" and xy: "same_but (key_material cls kt) x y" and be: "be = big_endian tok"
  shows "rel_option (rel_sum (=) (twins be)) (object_copy_change tok None junk al x attrs) (object_copy_change tok None junk al y attrs)"
proof (cases "template_add_attributes al [] attrs")
  case (Some r)
  obtain rc new al1 where r: "r = (rc, new, al1)" by (cases r) auto
  have new: "typed new" using add_attributes_ok [of "[]" al attrs rc new al1] Some r by (simp add: typed_def)
  have cls: "cls \<in> {CKO_PRIVATE_KEY, CKO_SECRET_KEY}" using k by (simp add: locked_key_def)
  note unf = object_copy_change_def be [symmetric] call_hook_def
    locked_key_class [OF k] locked_key_class [OF k, unfolded template_class_same [OF xy]]
  show ?thesis
  proof (cases "rc = CKR_OK \<and> template_validate_attributes tok new al1 cls kt MODE_COPY \<noteq> None")
    case True
    then obtain rc2 new2 al2 where v: "template_validate_attributes tok new al1 cls kt MODE_COPY = Some (rc2, new2, al2)"
      by (cases "template_validate_attributes tok new al1 cls kt MODE_COPY") auto
    show ?thesis
    proof (cases "rc2 = CKR_OK")
      case ok: True
      obtain rc3 x' y' al3 where m: "new2 = new" "template_merge al2 x new = (rc3, x', al3)"
        "template_merge al2 y new = (rc3, y', al3)" "locked_key be cls kt x'" "same_but (key_material cls kt) x' y'"
        by (rule merge_twins [OF k xy new late_modes(1) v [unfolded ok]]) (rule that)
      then have "twins be x' y'" by (auto simp: twins_def)
      then show ?thesis
        using True v Some r ok m required_same [OF m(5) cls, of tok kt]
        by (cases "template_check_required_attributes tok y' cls kt MODE_COPY") (simp_all add: unf)
    qed (use True v Some r in \<open>simp add: unf\<close>)
  qed (use Some r in \<open>auto simp: unf simp del: not_None_eq\<close>)
qed (simp add: object_copy_change_def)

lemma object_copy_same:
  assumes "twins be s t" "be = big_endian tok"
  shows "rel_option (rel_sum (=) (twins be)) (object_copy tok None junk locks uid al s attrs) (object_copy tok None junk locks uid al t attrs)"
proof -
  obtain cls kt where k: "locked_key be cls kt s" and st: "same_but (key_material cls kt) s t"
    using assms(1) by (auto simp: twins_def)
  have cls: "cls \<in> {CKO_PRIVATE_KEY, CKO_SECRET_KEY}" using k by (simp add: locked_key_def)
  note unf = object_copy_def
  note cp = copy_same [OF st, of "[]" "[]" uid "drop 3 al"]
  show ?thesis
  proof (cases "template_copy uid (drop 3 al) [] s")
    case None
    then show ?thesis using cp by (simp add: unf)
  next
    case (Some r)
    show ?thesis
    proof (cases r)
      case (Inl e)
      then show ?thesis using cp Some by (auto simp: unf option_rel_Some1 rel_sum.simps)
    next
      case (Inr z)
      obtain x al1 where x: "template_copy uid (drop 3 al) [] s = ck_ok (x, al1)" using Some Inr by (cases z) simp
      obtain y where y: "template_copy uid (drop 3 al) [] t = ck_ok (y, al1)" "same_but (key_material cls kt) x y"
        using cp x by (auto simp: option_rel_Some1 rel_sum.simps)
      show ?thesis
        using copy_change_same [OF copy_locked [OF k x] y(2) assms(2)] by (simp add: unf x y(1))
    qed
  qed
qed

end
