(* ===== verification/Key_Applications.thy ===== *)
theory Key_Applications
  imports Key_Secrecy
begin

text \<open>
  Applications that call the object operations in any order, and the theorem that they learn
  nothing of the key material of a sensitive or unextractable key.
\<close>

section \<open>Applications\<close>

text \<open>
  A call of an application on the object with that number, and what the application sees of it.
  The copy of an object becomes a new object of the store; the template of an object changes
  even when the call fails half way. Unknown objects are the concern of the object manager.
\<close>

datatype call =
  Get nat "request list"
| Set nat "u64 \<times> u64" allocs "attribute list"
| Copy nat "u64 \<times> u64" "ck_rv \<times> ck_rv" "byte list option" allocs "attribute list"

datatype reply = Values ck_rv "request list" | Code ck_rv | Undefined | No_Object

fun object_of :: "call \<Rightarrow> nat" where
  "object_of (Get i rs) = i"
| "object_of (Set i junk al attrs) = i"
| "object_of (Copy i junk locks uid al attrs) = i"

fun perform :: "tokdata \<Rightarrow> template list \<Rightarrow> call \<Rightarrow> reply \<times> template list" where
  "perform tok objs (Get i rs) =
     (case object_get_attribute_values (big_endian tok) (Some (objs ! i)) rs of
        None \<Rightarrow> (Undefined, objs)
      | Some (rc, rs) \<Rightarrow> (Values rc rs, objs))"
| "perform tok objs (Set i junk al attrs) =
     (case object_set_attribute_values tok None junk al (objs ! i) attrs of
        None \<Rightarrow> (Undefined, objs)
      | Some (rc, tmpl, al) \<Rightarrow> (Code rc, objs[i := tmpl]))"
| "perform tok objs (Copy i junk locks uid al attrs) =
     (case object_copy tok None junk locks uid al (objs ! i) attrs of
        None \<Rightarrow> (Undefined, objs)
      | Some (Inl rc) \<Rightarrow> (Code rc, objs)
      | Some (Inr tmpl) \<Rightarrow> (Code CKR_OK, objs @ [tmpl]))"

fun observations :: "tokdata \<Rightarrow> template list \<Rightarrow> call list \<Rightarrow> reply list" where
  "observations tok objs [] = []"
| "observations tok objs (c # cs) =
     (if object_of c < length objs
      then (case perform tok objs c of (reply, objs) \<Rightarrow> reply # observations tok objs cs)
      else No_Object # observations tok objs cs)"

text \<open>Two stores that differ in the key material of locked keys only.\<close>

definition alike :: "bool \<Rightarrow> template list \<Rightarrow> template list \<Rightarrow> bool" where
  "alike be = list_all2 (\<lambda>s t. s = t \<or> twins be s t)"

lemma alike_update: "alike be objs objs' \<Longrightarrow> s = t \<or> twins be s t \<Longrightarrow> alike be (objs[i := s]) (objs'[i := t])"
  unfolding alike_def by (rule list_all2_update_cong)

lemma alike_append: "alike be objs objs' \<Longrightarrow> s = t \<or> twins be s t \<Longrightarrow> alike be (objs @ [s]) (objs' @ [t])"
  unfolding alike_def by (simp add: list_all2_appendI)

lemma set_alike:
  assumes "s = t \<or> twins be s t" "be = big_endian tok"
  shows "rel_option (\<lambda>(rc, s, al) (rc', t, al'). rc = rc' \<and> (s = t \<or> twins be s t))
    (object_set_attribute_values tok None junk al s attrs) (object_set_attribute_values tok None junk al t attrs)"
  using assms(1)
proof
  assume "twins be s t"
  from set_same [OF this assms(2)] show ?thesis unfolding like_def by (rule option.rel_mono_strong) auto
qed (simp add: option.rel_refl case_prod_beta)

lemma copy_alike:
  assumes "s = t \<or> twins be s t" "be = big_endian tok"
  shows "rel_option (rel_sum (=) (\<lambda>s t. s = t \<or> twins be s t))
    (object_copy tok None junk locks uid al s attrs) (object_copy tok None junk locks uid al t attrs)"
  using assms(1)
proof
  assume "twins be s t"
  moreover have "rel_sum (=) (twins be) x y \<Longrightarrow> rel_sum (=) (\<lambda>s t. s = t \<or> twins be s t) x y" for x y :: "ck_rv + template"
    by (cases x; cases y) simp_all
  ultimately show ?thesis
    using object_copy_same [OF _ assms(2)] by (blast intro: option.rel_mono_strong)
qed (simp add: option.rel_refl sum.rel_refl)

lemma perform_same:
  assumes "alike (big_endian tok) objs objs'" "object_of c < length objs"
  shows "fst (perform tok objs c) = fst (perform tok objs' c) \<and>
    alike (big_endian tok) (snd (perform tok objs c)) (snd (perform tok objs' c))"
proof -
  let ?be = "big_endian tok" let ?s = "objs ! object_of c" let ?t = "objs' ! object_of c"
  have rel: "?s = ?t \<or> twins ?be ?s ?t" using assms by (auto simp: alike_def list_all2_conv_all_nth)
  show ?thesis
  proof (cases c)
    case (Get i rs)
    have "object_get_attribute_values ?be (Some ?s) rs = object_get_attribute_values ?be (Some ?t) rs"
      using rel get_values_same unfolding twins_def by metis
    with Get assms(1) show ?thesis by (auto split: option.splits)
  next
    case (Set i junk al attrs)
    from set_alike [OF rel refl, of junk al attrs] show ?thesis
    proof (cases rule: option.rel_cases)
      case None
      with Set assms(1) show ?thesis by simp
    next
      case (Some x y)
      with Set assms(1) show ?thesis by (cases x; cases y) (simp add: alike_update)
    qed
  next
    case (Copy i junk locks uid al attrs)
    from copy_alike [OF rel refl, of junk locks uid al attrs] show ?thesis
    proof (cases rule: option.rel_cases)
      case None
      with Copy assms(1) show ?thesis by simp
    next
      case (Some x y)
      with Copy assms(1) show ?thesis by (cases x; cases y) (simp_all add: alike_append)
    qed
  qed
qed

text \<open>
  C3: The key material of a sensitive or unextractable key stays secret. Take two stores whose
  objects are equal, except that private and secret keys that are sensitive or not extractable
  may have different key material. Whatever sequence of C\_GetAttributeValue,
  C\_SetAttributeValue and C\_CopyObject calls an application makes on them, with whatever
  attribute templates, buffers and failing allocations, it sees the same codes and the same
  values from both: it cannot read the key, make it readable, or copy it into a readable object.
\<close>

theorem key_material_secret:
  assumes "alike (big_endian tok) objs objs'"
  shows "observations tok objs calls = observations tok objs' calls"
  using assms
proof (induction calls arbitrary: objs objs')
  case (Cons c calls)
  have "length objs = length objs'" using Cons.prems by (auto simp: alike_def dest: list_all2_lengthD)
  then show ?case
    using perform_same [OF Cons.prems, of c] Cons by (auto split: prod.splits)
qed simp

text \<open>
  A sensitive AES key that may be wrapped, with either of two values: the application tries to
  read it, to make it insensitive, to copy it as an insensitive key and to read the copy.
\<close>

definition demo_token :: tokdata where
  "demo_token = \<lparr>allow_key_mods = False, netscape_mods = False, check_des_parity = False, so_session_exists = False,
     is_cca = False, secure_key_token = False, big_endian = False, max_modulus_bits = 4096\<rparr>"

definition demo_key :: "byte list \<Rightarrow> template" where
  "demo_key v = [ABytes CKA_CLASS [4, 0, 0, 0, 0, 0, 0, 0], ABytes CKA_KEY_TYPE [0x1f, 0, 0, 0, 0, 0, 0, 0],
     ABytes CKA_SENSITIVE [1], ABytes CKA_EXTRACTABLE [1], ABytes CKA_VALUE v]"

lemma demo_class: "get_host64 False [4, 0, 0, 0, 0, 0, 0, 0] = 4" "get_host64 False [31, 0, 0, 0, 0, 0, 0, 0] = 31"
  by code_simp+

lemma demo_key_locked: "length v = 16 \<Longrightarrow> locked_key False CKO_SECRET_KEY CKK_AES (demo_key v)"
  by (simp add: locked_key_def locked_def demo_key_def typed_def template_attribute_find_def template_attribute_get_ulong_def
      template_attribute_get_bool_def is_attribute_attr_array_def demo_class ck_consts cka_defs)

theorem key_material_secret_witness:
  "let calls = [Get 0 [Request CKA_VALUE (RBytes (replicate 16 0)) 16], Set 0 (0, 0) [] [ABytes CKA_SENSITIVE [0]],
       Copy 0 (0, 0) (CKR_OK, CKR_OK) None [] [ABytes CKA_SENSITIVE [0]], Copy 0 (0, 0) (CKR_OK, CKR_OK) None [] [],
       Get 1 [Request CKA_VALUE (RBytes (replicate 16 0)) 16]]
   in observations demo_token [demo_key (replicate 16 1)] calls = observations demo_token [demo_key (replicate 16 2)] calls"
proof -
  have "twins False (demo_key (replicate 16 1)) (demo_key (replicate 16 2))"
    unfolding twins_def
    by (intro exI [of _ CKO_SECRET_KEY] exI [of _ CKK_AES] conjI demo_key_locked)
      (simp_all add: demo_key_def key_material_def is_attribute_attr_array_def ck_consts cka_defs)
  then have "alike (big_endian demo_token) [demo_key (replicate 16 1)] [demo_key (replicate 16 2)]"
    by (simp add: alike_def demo_token_def)
  then show ?thesis unfolding Let_def by (rule key_material_secret)
qed

end
