(* ===== verification/Attr_Safety.thy ===== *)
theory Attr_Safety
  imports Key_Objects Template_Facts
begin

text \<open>
  The attribute rules on well-typed templates: no rule reads a value beyond its end or under a
  wrong type, and the template stays well typed while it is walked.
\<close>

section \<open>Validation\<close>

definition sane :: "cursor \<Rightarrow> verdict \<Rightarrow> bool" where
  "sane z v \<longleftrightarrow> (typed (contents z) \<longrightarrow> (\<exists>rc z' al. v = Some (rc, z', al) \<and> typed (contents z')))"

lemma sane_ret: "sane z (ret rc z al)"
  by (simp add: sane_def)

lemma sane_ret_opt: "(typed (contents z) \<Longrightarrow> rc \<noteq> None) \<Longrightarrow> sane z (ret_opt rc z al)"
  by (cases z) (auto simp: sane_def ret_opt_def)

lemma sane_if: "(c \<Longrightarrow> sane z v) \<Longrightarrow> (\<not> c \<Longrightarrow> sane z w) \<Longrightarrow> sane z (if c then v else w)"
  by simp

lemma sane_bind: "(typed (contents z) \<Longrightarrow> x \<noteq> None) \<Longrightarrow> (\<And>v. sane z (f v)) \<Longrightarrow> sane z (Option.bind x f)"
  by (cases x) (auto simp: sane_def)

lemma current_ok: "typed (contents z) \<Longrightarrow> attr_ok (current z)"
  by (cases z) (simp add: typed_def)

lemma sane_trim: "\<not> is_attribute_attr_array (a_type (current z)) \<Longrightarrow> sane z (trim_in ms mode z al)"
proof (cases z)
  case (fields b c n)
  moreover assume "\<not> is_attribute_attr_array (a_type (current z))"
  ultimately show ?thesis by (cases c) (auto simp: sane_def typed_def)
qed

lemma remove_subset:
  "set (snd (template_remove_attribute tmpl t)) \<subseteq> set tmpl \<and>
   (distinct (map a_type tmpl) \<longrightarrow> distinct (map a_type (snd (template_remove_attribute tmpl t))) \<and>
     t \<notin> a_type ` set (snd (template_remove_attribute tmpl t)))"
  by (induction tmpl) (auto split: prod.splits)

lemma sane_build:
  assumes "t \<noteq> a_type (current z)" "\<not> is_attribute_attr_array t"
  shows "sane z (template_build_update_attribute z al t bs)"
proof (cases z)
  case (fields b c n)
  note facts = remove_subset [of b t] remove_subset [of n t]
  show ?thesis
    using assms fields facts ck_malloc_cases [of al] ck_malloc_cases [of "tl al"]
    unfolding sane_def template_build_update_attribute_def
    by (auto simp: typed_def Let_def list_all_iff image_iff subset_iff split: if_splits) blast+
qed

lemmas sane_intros = sane_if sane_bind sane_ret sane_ret_opt sane_trim sane_build

lemma byte_ok: "\<not> bad_size 1 a \<Longrightarrow> value_byte a \<noteq> None"
  by (cases a) (auto simp: bad_size_def peek_def ATTR_SIZE_def)

lemma ulong_ok: "\<not> bad_size 8 a \<Longrightarrow> value_ulong be a \<noteq> None"
  by (cases a) (auto simp: bad_size_def ATTR_SIZE_def)

lemma base_ok: "template_validate_base_attribute a mode \<noteq> None"
  using byte_ok [of a] by (simp add: template_validate_base_attribute_def Let_def)

lemma trusted_ok: "validate_trusted tok a \<noteq> None"
  using byte_ok [of a] by (simp add: validate_trusted_def)

lemma only_true_ok: "only_true a ms mode \<noteq> None"
  using byte_ok [of a] by (simp add: only_true_def)

lemma validate_defined:
  "attr_ok a \<Longrightarrow> validate_attribute a \<noteq> None"
  "list_all attr_ok es \<Longrightarrow> validate_attribute_array es \<noteq> None"
proof (induction a and es rule: validate_attribute_validate_attribute_array.induct)
  case (5 a es)
  then show ?case by (cases "validate_attribute a") (auto simp: ck_bind_def split: sum.splits)
qed auto

lemma template_attr_ok:
  assumes "attr_ok a" "is_attribute_attr_array (a_type a)"
  shows "template_attr a ms mode \<noteq> None"
proof (cases a)
  case (AArray t es)
  then have "validate_attribute_array es \<noteq> None" using assms validate_defined(2) by simp
  then show ?thesis using AArray by (auto simp: template_attr_def split: sum.splits)
qed (use assms in auto)

lemma keyform_mode_type:
  assumes "pqc_keyform_mode_attrs_by_mech mech = Some (k, m, oids)"
  shows "\<not> is_attribute_attr_array m"
  using assms by (auto simp: pqc_keyform_mode_attrs_by_mech_def is_attribute_attr_array_def ck_consts cka_defs split: if_splits)

lemma keyform_mode_ok:
  assumes "attr_ok a"
  shows "pqc_validate_keyform_mode tok a mode mech \<noteq> None"
proof (cases "pqc_keyform_mode_attrs_by_mech mech")
  case (Some r)
  obtain k m oids where r: "r = (k, m, oids)" by (cases r)
  have "\<not> is_attribute_attr_array m" using keyform_mode_type Some r by simp
  then show ?thesis
    using assms Some r ulong_ok [of a "big_endian tok"]
    by (cases a) (auto simp: pqc_validate_keyform_mode_def Let_def)
qed (simp add: pqc_validate_keyform_mode_def)

lemma cca_ml_dsa_ok: "cca_ml_dsa_key_mode tok a ms mode \<noteq> None"
  using ulong_ok [of a] by (simp add: cca_ml_dsa_key_mode_def)

lemma des_value_ok: "attr_ok a \<Longrightarrow> a_type a = CKA_VALUE \<Longrightarrow> des_value k tok a mode \<noteq> None"
  by (cases a) (auto simp: des_value_def is_attribute_attr_array_def ck_consts cka_defs split: if_splits)

lemma des_value_len_ok: "des_value_len good tok a mode \<noteq> None"
  using ulong_ok [of a] by (simp add: des_value_len_def)

lemmas value_ok = byte_ok ulong_ok base_ok trusted_ok only_true_ok cca_ml_dsa_ok des_value_len_ok

lemmas array_types = is_attribute_attr_array_def ck_consts cka_defs

lemma sane_key_object: "sane z (key_object_validate_attribute z al mode)"
  unfolding key_object_validate_attribute_def Let_def
  by (intro sane_intros value_ok) (auto simp: array_types)

lemma sane_extractable: "a_type (current z) = CKA_EXTRACTABLE \<Longrightarrow> sane z (validate_extractable z al ms mode)"
  unfolding validate_extractable_def
  by (intro sane_intros value_ok) (auto simp: array_types)

lemma sane_template_attr:
  "is_attribute_attr_array (a_type (current z)) \<Longrightarrow> sane z (ret_opt (template_attr (current z) ms mode) z al)"
  using current_ok template_attr_ok by (blast intro: sane_ret_opt)

lemma template_types:
  "is_attribute_attr_array CKA_WRAP_TEMPLATE" "is_attribute_attr_array CKA_UNWRAP_TEMPLATE"
  "is_attribute_attr_array CKA_DERIVE_TEMPLATE" "is_attribute_attr_array CKA_ENCAPSULATE_TEMPLATE"
  "is_attribute_attr_array CKA_DECAPSULATE_TEMPLATE"
  by code_simp+

lemma sane_publ_key: "sane z (publ_key_validate_attribute tok z al mode)"
  unfolding publ_key_validate_attribute_def Let_def
  by (intro sane_if sane_ret sane_ret_opt [OF trusted_ok] sane_template_attr sane_key_object) (auto simp: template_types)

lemma get_bool_ok: "template_attribute_get_bool tmpl t \<noteq> None"
  using byte_ok by (auto simp: template_attribute_get_bool_def bad_size_def split: option.splits)

lemma get_ulong_ok: "template_attribute_get_ulong be tmpl t \<noteq> None"
  using ulong_ok by (auto simp: template_attribute_get_ulong_def bad_size_def split: option.splits)

lemma sane_priv_key: "sane z (priv_key_validate_attribute tok z al mode)"
proof -
  have auth: "sane z (case template_attribute_get_bool (Some (contents z)) CKA_PRIVATE of
                 None \<Rightarrow> None
               | Some (Inl _) \<Rightarrow> ret CKR_ATTRIBUTE_VALUE_INVALID z al
               | Some (Inr p) \<Rightarrow> ret (if p = 0 then CKR_ATTRIBUTE_VALUE_INVALID else CKR_OK) z al)"
    using get_bool_ok [of "Some (contents z)" CKA_PRIVATE] sane_ret by (auto simp del: ret.simps split: option.splits sum.splits)
  show ?thesis
    unfolding priv_key_validate_attribute_def Let_def
    by (intro sane_if sane_bind sane_ret sane_ret_opt [OF only_true_ok] sane_template_attr sane_extractable sane_key_object byte_ok auth)
      (auto simp: template_types)
qed

lemma sane_secret_key: "sane z (secret_key_validate_attribute tok z al mode)"
  unfolding secret_key_validate_attribute_def Let_def
  by (intro sane_if sane_ret sane_ret_opt [OF only_true_ok] sane_ret_opt [OF trusted_ok] sane_template_attr sane_extractable
      sane_key_object) (auto simp: template_types)

lemma sane_keyform: "sane z (ret_opt (pqc_validate_keyform_mode tok (current z) mode mech) z al)"
  using current_ok keyform_mode_ok by (blast intro: sane_ret_opt)

lemma sane_des_value: "a_type (current z) = CKA_VALUE \<Longrightarrow> sane z (ret_opt (des_value k tok (current z) mode) z al)"
  using current_ok des_value_ok by (blast intro: sane_ret_opt)

lemmas sane_rules = sane_if sane_bind sane_ret sane_keyform sane_ret_opt [OF cca_ml_dsa_ok] sane_trim ulong_ok

lemma sane_publ_dispatch: "sane z (publ_key_dispatch tok z al kt mode)"
  unfolding publ_key_dispatch_def publ_defs Let_def
  by (intro sane_rules sane_publ_key) (auto simp: array_types)

lemma sane_priv_dispatch: "sane z (priv_key_dispatch tok z al kt mode)"
  unfolding priv_key_dispatch_def priv_defs Let_def
  by (intro sane_rules sane_priv_key) (auto simp: array_types)

lemma sane_secret_dispatch: "sane z (secret_key_dispatch tok z al kt mode)"
  unfolding secret_key_dispatch_def secret_defs Let_def
  by (intro sane_rules sane_secret_key sane_des_value sane_ret_opt [OF des_value_len_ok])

lemma other_objects_ok:
  "data_object_validate_attribute a mode \<noteq> None" "cert_x509_validate_attribute tok a mode \<noteq> None"
  "cert_vendor_validate_attribute tok a mode \<noteq> None" "clock_validate_attribute a mode \<noteq> None"
  "counter_validate_attribute a mode \<noteq> None" "dp_dsa_validate_attribute a mode \<noteq> None"
  "dp_dh_validate_attribute a mode \<noteq> None" "dp_x9dh_validate_attribute a mode \<noteq> None"
  "profile_object_validate_attribute a mode \<noteq> None"
  using ulong_ok [of a "big_endian tok"]
  by (simp_all add: base_ok trusted_ok data_object_validate_attribute_def cert_x509_validate_attribute_def cert_vendor_validate_attribute_def
      cert_validate_attribute_def clock_validate_attribute_def counter_validate_attribute_def hwf_validate_attribute_def
      dp_dsa_validate_attribute_def dp_dh_validate_attribute_def dp_x9dh_validate_attribute_def dp_object_validate_attribute_def
      profile_object_validate_attribute_def Let_def del: not_None_eq)

lemma sane_validate: "sane z (template_validate_attribute tok z al cls kt mode)"
  unfolding template_validate_attribute_def Let_def
  by (intro sane_if sane_ret sane_ret_opt sane_publ_dispatch sane_priv_dispatch sane_secret_dispatch)
    (simp_all add: other_objects_ok del: not_None_eq)

lemma validate_walk_sane:
  "typed (b @ n) \<Longrightarrow> \<exists>rc t al'. validate_walk tok b n al cls kt mode = Some (rc, t, al') \<and> typed t"
proof (induction tok b n al cls kt mode rule: validate_walk.induct)
  case (2 tok b a n al cls kt mode)
  obtain rc z al1 where v: "template_validate_attribute tok (b, a, n) al cls kt mode = Some (rc, z, al1)" "typed (contents z)"
    using sane_validate [of "(b, a, n)" tok al cls kt mode] "2.prems" by (auto simp: sane_def)
  obtain b1 a1 n1 where z: "z = (b1, a1, n1)" by (cases z)
  show ?case
    using "2.IH" [OF v(1)] v z by (cases "rc = CKR_OK") simp_all
qed simp

lemma validate_attributes_sane:
  "typed tmpl \<Longrightarrow> \<exists>rc t al'. template_validate_attributes tok tmpl al cls kt mode = Some (rc, t, al') \<and> typed t"
  unfolding template_validate_attributes_def by (rule validate_walk_sane) simp

section \<open>Required attributes\<close>

lemma required_ok: "r \<noteq> None \<Longrightarrow> k \<noteq> None \<Longrightarrow> required ms mode r k \<noteq> None"
  by (auto simp: required_def split: option.splits sum.splits)

lemma nonempty_ok: "nonempty tmpl u \<noteq> None"
  by (simp add: nonempty_def template_attribute_get_non_empty_def split: option.splits)

lemma all_required_ok: "k \<noteq> None \<Longrightarrow> all_required tmpl mode ts k \<noteq> None"
proof (induction ts)
  case (Cons u ts)
  then show ?case using required_ok [OF nonempty_ok] by (cases u) (simp del: not_None_eq)
qed simp

lemma if_ok: "(c \<Longrightarrow> x \<noteq> None) \<Longrightarrow> (\<not> c \<Longrightarrow> y \<noteq> None) \<Longrightarrow> (if c then x else y) \<noteq> None"
  by simp

lemma some_ok: "Some x \<noteq> None"
  by simp

lemma pqc_then_ok: "r \<noteq> None \<Longrightarrow> k \<noteq> None \<Longrightarrow> pqc_then r k \<noteq> None"
  by (auto simp: pqc_then_def)

lemma base_required_ok: "template_check_required_base_attributes tok tmpl mode \<noteq> None"
  using get_ulong_ok [of "big_endian tok" "Some tmpl" CKA_CLASS]
  by (auto simp: template_check_required_base_attributes_def split: sum.splits)

lemmas ok_rules = if_ok some_ok required_ok all_required_ok nonempty_ok get_ulong_ok get_bool_ok pqc_then_ok base_required_ok

lemma key_required_ok:
  "key_object_check_required_attributes tok tmpl mode \<noteq> None" "publ_key_check_required_attributes tok tmpl mode \<noteq> None"
  "priv_key_check_required_attributes tok tmpl mode \<noteq> None" "secret_key_check_required_attributes tok tmpl mode \<noteq> None"
  unfolding publ_key_check_required_attributes_def priv_key_check_required_attributes_def secret_key_check_required_attributes_def
    key_object_check_required_attributes_def
  by (intro ok_rules)+

lemma find_ok: "typed tmpl \<Longrightarrow> template_attribute_find (Some tmpl) t = Some a \<Longrightarrow> attr_ok a \<and> a_type a = t"
  by (auto simp: typed_def template_attribute_find_def find_Some_iff list_all_length)

lemma pqc_check_ok:
  assumes "typed tmpl"
  shows "pqc_check_attributes tok tmpl mode mech req seed \<noteq> None"
proof (cases "pqc_keyform_mode_attrs_by_mech mech")
  case (Some r)
  obtain k m oids where r: "r = (k, m, oids)" by (cases r)
  have m: "\<not> is_attribute_attr_array m" using keyform_mode_type Some r by simp
  have "keyform_present tok tmpl k oids \<noteq> None"
  proof (cases "template_attribute_find (Some tmpl) k")
    case (Some a)
    then show ?thesis using ulong_ok [of a "big_endian tok"] by (auto simp: keyform_present_def bad_size_def)
  qed (simp add: keyform_present_def)
  moreover have "mode_present tmpl m oids \<noteq> None"
    using find_ok [OF assms] m by (fastforce simp: mode_present_def split: option.splits attribute.splits)
  moreover have "pqc_check_create tok tmpl mode req seed f g \<noteq> None" for f g
    unfolding pqc_check_create_def one_of_def by (intro ok_rules)
  ultimately show ?thesis
    using Some r by (auto simp: pqc_check_attributes_def one_of_def pqc_check_copy_def split: sum.splits)
qed (simp add: pqc_check_attributes_def)

lemma publ_required_ok: "typed tmpl \<Longrightarrow> publ_key_required tok tmpl kt mode \<noteq> None"
  unfolding publ_key_required_def publ_required_defs
  by (intro ok_rules key_required_ok pqc_check_ok)

lemma case_ok: "x \<noteq> None \<Longrightarrow> (\<And>y. f y \<noteq> None) \<Longrightarrow> (case v of None \<Rightarrow> x | Some y \<Rightarrow> f y) \<noteq> None"
  by (cases v) simp_all

lemma priv_required_ok: "typed tmpl \<Longrightarrow> priv_key_required tok tmpl kt mode \<noteq> None"
proof -
  assume t: "typed tmpl"
  have dh: "dh_priv_check_required_attributes tok tmpl mode \<noteq> None"
    using get_ulong_ok [of "big_endian tok" "Some tmpl" CKA_VALUE_BITS] key_required_ok(3)
    unfolding dh_priv_check_required_attributes_def by (intro ok_rules) auto
  show ?thesis
    unfolding priv_key_required_def rsa_priv_check_required_attributes_def dsa_priv_check_required_attributes_def
      ec_priv_check_required_attributes_def ibm_ml_dsa_priv_check_required_attributes_def ibm_ml_kem_priv_check_required_attributes_def
      ml_dsa_priv_check_required_attributes_def ml_kem_priv_check_required_attributes_def Let_def
    by (intro ok_rules case_ok key_required_ok pqc_check_ok t dh)
qed

lemma secret_required_ok: "secret_key_required tok tmpl kt mode \<noteq> None"
proof -
  have generic: "generic_secret_check_required_attributes tok tmpl mode \<noteq> None"
    using get_ulong_ok [of "big_endian tok" "Some tmpl" CKA_VALUE_LEN] key_required_ok(4) [of tok tmpl mode]
    unfolding generic_secret_check_required_attributes_def
    by (intro ok_rules key_required_ok) (auto split: option.splits sum.splits)
  show ?thesis
    unfolding secret_key_required_def des_check_required_attributes_def des2_check_required_attributes_def
      des3_check_required_attributes_def aes_check_required_attributes_def
    by (intro ok_rules key_required_ok generic)
qed

lemma foldr_required_ok: "k \<noteq> None \<Longrightarrow> foldr (\<lambda>u. required ms mode (template_attribute_get_ulong be tmpl u)) us k \<noteq> None"
proof (induction us)
  case (Cons u us)
  then show ?case using required_ok [OF get_ulong_ok] by (simp del: not_None_eq)
qed simp

lemma dp_required_ok: "dp_required tok tmpl mode ps bits \<noteq> None"
  unfolding dp_required_def dp_object_check_required_attributes_def
  by (intro ok_rules foldr_required_ok)

lemma cert_required_ok: "cert_check_required_attributes tok tmpl mode \<noteq> None"
  unfolding cert_check_required_attributes_def by (intro ok_rules)

lemma required_attributes_ok:
  assumes "typed tmpl"
  shows "template_check_required_attributes tok tmpl cls kt mode \<noteq> None"
  unfolding template_check_required_attributes_def data_object_check_required_attributes_def cert_x509_check_required_attributes_def
    cert_vendor_check_required_attributes_def clock_check_required_attributes_def counter_check_required_attributes_def
    hwf_object_check_required_attributes_def dp_dsa_check_required_attributes_def dp_dh_check_required_attributes_def
    dp_x9dh_check_required_attributes_def profile_object_check_required_attributes_def
  by (intro ok_rules cert_required_ok dp_required_ok publ_required_ok priv_required_ok secret_required_ok assms)

section \<open>Reading\<close>

lemma get_class_ok: "template_get_class be tmpl r \<noteq> None"
proof (induction tmpl arbitrary: r)
  case (Cons a tmpl)
  have "class_of be t old a \<noteq> None" for t old
    using ulong_ok [of a be] by (simp add: class_of_def bad_size_def)
  with Cons show ?case by (cases r) (auto simp del: not_None_eq simp: bind_eq_None_conv)
qed simp

lemma exportability_ok: "template_check_exportability be tmpl t \<noteq> None"
proof (cases tmpl)
  case (Some as)
  obtain f cls kt where c: "template_get_class be as (False, 0, 0) = Some (f, cls, kt)"
    using get_class_ok [of be as "(False, 0, 0)"] by auto
  obtain x y where "template_attribute_get_bool tmpl CKA_SENSITIVE = Some x" "template_attribute_get_bool tmpl CKA_EXTRACTABLE = Some y"
    using get_bool_ok [of tmpl CKA_SENSITIVE] get_bool_ok [of tmpl CKA_EXTRACTABLE] by auto
  with Some c show ?thesis by (cases x; cases y) (simp_all add: template_check_exportability_def del: not_None_eq)
qed (simp add: template_check_exportability_def)

end
