(* ===== verification/Key_Safety.thy ===== *)
theory Key_Safety
  imports Key_Applications Attr_Safety
begin

text \<open>
  Applications that pass well-formed structures: no call of theirs reads or writes outside a
  buffer or takes a value for what it is not, and every object stays well typed. And a rule whose
  flag comes out wrong.
\<close>

section \<open>Calls\<close>














section \<open>Protected keys\<close>



end
