(* ===== verification/Digest.thy ===== *)
theory Digest
  imports Constant_Time
begin

text \<open>
  The tables of hash mechanisms in \<^verbatim>\<open>usr/lib/common/utility_common.c\<close>, \<^verbatim>\<open>compute_sha\<close> of
  \<^verbatim>\<open>utility.c\<close> and the random bytes of \<^verbatim>\<open>mech_rng.c\<close>. The digests are OpenSSL's: an argument
  that gives the digest of some data, or nothing when EVP\_Digest fails. The code is built without
  MD2 (\<^verbatim>\<open>NOMD2\<close>) and with the SHA-3 digests.
\<close>

section \<open>Mechanisms\<close>

datatype mechanism =
    CKM_MD5 | CKM_SHA_1 | CKM_SHA224 | CKM_SHA256 | CKM_SHA384 | CKM_SHA512 | CKM_SHA512_224 | CKM_SHA512_256
  | CKM_SHA3_224 | CKM_SHA3_256 | CKM_SHA3_384 | CKM_SHA3_512
  | CKM_IBM_SHA3_224 | CKM_IBM_SHA3_256 | CKM_IBM_SHA3_384 | CKM_IBM_SHA3_512 | CKM_OCK_SHAKE128 | CKM_OCK_SHAKE256
  | CKM_MD5_RSA_PKCS | CKM_ECDSA_SHA1 | CKM_SHA1_RSA_PKCS | CKM_SHA1_RSA_PKCS_PSS | CKM_SHA1_KEY_DERIVATION
  | CKM_ECDSA_SHA224 | CKM_SHA224_RSA_PKCS | CKM_SHA224_RSA_PKCS_PSS | CKM_SHA224_KEY_DERIVATION | CKM_HASH_ML_DSA_SHA224
  | CKM_ECDSA_SHA256 | CKM_SHA256_RSA_PKCS | CKM_SHA256_RSA_PKCS_PSS | CKM_SHA256_KEY_DERIVATION | CKM_HASH_ML_DSA_SHA256
  | CKM_ECDSA_SHA384 | CKM_SHA384_RSA_PKCS | CKM_SHA384_RSA_PKCS_PSS | CKM_SHA384_KEY_DERIVATION | CKM_HASH_ML_DSA_SHA384
  | CKM_ECDSA_SHA512 | CKM_SHA512_RSA_PKCS | CKM_SHA512_RSA_PKCS_PSS | CKM_SHA512_KEY_DERIVATION | CKM_HASH_ML_DSA_SHA512
  | CKM_SHA512_224_KEY_DERIVATION | CKM_SHA512_256_KEY_DERIVATION
  | CKM_ECDSA_SHA3_224 | CKM_SHA3_224_RSA_PKCS | CKM_SHA3_224_RSA_PKCS_PSS | CKM_SHA3_224_KEY_DERIVATION | CKM_HASH_ML_DSA_SHA3_224
  | CKM_ECDSA_SHA3_256 | CKM_SHA3_256_RSA_PKCS | CKM_SHA3_256_RSA_PKCS_PSS | CKM_SHA3_256_KEY_DERIVATION | CKM_HASH_ML_DSA_SHA3_256
  | CKM_ECDSA_SHA3_384 | CKM_SHA3_384_RSA_PKCS | CKM_SHA3_384_RSA_PKCS_PSS | CKM_SHA3_384_KEY_DERIVATION | CKM_HASH_ML_DSA_SHA3_384
  | CKM_ECDSA_SHA3_512 | CKM_SHA3_512_RSA_PKCS | CKM_SHA3_512_RSA_PKCS_PSS | CKM_SHA3_512_KEY_DERIVATION | CKM_HASH_ML_DSA_SHA3_512
  | CKM_HASH_ML_DSA_SHAKE128 | CKM_HASH_ML_DSA_SHAKE256 | CKM_RSA_PKCS_PSS | CKM_OTHER u64

datatype mgf_type =
    CKG_MGF1_SHA1 | CKG_MGF1_SHA224 | CKG_MGF1_SHA256 | CKG_MGF1_SHA384 | CKG_MGF1_SHA512
  | CKG_MGF1_SHA3_224 | CKG_MGF1_SHA3_256 | CKG_MGF1_SHA3_384 | CKG_MGF1_SHA3_512
  | CKG_IBM_MGF1_SHA3_224 | CKG_IBM_MGF1_SHA3_256 | CKG_IBM_MGF1_SHA3_384 | CKG_IBM_MGF1_SHA3_512 | CKG_OTHER u64

definition get_sha_size :: "mechanism \<Rightarrow> nat ck" where
  "get_sha_size m =
     (if m = CKM_MD5 then ck_ok 16
      else if m = CKM_SHA_1 then ck_ok 20
      else if m \<in> {CKM_SHA224, CKM_SHA512_224, CKM_SHA3_224, CKM_IBM_SHA3_224} then ck_ok 28
      else if m \<in> {CKM_SHA256, CKM_SHA512_256, CKM_SHA3_256, CKM_IBM_SHA3_256} then ck_ok 32
      else if m \<in> {CKM_SHA384, CKM_SHA3_384, CKM_IBM_SHA3_384} then ck_ok 48
      else if m \<in> {CKM_SHA512, CKM_SHA3_512, CKM_IBM_SHA3_512} then ck_ok 64
      else if m \<in> {CKM_OCK_SHAKE128, CKM_OCK_SHAKE256} then ck_ok 0
      else ck_fail CKR_MECHANISM_INVALID)"

definition get_mgf_mech :: "mgf_type \<Rightarrow> mechanism ck" where
  "get_mgf_mech mgf =
     (case mgf of
        CKG_MGF1_SHA1 \<Rightarrow> ck_ok CKM_SHA_1
      | CKG_MGF1_SHA224 \<Rightarrow> ck_ok CKM_SHA224
      | CKG_MGF1_SHA256 \<Rightarrow> ck_ok CKM_SHA256
      | CKG_MGF1_SHA384 \<Rightarrow> ck_ok CKM_SHA384
      | CKG_MGF1_SHA512 \<Rightarrow> ck_ok CKM_SHA512
      | CKG_MGF1_SHA3_224 \<Rightarrow> ck_ok CKM_SHA3_224
      | CKG_MGF1_SHA3_256 \<Rightarrow> ck_ok CKM_SHA3_256
      | CKG_MGF1_SHA3_384 \<Rightarrow> ck_ok CKM_SHA3_384
      | CKG_MGF1_SHA3_512 \<Rightarrow> ck_ok CKM_SHA3_512
      | CKG_IBM_MGF1_SHA3_224 \<Rightarrow> ck_ok CKM_IBM_SHA3_224
      | CKG_IBM_MGF1_SHA3_256 \<Rightarrow> ck_ok CKM_IBM_SHA3_256
      | CKG_IBM_MGF1_SHA3_384 \<Rightarrow> ck_ok CKM_IBM_SHA3_384
      | CKG_IBM_MGF1_SHA3_512 \<Rightarrow> ck_ok CKM_IBM_SHA3_512
      | CKG_OTHER _ \<Rightarrow> ck_fail CKR_MECHANISM_INVALID)"

definition get_digest_from_mech :: "mechanism \<Rightarrow> mechanism ck" where
  "get_digest_from_mech m =
     (if m = CKM_MD5_RSA_PKCS then ck_ok CKM_MD5
      else if m \<in> {CKM_ECDSA_SHA1, CKM_SHA1_RSA_PKCS, CKM_SHA1_RSA_PKCS_PSS, CKM_SHA1_KEY_DERIVATION} then ck_ok CKM_SHA_1
      else if m \<in> {CKM_ECDSA_SHA224, CKM_SHA224_RSA_PKCS, CKM_SHA224_RSA_PKCS_PSS, CKM_SHA224_KEY_DERIVATION, CKM_HASH_ML_DSA_SHA224}
      then ck_ok CKM_SHA224
      else if m \<in> {CKM_ECDSA_SHA256, CKM_SHA256_RSA_PKCS, CKM_SHA256_RSA_PKCS_PSS, CKM_SHA256_KEY_DERIVATION, CKM_HASH_ML_DSA_SHA256}
      then ck_ok CKM_SHA256
      else if m \<in> {CKM_ECDSA_SHA384, CKM_SHA384_RSA_PKCS, CKM_SHA384_RSA_PKCS_PSS, CKM_SHA384_KEY_DERIVATION, CKM_HASH_ML_DSA_SHA384}
      then ck_ok CKM_SHA384
      else if m \<in> {CKM_ECDSA_SHA512, CKM_SHA512_RSA_PKCS, CKM_SHA512_RSA_PKCS_PSS, CKM_SHA512_KEY_DERIVATION, CKM_HASH_ML_DSA_SHA512}
      then ck_ok CKM_SHA512
      else if m = CKM_SHA512_224_KEY_DERIVATION then ck_ok CKM_SHA512_224
      else if m = CKM_SHA512_256_KEY_DERIVATION then ck_ok CKM_SHA512_256
      else if m \<in> {CKM_ECDSA_SHA3_224, CKM_SHA3_224_RSA_PKCS, CKM_SHA3_224_RSA_PKCS_PSS, CKM_SHA3_224_KEY_DERIVATION, CKM_HASH_ML_DSA_SHA3_224}
      then ck_ok CKM_SHA3_224
      else if m \<in> {CKM_ECDSA_SHA3_256, CKM_SHA3_256_RSA_PKCS, CKM_SHA3_256_RSA_PKCS_PSS, CKM_SHA3_256_KEY_DERIVATION, CKM_HASH_ML_DSA_SHA3_256}
      then ck_ok CKM_SHA3_256
      else if m \<in> {CKM_ECDSA_SHA3_384, CKM_SHA3_384_RSA_PKCS, CKM_SHA3_384_RSA_PKCS_PSS, CKM_SHA3_384_KEY_DERIVATION, CKM_HASH_ML_DSA_SHA3_384}
      then ck_ok CKM_SHA3_384
      else if m \<in> {CKM_ECDSA_SHA3_512, CKM_SHA3_512_RSA_PKCS, CKM_SHA3_512_RSA_PKCS_PSS, CKM_SHA3_512_KEY_DERIVATION, CKM_HASH_ML_DSA_SHA3_512}
      then ck_ok CKM_SHA3_512
      else if m = CKM_HASH_ML_DSA_SHAKE128 then ck_ok CKM_OCK_SHAKE128
      else if m = CKM_HASH_ML_DSA_SHAKE256 then ck_ok CKM_OCK_SHAKE256
      else ck_fail CKR_MECHANISM_INVALID)"

section \<open>Digests\<close>

datatype evp_md = EVP_md5 | EVP_sha1 | EVP_sha224 | EVP_sha256 | EVP_sha384 | EVP_sha512
  | EVP_sha3_224 | EVP_sha3_256 | EVP_sha3_384 | EVP_sha3_512

type_synonym digest = "evp_md \<Rightarrow> byte list \<Rightarrow> byte list option"

definition sha_md :: "mechanism \<Rightarrow> evp_md option" where
  "sha_md m =
     (if m = CKM_MD5 then Some EVP_md5
      else if m = CKM_SHA_1 then Some EVP_sha1
      else if m \<in> {CKM_SHA224, CKM_SHA512_224} then Some EVP_sha224
      else if m \<in> {CKM_SHA256, CKM_SHA512_256} then Some EVP_sha256
      else if m = CKM_SHA384 then Some EVP_sha384
      else if m = CKM_SHA512 then Some EVP_sha512
      else if m \<in> {CKM_SHA3_224, CKM_IBM_SHA3_224} then Some EVP_sha3_224
      else if m \<in> {CKM_SHA3_256, CKM_IBM_SHA3_256} then Some EVP_sha3_256
      else if m \<in> {CKM_SHA3_384, CKM_IBM_SHA3_384} then Some EVP_sha3_384
      else if m \<in> {CKM_SHA3_512, CKM_IBM_SHA3_512} then Some EVP_sha3_512
      else None)"

definition compute_sha :: "digest \<Rightarrow> byte list \<Rightarrow> mechanism \<Rightarrow> byte list ck" where
  "compute_sha dig bs m =
     (case sha_md m of
        None \<Rightarrow> ck_fail CKR_MECHANISM_INVALID
      | Some md \<Rightarrow> (case dig md bs of None \<Rightarrow> ck_fail CKR_FUNCTION_FAILED | Some h \<Rightarrow> ck_ok h))"

text \<open>What OpenSSL documents of its digests: their length.\<close>

fun md_size :: "evp_md \<Rightarrow> nat" where
  "md_size EVP_md5 = 16"
| "md_size EVP_sha1 = 20"
| "md_size EVP_sha224 = 28"
| "md_size EVP_sha256 = 32"
| "md_size EVP_sha384 = 48"
| "md_size EVP_sha512 = 64"
| "md_size EVP_sha3_224 = 28"
| "md_size EVP_sha3_256 = 32"
| "md_size EVP_sha3_384 = 48"
| "md_size EVP_sha3_512 = 64"

definition digest_sized :: "digest \<Rightarrow> bool" where
  "digest_sized dig \<longleftrightarrow> (\<forall>md bs h. dig md bs = Some h \<longrightarrow> length h = md_size md)"

lemma sha_md_size: "sha_md m = Some md \<Longrightarrow> get_sha_size m = ck_ok (md_size md)"
  by (auto simp: sha_md_def get_sha_size_def split: if_splits)

lemma md_size_bounds: "16 \<le> md_size md" "md_size md \<le> 64"
  by (cases md; simp)+

lemma compute_sha_length:
  "digest_sized dig \<Longrightarrow> compute_sha dig bs m = ck_ok h \<Longrightarrow> get_sha_size m = ck_ok (length h)"
  using sha_md_size by (fastforce simp: compute_sha_def digest_sized_def split: option.splits)

lemma compute_sha_defined: "compute_sha dig bs m \<noteq> None"
  by (auto simp: compute_sha_def split: option.splits)

lemma mgf_mech_md: "get_mgf_mech mgf = ck_ok m \<Longrightarrow> \<exists>md. sha_md m = Some md"
  by (cases mgf) (auto simp: get_mgf_mech_def sha_md_def)

section \<open>Random bytes\<close>

text \<open>
  The bytes the device or the token's generator is going to deliver. \<^verbatim>\<open>local_rng\<close> fails when a
  read returns nothing, also when nothing was asked for.
\<close>

type_synonym rng = "byte list"

definition local_rng :: "rng \<Rightarrow> nat \<Rightarrow> (byte list \<times> rng) ck" where
  "local_rng dev n = (if n = 0 \<or> length dev < n then ck_fail CKR_FUNCTION_FAILED else ck_ok (take n dev, drop n dev))"

definition rng_generate :: "rng \<Rightarrow> nat \<Rightarrow> (byte list \<times> rng) ck" where
  "rng_generate dev n = local_rng dev n"

end
