(* ===== verification/Rsa_Block.thy ===== *)
theory Rsa_Block
  imports Digest
begin

text \<open>
  PKCS\#1 v1.5 encryption blocks (\<^verbatim>\<open>usr/lib/common/mech_rsa.c\<close>) and the pseudorandom function
  behind implicit rejection (\<^verbatim>\<open>mech_openssl.c\<close>). Buffers are lists, so the tests for NULL pointers
  have no counterpart; what an error leaves in an output buffer is not part of the result. The
  HMAC of OpenSSL is an argument.
\<close>

section \<open>Formatting\<close>

text \<open>\<^verbatim>\<open>while (out_data[i] == 0) rng_generate(..., 1)\<close>, and this for every byte.\<close>

fun draw_nonzero :: "rng \<Rightarrow> (byte \<times> rng) ck" where
  "draw_nonzero [] = ck_fail CKR_FUNCTION_FAILED"
| "draw_nonzero (b # dev) = (if b = 0 then draw_nonzero dev else ck_ok (b, dev))"

fun replace_zeros :: "rng \<Rightarrow> byte list \<Rightarrow> (byte list \<times> rng) ck" where
  "replace_zeros dev [] = ck_ok ([], dev)"
| "replace_zeros dev (b # bs) =
     ck_bind (if b = 0 then draw_nonzero dev else ck_ok (b, dev)) (\<lambda>(b, dev).
     ck_bind (replace_zeros dev bs) (\<lambda>(bs, dev). ck_ok (b # bs, dev)))"

definition rsa_format_block :: "rng \<Rightarrow> byte list \<Rightarrow> nat \<Rightarrow> u64 \<Rightarrow> (byte list \<times> rng) ck" where
  "rsa_format_block dev d out_data_len bt =
     (if out_data_len = 0 then ck_fail CKR_FUNCTION_FAILED
      else if length d > out_data_len \<or> out_data_len - length d < 11 then ck_fail CKR_BUFFER_TOO_SMALL
      else let padding_len = out_data_len - 3 - length d;
               block = (\<lambda>ps. [0, ucast bt] @ ps @ [0] @ d) in
        if (bt = 1 \<or> bt = 2) \<and> padding_len < 8 then ck_fail CKR_DATA_LEN_RANGE
        else if bt = 0
        then (case d of
            [] \<Rightarrow> None
          | b # _ \<Rightarrow> if b = 0 then ck_fail CKR_DATA_INVALID else ck_ok (block (replicate padding_len 0), dev))
        else if bt = 1 then ck_ok (block (replicate padding_len 0xff), dev)
        else if bt = 2
        then ck_bind (rng_generate dev padding_len) (\<lambda>(ps, dev).
             ck_bind (replace_zeros dev ps) (\<lambda>(ps, dev). ck_ok (block ps, dev)))
        else ck_fail CKR_DATA_INVALID)"

section \<open>Parsing a block of type 1\<close>

text \<open>The loop over the bytes 2 to \<^verbatim>\<open>in_data_len - 2\<close>: where it stops, and whether at a zero byte.\<close>

fun scan_ff :: "byte list \<Rightarrow> nat \<Rightarrow> (nat \<times> bool) ck" where
  "scan_ff [] i = ck_ok (i, False)"
| "scan_ff (b # bs) i =
     (if b \<noteq> 0xff then if b = 0 then ck_ok (i + 1, True) else ck_fail CKR_ENCRYPTED_DATA_INVALID
      else scan_ff bs (i + 1))"

definition rsa_parse_block_type_1 :: "byte list \<Rightarrow> nat \<Rightarrow> byte list ck" where
  "rsa_parse_block_type_1 em out_data_len =
     (let in_data_len = length em in
      if in_data_len \<le> 11 then ck_fail CKR_FUNCTION_FAILED
      else if em ! 0 \<noteq> 0 then ck_fail CKR_ENCRYPTED_DATA_INVALID
      else if em ! 1 \<noteq> 1 then ck_fail CKR_ENCRYPTED_DATA_INVALID
      else ck_bind (scan_ff (take (in_data_len - 3) (drop 2 em)) 2) (\<lambda>(i, found).
        let i = (if found then i else i + 1) in
        if i - 3 < 8 then ck_fail CKR_ENCRYPTED_DATA_INVALID
        else if out_data_len < in_data_len - i then ck_fail CKR_BUFFER_TOO_SMALL
        else ck_ok (drop i em)))"

section \<open>The pseudorandom function\<close>

type_synonym hmac = "byte list \<Rightarrow> byte list \<Rightarrow> byte list option"

definition SHA256_HASH_SIZE :: nat where "SHA256_HASH_SIZE = 32"

definition be16 :: "16 word \<Rightarrow> byte list" where
  "be16 w = [ucast (drop_bit 8 w), ucast w]"

function prf_blocks :: "hmac \<Rightarrow> byte list \<Rightarrow> byte list \<Rightarrow> 16 word \<Rightarrow> 16 word \<Rightarrow> nat \<Rightarrow> byte list ck" where
  "prf_blocks mac kdk label bitlen iter n =
     (if n = 0 then ck_ok []
      else (case mac kdk (be16 iter @ label @ be16 bitlen) of
          None \<Rightarrow> ck_fail CKR_FUNCTION_FAILED
        | Some h \<Rightarrow> ck_bind (prf_blocks mac kdk label bitlen (iter + 1) (n - SHA256_HASH_SIZE)) (\<lambda>rest.
            ck_ok (take n h @ rest))))"
  by pat_completeness auto
termination
  by (relation "measure (\<lambda>(_, _, _, _, _, n). n)") (auto simp: SHA256_HASH_SIZE_def)

declare prf_blocks.simps [simp del]

definition openssl_specific_rsa_prf :: "hmac \<Rightarrow> nat \<Rightarrow> byte list \<Rightarrow> byte list \<Rightarrow> 16 word \<Rightarrow> byte list ck" where
  "openssl_specific_rsa_prf mac outlen label kdk bitlen =
     (if length kdk \<noteq> SHA256_HASH_SIZE then ck_fail CKR_ARGUMENTS_BAD
      else if outlen * 8 \<noteq> unat bitlen then ck_fail CKR_ARGUMENTS_BAD
      else prf_blocks mac kdk label bitlen 0 outlen)"

section \<open>Parsing a block of type 2\<close>

text \<open>A \<^verbatim>\<open>size_t\<close> goes through the \<^verbatim>\<open>int\<close> arguments and result of the selection.\<close>

definition select_size :: "u32 \<Rightarrow> u64 \<Rightarrow> u64 \<Rightarrow> u64" where
  "select_size smask a b = scast (constant_time_select_int smask (ucast a) (ucast b))"

definition MAX_LEN_GEN_TRIES :: nat where "MAX_LEN_GEN_TRIES = 128"

definition spread :: "16 word \<Rightarrow> 16 word" where
  "spread w =
     (let w = or w (drop_bit 1 w); w = or w (drop_bit 2 w); w = or w (drop_bit 4 w) in or w (drop_bit 8 w))"

fun synthetic_length :: "16 word \<Rightarrow> 16 word \<Rightarrow> byte list \<Rightarrow> u32 \<Rightarrow> u32" where
  "synthetic_length len_mask max_sep_offset (a # b # bs) acc =
     (let len_candidate = and (or (push_bit 8 (ucast a)) (ucast b)) len_mask in
      synthetic_length len_mask max_sep_offset bs
        (constant_time_select_int (constant_time_lt (ucast len_candidate) (ucast max_sep_offset)) (ucast len_candidate) acc))"
| "synthetic_length len_mask max_sep_offset _ acc = acc"

fun scan_zero :: "byte list \<Rightarrow> u64 \<Rightarrow> u64 \<Rightarrow> u32 \<Rightarrow> u64" where
  "scan_zero [] i zero_index found_zero_byte = zero_index"
| "scan_zero (b # bs) i zero_index found_zero_byte =
     (let equals0 = constant_time_is_zero (ucast b) in
      scan_zero bs (i + 1) (select_size (and (not found_zero_byte) equals0) i zero_index) (or found_zero_byte equals0))"

text \<open>The copy loop: from \<^verbatim>\<open>msg_index\<close> on, at most \<^verbatim>\<open>*out_data_len\<close> bytes.\<close>

definition select_bytes :: "u32 \<Rightarrow> byte list \<Rightarrow> byte list \<Rightarrow> byte list" where
  "select_bytes good as bs = map2 (\<lambda>a b. constant_time_select_8 (ucast good) a b) as bs"

definition rsa_parse_block_type_2 :: "hmac \<Rightarrow> allocs \<Rightarrow> byte list \<Rightarrow> nat \<Rightarrow> byte list \<Rightarrow> byte list ck" where
  "rsa_parse_block_type_2 mac al em out_data_len kdk =
     (let in_data_len = length em in
      if kdk = [] then ck_fail CKR_ARGUMENTS_BAD
      else if in_data_len < 11 then ck_fail CKR_FUNCTION_FAILED
      else ck_bind (ck_malloc al) (\<lambda>_.
        ck_bind (openssl_specific_rsa_prf mac in_data_len (map of_nat [109, 101, 115, 115, 97, 103, 101]) kdk
            (of_nat (in_data_len * 8))) (\<lambda>synthetic.
        ck_bind (openssl_specific_rsa_prf mac (MAX_LEN_GEN_TRIES * 2) (map of_nat [108, 101, 110, 103, 116, 104]) kdk
            (of_nat (MAX_LEN_GEN_TRIES * 2 * 8))) (\<lambda>candidate_lengths.
        let max_sep_offset = of_nat (in_data_len - 2 - 8);
            len_mask = spread max_sep_offset;
            synth_len = synthetic_length len_mask max_sep_offset candidate_lengths 0;
            synth_msg_index = of_nat in_data_len - synth_len;
            good = and (constant_time_is_zero (ucast (em ! 0))) (constant_time_eq (ucast (em ! 1)) 2);
            zero_index = scan_zero (drop 2 em) 2 0 0;
            good = and good (constant_time_ge (ucast zero_index) (2 + 8));
            msg_index = zero_index + 1;
            good = and good (constant_time_ge (of_nat out_data_len) (ucast (of_nat in_data_len - msg_index)));
            msg_index = select_size good msg_index (scast synth_msg_index)
        in ck_ok (take out_data_len
             (select_bytes good (drop (unat msg_index) em) (drop (unat msg_index) synthetic)))))))"

definition rsa_parse_block :: "hmac \<Rightarrow> allocs \<Rightarrow> byte list \<Rightarrow> nat \<Rightarrow> u64 \<Rightarrow> byte list \<Rightarrow> byte list ck" where
  "rsa_parse_block mac al em out_data_len bt kdk =
     (if bt = 1 then rsa_parse_block_type_1 em out_data_len
      else if bt = 2 then rsa_parse_block_type_2 mac al em out_data_len kdk
      else ck_fail CKR_ARGUMENTS_BAD)"

end
