(* ===== verification/Rsa_Pad.thy ===== *)
theory Rsa_Pad
  imports Rsa_Block
begin

text \<open>
  The mask generation function, EME-OAEP and EMSA-PSS of \<^verbatim>\<open>usr/lib/common/mech_rsa.c\<close>. A buffer
  is a list of its length; reading or writing outside it is undefined. The lengths an application
  chooses are 64-bit words with their wrap-around.
\<close>

section \<open>Mask generation\<close>

definition be32 :: "nat \<Rightarrow> byte list" where
  "be32 i = (let w = of_nat i :: u32 in [ucast (drop_bit 24 w), ucast (drop_bit 16 w), ucast (drop_bit 8 w), ucast w])"

text \<open>
  The counter is an \<^verbatim>\<open>int\<close>, whose overflow is undefined. A digest of length 0 does not occur among
  the mechanisms of a mask generation function.
\<close>

function mgf_blocks :: "digest \<Rightarrow> byte list \<Rightarrow> mechanism \<Rightarrow> nat \<Rightarrow> nat \<Rightarrow> nat \<Rightarrow> byte list ck" where
  "mgf_blocks dig seed mech hlen i t_len =
     (if t_len = 0 \<or> hlen = 0 then ck_ok []
      else ck_bind (compute_sha dig (seed @ be32 i) mech) (\<lambda>hash.
        if i + 1 \<ge> 2 ^ 31 then None
        else Option.bind (get_bytes hash 0 (min hlen t_len)) (\<lambda>block.
          ck_bind (mgf_blocks dig seed mech hlen (i + 1) (t_len - hlen)) (\<lambda>rest. ck_ok (block @ rest)))))"
  by pat_completeness auto
termination
  by (relation "measure (\<lambda>(_, _, _, _, _, t). t)") auto

declare mgf_blocks.simps [simp del]

definition mgf1 :: "digest \<Rightarrow> allocs \<Rightarrow> byte list \<Rightarrow> nat \<Rightarrow> mgf_type \<Rightarrow> (byte list \<times> allocs) ck" where
  "mgf1 dig al seed maskLen mgf =
     (case get_mgf_mech mgf of
        Some (Inr mech) \<Rightarrow>
          (case get_sha_size mech of
             Some (Inr hlen) \<Rightarrow>
               ck_bind (ck_malloc al) (\<lambda>al.
               ck_bind (mgf_blocks dig seed mech hlen 0 maskLen) (\<lambda>mask. ck_ok (mask, al)))
           | _ \<Rightarrow> ck_fail CKR_FUNCTION_FAILED)
      | _ \<Rightarrow> ck_fail CKR_FUNCTION_FAILED)"

section \<open>EME-OAEP\<close>

text \<open>
  \<open>hash\<close> is the digest of the label, of length \<^verbatim>\<open>hlen\<close>; the seed has room for
  \<^verbatim>\<open>MAX_SHA_HASH_SIZE\<close> bytes.
\<close>

definition MAX_SHA_HASH_SIZE :: nat where "MAX_SHA_HASH_SIZE = 64"

definition encode_eme_oaep ::
  "digest \<Rightarrow> allocs \<Rightarrow> rng \<Rightarrow> byte list \<Rightarrow> nat \<Rightarrow> mgf_type \<Rightarrow> byte list \<Rightarrow> (byte list \<times> rng) ck" where
  "encode_eme_oaep dig al dev m modLength mgf hash =
     (let hlen = length hash in
      if modLength < length m + 2 * hlen + 2 then ck_fail CKR_DATA_LEN_RANGE
      else if hlen > MAX_SHA_HASH_SIZE then None
      else let ps_len = modLength - length m - 2 * hlen - 2;
               db = hash @ replicate ps_len 0 @ [1] @ m;
               dbMask_len = modLength - hlen - 1 in
        ck_bind (rng_generate dev hlen) (\<lambda>(seed, dev).
        ck_bind (ck_malloc al) (\<lambda>al.
        ck_bind (mgf1 dig al seed dbMask_len mgf) (\<lambda>(dbMask, al).
        let maskedDB = map2 xor db dbMask in
        ck_bind (mgf1 dig al maskedDB hlen mgf) (\<lambda>(seedMask, al).
        ck_ok ([0] @ map2 xor seedMask seed @ maskedDB, dev))))))"

text \<open>The loop over the padding: \<open>one_index\<close>, \<open>found_one_byte\<close> and \<open>ok\<close>.\<close>

fun oaep_scan :: "byte list \<Rightarrow> u64 \<Rightarrow> u64 \<Rightarrow> u32 \<Rightarrow> u32 \<Rightarrow> u64 \<times> u32 \<times> u32" where
  "oaep_scan [] i one_index found_one_byte ok = (one_index, found_one_byte, ok)"
| "oaep_scan (b # bs) i one_index found_one_byte ok =
     (let equals1 = constant_time_eq (ucast b) 1;
          equals0 = constant_time_is_zero (ucast b);
          one_index = select_size (and (not found_one_byte) equals1) i one_index;
          found_one_byte = or found_one_byte equals1
      in oaep_scan bs (i + 1) one_index found_one_byte (and ok (or found_one_byte equals0)))"

text \<open>
  The data behind the label's digest and the first padding byte is moved to the left by the bits
  of the distance, one power of two after the other: \<open>n\<close> bytes, in steps of \<open>p\<close>.
\<close>

function oaep_shift :: "nat \<Rightarrow> u64 \<Rightarrow> nat \<Rightarrow> byte list \<Rightarrow> byte list" where
  "oaep_shift n dist p db =
     (if p = 0 \<or> n \<le> p then db
      else let smask = not (constant_time_eq (ucast (and (of_nat p) dist)) 0) :: u32 in
        oaep_shift n dist (2 * p)
          (map (\<lambda>i. if i < n - p then constant_time_select_8 (ucast smask) (db ! (i + p)) (db ! i) else db ! i) [0..<n]))"
  by pat_completeness auto
termination
  by (relation "measure (\<lambda>(n, _, p, _). n - p)") auto

declare oaep_shift.simps [simp del]

fun oaep_copy :: "u32 \<Rightarrow> u64 \<Rightarrow> u64 \<Rightarrow> byte list \<Rightarrow> byte list \<Rightarrow> nat \<Rightarrow> byte list option" where
  "oaep_copy ok mlen i db out 0 = Some out"
| "oaep_copy ok mlen i (d # db) (c # out) (Suc n) =
     (let smask = and ok (constant_time_lt (ucast i) (ucast mlen)) in
      map_option ((#) (constant_time_select_8 (ucast smask) d c)) (oaep_copy ok mlen (i + 1) db out n))"
| "oaep_copy ok mlen i _ _ (Suc n) = None"

text \<open>
  The result is the code, the length and the buffer of the caller. \<^verbatim>\<open>CRYPTO_memcmp\<close> is zero for
  equal bytes. When a mask cannot be generated, \<open>ok\<close> only says that the first byte is zero.
\<close>

definition oaep_finish :: "u32 \<Rightarrow> u64 \<Rightarrow> byte list \<Rightarrow> ck_rv \<times> u64 \<times> byte list" where
  "oaep_finish ok mlen out =
     (if constant_time_select_int ok 0 0x40 = 0 then CKR_OK else CKR_ENCRYPTED_DATA_INVALID, select_size ok mlen 0, out)"

definition decode_eme_oaep ::
  "digest \<Rightarrow> allocs \<Rightarrow> byte list \<Rightarrow> byte list \<Rightarrow> u64 \<Rightarrow> mgf_type \<Rightarrow> byte list \<Rightarrow> (ck_rv \<times> u64 \<times> byte list) option" where
  "decode_eme_oaep dig al em out out_data_len mgf hash =
     (let hlen = length hash; emLen = length em in
      if emLen < 2 * hlen + 2 then Some (CKR_ARGUMENTS_BAD, out_data_len, out)
      else let dblen = emLen - hlen - 1 in
      case ck_malloc al of
        Some (Inr al) \<Rightarrow>
          let ok = constant_time_is_zero (ucast (em ! 0)) :: u32;
              maskedseed = take hlen (drop 1 em);
              maskeddb = drop (1 + hlen) em in
          if hlen > MAX_SHA_HASH_SIZE then None
          else (case mgf1 dig al maskeddb hlen mgf of
              None \<Rightarrow> None
            | Some (Inl _) \<Rightarrow> Some (oaep_finish ok (- 1) out)
            | Some (Inr (seedmask, al)) \<Rightarrow>
                let seed = map2 xor seedmask maskedseed in
                (case mgf1 dig al seed dblen mgf of
                   None \<Rightarrow> None
                 | Some (Inl _) \<Rightarrow> Some (oaep_finish ok (- 1) out)
                 | Some (Inr (dbmask, al)) \<Rightarrow>
                     let db = map2 xor dbmask maskeddb;
                         ok = and ok (constant_time_is_zero (if take hlen db = hash then 0 else 1));
                         (one_index, found_one_byte, ok) = oaep_scan (drop hlen db) (of_nat hlen) 0 0 ok;
                         ok = and ok found_one_byte;
                         msg_index = one_index + 1;
                         mlen = of_nat dblen - msg_index;
                         ok = and ok (constant_time_ge (ucast out_data_len) (ucast mlen));
                         n = dblen - hlen - 1;
                         olen = select_size (constant_time_lt (of_nat n) (ucast out_data_len)) (of_nat n) out_data_len;
                         rest = oaep_shift n (of_nat n - mlen) 1 (drop (hlen + 1) db)
                     in map_option (oaep_finish ok mlen) (oaep_copy ok mlen 0 rest out (unat olen))))
      | _ \<Rightarrow> Some (CKR_HOST_MEMORY, out_data_len, out))"

section \<open>EMSA-PSS\<close>

record pss_params =
  hashAlg :: mechanism
  pss_mgf :: mgf_type
  sLen :: u64

definition em_bits :: "u64 \<Rightarrow> u64" where
  "em_bits modbytes = modbytes * 8 - 1"

definition em_len :: "u64 \<Rightarrow> u64" where
  "em_len modbytes = (if em_bits modbytes mod 8 = 0 then modbytes - 1 else modbytes)"

text \<open>\<^verbatim>\<open>0xFF >> (8 * emLen - emBits)\<close>; the shift of an \<^verbatim>\<open>int\<close> by its width or more is undefined.\<close>

definition top_mask :: "u64 \<Rightarrow> byte option" where
  "top_mask modbytes =
     (let n = 8 * em_len modbytes - em_bits modbytes in if n < 32 then Some (ucast (drop_bit (unat n) (0xFF :: u32))) else None)"

definition sha_len :: "mechanism \<Rightarrow> u64 ck" where
  "sha_len m = (case get_sha_size m of Some (Inr n) \<Rightarrow> ck_ok (of_nat n) | _ \<Rightarrow> ck_fail CKR_MECHANISM_INVALID)"

text \<open>The salt is written by the generator directly into the helper buffer, behind 8 + \<^verbatim>\<open>in_data_len\<close> bytes.\<close>

definition draw_salt :: "rng \<Rightarrow> nat \<Rightarrow> u64 \<Rightarrow> u64 \<Rightarrow> (byte list \<times> rng) ck" where
  "draw_salt dev off n buflen =
     (if n = 0 then ck_ok ([], dev)
      else if off + unat n > unat buflen then None
      else rng_generate dev (unat n))"

text \<open>The caller's buffer \<open>em\<close> holds the modulus; the result is the encoded message of length \<^verbatim>\<open>*modbytes\<close>.\<close>

definition emsa_pss_encode ::
  "digest \<Rightarrow> allocs \<Rightarrow> rng \<Rightarrow> pss_params \<Rightarrow> byte list \<Rightarrow> u64 \<Rightarrow> byte list ck" where
  "emsa_pss_encode dig al dev pss in_data modbytes =
     (let emLen = em_len modbytes in
      ck_bind (sha_len (hashAlg pss)) (\<lambda>hlen.
      if emLen < hlen + sLen pss + 2 then ck_fail CKR_DATA_LEN_RANGE
      else if of_nat (length in_data) \<noteq> hlen then ck_fail CKR_DATA_LEN_RANGE
      else let db_len = emLen - hlen - 1;
               m_len = 8 + hlen + sLen pss;
               buflen = (if db_len < m_len then m_len else db_len) in
        ck_bind (ck_malloc al) (\<lambda>al.
        ck_bind (draw_salt dev (8 + length in_data) (sLen pss) buflen) (\<lambda>(salt, dev).
        ck_bind (compute_sha dig (replicate 8 0 @ in_data @ salt) (hashAlg pss)) (\<lambda>h.
        let ps_len = emLen - sLen pss - hlen - 2;
            db = replicate (unat ps_len) 0 @ [1] @ salt in
        ck_bind (mgf1 dig al h (unat db_len) (pss_mgf pss)) (\<lambda>(dbMask, al).
        case (map2 xor db dbMask, top_mask modbytes) of
          (b # bs, Some tm) \<Rightarrow> ck_ok ((and b tm # bs) @ h @ [0xbc])
        | _ \<Rightarrow> None))))))"

text \<open>
  The second half of the verification, on the helper buffer that holds DB and behind it room for
  M': the padding of \<open>plen\<close> zero bytes and a 1, the salt, and the digest over the message and the salt.
\<close>

definition pss_check ::
  "digest \<Rightarrow> pss_params \<Rightarrow> byte list \<Rightarrow> byte list \<Rightarrow> nat \<Rightarrow> byte \<Rightarrow> nat \<Rightarrow> byte list \<Rightarrow> ck_rv option" where
  "pss_check dig pss in_data h hlen tm plen buf =
     (case buf of
        [] \<Rightarrow> None
      | b # bs \<Rightarrow>
          let db = and b tm # bs; i = length (takeWhile (\<lambda>b. b = 0) (take plen db)) in
          if i \<noteq> plen then if i = length db then None else Some CKR_SIGNATURE_INVALID
          else (case peek db i of
              None \<Rightarrow> None
            | Some c \<Rightarrow>
                if c \<noteq> 1 then Some CKR_SIGNATURE_INVALID
                else if i + 1 + unat (sLen pss) + 8 + hlen + unat (sLen pss) > length db then None
                else (case compute_sha dig (replicate 8 0 @ in_data @ take (unat (sLen pss)) (drop (i + 1) db)) (hashAlg pss) of
                    None \<Rightarrow> None
                  | Some (Inl rc) \<Rightarrow> Some rc
                  | Some (Inr hash) \<Rightarrow> Some (if hash = h then CKR_OK else CKR_SIGNATURE_INVALID))))"

definition emsa_pss_verify :: "digest \<Rightarrow> allocs \<Rightarrow> pss_params \<Rightarrow> byte list \<Rightarrow> byte list \<Rightarrow> u64 \<Rightarrow> ck_rv option" where
  "emsa_pss_verify dig al pss in_data sig modbytes =
     (let emLen = em_len modbytes in
      case sha_len (hashAlg pss) of
        Some (Inr hlen) \<Rightarrow>
          if emLen < hlen + sLen pss + 2 then Some CKR_SIGNATURE_INVALID
          else if of_nat (length in_data) \<noteq> hlen then Some CKR_DATA_LEN_RANGE
          else (case ck_malloc al of
              Some (Inr al) \<Rightarrow>
                let db_len = unat (emLen - hlen - 1); buflen = unat ((emLen - hlen - 1) + (8 + hlen + sLen pss)); h = take (unat hlen) (drop db_len sig) in
                if length sig < unat emLen \<or> buflen < db_len then None
                else if sig ! (unat emLen - 1) \<noteq> 0xbc then Some CKR_SIGNATURE_INVALID
                else (case top_mask modbytes of
                    None \<Rightarrow> None
                  | Some tm \<Rightarrow>
                      if and (sig ! 0) (not tm) \<noteq> 0 then Some CKR_SIGNATURE_INVALID
                      else (case mgf1 dig al h db_len (pss_mgf pss) of
                          None \<Rightarrow> None
                        | Some (Inl rc) \<Rightarrow> Some rc
                        | Some (Inr (dbMask, al)) \<Rightarrow>
                            pss_check dig pss in_data h (unat hlen) tm (unat (emLen - hlen - sLen pss - 2))
                              (map2 xor dbMask (take db_len sig) @ replicate (buflen - db_len) 0)))
            | _ \<Rightarrow> Some CKR_HOST_MEMORY)
      | _ \<Rightarrow> Some CKR_MECHANISM_INVALID)"

text \<open>\<open>param_ok\<close>: the parameter has the size of the structure and is not NULL.\<close>

definition check_pss_params :: "mechanism \<Rightarrow> bool \<Rightarrow> pss_params \<Rightarrow> u64 \<Rightarrow> unit ck" where
  "check_pss_params mech param_ok pss modlen =
     (if \<not> param_ok then ck_fail CKR_MECHANISM_PARAM_INVALID
      else ck_bind (get_mgf_mech (pss_mgf pss)) (\<lambda>mgf_mech.
        ck_bind (if mech \<noteq> CKM_RSA_PKCS_PSS then get_digest_from_mech mech else ck_ok mgf_mech) (\<lambda>digest_mech.
        if hashAlg pss \<noteq> digest_mech \<or> hashAlg pss \<noteq> mgf_mech then ck_fail CKR_MECHANISM_PARAM_INVALID
        else (case get_sha_size (hashAlg pss) of
            Some (Inr hlen) \<Rightarrow>
              if sLen pss \<le> modlen - 2 - of_nat hlen then ck_ok () else ck_fail CKR_MECHANISM_PARAM_INVALID
          | _ \<Rightarrow> ck_fail CKR_MECHANISM_PARAM_INVALID))))"

end
