(* ===== verification/Rsa_Block_Facts.thy ===== *)
theory Rsa_Block_Facts
  imports Rsa_Block
begin

text \<open>
  Encryption blocks parse to the data they were formatted from; the parser of blocks of type 2
  returns the data of a well-formed block and otherwise a message that depends on the key and the
  length only.
\<close>

section \<open>Formatting\<close>

lemma draw_nonzero_ok: "draw_nonzero dev = ck_ok (b, dev') \<Longrightarrow> b \<noteq> 0"
  by (induction dev) (auto split: if_splits)

lemma replace_zeros_ok:
  "replace_zeros dev bs = ck_ok (ps, dev') \<Longrightarrow> length ps = length bs \<and> 0 \<notin> set ps"
proof (induction bs arbitrary: dev ps)
  case (Cons b bs)
  from Cons.prems obtain c dev1 cs where
    "(if b = 0 then draw_nonzero dev else ck_ok (b, dev)) = ck_ok (c, dev1)" "replace_zeros dev1 bs = ck_ok (cs, dev')" "ps = c # cs"
    by (auto simp: ck_bind_ok_iff)
  moreover from this have "c \<noteq> 0" using draw_nonzero_ok by (auto split: if_splits)
  ultimately show ?case using Cons.IH [of dev1 cs] by simp
qed simp

lemma draw_nonzero_enough:
  "filter (\<lambda>b. b \<noteq> 0) dev \<noteq> [] \<Longrightarrow>
     \<exists>b dev'. draw_nonzero dev = ck_ok (b, dev') \<and> length (filter (\<lambda>b. b \<noteq> 0) dev') + 1 = length (filter (\<lambda>b. b \<noteq> 0) dev)"
  by (induction dev) auto

lemma replace_zeros_enough:
  "length bs \<le> length (filter (\<lambda>b. b \<noteq> 0) dev) \<Longrightarrow> \<exists>r. replace_zeros dev bs = ck_ok r"
proof (induction bs arbitrary: dev)
  case (Cons b bs)
  show ?case
  proof (cases "b = 0")
    case True
    obtain c dev1 where d: "draw_nonzero dev = ck_ok (c, dev1)" "length (filter (\<lambda>b. b \<noteq> 0) dev1) + 1 = length (filter (\<lambda>b. b \<noteq> 0) dev)"
      using draw_nonzero_enough [of dev] Cons.prems by (cases "filter (\<lambda>b. b \<noteq> 0) dev") auto
    obtain r where "replace_zeros dev1 bs = ck_ok r" using Cons.IH [of dev1] Cons.prems d(2) by auto
    then show ?thesis using True d by (cases r) auto
  next
    case False
    obtain r where "replace_zeros dev bs = ck_ok r" using Cons.IH [of dev] Cons.prems by auto
    then show ?thesis using False by (cases r) auto
  qed
qed simp

lemma format_type_1:
  "length d + 11 \<le> k \<Longrightarrow> rsa_format_block dev d k 1 = ck_ok ([0, 1] @ replicate (k - 3 - length d) 0xff @ [0] @ d, dev)"
  by (auto simp: rsa_format_block_def Let_def)

lemma format_type_2:
  assumes "rsa_format_block dev d k 2 = ck_ok (b, dev')"
  obtains ps where "b = [0, 2] @ ps @ [0] @ d" "length ps = k - 3 - length d" "0 \<notin> set ps" "length d + 11 \<le> k"
proof -
  from assms obtain ps dev1 ps' where r: "rng_generate dev (k - 3 - length d) = ck_ok (ps, dev1)"
    "replace_zeros dev1 ps = ck_ok (ps', dev')" "b = [0, 2] @ ps' @ [0] @ d" "length d + 11 \<le> k"
    by (auto simp: rsa_format_block_def Let_def ck_bind_ok_iff split: if_splits)
  then have "length ps = k - 3 - length d" by (auto simp: rng_generate_def local_rng_def split: if_splits)
  with replace_zeros_ok [OF r(2)] r that show ?thesis by simp
qed

section \<open>Type 1\<close>

lemma scan_ff_pad: "scan_ff (replicate n 0xff @ bs) i = scan_ff bs (i + n)"
  by (induction n arbitrary: i) simp_all

lemma parse_type_1_block:
  assumes "8 \<le> n" "11 < n + 3 + length d" "length d \<le> out_data_len"
  shows "rsa_parse_block_type_1 ([0, 1] @ replicate n 0xff @ [0] @ d) out_data_len = ck_ok d"
proof (cases "d = []")
  case True
  then show ?thesis
    using assms scan_ff_pad [of n "[]" 2] by (simp add: rsa_parse_block_type_1_def Let_def)
next
  case False
  then obtain m where m: "length d = Suc m" by (cases d) auto
  have "take (n + length d) (replicate n 0xff @ 0 # d) = replicate n 0xff @ 0 # take m d"
    using m by simp
  then show ?thesis
    using assms scan_ff_pad [of n "0 # take m d" 2] by (simp add: rsa_parse_block_type_1_def Let_def)
qed

lemma parse_type_1_no_separator:
  assumes "9 \<le> n"
  shows "rsa_parse_block_type_1 ([0, 1] @ replicate n 0xff @ [x]) out_data_len = ck_ok []"
  using assms scan_ff_pad [of n "[]" 2] by (simp add: rsa_parse_block_type_1_def Let_def)

section \<open>Masks\<close>

lemma ucast_byte_eq_0: "ucast (b :: byte) = (0 :: u32) \<longleftrightarrow> b = 0"
  using ucast_down_byte [of b] by auto

lemma small_size:
  assumes "unat (a :: u64) < 2 ^ 31"
  shows "scast (ucast a :: u32) = a"
proof -
  have low: "\<not> bit a n" if "31 \<le> n" for n
  proof -
    have "(2 :: nat) ^ 31 \<le> 2 ^ n" using that by (rule power_increasing) simp
    then have "unat a div 2 ^ n = 0" using assms by simp
    then have "\<not> bit (unat a) n" by (simp add: bit_iff_odd)
    then show ?thesis by (auto simp: bit_unsigned_iff dest: bit_imp_le_length)
  qed
  show ?thesis
    by (rule bit_word_eqI) (use low in \<open>auto simp: bit_signed_iff bit_unsigned_iff min_def\<close>)
qed

lemma select_size_mask:
  "unat a < 2 ^ 31 \<Longrightarrow> unat b < 2 ^ 31 \<Longrightarrow> select_size (ct_mask P) a b = (if P then a else b)"
  by (simp add: select_size_def ct_masks small_size)

section \<open>The pseudorandom function\<close>

text \<open>What OpenSSL documents of HMAC with SHA-256: its length. That no call fails is a hypothesis of the properties that need it.\<close>

definition hmac_total :: "hmac \<Rightarrow> bool" where
  "hmac_total mac \<longleftrightarrow> (\<forall>k m. \<exists>h. mac k m = Some h \<and> length h = SHA256_HASH_SIZE)"

lemma prf_blocks_total:
  "hmac_total mac \<Longrightarrow> \<exists>out. prf_blocks mac kdk label bitlen iter n = ck_ok out \<and> length out = n"
proof (induction mac kdk label bitlen iter n rule: prf_blocks.induct)
  case (1 mac kdk label bitlen iter n)
  obtain h where h: "mac kdk (be16 iter @ label @ be16 bitlen) = Some h" "length h = SHA256_HASH_SIZE"
    using "1.prems" by (auto simp: hmac_total_def)
  show ?case
  proof (cases "n = 0")
    case False
    obtain out where "prf_blocks mac kdk label bitlen (iter + 1) (n - SHA256_HASH_SIZE) = ck_ok out" "length out = n - SHA256_HASH_SIZE"
      using "1.IH" [OF False h(1)] "1.prems" by blast
    then show ?thesis using False h by (subst prf_blocks.simps) simp
  qed (simp add: prf_blocks.simps)
qed

lemma rsa_prf_total:
  assumes "hmac_total mac" "length kdk = 32" "n < 8192"
  shows "\<exists>out. openssl_specific_rsa_prf mac n label kdk (of_nat (n * 8)) = ck_ok out \<and> length out = n"
proof -
  have "unat (of_nat (n * 8) :: 16 word) = n * 8"
    using assms(3) by (simp add: unsigned_of_nat take_bit_nat_eq_self del: of_nat_mult)
  then show ?thesis
    using prf_blocks_total [OF assms(1)] assms(2) by (simp add: openssl_specific_rsa_prf_def SHA256_HASH_SIZE_def del: of_nat_mult)
qed

section \<open>Type 2\<close>

text \<open>The first zero byte behind the block type, or 0.\<close>

definition zero_at :: "byte list \<Rightarrow> nat" where
  "zero_at em = (if 0 \<in> set (drop 2 em) then 2 + length (takeWhile (\<lambda>b. b \<noteq> 0) (drop 2 em)) else 0)"

lemma scan_zero_found: "unat z < 2 ^ 31 \<Longrightarrow> unat i + length bs < 2 ^ 31 \<Longrightarrow> scan_zero bs i z (- 1) = z"
proof (induction bs arbitrary: i)
  case (Cons b bs)
  have "unat (i + 1) = unat i + 1" using Cons.prems(2) by (simp add: unat_word_ariths)
  moreover have "or (- 1) (constant_time_is_zero (ucast b)) = (- 1 :: u32)" by simp
  moreover have "select_size 0 i z = z"
    using select_size_mask [of i z False] Cons.prems by simp
  ultimately show ?case using Cons by (simp add: Let_def)
qed simp

lemma scan_zero_first:
  "unat i + length bs < 2 ^ 31 \<Longrightarrow>
     scan_zero bs i 0 0 = (if 0 \<in> set bs then i + of_nat (length (takeWhile (\<lambda>b. b \<noteq> 0) bs)) else 0)"
proof (induction bs arbitrary: i)
  case (Cons b bs)
  have u: "unat (i + 1) = unat i + 1" using Cons.prems by (simp add: unat_word_ariths)
  have m: "constant_time_is_zero (ucast b :: u32) = ct_mask (b = 0)"
    by (simp add: constant_time_is_zero_mask ucast_byte_eq_0)
  show ?case
  proof (cases "b = 0")
    case True
    have "select_size (- 1) i 0 = i" using select_size_mask [of i 0 True] Cons.prems by simp
    with True m u scan_zero_found [of i "i + 1" bs] Cons.prems show ?thesis by (simp add: Let_def)
  next
    case False
    have "select_size 0 i 0 = 0" using select_size_mask [of i 0 False] Cons.prems by simp
    with False m u Cons.IH [of "i + 1"] Cons.prems show ?thesis by (simp add: Let_def)
  qed
qed simp

lemma scan_zero_at: "length em < 2 ^ 30 \<Longrightarrow> scan_zero (drop 2 em) 2 0 0 = of_nat (zero_at em)"
  by (subst scan_zero_first) (auto simp: zero_at_def)

lemma zero_at_less: "2 \<le> length em \<Longrightarrow> zero_at em < length em"
proof -
  assume "2 \<le> length em"
  moreover have "length (takeWhile (\<lambda>b. b \<noteq> 0) bs) < length bs" if "0 \<in> set bs" for bs :: "byte list"
    using that by (metis (mono_tags, lifting) length_takeWhile_le nat_less_le takeWhile_eq_all_conv takeWhile_eq_take take_all_iff)
  ultimately show ?thesis by (fastforce simp: zero_at_def)
qed

lemma synthetic_length_less:
  "acc < ucast max_sep \<Longrightarrow> synthetic_length len_mask max_sep bs acc < ucast max_sep"
  by (induction len_mask max_sep bs acc rule: synthetic_length.induct) (simp_all add: Let_def ct_masks)

text \<open>The well-formed blocks whose data fits, their data, and the message of a rejection.\<close>

definition good_block :: "byte list \<Rightarrow> nat \<Rightarrow> bool" where
  "good_block em out_data_len \<longleftrightarrow>
     em ! 0 = 0 \<and> em ! 1 = 2 \<and> 10 \<le> zero_at em \<and> length em - (zero_at em + 1) \<le> out_data_len"

definition block_data :: "byte list \<Rightarrow> byte list" where
  "block_data em = drop (zero_at em + 1) em"

definition rejection :: "hmac \<Rightarrow> byte list \<Rightarrow> nat \<Rightarrow> byte list" where
  "rejection mac kdk n =
     (case (openssl_specific_rsa_prf mac n (map of_nat [109, 101, 115, 115, 97, 103, 101]) kdk (of_nat (n * 8)),
            openssl_specific_rsa_prf mac (MAX_LEN_GEN_TRIES * 2) (map of_nat [108, 101, 110, 103, 116, 104]) kdk
              (of_nat (MAX_LEN_GEN_TRIES * 2 * 8))) of
        (Some (Inr synthetic), Some (Inr candidates)) \<Rightarrow>
          drop (n - unat (synthetic_length (spread (of_nat (n - 10))) (of_nat (n - 10)) candidates 0)) synthetic
      | _ \<Rightarrow> [])"

lemma select_bytes_mask:
  assumes "length as = length bs"
  shows "select_bytes (ct_mask P) as bs = (if P then as else bs)"
  using assms by (induction as bs rule: list_induct2) (simp_all add: select_bytes_def ct_masks split: if_splits)

lemma good_mask:
  assumes "11 \<le> length em" "length em < 8192" "out_data_len < 2 ^ 32"
  shows "and (and (and (constant_time_is_zero (ucast (em ! 0))) (constant_time_eq (ucast (em ! 1)) 2))
           (constant_time_ge (ucast (of_nat (zero_at em) :: u64)) (2 + 8)))
         (constant_time_ge (of_nat out_data_len) (ucast (of_nat (length em) - (of_nat (zero_at em) + 1) :: u64))) =
     (ct_mask (good_block em out_data_len) :: u32)"
proof -
  have z: "zero_at em < length em" using zero_at_less assms(1) by simp
  have "ucast (em ! 1) = (2 :: u32) \<longleftrightarrow> em ! 1 = 2"
    using ucast_down_byte [of "em ! 1"] by auto
  moreover have "(of_nat (length em) - (of_nat (zero_at em) + 1) :: u64) = of_nat (length em - (zero_at em + 1))"
    using z by (simp add: of_nat_diff)
  moreover have "\<not> ucast (of_nat (zero_at em) :: u64) < (10 :: u32) \<longleftrightarrow> 10 \<le> zero_at em"
    using z assms(2) by (simp add: word_less_nat_alt unsigned_ucast_eq unsigned_of_nat take_bit_nat_eq_self not_less)
  moreover have "\<not> (of_nat out_data_len :: u32) < ucast (of_nat m :: u64) \<longleftrightarrow> m \<le> out_data_len" if "m < 8192" for m
    using that assms(3) by (simp add: word_less_nat_alt unsigned_ucast_eq unsigned_of_nat take_bit_nat_eq_self not_less)
  ultimately show ?thesis
    using assms(2) by (simp add: ct_masks ucast_byte_eq_0 good_block_def)
qed

lemma synth_index:
  assumes "11 \<le> n" "n < 8192" "sl < ucast (of_nat (n - 10) :: 16 word)"
  shows "scast (of_nat n - sl :: u32) = (of_nat (n - unat sl) :: u64)" "unat sl < n - 10"
proof -
  have "unat (ucast (of_nat (n - 10) :: 16 word) :: u32) = n - 10"
    using assms(2) by (simp add: unsigned_ucast_eq unsigned_of_nat take_bit_nat_eq_self)
  then show l: "unat sl < n - 10" using assms(3) by (simp add: word_less_nat_alt)
  then have "(of_nat n - sl :: u32) = of_nat (n - unat sl)"
    by (simp add: of_nat_diff)
  also have "\<dots> = ucast (of_nat (n - unat sl) :: u64)"
    using assms(2) by (intro unsigned_word_eqI [where ?'a = nat]) (simp add: unsigned_ucast_eq unsigned_of_nat take_bit_nat_eq_self del: of_nat_diff)
  finally show "scast (of_nat n - sl :: u32) = (of_nat (n - unat sl) :: u64)"
    using small_size [of "of_nat (n - unat sl)"] assms(2) by (simp add: unsigned_of_nat take_bit_nat_eq_self)
qed

lemma parse_type_2:
  assumes mac: "hmac_total mac" and kdk: "length kdk = 32"
    and len: "11 \<le> length em" "length em < 8192" and out: "out_data_len < 2 ^ 32" and al: "ck_malloc al = ck_ok al'"
  shows "rsa_parse_block_type_2 mac al em out_data_len kdk =
      ck_ok (if good_block em out_data_len then block_data em else take out_data_len (rejection mac kdk (length em)))"
    and "length (rejection mac kdk (length em)) < length em - 10"
proof -
  let ?n = "length em" let ?mx = "of_nat (?n - 10) :: 16 word"
  obtain synthetic where syn: "openssl_specific_rsa_prf mac ?n (map of_nat [109, 101, 115, 115, 97, 103, 101]) kdk (of_nat (?n * 8)) = ck_ok synthetic"
    "length synthetic = ?n" using rsa_prf_total [OF mac kdk len(2)] by blast
  obtain cand where cand: "openssl_specific_rsa_prf mac (MAX_LEN_GEN_TRIES * 2) (map of_nat [108, 101, 110, 103, 116, 104]) kdk
      (of_nat (MAX_LEN_GEN_TRIES * 2 * 8)) = ck_ok cand"
    using rsa_prf_total [OF mac kdk, of "MAX_LEN_GEN_TRIES * 2"] by (auto simp: MAX_LEN_GEN_TRIES_def)
  define sl where "sl = synthetic_length (spread ?mx) ?mx cand 0"
  have "(0 :: u32) < ucast ?mx"
    using len by (simp add: word_less_nat_alt unsigned_ucast_eq unsigned_of_nat take_bit_nat_eq_self del: of_nat_diff)
  then have "sl < ucast ?mx" unfolding sl_def by (rule synthetic_length_less)
  note sl = synth_index [OF len this]
  have rej: "rejection mac kdk ?n = drop (?n - unat sl) synthetic"
    by (simp only: rejection_def syn(1) cand sl_def) simp
  then show "length (rejection mac kdk ?n) < ?n - 10" using syn(2) sl(2) by simp
  have zi: "zero_at em < ?n" using zero_at_less len by simp
  have un: "unat (of_nat m :: u64) = m" if "m \<le> ?n" for m
    using that len(2) by (simp add: unsigned_of_nat take_bit_nat_eq_self)
  have "of_nat (zero_at em) + 1 = (of_nat (zero_at em + 1) :: u64)" by simp
  then have idx: "select_size (ct_mask P) (of_nat (zero_at em) + 1) (of_nat (?n - unat sl)) =
      (if P then of_nat (zero_at em + 1) else of_nat (?n - unat sl))" for P
    using select_size_mask [of "of_nat (zero_at em + 1)" "of_nat (?n - unat sl)" P] un [of "zero_at em + 1"] un [of "?n - unat sl"] zi len(2)
    by (simp only: ) simp
  have tests: "(kdk = []) = False" "(?n < 11) = False" "?n - 2 - 8 = ?n - 10" "length em < 2 ^ 30" using kdk len by auto
  have "rsa_parse_block_type_2 mac al em out_data_len kdk =
      ck_ok (let G = good_block em out_data_len; m = (if G then zero_at em + 1 else ?n - unat sl) in
        take out_data_len (select_bytes (ct_mask G) (drop m em) (drop m synthetic)))"
    using un zi
    by (simp only: rsa_parse_block_type_2_def Let_def tests if_False al ck_bind_simps syn(1) cand scan_zero_at [OF tests(4)]
        sl_def [symmetric] good_mask [OF len out] sl(1) idx) (simp del: of_nat_Suc of_nat_add)
  then show "rsa_parse_block_type_2 mac al em out_data_len kdk =
      ck_ok (if good_block em out_data_len then block_data em else take out_data_len (rejection mac kdk ?n))"
    using syn(2) rej by (simp add: Let_def select_bytes_mask block_data_def good_block_def)
qed

section \<open>Properties\<close>

lemma zero_at_block: "0 \<notin> set ps \<Longrightarrow> zero_at ([x, y] @ ps @ [0] @ d) = 2 + length ps"
  by (auto simp: zero_at_def takeWhile_append)

text \<open>
  C14: Blocks parse to what was formatted. Data of at most k - 11 bytes formatted as a block of k
  bytes, of type 1 (signatures) or of type 2 (encryption, with nonzero random padding), is
  returned unchanged by the parser of that type; with enough random bytes formatting succeeds.
\<close>

theorem rsa_block_roundtrip:
  assumes "length d + 11 \<le> k" "11 < k" "k < 8192" "length d \<le> out_data_len" "out_data_len < 2 ^ 32"
    and "hmac_total mac" "length kdk = 32" "ck_malloc al = ck_ok al'"
    and "k - 3 - length d \<le> length (filter (\<lambda>b. b \<noteq> 0) (drop (k - 3 - length d) dev))"
  shows "(\<exists>b. rsa_format_block dev d k 1 = ck_ok (b, dev) \<and> length b = k \<and> rsa_parse_block mac al b out_data_len 1 kdk = ck_ok d)
    \<and> (\<exists>b dev'. rsa_format_block dev d k 2 = ck_ok (b, dev') \<and> length b = k \<and> rsa_parse_block mac al b out_data_len 2 kdk = ck_ok d)"
proof
  show "\<exists>b. rsa_format_block dev d k 1 = ck_ok (b, dev) \<and> length b = k \<and> rsa_parse_block mac al b out_data_len 1 kdk = ck_ok d"
    using assms(1,2,4) parse_type_1_block [of "k - 3 - length d" d out_data_len]
    by (simp add: format_type_1 rsa_parse_block_def)
next
  let ?n = "k - 3 - length d"
  have "?n \<le> length (drop ?n dev)" using assms(9) length_filter_le [of "\<lambda>b. b \<noteq> 0" "drop ?n dev"] by linarith
  then have "?n \<le> length dev" "?n \<noteq> 0" using assms(1) by auto
  then have "rng_generate dev ?n = ck_ok (take ?n dev, drop ?n dev)" by (auto simp: rng_generate_def local_rng_def)
  moreover obtain ps dev' where "replace_zeros (drop ?n dev) (take ?n dev) = ck_ok (ps, dev')"
    using replace_zeros_enough [of "take ?n dev" "drop ?n dev"] assms(9) \<open>?n \<le> length dev\<close> by (auto simp: min_absorb2)
  moreover have "\<not> k - length d < 11" "\<not> ?n < 8" using assms(1) by auto
  ultimately have "rsa_format_block dev d k 2 = ck_ok ([0, 2] @ ps @ [0] @ d, dev')"
    using assms(1) by (simp add: rsa_format_block_def Let_def)
  then obtain b where b: "rsa_format_block dev d k 2 = ck_ok (b, dev')" by blast
  then obtain ps where ps: "b = [0, 2] @ ps @ [0] @ d" "length ps = ?n" "0 \<notin> set ps" by (rule format_type_2)
  have len: "length b = k" using ps assms(1) by simp
  have z: "zero_at b = 2 + ?n" using zero_at_block [OF ps(3)] ps by simp
  then have "good_block b out_data_len" "block_data b = d"
    using ps assms(1,4) len by (auto simp: good_block_def block_data_def)
  then have "rsa_parse_block mac al b out_data_len 2 kdk = ck_ok d"
    using parse_type_2(1) [OF assms(6,7) _ _ assms(5,8), of b] len assms(2,3) by (simp add: rsa_parse_block_def)
  with b len show "\<exists>b dev'. rsa_format_block dev d k 2 = ck_ok (b, dev') \<and> length b = k \<and> rsa_parse_block mac al b out_data_len 2 kdk = ck_ok d"
    by blast
qed

lemma hmac_total_const: "hmac_total (\<lambda>k m. Some (replicate 32 7))"
  by (simp add: hmac_total_def SHA256_HASH_SIZE_def)

theorem rsa_block_roundtrip_witness:
  "(\<exists>b. rsa_format_block (replicate 40 5) [65, 0] 16 1 = ck_ok (b, replicate 40 5) \<and> length b = 16
      \<and> rsa_parse_block (\<lambda>k m. Some (replicate 32 7)) [] b 16 1 (replicate 32 9) = ck_ok [65, 0])
    \<and> (\<exists>b dev'. rsa_format_block (replicate 40 5) [65, 0] 16 2 = ck_ok (b, dev') \<and> length b = 16
      \<and> rsa_parse_block (\<lambda>k m. Some (replicate 32 7)) [] b 16 2 (replicate 32 9) = ck_ok [65, 0])"
  by (rule rsa_block_roundtrip) (simp_all add: hmac_total_const)

text \<open>
  C6: Implicit rejection. The branch-free parser of type 2 blocks returns the data of a block
  with correct padding whose data fits the buffer, and for every other block a message that is a
  function of the key derived from the ciphertext and of the block's length: two blocks with bad
  padding cannot be told apart, however they are malformed. The call succeeds in all cases.
\<close>

theorem rsa_implicit_rejection:
  assumes "hmac_total mac" "length kdk = 32" "11 \<le> length em" "length em < 8192" "out_data_len < 2 ^ 32" "ck_malloc al = ck_ok al'"
    and "length em' = length em" "\<not> good_block em' out_data_len"
  shows "(good_block em out_data_len \<longrightarrow> rsa_parse_block mac al em out_data_len 2 kdk = ck_ok (block_data em))
    \<and> (\<not> good_block em out_data_len \<longrightarrow>
        rsa_parse_block mac al em out_data_len 2 kdk = rsa_parse_block mac al em' out_data_len 2 kdk)
    \<and> (\<exists>m. rsa_parse_block mac al em' out_data_len 2 kdk = ck_ok m \<and> length m < length em - 10)"
  using parse_type_2 [OF assms(1-6)] parse_type_2(1) [OF assms(1,2) _ _ assms(5,6), of em'] assms(3,4,7,8)
  by (auto simp: rsa_parse_block_def)

text \<open>A block without a zero byte, and one whose padding is too short.\<close>

theorem rsa_implicit_rejection_witness:
  "rsa_parse_block (\<lambda>k m. Some (replicate 32 7)) [] ([0, 2] @ replicate 12 5) 14 2 (replicate 32 9) =
   rsa_parse_block (\<lambda>k m. Some (replicate 32 7)) [] ([0, 2, 3, 0] @ replicate 10 5) 14 2 (replicate 32 9)"
  using rsa_implicit_rejection [OF hmac_total_const, of "replicate 32 9" "[0, 2] @ replicate 12 5" 14 "[]" "[]" "[0, 2, 3, 0] @ replicate 10 5"]
  by (simp add: good_block_def zero_at_def)

text \<open>
  The parser of type 1 blocks accepts a block of padding bytes FF without a separator,
  whatever its last byte, and returns empty data, although the block type requires a zero byte
  between the padding and the data.
\<close>

lemma rsa_type_1_without_separator:
  assumes "9 \<le> n"
  shows "rsa_parse_block mac al ([0, 1] @ replicate n 0xff @ [x]) out_data_len 1 kdk = ck_ok []"
  using parse_type_1_no_separator [OF assms] by (simp add: rsa_parse_block_def)

end
