(* ===== verification/Rsa_Pad_Facts.thy ===== *)
theory Rsa_Pad_Facts
  imports Rsa_Pad Rsa_Block_Facts
begin

text \<open>
  The OAEP decoder against a direct definition of what it decodes, the round trips of OAEP and
  PSS, and two errors: a failing digest, and a salt length that wraps.
\<close>

section \<open>Masks\<close>

text \<open>No digest fails, and each has its documented length.\<close>

definition digest_total :: "digest \<Rightarrow> bool" where
  "digest_total dig \<longleftrightarrow> (\<forall>md bs. \<exists>h. dig md bs = Some h \<and> length h = md_size md)"

lemma digest_total_sha: "digest_total dig \<Longrightarrow> sha_md m = Some md \<Longrightarrow> \<exists>h. compute_sha dig bs m = ck_ok h \<and> length h = md_size md"
  unfolding digest_total_def compute_sha_def by (metis (no_types, lifting) option.simps(5))

lemma mgf_blocks_total:
  assumes "digest_total dig" "sha_md mech = Some md" "i + n < 2 ^ 31 - 1"
  shows "\<exists>out. mgf_blocks dig seed mech (md_size md) i n = ck_ok out \<and> length out = n"
  using assms(3)
proof (induction n arbitrary: i rule: less_induct)
  case (less n)
  show ?case
  proof (cases "n = 0")
    case False
    obtain h where h: "compute_sha dig (seed @ be32 i) mech = ck_ok h" "length h = md_size md"
      using digest_total_sha [OF assms(1,2)] by blast
    have pos: "0 < md_size md" using md_size_bounds(1) [of md] by simp
    have "i + 1 + (n - md_size md) < 2 ^ 31 - 1" "n - md_size md < n" using less.prems False pos by linarith+
    then obtain out where "mgf_blocks dig seed mech (md_size md) (i + 1) (n - md_size md) = ck_ok out" "length out = n - md_size md"
      using less.IH [of "n - md_size md" "i + 1"] by blast
    then show ?thesis
      using False pos h less.prems by (subst mgf_blocks.simps) (auto simp: get_bytes_def)
  qed (simp add: mgf_blocks.simps)
qed

definition mask_of :: "digest \<Rightarrow> mgf_type \<Rightarrow> byte list \<Rightarrow> nat \<Rightarrow> byte list" where
  "mask_of dig mgf seed n = (case mgf1 dig [] seed n mgf of Some (Inr (m, _)) \<Rightarrow> m | _ \<Rightarrow> [])"

lemma mgf1_total:
  assumes "digest_total dig" "get_mgf_mech mgf = ck_ok mech" "n < 2 ^ 31 - 1" "False \<notin> set al"
  shows "mgf1 dig al seed n mgf = ck_ok (mask_of dig mgf seed n, tl al)" "length (mask_of dig mgf seed n) = n"
proof -
  obtain md where md: "sha_md mech = Some md" using mgf_mech_md [OF assms(2)] by blast
  obtain out where "mgf_blocks dig seed mech (md_size md) 0 n = ck_ok out" "length out = n"
    using mgf_blocks_total [OF assms(1) md, of 0 n seed] assms(3) by auto
  moreover have "ck_malloc al = ck_ok (tl al)" using assms(4) by (cases al) auto
  ultimately show "mgf1 dig al seed n mgf = ck_ok (mask_of dig mgf seed n, tl al)" "length (mask_of dig mgf seed n) = n"
    using sha_md_size [OF md] assms(2) by (simp_all add: mask_of_def mgf1_def)
qed

section \<open>The branch-free parts of the OAEP decoder\<close>

lemma ucast_byte_eq_1: "ucast (b :: byte) = (1 :: u32) \<longleftrightarrow> b = 1"
  using ucast_down_byte [of b] by auto

lemma oaep_scan_mask:
  assumes "unat i + length bs < 2 ^ 31" "unat z < 2 ^ 31"
  shows "oaep_scan bs i z (ct_mask F) (ct_mask P) =
    (if F \<or> 1 \<notin> set bs then z else i + of_nat (length (takeWhile (\<lambda>b. b \<noteq> 1) bs)), ct_mask (F \<or> 1 \<in> set bs),
     ct_mask (P \<and> (F \<or> list_all (\<lambda>b. b = 0) (takeWhile (\<lambda>b. b \<noteq> 1) bs))))"
  using assms
proof (induction bs arbitrary: i z F P)
  case (Cons b bs)
  have u: "unat (i + 1) = unat i + 1" using Cons.prems by (simp add: unat_word_ariths)
  have m: "constant_time_is_zero (ucast b :: u32) = ct_mask (b = 0)" "constant_time_eq (ucast b) (1 :: u32) = ct_mask (b = 1)"
    by (simp_all add: ct_masks ucast_byte_eq_0 ucast_byte_eq_1)
  have s: "select_size (ct_mask (\<not> F \<and> b = 1)) i z = (if \<not> F \<and> b = 1 then i else z)"
    using Cons.prems by (intro select_size_mask) simp_all
  show ?case
    using Cons.IH [of "i + 1" "if \<not> F \<and> b = 1 then i else z" "F \<or> b = 1" "P \<and> (F \<or> b = 1 \<or> b = 0)"] Cons.prems u m s
    by (cases F) (auto simp: Let_def)
qed simp

lemma oaep_copy_mask:
  assumes "n \<le> length db" "n \<le> length out" "unat i + n < 2 ^ 31" "unat mlen < 2 ^ 31"
  shows "oaep_copy (ct_mask P) mlen i db out n =
    Some (if P then take (min n (unat mlen - unat i)) db @ drop (min n (unat mlen - unat i)) out else out)"
  using assms
proof (induction n arbitrary: i db out)
  case (Suc n)
  obtain d db' where d: "db = d # db'" using Suc.prems(1) by (cases db) auto
  obtain c out' where c: "out = c # out'" using Suc.prems(2) by (cases out) auto
  have u: "unat (i + 1) = unat i + 1" using Suc.prems by (simp add: unat_word_ariths)
  have "ucast i < (ucast mlen :: u32) \<longleftrightarrow> unat i < unat mlen"
    using Suc.prems by (simp add: word_less_nat_alt unsigned_ucast_eq take_bit_nat_eq_self)
  then have m: "and (ct_mask P) (constant_time_lt (ucast i) (ucast mlen)) = (ct_mask (P \<and> unat i < unat mlen) :: u32)"
    by (simp add: ct_masks)
  show ?case
  proof (cases "unat i < unat mlen")
    case True
    then have "unat mlen - unat i = Suc (unat mlen - Suc (unat i))" by simp
    with True show ?thesis
      using Suc.IH [of db' out' "i + 1"] Suc.prems d c u m by (simp add: Let_def ct_masks)
  next
    case False
    then show ?thesis
      using Suc.IH [of db' out' "i + 1"] Suc.prems d c u m by (simp add: Let_def ct_masks)
  qed
qed simp

text \<open>The shift: what is left of the distance when all bits below \<open>p\<close> are done.\<close>

lemma and_power_mask:
  assumes "j < 31"
  shows "not (constant_time_eq (ucast (and (of_nat (2 ^ j)) (dist :: u64))) 0) = (ct_mask (bit dist j) :: u32)"
proof -
  have "and (2 ^ j) dist = (if bit dist j then 2 ^ j else 0)" 
    by (rule bit_word_eqI) (use assms in \<open>auto simp: bit_and_iff bit_exp_iff\<close>)
  moreover have "bit (ucast (2 ^ j :: u64) :: u32) j" using assms by (simp add: bit_unsigned_iff bit_exp_iff)
  then have "ucast (2 ^ j :: u64) \<noteq> (0 :: u32)" by auto
  ultimately show ?thesis by (simp add: ct_masks)
qed

lemma shift_step:
  assumes "length db = n" "p < n"
  shows "map (\<lambda>i. if i < n - p then if B then db ! (i + p) else db ! i else db ! i) [0..<n] =
    (if B then drop p db @ drop (n - p) db else (db :: byte list))"
  using assms by (auto intro!: nth_equalityI simp: nth_append add.commute)

lemma oaep_shift_take:
  assumes "length db = n" "n < 2 ^ 31" "unat dist div p * p \<le> n" "p = 2 ^ j"
  shows "length (oaep_shift n dist p db) = n \<and>
    take (n - unat dist div p * p) (oaep_shift n dist p db) = drop (unat dist div p * p) db"
  using assms
proof (induction "n - p" arbitrary: p j db rule: less_induct)
  case less
  show ?case
  proof (cases "n \<le> p")
    case True
    then have "unat dist div p * p = 0 \<or> unat dist div p * p = n"
      using less.prems(3) by (cases "unat dist div p") auto
    then show ?thesis using True less.prems(1) by (subst (1 2) oaep_shift.simps) auto
  next
    case False
    let ?d = "unat dist" let ?B = "bit dist j"
    let ?db = "if ?B then drop p db @ drop (n - p) db else db"
    have p: "p \<noteq> 0" "p < n" using False less.prems(4) by simp_all
    have j: "j < 31" using p less.prems(2,4) by (metis less_trans nat_power_less_imp_less numeral_2_eq_2 zero_less_Suc)
    have rec: "oaep_shift n dist p db = oaep_shift n dist (2 * p) ?db"
      using p and_power_mask [OF j, of dist] shift_step [OF less.prems(1) p(2), of ?B] less.prems(4)
      by (subst oaep_shift.simps) (simp add: Let_def constant_time_select_8_mask cong: if_cong)
    have split: "?d div p * p = ?d div (2 * p) * (2 * p) + (if ?B then p else 0)"
    proof -
      have "?B \<longleftrightarrow> odd (?d div p)" using j by (simp add: bit_iff_odd [symmetric] bit_unsigned_iff less.prems(4))
      moreover have "?d div (2 * p) = ?d div p div 2" by (simp add: div_mult2_eq mult.commute)
      ultimately show ?thesis by (auto elim!: oddE evenE)
    qed
    let ?r = "?d div (2 * p) * (2 * p)" let ?res = "oaep_shift n dist (2 * p) ?db"
    have dec: "n - 2 * p < n - p" using p by linarith
    have "length ?db = n" "?r \<le> n" "2 * p = 2 ^ Suc j" using p less.prems split by auto
    from less.hyps [OF dec this(1) less.prems(2) this(2,3)]
    have IH: "length ?res = n" "take (n - ?r) ?res = drop ?r ?db" by simp_all
    have "take (n - ?d div p * p) ?res = take (n - ?d div p * p) (drop ?r ?db)"
    proof -
      have "n - ?d div p * p \<le> n - ?r" using split by linarith
      then show ?thesis unfolding IH(2) [symmetric] by (simp add: min_absorb1)
    qed
    also have "\<dots> = drop (?d div p * p) db"
      using split less.prems(1,3) by (auto simp: add.commute)
    finally show ?thesis using IH(1) rec by simp
  qed
qed

section \<open>What the OAEP decoder decodes\<close>

definition oaep_db :: "digest \<Rightarrow> mgf_type \<Rightarrow> nat \<Rightarrow> byte list \<Rightarrow> byte list" where
  "oaep_db dig mgf hlen em =
     (let maskeddb = drop (1 + hlen) em;
          seed = map2 xor (mask_of dig mgf maskeddb hlen) (take hlen (drop 1 em))
      in map2 xor (mask_of dig mgf seed (length em - hlen - 1)) maskeddb)"

definition oaep_message :: "byte list \<Rightarrow> byte list \<Rightarrow> byte list option" where
  "oaep_message hash db =
     (let bs = drop (length hash) db; zeros = takeWhile (\<lambda>b. b \<noteq> 1) bs in
      if take (length hash) db = hash \<and> 1 \<in> set bs \<and> list_all (\<lambda>b. b = 0) zeros then Some (drop (length zeros + 1) bs) else None)"

lemma malloc_all: "False \<notin> set al \<Longrightarrow> ck_malloc al = ck_ok (tl al)" "False \<notin> set al \<Longrightarrow> False \<notin> set (tl al)"
  by (cases al; auto)+

text \<open>The part behind the masks: \<open>db\<close> is unmasked, \<open>Z\<close> says that the first byte was zero.\<close>

definition oaep_unpad :: "bool \<Rightarrow> byte list \<Rightarrow> byte list \<Rightarrow> u64 \<Rightarrow> byte list \<Rightarrow> (ck_rv \<times> u64 \<times> byte list) option" where
  "oaep_unpad Z db out out_data_len hash =
     (let hlen = length hash; dblen = length db;
          ok = and (ct_mask Z) (constant_time_is_zero (if take hlen db = hash then 0 else 1)) :: u32;
          (one_index, found_one_byte, ok) = oaep_scan (drop hlen db) (of_nat hlen) 0 0 ok;
          ok = and ok found_one_byte;
          msg_index = one_index + 1;
          mlen = of_nat dblen - msg_index;
          ok = and ok (constant_time_ge (ucast out_data_len) (ucast mlen));
          n = dblen - hlen - 1;
          olen = select_size (constant_time_lt (of_nat n) (ucast out_data_len)) (of_nat n) out_data_len;
          rest = oaep_shift n (of_nat n - mlen) 1 (drop (hlen + 1) db)
      in map_option (oaep_finish ok mlen) (oaep_copy ok mlen 0 rest out (unat olen)))"

lemma decode_unpad:
  assumes "digest_total dig" "get_mgf_mech mgf = ck_ok mech" "False \<notin> set al"
    and "2 * length hash + 2 \<le> length em" "length em < 2 ^ 31" "length hash \<le> 64"
  shows "decode_eme_oaep dig al em out out_data_len mgf hash =
      oaep_unpad (em ! 0 = 0) (oaep_db dig mgf (length hash) em) out out_data_len hash"
    and "length (oaep_db dig mgf (length hash) em) = length em - length hash - 1"
proof -
  let ?h = "length hash" let ?n = "length em - ?h - 1"
  note al = malloc_all [OF assms(3)] malloc_all(2) [OF malloc_all(2) [OF assms(3)]]
  have h: "?h < 2 ^ 31 - 1" "?n < 2 ^ 31 - 1" using assms(4,5) by linarith+
  note m = mgf1_total [OF assms(1,2)]
  show len: "length (oaep_db dig mgf ?h em) = ?n"
    using m(2) [OF h(2) assms(3)] by (simp add: oaep_db_def Let_def)
  show "decode_eme_oaep dig al em out out_data_len mgf hash = oaep_unpad (em ! 0 = 0) (oaep_db dig mgf ?h em) out out_data_len hash"
    using assms(4,6) al m(1) [OF h(1) al(2)] m(1) [OF h(2) al(3)] len
    by (simp add: decode_eme_oaep_def oaep_unpad_def oaep_db_def Let_def MAX_SHA_HASH_SIZE_def constant_time_is_zero_mask ucast_byte_eq_0)
qed

lemma oaep_shift_length: "length db = n \<Longrightarrow> length (oaep_shift n dist p db) = n"
proof (induction n dist p db rule: oaep_shift.induct)
  case (1 n dist p db)
  show ?case
  proof (cases "p = 0 \<or> n \<le> p")
    case False
    from "1.IH" [OF False refl] show ?thesis using False by (subst oaep_shift.simps) (simp add: Let_def)
  qed (use "1.prems" in \<open>auto simp: oaep_shift.simps\<close>)
qed

lemma unat_size: "j < 2 ^ 31 \<Longrightarrow> unat (of_nat j :: u64) = j"
  by (simp add: unsigned_of_nat take_bit_nat_eq_self)

lemma oaep_shift_whole:
  "length db = n \<Longrightarrow> n < 2 ^ 31 \<Longrightarrow> k \<le> n \<Longrightarrow> take (n - k) (oaep_shift n (of_nat k) 1 db) = drop k db"
  using oaep_shift_take [of db n "of_nat k" 1 0] unat_size [of k] by simp

lemma takeWhile_in: "x \<in> set bs \<Longrightarrow> length (takeWhile (\<lambda>b. b \<noteq> x) bs) < length bs"
  by (induction bs) auto

lemma finish_mask: "unat mlen < 2 ^ 31 \<Longrightarrow> oaep_finish (ct_mask P) mlen out = (if P then (CKR_OK, mlen, out) else (CKR_ENCRYPTED_DATA_INVALID, 0, out))"
  using select_size_mask [of mlen 0 P] by (simp add: oaep_finish_def ct_masks)

lemma unpad_spec:
  assumes "length hash < length db" "length db < 2 ^ 31" "unat out_data_len < 2 ^ 31" "unat out_data_len \<le> length out"
  shows "oaep_unpad Z db out out_data_len hash =
    Some (case oaep_message hash db of
        Some m \<Rightarrow> if Z \<and> length m \<le> unat out_data_len then (CKR_OK, of_nat (length m), m @ drop (length m) out)
                  else (CKR_ENCRYPTED_DATA_INVALID, 0, out)
      | None \<Rightarrow> (CKR_ENCRYPTED_DATA_INVALID, 0, out))"
proof -
  let ?h = "length hash" let ?D = "length db"
  define bs where "bs = drop ?h db"
  define k where "k = length (takeWhile (\<lambda>b. b \<noteq> 1) bs)"
  define F where "F \<longleftrightarrow> 1 \<in> set bs"
  define E where "E \<longleftrightarrow> take ?h db = hash"
  define A where "A \<longleftrightarrow> list_all (\<lambda>b. b = 0) (takeWhile (\<lambda>b. b \<noteq> 1) bs)"
  define one where "one = (if F then ?h + k else 0)"
  define mlen where "mlen = ?D - (one + 1)"
  define n where "n = ?D - ?h - 1"
  have k: "k < length bs" if F using that takeWhile_in unfolding F_def k_def by metis
  have one: "one < ?D" using assms(1) k by (auto simp: one_def bs_def)
  have scan: "oaep_scan bs (of_nat ?h) 0 0 (ct_mask (Z \<and> E)) = (of_nat one, ct_mask F, ct_mask (Z \<and> E \<and> A))"
    using oaep_scan_mask [of "of_nat ?h" bs 0 False "Z \<and> E"] assms(1,2) unat_size [of ?h]
    by (simp add: bs_def [symmetric] F_def A_def one_def k_def conj_assoc) (simp add: bs_def)
  have mw: "of_nat ?D - (of_nat one + 1 :: u64) = of_nat mlen" using one by (simp add: mlen_def of_nat_diff)
  have dw: "(of_nat n :: u64) - of_nat mlen = of_nat k" if F
    using that one k by (simp add: n_def mlen_def one_def bs_def of_nat_diff)
  have ge: "constant_time_ge (ucast out_data_len) (ucast (of_nat mlen :: u64)) = (ct_mask (mlen \<le> unat out_data_len) :: u32)"
    using assms(2,3) by (simp add: ct_masks word_less_nat_alt unsigned_ucast_eq unsigned_of_nat take_bit_nat_eq_self not_less mlen_def)
  have mb: "mlen < 2 ^ 31" using assms(2) by (simp add: mlen_def)
  define olen where "olen = min n (unat out_data_len)"
  have nb: "n < 2 ^ 31" using assms(2) by (simp add: n_def)
  have lt: "constant_time_lt (of_nat n) (ucast out_data_len) = (ct_mask (n < unat out_data_len) :: u32)"
    using nb assms(3) by (simp add: ct_masks word_less_nat_alt unsigned_ucast_eq unsigned_of_nat take_bit_nat_eq_self)
  have ol: "unat (select_size (ct_mask (n < unat out_data_len)) (of_nat n) out_data_len) = olen"
    using select_size_mask [of "of_nat n" out_data_len "n < unat out_data_len"] unat_size [OF nb] nb assms(3) by (simp add: olen_def)
  define rest where "rest = oaep_shift n (of_nat n - of_nat mlen) 1 (drop (?h + 1) db)"
  have rl: "length rest = n" unfolding rest_def by (rule oaep_shift_length) (simp add: n_def)
  have msg: "take mlen rest = drop (k + 1) bs" "length (drop (k + 1) bs) = mlen" if F
  proof -
    have "k \<le> n" "n - k = mlen" using k [OF that] that by (auto simp: n_def bs_def mlen_def one_def)
    then show "take mlen rest = drop (k + 1) bs"
      using oaep_shift_whole [of "drop (?h + 1) db" n k] nb
      unfolding rest_def dw [OF that] by (simp add: n_def bs_def add.commute add.left_commute)
    show "length (drop (k + 1) bs) = mlen" using that by (simp add: bs_def mlen_def one_def)
  qed
  have ok: "and (ct_mask Z) (constant_time_is_zero (if take ?h db = hash then 0 else 1)) = (ct_mask (Z \<and> E) :: u32)"
    by (simp add: ct_masks E_def)
  define P where "P \<longleftrightarrow> (Z \<and> E \<and> A) \<and> F \<and> mlen \<le> unat out_data_len"
  have copy: "oaep_copy (ct_mask P) (of_nat mlen) 0 rest out olen =
      Some (if P then take (min olen mlen) rest @ drop (min olen mlen) out else out)"
    using oaep_copy_mask [of olen rest out 0 "of_nat mlen" P] rl assms(2,4) nb unat_size [of mlen] by (simp add: olen_def mlen_def)
  have "oaep_unpad Z db out out_data_len hash = map_option (oaep_finish (ct_mask P) (of_nat mlen))
      (oaep_copy (ct_mask P) (of_nat mlen) 0 rest out olen)"
    unfolding oaep_unpad_def Let_def ok bs_def [symmetric] scan prod.case mw ge n_def [symmetric] lt ol rest_def [symmetric]
    by (simp only: ct_mask_bool conj_assoc P_def)
  then have u: "oaep_unpad Z db out out_data_len hash =
      Some (if P then (CKR_OK, of_nat mlen, take (min olen mlen) rest @ drop (min olen mlen) out) else (CKR_ENCRYPTED_DATA_INVALID, 0, out))"
    using finish_mask [of "of_nat mlen" P] unat_size [OF mb] mb by (simp add: copy)
  have om: "oaep_message hash db = (if E \<and> F \<and> A then Some (drop (k + 1) bs) else None)"
    by (simp add: oaep_message_def E_def F_def A_def bs_def k_def Let_def)
  show ?thesis
  proof (cases "E \<and> F \<and> A")
    case True
    then have "mlen \<le> n" using k by (auto simp: mlen_def one_def n_def)
    then show ?thesis using u om True msg by (auto simp: olen_def P_def)
  qed (use u om in \<open>auto simp: P_def\<close>)
qed

lemma mgf1_mask: "mgf1 dig al seed n mgf = ck_ok (m, al') \<Longrightarrow> m = mask_of dig mgf seed n"
  by (auto simp: mask_of_def mgf1_def ck_bind_ok_iff split: option.splits sum.splits)

lemma map2_xor_commute: "map2 xor xs ys = map2 xor ys (xs :: byte list)"
  by (induction xs ys rule: list_induct2') (simp_all add: xor.commute)

lemma map2_xor_cancel: "length xs \<le> length ys \<Longrightarrow> map2 xor ys (map2 xor xs (ys :: byte list)) = xs"
  by (induction xs ys rule: list_induct2') (simp_all add: xor.left_commute)

lemma padding_zeros: "takeWhile (\<lambda>b. b \<noteq> (1 :: byte)) (replicate n 0 @ 1 # m) = replicate n 0"
  by (induction n) simp_all

lemma oaep_message_encoded: "oaep_message hash (hash @ replicate n 0 @ [1] @ m) = Some m"
  by (simp add: oaep_message_def Let_def padding_zeros list_all_iff)

lemma oaep_decoded:
  assumes "digest_total dig" "get_mgf_mech mgf = ck_ok mech" "False \<notin> set al"
    and "2 * length hash + 2 \<le> length em" "length em < 2 ^ 31" "length hash \<le> 64"
    and "unat out_data_len < 2 ^ 31" "unat out_data_len \<le> length out"
  shows "decode_eme_oaep dig al em out out_data_len mgf hash =
    Some (case oaep_message hash (oaep_db dig mgf (length hash) em) of
        Some m \<Rightarrow> if em ! 0 = 0 \<and> length m \<le> unat out_data_len then (CKR_OK, of_nat (length m), m @ drop (length m) out)
                  else (CKR_ENCRYPTED_DATA_INVALID, 0, out)
      | None \<Rightarrow> (CKR_ENCRYPTED_DATA_INVALID, 0, out))"
  unfolding decode_unpad(1) [OF assms(1-6)]
  by (rule unpad_spec) (use decode_unpad(2) [OF assms(1-6)] assms in \<open>simp_all\<close>)

lemma oaep_encoded:
  assumes "digest_total dig" "get_mgf_mech mgf = ck_ok mech"
    and "encode_eme_oaep dig al dev m modLength mgf hash = ck_ok (em, dev')" "modLength < 2 ^ 31"
  shows "length em = modLength" "2 * length hash + 2 \<le> length em" "length hash \<le> 64" "em ! 0 = 0"
    "oaep_message hash (oaep_db dig mgf (length hash) em) = Some m"
proof -
  let ?h = "length hash" let ?n = "modLength - ?h - 1"
  let ?db = "hash @ replicate (modLength - length m - 2 * ?h - 2) 0 @ [1] @ m"
  have sz: "length m + 2 * ?h + 2 \<le> modLength" "?h \<le> 64"
    using assms(3) by (auto simp: encode_eme_oaep_def Let_def MAX_SHA_HASH_SIZE_def split: if_splits)
  obtain seed al1 where seed: "rng_generate dev ?h = ck_ok (seed, dev')"
    and em: "em = [0] @ map2 xor (mask_of dig mgf (map2 xor ?db (mask_of dig mgf seed ?n)) ?h) seed @ map2 xor ?db (mask_of dig mgf seed ?n)"
    using assms(3) sz by (auto simp: encode_eme_oaep_def Let_def MAX_SHA_HASH_SIZE_def ck_bind_ok_iff dest!: mgf1_mask)
  have sl: "length seed = ?h" using seed by (auto simp: rng_generate_def local_rng_def split: if_splits)
  have ml: "length (mask_of dig mgf s k) = k" if "k < modLength" for s k
    using mgf1_total(2) [OF assms(1,2), of k "[]" s] that assms(4) by simp
  have dl: "length ?db = ?n" using sz by simp
  have xl: "length (map2 xor ?db (mask_of dig mgf seed ?n)) = ?n" using dl ml [of ?n seed] sz by simp
  show len: "length em = modLength" unfolding em using xl ml [of ?h] sl sz by simp
  show "2 * ?h + 2 \<le> length em" "?h \<le> 64" "em ! 0 = 0" using len sz by (simp_all add: em)
  let ?x = "map2 xor ?db (mask_of dig mgf seed ?n)" let ?sm = "mask_of dig mgf ?x ?h"
  have "map2 xor ?sm (map2 xor ?sm seed) = seed"
    using map2_xor_cancel [of seed ?sm] ml [of ?h ?x] sl sz by (simp add: map2_xor_commute)
  moreover have "map2 xor (mask_of dig mgf seed ?n) ?x = ?db"
    by (rule map2_xor_cancel) (use dl ml [of ?n seed] sz in simp)
  moreover have "drop (1 + ?h) em = ?x" "take ?h (drop 1 em) = map2 xor ?sm seed"
    unfolding em using ml [of ?h ?x] sl sz by simp_all
  ultimately have "oaep_db dig mgf ?h em = ?db"
    unfolding oaep_db_def Let_def len by (simp only:)
  then show "oaep_message hash (oaep_db dig mgf ?h em) = Some m" by (simp only: oaep_message_encoded)
qed

lemma oaep_encode_total:
  assumes "digest_total dig" "get_mgf_mech mgf = ck_ok mech" "False \<notin> set al"
    and "hash \<noteq> []" "length hash \<le> 64" "length hash \<le> length dev"
    and "length m + 2 * length hash + 2 \<le> modLength" "modLength < 2 ^ 31"
  shows "\<exists>em dev'. encode_eme_oaep dig al dev m modLength mgf hash = ck_ok (em, dev')"
proof -
  note al = malloc_all [OF assms(3)] malloc_all(2) [OF malloc_all(2) [OF assms(3)]]
  have h: "length hash < 2 ^ 31 - 1" "modLength - length hash - 1 < 2 ^ 31 - 1" using assms(7,8) by linarith+
  show ?thesis
    using assms(4-7) al mgf1_total(1) [OF assms(1,2) h(2) al(2)] mgf1_total(1) [OF assms(1,2) h(1) al(3)]
    by (simp add: encode_eme_oaep_def Let_def MAX_SHA_HASH_SIZE_def rng_generate_def local_rng_def)
qed

lemma digest_total_const: "digest_total (\<lambda>md bs. Some (replicate (md_size md) 7))"
  by (simp add: digest_total_def)

text \<open>
  C5: The branch-free OAEP decoder computes what the encoding method says: with working digests,
  it returns the message exactly when the first byte is zero, the unmasked block begins with the
  digest of the label, zero bytes up to a byte 1 follow, and the message fits the buffer. In every
  other case it returns one and the same error, with length 0 and the buffer untouched.
\<close>

theorem oaep_decode_correct:
  assumes "digest_total dig" "get_mgf_mech mgf = ck_ok mech" "False \<notin> set al"
    and "2 * length hash + 2 \<le> length em" "length em < 2 ^ 31" "length hash \<le> 64"
    and "unat out_data_len < 2 ^ 31" "unat out_data_len \<le> length out"
  shows "decode_eme_oaep dig al em out out_data_len mgf hash =
    Some (case oaep_message hash (oaep_db dig mgf (length hash) em) of
        Some m \<Rightarrow> if em ! 0 = 0 \<and> length m \<le> unat out_data_len then (CKR_OK, of_nat (length m), m @ drop (length m) out)
                  else (CKR_ENCRYPTED_DATA_INVALID, 0, out)
      | None \<Rightarrow> (CKR_ENCRYPTED_DATA_INVALID, 0, out))"
  by (rule oaep_decoded [OF assms])

theorem oaep_decode_correct_witness:
  "decode_eme_oaep (\<lambda>md bs. Some (replicate (md_size md) 7)) [] (replicate 44 1) [9, 9] 2 CKG_MGF1_SHA1 (replicate 20 7) =
     Some (CKR_ENCRYPTED_DATA_INVALID, 0, [9, 9])"
  using oaep_decode_correct [of "\<lambda>md bs. Some (replicate (md_size md) 7)" CKG_MGF1_SHA1 CKM_SHA_1 "[]" "replicate 20 7" "replicate 44 1" 2 "[9, 9]"]
  by (simp add: digest_total_const get_mgf_mech_def split: option.splits)

text \<open>
  C13: OAEP round trip: with working digests and enough random bytes, the encoder succeeds on
  every message that the modulus has room for, its result has the length of the modulus, and the
  decoder gives back the message.
\<close>

theorem oaep_roundtrip:
  assumes "digest_total dig" "get_mgf_mech mgf = ck_ok mech" "False \<notin> set al" "False \<notin> set al'"
    and "hash \<noteq> []" "length hash \<le> 64" "length hash \<le> length dev"
    and "length m + 2 * length hash + 2 \<le> modLength" "modLength < 2 ^ 31"
    and "unat out_data_len < 2 ^ 31" "length m \<le> unat out_data_len" "unat out_data_len \<le> length out"
  shows "\<exists>em dev'. encode_eme_oaep dig al dev m modLength mgf hash = ck_ok (em, dev') \<and> length em = modLength
    \<and> decode_eme_oaep dig al' em out out_data_len mgf hash = Some (CKR_OK, of_nat (length m), m @ drop (length m) out)"
proof -
  obtain em dev' where e: "encode_eme_oaep dig al dev m modLength mgf hash = ck_ok (em, dev')"
    using oaep_encode_total [OF assms(1-3,5-9)] by blast
  from oaep_encoded [OF assms(1,2) this assms(9)] show ?thesis
    using oaep_decoded [OF assms(1,2,4) _ _ _ assms(10,12), of hash em] e assms(9,11) by auto
qed

theorem oaep_roundtrip_witness:
  "\<exists>em dev'. encode_eme_oaep (\<lambda>md bs. Some (replicate (md_size md) 7)) [] (replicate 32 3) [65, 1, 0] 128 CKG_MGF1_SHA256 (replicate 32 7) =
       ck_ok (em, dev') \<and> length em = 128
    \<and> decode_eme_oaep (\<lambda>md bs. Some (replicate (md_size md) 7)) [] em [9, 9, 9, 9] 4 CKG_MGF1_SHA256 (replicate 32 7) =
       Some (CKR_OK, 3, [65, 1, 0, 9])"
  using oaep_roundtrip [of "\<lambda>md bs. Some (replicate (md_size md) 7)" CKG_MGF1_SHA256 CKM_SHA256 "[]" "[]" "replicate 32 7"
      "replicate 32 3" "[65, 1, 0]" 128 4 "[9, 9, 9, 9]"]
  by (simp add: digest_total_const get_mgf_mech_def)

text \<open>
  C20: When a mask cannot be generated, because a digest fails or memory runs out, the decoder
  leaves early with what it knows so far. For every block that begins with a zero byte, as every
  correct one does, that is success: it returns \<^verbatim>\<open>CKR_OK\<close> and the length 2^64 - 1, with nothing
  written to the buffer.
\<close>

theorem oaep_failed_mask_reports_success:
  assumes "2 * length hash + 2 \<le> length em" "length hash \<le> 64" "em ! 0 = 0" "ck_malloc al = ck_ok al'"
    and "mgf1 dig al' (drop (1 + length hash) em) (length hash) mgf = ck_fail rc"
  shows "decode_eme_oaep dig al em out out_data_len mgf hash = Some (CKR_OK, 2 ^ 64 - 1, out)"
proof -
  have "oaep_finish (- 1) (- 1) out = (CKR_OK, 2 ^ 64 - 1, out)"
    by (simp add: oaep_finish_def select_size_def constant_time_select_int_def)
  then show ?thesis
    using assms by (simp add: decode_eme_oaep_def Let_def MAX_SHA_HASH_SIZE_def constant_time_is_zero_mask)
qed

theorem oaep_failed_mask_reports_success_witness:
  "decode_eme_oaep (\<lambda>md bs. None) [] (replicate 44 0) [9, 9] 2 CKG_MGF1_SHA1 (replicate 20 7) = Some (CKR_OK, 2 ^ 64 - 1, [9, 9])"
  by (rule oaep_failed_mask_reports_success [where rc = CKR_FUNCTION_FAILED and al' = "[]"])
    (simp_all add: mgf1_def get_mgf_mech_def get_sha_size_def mgf_blocks.simps compute_sha_def sha_md_def)

end
