(* ===== verification/Rsa_Pss_Facts.thy ===== *)
theory Rsa_Pss_Facts
  imports Rsa_Pad_Facts
begin

text \<open>
  EMSA-PSS: which messages the verifier accepts for an encoded message, and a salt length that
  wraps around in the checks.
\<close>

section \<open>Lengths\<close>

lemma em_len_eq: "em_len modbytes = modbytes"
proof -
  have "odd (em_bits modbytes)" by (simp add: em_bits_def)
  then have "em_bits modbytes mod 8 \<noteq> 0"
    using div_mult_mod_eq [of "em_bits modbytes" 8] by (metis add.right_neutral dvd_mult even_numeral)
  then show ?thesis by (simp add: em_len_def)
qed

lemma top_mask_eq: "top_mask modbytes = Some 0x7f"
  by (simp add: top_mask_def em_len_eq em_bits_def Let_def)

lemma sha_len_md: "sha_md m = Some md \<Longrightarrow> sha_len m = ck_ok (of_nat (md_size md))"
  using sha_md_size by (simp add: sha_len_def)

lemma unat_minus: "unat b \<le> unat a \<Longrightarrow> unat (a - b) = unat a - unat (b :: u64)"
  by (simp add: unat_sub word_le_nat_alt)

text \<open>The sizes of an encoding, when the salt length does not wrap.\<close>

lemma pss_sizes:
  fixes k h s :: u64
  assumes "unat k < 2 ^ 31" "unat h \<le> 64" "unat s < 2 ^ 31" "\<not> k < h + s + 2"
  shows "unat h + unat s + 2 \<le> unat k" "unat (k - h - 1) = unat k - unat h - 1" "unat (k - s - h - 2) = unat k - unat s - unat h - 2"
    "unat (k - h - s - 2) = unat k - unat s - unat h - 2" "unat (k - h - 1 + (8 + h + s)) = unat k - unat h - 1 + (8 + unat h + unat s)"
    "unat (8 + h + s) = 8 + unat h + unat s"
proof -
  have hs: "unat (h + s + 2) = unat h + unat s + 2" using assms by (simp add: unat_word_ariths)
  show le: "unat h + unat s + 2 \<le> unat k" using assms(4) hs by (simp add: word_less_nat_alt)
  show 1: "unat (k - h - 1) = unat k - unat h - 1"
    using le by (simp add: unat_minus)
  show "unat (k - s - h - 2) = unat k - unat s - unat h - 2" "unat (k - h - s - 2) = unat k - unat s - unat h - 2"
    using le by (simp_all add: unat_minus)
  show 2: "unat (8 + h + s) = 8 + unat h + unat s" using assms by (simp add: unat_word_ariths)
  show "unat (k - h - 1 + (8 + h + s)) = unat k - unat h - 1 + (8 + unat h + unat s)"
    using assms le by (simp add: unat_word_ariths)
qed

lemma unat_minus_small: "0 < n \<Longrightarrow> n < 2 ^ 31 \<Longrightarrow> unat (- (of_nat n) :: u64) = 2 ^ 64 - n"
proof -
  assume n: "0 < n" "n < 2 ^ 31"
  then have "- (of_nat n) = (of_nat (2 ^ 64 - n) :: u64)" by (simp add: of_nat_diff)
  then show ?thesis using n by (simp only: unsigned_of_nat) (simp add: take_bit_nat_eq_self)
qed

section \<open>Encoding and verification\<close>

lemma xor_top:
  assumes "length db = length msk" "map2 xor db msk = b # bs" "db = c # cs" "and c tm = (c :: byte)"
  shows "\<exists>x xs. map2 xor msk (and b tm # bs) = x # xs \<and> and x tm # xs = db"
proof -
  obtain d ds where m: "msk = d # ds" using assms(1,3) by (cases msk) auto
  have "b = xor c d" "bs = map2 xor cs ds" using assms(2,3) m by simp_all
  moreover have "and (xor d (and (xor c d) tm)) tm = and c tm" by (rule bit_word_eqI) (auto simp: bit_simps)
  moreover have "map2 xor ds (map2 xor cs ds) = cs" using assms(1,3) m by (intro map2_xor_cancel) simp
  ultimately show ?thesis using assms(3,4) m by simp
qed

text \<open>What the encoder puts together: the padding, the salt, the digest over message and salt, and the mask.\<close>

definition pss_prefixed :: "byte list \<Rightarrow> byte list \<Rightarrow> byte list" where
  "pss_prefixed d salt = replicate 8 0 @ d @ salt"

lemma pss_encoded:
  assumes "digest_total dig" "get_mgf_mech (pss_mgf pss) = ck_ok mech" "sha_md (hashAlg pss) = Some md"
    and "emsa_pss_encode dig al dev pss d modbytes = ck_ok em" "unat modbytes < 2 ^ 31" "unat (sLen pss) < 2 ^ 31" "length d < 2 ^ 64"
  obtains salt h b bs where "length salt = unat (sLen pss)" "length d = md_size md"
    "compute_sha dig (pss_prefixed d salt) (hashAlg pss) = ck_ok h" "length h = md_size md"
    "map2 xor (replicate (unat modbytes - unat (sLen pss) - md_size md - 2) 0 @ [1] @ salt)
       (mask_of dig (pss_mgf pss) h (unat modbytes - md_size md - 1)) = b # bs"
    "em = (and b 0x7f # bs) @ h @ [0xbc]" "md_size md + unat (sLen pss) + 2 \<le> unat modbytes"
proof -
  let ?h = "of_nat (md_size md) :: u64"
  have uh: "unat ?h = md_size md" using md_size_bounds(2) [of md] by (intro unat_size) simp
  have c: "\<not> modbytes < ?h + sLen pss + 2" "of_nat (length d) = ?h"
    using assms(4) by (auto simp: emsa_pss_encode_def em_len_eq sha_len_md [OF assms(3)] Let_def split: if_splits)
  have ld: "length d = md_size md"
    using arg_cong [OF c(2), of unat] assms(7) uh by (simp add: unsigned_of_nat take_bit_nat_eq_self)
  note sz = pss_sizes [OF assms(5) _ assms(6) c(1), unfolded uh, OF md_size_bounds(2)]
  obtain salt h msk dev' al1 al2 where r: "draw_salt dev (8 + length d) (sLen pss) (if modbytes - ?h - 1 < 8 + ?h + sLen pss then 8 + ?h + sLen pss else modbytes - ?h - 1) = ck_ok (salt, dev')"
      "compute_sha dig (pss_prefixed d salt) (hashAlg pss) = ck_ok h"
      "mgf1 dig al1 h (unat modbytes - md_size md - 1) (pss_mgf pss) = ck_ok (msk, al2)"
      "(case (map2 xor (replicate (unat modbytes - unat (sLen pss) - md_size md - 2) 0 @ [1] @ salt) msk, Some (0x7f :: byte)) of
          (b # bs, Some tm) \<Rightarrow> ck_ok ((and b tm # bs) @ h @ [0xbc]) | _ \<Rightarrow> None) = ck_ok em"
    using assms(4) c unfolding emsa_pss_encode_def em_len_eq sha_len_md [OF assms(3)] Let_def pss_prefixed_def top_mask_eq ck_bind_simps sz if_False
    by (auto simp: ck_bind_ok_iff simp del: of_nat_diff)
  let ?x = "map2 xor (replicate (unat modbytes - unat (sLen pss) - md_size md - 2) 0 @ [1] @ salt) msk"
  obtain b bs where x: "?x = b # bs" "em = (and b 0x7f # bs) @ h @ [0xbc]"
    using r(4) by (cases ?x) simp_all
  have "length salt = unat (sLen pss)"
    using r(1) by (auto simp: draw_salt_def rng_generate_def local_rng_def split: if_splits)
  moreover have "length h = md_size md" using digest_total_sha [OF assms(1,3), of "pss_prefixed d salt"] r(2) by auto
  ultimately show thesis using that [OF _ ld r(2) _ _ x(2) sz(1)] x(1) unfolding mgf1_mask [OF r(3)] by blast
qed

lemma pss_check_padding:
  assumes "and x tm # xs = replicate n 0 @ [1] @ salt" "length salt = unat (sLen pss)" "k = 8 + hlen + length salt"
    and "compute_sha dig (pss_prefixed d salt) (hashAlg pss) = ck_ok h'"
  shows "pss_check dig pss d h hlen tm n (x # xs @ replicate k 0) = Some (if h' = h then CKR_OK else CKR_SIGNATURE_INVALID)"
proof -
  let ?db = "(replicate n 0 @ [1] @ salt) @ replicate k 0"
  have db: "and x tm # xs @ replicate k 0 = ?db" using assms(1) by simp
  have "takeWhile (\<lambda>b. b = 0) (take n ?db) = replicate n 0" by simp
  moreover have "peek ?db n = Some 1" by (simp add: peek_def nth_append)
  moreover have "take (unat (sLen pss)) (drop (n + 1) ?db) = salt" using assms(2) by simp
  moreover have "\<not> n + 1 + unat (sLen pss) + 8 + hlen + unat (sLen pss) > length ?db" using assms(2,3) by simp
  ultimately show ?thesis
    using assms(4) unfolding pss_check_def list.case Let_def db pss_prefixed_def by (simp del: append_assoc)
qed

lemma pss_verified:
  assumes "digest_total dig" "get_mgf_mech (pss_mgf pss) = ck_ok mech" "sha_md (hashAlg pss) = Some md" "False \<notin> set al"
    and "length salt = unat (sLen pss)" "length d = md_size md" "length h = md_size md"
    and "compute_sha dig (pss_prefixed d salt) (hashAlg pss) = ck_ok h'"
    and "map2 xor (replicate (unat modbytes - unat (sLen pss) - md_size md - 2) 0 @ [1] @ salt)
       (mask_of dig (pss_mgf pss) h (unat modbytes - md_size md - 1)) = b # bs"
    and "md_size md + unat (sLen pss) + 2 \<le> unat modbytes" "unat modbytes < 2 ^ 31" "unat (sLen pss) < 2 ^ 31"
  shows "length ((and b 0x7f # bs) @ h @ [0xbc]) = unat modbytes"
    "emsa_pss_verify dig al pss d ((and b 0x7f # bs) @ h @ [0xbc]) modbytes = Some (if h' = h then CKR_OK else CKR_SIGNATURE_INVALID)"
proof -
  let ?h = "of_nat (md_size md) :: u64" let ?em = "(and b 0x7f # bs) @ h @ [0xbc]"
  let ?p = "unat modbytes - unat (sLen pss) - md_size md - 2" let ?n = "unat modbytes - md_size md - 1"
  let ?db = "replicate ?p 0 @ [1] @ salt" let ?m = "mask_of dig (pss_mgf pss) h ?n"
  have uh: "unat ?h = md_size md" using md_size_bounds(2) [of md] by (intro unat_size) simp
  have c: "\<not> modbytes < ?h + sLen pss + 2" using assms(10-12) uh by (simp add: word_less_nat_alt unat_word_ariths)
  note sz = pss_sizes [OF assms(11) _ assms(12) c, unfolded uh, OF md_size_bounds(2)]
  have n: "?n < 2 ^ 31 - 1" using assms(10,11) by linarith
  note m = mgf1_total [OF assms(1,2) n]
  have ml: "length ?m = ?n" using m(2) [of "[]"] by simp
  have dl: "length ?db = ?n" using assms(5,10) by simp
  have bl: "length (b # bs) = ?n" unfolding assms(9) [symmetric] using ml dl by simp
  show len: "length ?em = unat modbytes" using bl assms(7,10) by simp
  obtain e es where db: "?db = e # es" "and e 0x7f = e" by (cases ?p) auto
  obtain x xs where x: "map2 xor ?m (and b 0x7f # bs) = x # xs" "and x 0x7f # xs = ?db"
    using xor_top [OF _ assms(9) db] dl ml by auto
  have parts: "take ?n ?em = and b 0x7f # bs" "take (md_size md) (drop ?n ?em) = h" "?em ! (unat modbytes - 1) = 0xbc" "?em ! 0 = and b 0x7f"
    using bl assms(7,10) by (auto simp: nth_append take_Cons' drop_Cons')
  have top: "and (and b 0x7f) (not 0x7f) = 0" by (rule bit_word_eqI) (auto simp: bit_simps)
  show "emsa_pss_verify dig al pss d ?em modbytes = Some (if h' = h then CKR_OK else CKR_SIGNATURE_INVALID)"
    using c assms(6) pss_check_padding [OF x(2) assms(5) refl assms(8), of h "md_size md"] top
      malloc_all(1) [OF assms(4)] m(1) [OF malloc_all(2) [OF assms(4)]]
    unfolding emsa_pss_verify_def em_len_eq top_mask_eq Let_def sha_len_md [OF assms(3)] option.case sum.case sz uh parts len append_Cons [of x xs]
    by (simp only: option.case sum.case prod.case if_False x(1) append_Cons [of x xs] assms(5) diff_add_inverse not_add_less1 less_irrefl
        not_True_eq_False simp_thms)
qed

lemma draw_salt_total:
  "off + unat n \<le> unat l \<Longrightarrow> unat n \<le> length dev \<Longrightarrow> \<exists>salt dev'. draw_salt dev off n l = ck_ok (salt, dev')"
  by (auto simp: draw_salt_def rng_generate_def local_rng_def unsigned_eq_0_iff)

lemma pss_encode_total:
  assumes "digest_total dig" "get_mgf_mech (pss_mgf pss) = ck_ok mech" "sha_md (hashAlg pss) = Some md" "False \<notin> set al"
    and "length d = md_size md" "unat (sLen pss) \<le> length dev"
    and "md_size md + unat (sLen pss) + 2 \<le> unat modbytes" "unat modbytes < 2 ^ 31"
  shows "\<exists>em. emsa_pss_encode dig al dev pss d modbytes = ck_ok em"
proof -
  let ?h = "of_nat (md_size md) :: u64"
  have s: "unat (sLen pss) < 2 ^ 31" using assms(7,8) by linarith
  have uh: "unat ?h = md_size md" using md_size_bounds(2) [of md] by (intro unat_size) simp
  have c: "\<not> modbytes < ?h + sLen pss + 2" using assms(7,8) uh by (simp add: word_less_nat_alt unat_word_ariths)
  note sz = pss_sizes [OF assms(8) _ s c, unfolded uh, OF md_size_bounds(2)]
  let ?l = "if modbytes - ?h - 1 < 8 + ?h + sLen pss then 8 + ?h + sLen pss else modbytes - ?h - 1"
  have "8 + length d + unat (sLen pss) \<le> unat ?l" using sz(2,6) assms(5) by (simp add: word_less_nat_alt)
  then obtain salt dev' where salt: "draw_salt dev (8 + length d) (sLen pss) ?l = ck_ok (salt, dev')"
    using draw_salt_total assms(6) by blast
  obtain h where h: "compute_sha dig (replicate 8 0 @ d @ salt) (hashAlg pss) = ck_ok h"
    using digest_total_sha [OF assms(1,3)] by blast
  let ?n = "unat modbytes - md_size md - 1" let ?db = "replicate (unat modbytes - unat (sLen pss) - md_size md - 2) 0 @ [1] @ salt"
  have n: "?n < 2 ^ 31 - 1" "?n \<noteq> 0" using assms(7,8) by linarith+
  note m = mgf1_total [OF assms(1,2) n(1)]
  obtain b bs where "map2 xor ?db (mask_of dig (pss_mgf pss) h ?n) = b # bs"
    using m(2) [of "[]" h] n(2) by (cases "mask_of dig (pss_mgf pss) h ?n"; cases ?db) auto
  then show ?thesis
    using c salt h m(1) [OF malloc_all(2) [OF assms(4)]] malloc_all(1) [OF assms(4)] assms(5)
    unfolding emsa_pss_encode_def em_len_eq sha_len_md [OF assms(3)] Let_def top_mask_eq ck_bind_simps sz by simp
qed

text \<open>
  C9: The PSS verifier accepts exactly the signed message, up to collisions of the digest: the
  encoder succeeds with every salt length the modulus has room for, and for its result the
  verifier accepts a message digest of the right length if and only if hashing it with the salt
  gives the same digest as hashing the encoded one. In particular the encoded digest is accepted.
\<close>

theorem pss_verify_correct:
  assumes "digest_total dig" "get_mgf_mech (pss_mgf pss) = ck_ok mech" "sha_md (hashAlg pss) = Some md"
    and "False \<notin> set al" "False \<notin> set al'" "length d = md_size md" "unat (sLen pss) \<le> length dev"
    and "md_size md + unat (sLen pss) + 2 \<le> unat modbytes" "unat modbytes < 2 ^ 31"
  shows "\<exists>em salt. emsa_pss_encode dig al dev pss d modbytes = ck_ok em \<and> length em = unat modbytes \<and> length salt = unat (sLen pss)
    \<and> (\<forall>d'. length d' = length d \<longrightarrow> emsa_pss_verify dig al' pss d' em modbytes =
        Some (if compute_sha dig (pss_prefixed d' salt) (hashAlg pss) = compute_sha dig (pss_prefixed d salt) (hashAlg pss)
              then CKR_OK else CKR_SIGNATURE_INVALID))"
proof -
  have s: "unat (sLen pss) < 2 ^ 31" using assms(8,9) by linarith
  have d: "length d < 2 ^ 64" using assms(6) md_size_bounds(2) [of md] by simp
  obtain em where em: "emsa_pss_encode dig al dev pss d modbytes = ck_ok em"
    using pss_encode_total [OF assms(1-4,6-9)] by blast
  from pss_encoded [OF assms(1-3) em assms(9) s d] obtain salt h b bs where e: "length salt = unat (sLen pss)"
    "compute_sha dig (pss_prefixed d salt) (hashAlg pss) = ck_ok h" "length h = md_size md"
    "map2 xor (replicate (unat modbytes - unat (sLen pss) - md_size md - 2) 0 @ [1] @ salt)
       (mask_of dig (pss_mgf pss) h (unat modbytes - md_size md - 1)) = b # bs"
    "em = (and b 0x7f # bs) @ h @ [0xbc]" by metis
  note v = pss_verified [OF assms(1-3,5) e(1) _ e(3) _ e(4) assms(8,9) s]
  have "emsa_pss_verify dig al' pss d' em modbytes =
      Some (if compute_sha dig (pss_prefixed d' salt) (hashAlg pss) = compute_sha dig (pss_prefixed d salt) (hashAlg pss)
            then CKR_OK else CKR_SIGNATURE_INVALID)" if "length d' = length d" for d'
  proof -
    obtain h' where "compute_sha dig (pss_prefixed d' salt) (hashAlg pss) = ck_ok h'"
      using digest_total_sha [OF assms(1,3)] by blast
    then show ?thesis using v(2) [of d' h'] that assms(6) e(2,5) by simp
  qed
  then show ?thesis using em e(1,5) v(1) [OF assms(6) e(2)] by blast
qed

theorem pss_verify_correct_witness:
  "\<exists>em. emsa_pss_encode (\<lambda>md bs. Some (replicate (md_size md) (bs ! 8))) [] (replicate 32 3)
        \<lparr>hashAlg = CKM_SHA256, pss_mgf = CKG_MGF1_SHA256, sLen = 20\<rparr> (replicate 32 5) 128 = ck_ok em
    \<and> emsa_pss_verify (\<lambda>md bs. Some (replicate (md_size md) (bs ! 8))) []
        \<lparr>hashAlg = CKM_SHA256, pss_mgf = CKG_MGF1_SHA256, sLen = 20\<rparr> (replicate 32 5) em 128 = Some CKR_OK
    \<and> emsa_pss_verify (\<lambda>md bs. Some (replicate (md_size md) (bs ! 8))) []
        \<lparr>hashAlg = CKM_SHA256, pss_mgf = CKG_MGF1_SHA256, sLen = 20\<rparr> (replicate 32 6) em 128 = Some CKR_SIGNATURE_INVALID"
proof -
  have c: "compute_sha (\<lambda>md bs. Some (replicate (md_size md) (bs ! 8))) (pss_prefixed (replicate 32 x) salt) CKM_SHA256 =
      ck_ok (replicate 32 x)" for x salt
    by (simp add: compute_sha_def sha_md_def pss_prefixed_def nth_append)
  show ?thesis
    using pss_verify_correct [of "\<lambda>md bs. Some (replicate (md_size md) (bs ! 8))" "\<lparr>hashAlg = CKM_SHA256, pss_mgf = CKG_MGF1_SHA256, sLen = 20\<rparr>"
        CKM_SHA256 EVP_sha256 "[]" "[]" "replicate 32 5" "replicate 32 3" 128]
    by (force simp: digest_total_def get_mgf_mech_def sha_md_def c)
qed

text \<open>
  C40: The check of the salt length against the modulus wraps around. For a modulus of one byte
  more than the digest it accepts the salt length 2^64 - hlen - 2, and with that length the
  encoder, whose own check wraps around too, allocates a buffer of a few bytes and writes behind it.
\<close>

theorem pss_salt_length_wraps:
  assumes "get_mgf_mech (pss_mgf pss) = ck_ok (hashAlg pss)" "sha_md (hashAlg pss) = Some md"
    and "sLen pss = - of_nat (md_size md + 2)" "length d = md_size md" "False \<notin> set al"
  shows "check_pss_params CKM_RSA_PKCS_PSS True pss (of_nat (md_size md + 1)) = ck_ok ()
    \<and> emsa_pss_encode dig al dev pss d (of_nat (md_size md + 1)) = None"
proof -
  let ?h = "of_nat (md_size md) :: u64"
  have b: "md_size md + 2 < 2 ^ 31" using md_size_bounds(2) [of md] by simp
  have u: "unat (sLen pss) = 2 ^ 64 - (md_size md + 2)"
    unfolding assms(3) using unat_size [OF b] b by (simp only: unat_minus_small)
  have l: "?h + sLen pss + 2 = 0" "of_nat (md_size md + 1) - ?h - 1 = 0" "8 + ?h + sLen pss = 6" unfolding assms(3) by simp_all
  have "draw_salt dev (8 + length d) (sLen pss) 6 = None"
    using u b assms(4) by (auto simp: draw_salt_def)
  then have "emsa_pss_encode dig al dev pss d (of_nat (md_size md + 1)) = None"
    using malloc_all(1) [OF assms(5)] assms(4)
    unfolding emsa_pss_encode_def em_len_eq sha_len_md [OF assms(2)] Let_def ck_bind_simps l by simp
  then show ?thesis using assms(1) sha_md_size [OF assms(2)] by (simp add: check_pss_params_def)
qed

theorem pss_salt_length_wraps_witness:
  "check_pss_params CKM_RSA_PKCS_PSS True \<lparr>hashAlg = CKM_SHA512, pss_mgf = CKG_MGF1_SHA512, sLen = - 66\<rparr> 65 = ck_ok ()
    \<and> emsa_pss_encode (\<lambda>md bs. None) [] [] \<lparr>hashAlg = CKM_SHA512, pss_mgf = CKG_MGF1_SHA512, sLen = - 66\<rparr> (replicate 64 0) 65 = None"
  using pss_salt_length_wraps [of "\<lparr>hashAlg = CKM_SHA512, pss_mgf = CKG_MGF1_SHA512, sLen = - 66\<rparr>" EVP_sha512 "replicate 64 0" "[]"]
  by (simp add: get_mgf_mech_def sha_md_def)

end
