(* ===== verification/Spec2Isabelle.thy ===== *)
theory Spec2Isabelle
  imports Btree_Table Ncmp_Conc Ncmp_Transport Ncmp_Mock_Facts Ncmp_Client Ber_Dss_Facts Ber_Ec_Facts
    Constant_Time Template_Store_Facts Key_Safety Rsa_Pss_Facts
begin

text \<open>
  A verification development of opencryptoki.

  \<^item> \<open>Btree\<close>, \<open>Btree_Shape\<close>, \<open>Btree_Table\<close>: \<^verbatim>\<open>usr/lib/common/btree.c\<close>.
\<close>

end
